(* ===== verification/Prelude.thy ===== *)
theory Prelude
  imports Complex_Main "HOL-Library.Word" "HOL-Library.AList" "HOL-Library.Sublist" "HOL-Library.Multiset"
begin

text \<open>
  The prelude of the development: Go maps as association lists with distinct keys, the
  64-bit wrap-around of \<open>time.Duration\<close> arithmetic, and the generic list and option lemmas
  that the component theories share.  A Go \<open>map\<close> is never iterated in a way that depends on
  its order, so an association list (whose order no property mentions) represents it; reading a
  key is \<^const>\<open>map_of\<close>, writing it is \<^const>\<open>AList.update\<close>, the builtin \<open>delete\<close> is
  \<^const>\<open>AList.delete\<close>, and a loop that deletes the entries satisfying a test is
  \<open>mpurge\<close>.

  Instants (\<open>time.Time\<close>) are integers counting nanoseconds from Go's zero time, so
  \<open>t.IsZero()\<close> is \<open>t = 0\<close>; durations are integers counting nanoseconds.
\<close>

named_theorems gomap_simps "lookups after updates of Go maps"
named_theorems store_laws "laws of the sharded stores"

type_synonym ('k, 'v) gomap = "('k \<times> 'v) list"
type_synonym gotime = int
type_synonym duration = int

section \<open>Definitions\<close>

definition wf_map :: "('k, 'v) gomap \<Rightarrow> bool" where
  "wf_map m \<longleftrightarrow> distinct (map fst m)"

definition mpurge :: "('k \<Rightarrow> 'v \<Rightarrow> bool) \<Rightarrow> ('k, 'v) gomap \<Rightarrow> ('k, 'v) gomap" where
  "mpurge P m = filter (\<lambda>(k, v). \<not> P k v) m"

definition mmapval :: "('v \<Rightarrow> 'w) \<Rightarrow> ('k, 'v) gomap \<Rightarrow> ('k, 'w) gomap" where
  "mmapval f m = map (\<lambda>(k, v). (k, f v)) m"

definition int64 :: "int \<Rightarrow> int" where
  "int64 x = sint (word_of_int x :: 64 word)"

definition nanosecond :: duration where "nanosecond = 1"
definition millisecond :: duration where "millisecond = 1000000"
definition second :: duration where "second = 1000000000"
definition minute :: duration where "minute = 60 * 1000000000"
definition hour :: duration where "hour = 3600 * 1000000000"

definition zero_time :: gotime where "zero_time = 0"

section \<open>Go maps\<close>

lemma map_of_update [gomap_simps, simp]: "map_of (AList.update k v m) = (map_of m)(k \<mapsto> v)"
  by (rule AList.update_conv')

lemma map_of_delete [gomap_simps, simp]: "map_of (AList.delete k m) = (map_of m)(k := None)"
  by (rule AList.delete_conv')

lemma wf_map_Nil [simp]: "wf_map []"
  by (simp add: wf_map_def)

lemma wf_map_update [simp, intro]: "wf_map m \<Longrightarrow> wf_map (AList.update k v m)"
  by (simp add: wf_map_def AList.distinct_update)

lemma wf_map_delete [simp, intro]: "wf_map m \<Longrightarrow> wf_map (AList.delete k m)"
  by (simp add: wf_map_def AList.distinct_delete)

lemma fst_mpurge: "set (map fst (mpurge P m)) \<subseteq> set (map fst m)"
  by (auto simp: mpurge_def)

lemma wf_map_mpurge [simp, intro]: "wf_map m \<Longrightarrow> wf_map (mpurge P m)"
  by (induction m) (auto simp: wf_map_def mpurge_def)

lemma map_of_mpurge [gomap_simps]:
  "wf_map m \<Longrightarrow>
   map_of (mpurge P m) k = (case map_of m k of None \<Rightarrow> None | Some v \<Rightarrow> if P k v then None else Some v)"
proof (induction m)
  case Nil
  then show ?case by (simp add: mpurge_def)
next
  case (Cons kv m)
  obtain k' v' where kv: "kv = (k', v')" by (cases kv)
  have fresh: "k' \<notin> fst ` set m" and wf: "wf_map m"
    using Cons.prems kv by (auto simp: wf_map_def)
  have "map_of (mpurge P m) k' = None"
    using fresh by (auto simp: map_of_eq_None_iff mpurge_def)
  then show ?case
    using Cons.IH [OF wf] kv by (auto simp: mpurge_def split: option.splits)
qed

lemma wf_map_mmapval [simp]: "wf_map (mmapval f m) = wf_map m"
  by (simp add: wf_map_def mmapval_def comp_def case_prod_beta)

lemma map_of_mmapval [gomap_simps]: "map_of (mmapval f m) k = map_option f (map_of m k)"
  by (induction m) (auto simp: mmapval_def)

lemma length_mmapval [simp]: "length (mmapval f m) = length m"
  by (simp add: mmapval_def)

lemma length_update: "length (AList.update k v m) = (if k \<in> fst ` set m then length m else Suc (length m))"
  by (induction m) auto

lemma wf_map_length: "wf_map m \<Longrightarrow> length m = card (dom (map_of m))"
proof -
  assume "wf_map m"
  then have "card (set (map fst m)) = length (map fst m)"
    by (simp only: wf_map_def distinct_card)
  then show ?thesis by (simp add: dom_map_of_conv_image_fst)
qed

section \<open>Durations\<close>

lemma int64_bounds: "- (2 ^ 63) \<le> int64 x" "int64 x < 2 ^ 63"
  using sint_greater_eq [of "word_of_int x :: 64 word"] sint_less [of "word_of_int x :: 64 word"]
  by (simp_all add: int64_def)

lemma int64_id: "- (2 ^ 63) \<le> x \<Longrightarrow> x < 2 ^ 63 \<Longrightarrow> int64 x = x"
  by (simp add: int64_def int_word_sint)

lemmas duration_defs = nanosecond_def millisecond_def second_def minute_def hour_def

end
