(* ===== verification/GoStrings.thy ===== *)
theory GoStrings
  imports Prelude
begin

text \<open>
  The parts of Go's \<open>strings\<close>, \<open>strconv\<close> and \<open>bytes\<close> packages that the program uses, on byte
  strings (\<^typ>\<open>string\<close>, one \<^typ>\<open>char\<close> per byte).  \<open>ToLower\<close>, \<open>TrimSpace\<close> and
  \<open>EqualFold\<close> are given on ASCII: a byte of \<open>0x80\<close> or more is neither a space nor a letter,
  so on non-ASCII input they stand for the ASCII part of what Go does (which also replaces
  bytes that are not UTF-8 by the replacement character).  Integers are
  printed and parsed in base 10 with the 64-bit range checks of \<open>strconv\<close>.
\<close>

section \<open>Definitions\<close>

abbreviation byte_of :: "char \<Rightarrow> nat" where
  "byte_of c \<equiv> of_char c"

definition is_upper :: "char \<Rightarrow> bool" where
  "is_upper c \<longleftrightarrow> 65 \<le> byte_of c \<and> byte_of c \<le> 90"

definition is_lower :: "char \<Rightarrow> bool" where
  "is_lower c \<longleftrightarrow> 97 \<le> byte_of c \<and> byte_of c \<le> 122"

definition is_digit :: "char \<Rightarrow> bool" where
  "is_digit c \<longleftrightarrow> 48 \<le> byte_of c \<and> byte_of c \<le> 57"

definition is_ascii :: "char \<Rightarrow> bool" where
  "is_ascii c \<longleftrightarrow> byte_of c < 128"

definition lower_char :: "char \<Rightarrow> char" where
  "lower_char c = (if is_upper c then char_of (byte_of c + 32) else c)"

definition upper_char :: "char \<Rightarrow> char" where
  "upper_char c = (if is_lower c then char_of (byte_of c - 32) else c)"

definition is_space :: "char \<Rightarrow> bool" where
  "is_space c \<longleftrightarrow> byte_of c \<in> {9, 10, 11, 12, 13, 32}"

definition ToLower :: "string \<Rightarrow> string" where
  "ToLower s = map lower_char s"

definition TrimFunc :: "(char \<Rightarrow> bool) \<Rightarrow> string \<Rightarrow> string" where
  "TrimFunc P s = rev (dropWhile P (rev (dropWhile P s)))"

definition TrimSpace :: "string \<Rightarrow> string" where
  "TrimSpace s = TrimFunc is_space s"

definition EqualFold :: "string \<Rightarrow> string \<Rightarrow> bool" where
  "EqualFold a b \<longleftrightarrow> ToLower a = ToLower b"

definition HasPrefix :: "string \<Rightarrow> string \<Rightarrow> bool" where
  "HasPrefix s p \<longleftrightarrow> take (length p) s = p"

definition HasSuffix :: "string \<Rightarrow> string \<Rightarrow> bool" where
  "HasSuffix s p \<longleftrightarrow> HasPrefix (rev s) (rev p)"

definition TrimSuffix :: "string \<Rightarrow> string \<Rightarrow> string" where
  "TrimSuffix s p = (if HasSuffix s p then take (length s - length p) s else s)"

fun Contains :: "string \<Rightarrow> string \<Rightarrow> bool" where
  "Contains [] sub = (sub = [])"
| "Contains (c # s) sub = (HasPrefix (c # s) sub \<or> Contains s sub)"

fun IndexByte :: "string \<Rightarrow> char \<Rightarrow> nat option" where
  "IndexByte [] x = None"
| "IndexByte (c # s) x = (if c = x then Some 0 else map_option Suc (IndexByte s x))"

definition LastIndexByte :: "string \<Rightarrow> char \<Rightarrow> nat option" where
  "LastIndexByte s x = map_option (\<lambda>i. length s - 1 - i) (IndexByte (rev s) x)"

fun Index :: "string \<Rightarrow> string \<Rightarrow> nat option" where
  "Index [] sub = (if sub = [] then Some 0 else None)"
| "Index (c # s) sub = (if HasPrefix (c # s) sub then Some 0 else map_option Suc (Index s sub))"

definition CountByte :: "string \<Rightarrow> char \<Rightarrow> nat" where
  "CountByte s x = length (filter (\<lambda>c. c = x) s)"

fun Split :: "char \<Rightarrow> string \<Rightarrow> string list" where
  "Split sep [] = [[]]"
| "Split sep (c # s) =
     (if c = sep then [] # Split sep s
      else (case Split sep s of [] \<Rightarrow> [[c]] | p # ps \<Rightarrow> (c # p) # ps))"

definition Cut :: "string \<Rightarrow> char \<Rightarrow> (string \<times> string) option" where
  "Cut s x = (case IndexByte s x of None \<Rightarrow> None | Some i \<Rightarrow> Some (take i s, drop (Suc i) s))"

definition digit_char :: "nat \<Rightarrow> char" where
  "digit_char d = char_of (48 + d)"

definition digit_val :: "char \<Rightarrow> nat" where
  "digit_val c = byte_of c - 48"

fun nat_dec :: "nat \<Rightarrow> string" where
  "nat_dec n = (if n < 10 then [digit_char n] else nat_dec (n div 10) @ [digit_char (n mod 10)])"

declare nat_dec.simps [simp del]

fun dec_acc :: "nat \<Rightarrow> string \<Rightarrow> nat option" where
  "dec_acc a [] = Some a"
| "dec_acc a (c # s) = (if is_digit c then dec_acc (10 * a + digit_val c) s else None)"

definition dec_nat :: "string \<Rightarrow> nat option" where
  "dec_nat s = (if s = [] then None else dec_acc 0 s)"

definition FormatInt :: "int \<Rightarrow> string" where
  "FormatInt n = (if n < 0 then CHR ''-'' # nat_dec (nat (- n)) else nat_dec (nat n))"

definition FormatUint :: "nat \<Rightarrow> string" where
  "FormatUint n = nat_dec n"

definition ParseUint :: "string \<Rightarrow> nat option" where
  "ParseUint s = (case dec_nat s of None \<Rightarrow> None | Some n \<Rightarrow> if n < 2 ^ 64 then Some n else None)"

definition ParseInt :: "string \<Rightarrow> int option" where
  "ParseInt s =
     (let (neg, body) = (case s of [] \<Rightarrow> (False, [])
                         | c # t \<Rightarrow> if c = CHR ''-'' then (True, t)
                                    else if c = CHR ''+'' then (False, t) else (False, c # t))
      in case dec_nat body of
           None \<Rightarrow> None
         | Some n \<Rightarrow> if neg then (if n \<le> 2 ^ 63 then Some (- int n) else None)
                     else if n < 2 ^ 63 then Some (int n) else None)"

definition hex_digit :: "nat \<Rightarrow> char" where
  "hex_digit d = (if d < 10 then char_of (48 + d) else char_of (87 + d))"

definition hex_encode :: "string \<Rightarrow> string" where
  "hex_encode s = concat (map (\<lambda>c. [hex_digit (byte_of c div 16), hex_digit (byte_of c mod 16)]) s)"

section \<open>Case folding and trimming\<close>

lemma byte_of_less [simp]: "byte_of c < 256"
  using nat_of_char_less_256 by simp

lemma byte_of_char_of [simp]: "n < 256 \<Longrightarrow> byte_of (char_of n) = n"
  by (simp add: of_char_of)

lemma byte_of_lower: "is_upper c \<Longrightarrow> byte_of (lower_char c) = byte_of c + 32"
  by (simp add: lower_char_def is_upper_def)

lemma lower_char_idem [simp]: "lower_char (lower_char c) = lower_char c"
  by (cases "is_upper c") (auto simp: lower_char_def is_upper_def)

lemma lower_char_not_upper: "\<not> is_upper (lower_char c)"
  by (cases "is_upper c") (auto simp: lower_char_def is_upper_def)

lemma lower_char_id [simp]: "\<not> is_upper c \<Longrightarrow> lower_char c = c"
  by (simp add: lower_char_def)

lemma is_ascii_lower [simp]: "is_ascii (lower_char c) = is_ascii c"
  by (cases "is_upper c") (auto simp: is_ascii_def lower_char_def is_upper_def)

lemma ToLower_idem [simp]: "ToLower (ToLower s) = ToLower s"
  by (simp add: ToLower_def)

lemma length_ToLower [simp]: "length (ToLower s) = length s"
  by (simp add: ToLower_def)

lemma ToLower_Nil_iff [simp]: "ToLower s = [] \<longleftrightarrow> s = []"
  by (simp add: ToLower_def)

lemma ToLower_append: "ToLower (a @ b) = ToLower a @ ToLower b"
  by (simp add: ToLower_def)

lemma ToLower_Cons: "ToLower (c # s) = lower_char c # ToLower s"
  by (simp add: ToLower_def)

lemma TrimFunc_decompose:
  obtains a b where "s = a @ TrimFunc P s @ b" "\<forall>c \<in> set a. P c" "\<forall>c \<in> set b. P c"
proof -
  let ?m = "dropWhile P s"
  have "s = takeWhile P s @ ?m" by simp
  moreover have "?m = TrimFunc P s @ rev (takeWhile P (rev ?m))"
    unfolding TrimFunc_def
    by (metis rev_append rev_rev_ident takeWhile_dropWhile_id)
  ultimately have "s = takeWhile P s @ TrimFunc P s @ rev (takeWhile P (rev ?m))" by simp
  then show ?thesis by (rule that) (auto dest: set_takeWhileD)
qed

lemma TrimFunc_id:
  "TrimFunc P s = s" if "s = [] \<or> (\<not> P (hd s) \<and> \<not> P (last s))"
proof (cases "s = []")
  case False
  with that have "dropWhile P s = s" "dropWhile P (rev s) = rev s"
    by (auto simp: dropWhile_eq_self_iff hd_rev)
  then show ?thesis by (simp add: TrimFunc_def)
qed (simp add: TrimFunc_def)

lemma HasPrefix_iff: "HasPrefix s p \<longleftrightarrow> prefix p s"
  unfolding HasPrefix_def prefix_def by (metis append_eq_conv_conj append_take_drop_id)

lemma Contains_iff: "Contains s sub \<longleftrightarrow> sublist sub s"
  by (induction s) (auto simp: HasPrefix_iff sublist_Cons_right)

lemma HasSuffix_iff: "HasSuffix s p \<longleftrightarrow> suffix p s"
  by (simp add: HasSuffix_def HasPrefix_iff suffix_to_prefix)

section \<open>Index, split and join\<close>

lemma IndexByte_None_iff [simp]: "IndexByte s x = None \<longleftrightarrow> x \<notin> set s"
  by (induction s) auto

lemma IndexByte_SomeD:
  "IndexByte s x = Some i \<Longrightarrow> i < length s \<and> s ! i = x \<and> x \<notin> set (take i s)"
  by (induction s arbitrary: i) (auto split: if_splits)

lemma IndexByte_append: "x \<notin> set a \<Longrightarrow> IndexByte (a @ x # b) x = Some (length a)"
  by (induction a) auto

lemma Cut_append: "x \<notin> set a \<Longrightarrow> Cut (a @ x # b) x = Some (a, b)"
  by (simp add: Cut_def IndexByte_append)

lemma Split_not_Nil [simp]: "Split sep s \<noteq> []"
  by (induction s) (auto split: list.splits)

lemma Split_no_sep: "sep \<notin> set s \<Longrightarrow> Split sep s = [s]"
  by (induction s) auto

lemma Split_append: "sep \<notin> set a \<Longrightarrow> Split sep (a @ sep # b) = a # Split sep b"
  by (induction a) auto

lemma Split_parts_no_sep: "p \<in> set (Split sep s) \<Longrightarrow> sep \<notin> set p"
  by (induction s arbitrary: p) (auto split: if_splits list.splits)

fun join :: "char \<Rightarrow> string list \<Rightarrow> string" where
  "join sep [] = []"
| "join sep [p] = p"
| "join sep (p # q # ps) = p @ sep # join sep (q # ps)"

lemma join_Split: "join sep (Split sep s) = s"
proof (induction s)
  case (Cons c s)
  then show ?case
    by (cases "Split sep s"; cases "tl (Split sep s)") (auto split: list.splits)
qed simp

lemma Split_join: "ps \<noteq> [] \<Longrightarrow> \<forall>p \<in> set ps. sep \<notin> set p \<Longrightarrow> Split sep (join sep ps) = ps"
  by (induction ps rule: join.induct) (simp_all add: Split_no_sep Split_append)

lemma CountByte_0: "CountByte s x = 0 \<longleftrightarrow> x \<notin> set s"
  by (auto simp: CountByte_def filter_empty_conv)

lemma CountByte_join:
  "ps \<noteq> [] \<Longrightarrow> CountByte (join sep ps) sep = length ps - 1 + (\<Sum>p \<leftarrow> ps. CountByte p sep)"
  by (induction ps rule: join.induct) (simp_all add: CountByte_def)

text \<open>Fields without separators are determined by their joined text, whatever the other fields hold.\<close>

lemma join_inj:
  assumes "join sep ps = join sep qs" "length ps = length qs" "ps \<noteq> []" "\<forall>p \<in> set ps. sep \<notin> set p"
  shows "ps = qs"
proof -
  have qs: "qs \<noteq> []"
    using assms(2,3) by auto
  have "(\<Sum>p \<leftarrow> ps. CountByte p sep) = 0"
    using assms(4) by (simp add: CountByte_0)
  then have "(\<Sum>q \<leftarrow> qs. CountByte q sep) = 0"
    using CountByte_join [OF assms(3), of sep] CountByte_join [OF qs, of sep] assms(1,2) by simp
  then have "\<forall>q \<in> set qs. sep \<notin> set q"
    by (simp add: CountByte_0)
  then show ?thesis
    using Split_join [OF assms(3,4)] Split_join [OF qs] assms(1) by metis
qed

lemma Split_inj: "Split sep s = Split sep t \<Longrightarrow> s = t"
  by (metis join_Split)

lemma LastIndexByte_None: "LastIndexByte s x = None \<longleftrightarrow> x \<notin> set s"
  by (simp add: LastIndexByte_def)

lemma LastIndexByte_Some:
  assumes "LastIndexByte s x = Some j"
  shows "j < length s" "s = take j s @ x # drop (Suc j) s" "x \<notin> set (drop (Suc j) s)"
proof -
  obtain i where i: "IndexByte (rev s) x = Some i" "j = length s - 1 - i"
    using assms by (auto simp: LastIndexByte_def)
  have r: "i < length s" "rev s ! i = x" "x \<notin> set (take i (rev s))" using IndexByte_SomeD [OF i(1)] by auto
  show j: "j < length s" using i r by auto
  have "s ! j = x" using r i by (simp add: rev_nth)
  then show "s = take j s @ x # drop (Suc j) s" using j by (metis id_take_nth_drop)
  have "take i (rev s) = rev (drop (Suc j) s)" using r(1) i(2) by (simp add: take_rev Suc_diff_Suc)
  then show "x \<notin> set (drop (Suc j) s)" using r(3) by simp
qed

lemma Split_snoc: "sep \<notin> set b \<Longrightarrow> Split sep (a @ sep # b) = Split sep a @ [b]"
proof (induction a)
  case (Cons c a)
  then show ?case by (cases "Split sep a") auto
qed (simp add: Split_no_sep)

section \<open>Decimal numbers\<close>

lemma byte_digit_char: "d < 10 \<Longrightarrow> byte_of (digit_char d) = 48 + d"
  by (simp add: digit_char_def)

lemma digit_char_facts [simp]:
  "d < 10 \<Longrightarrow> is_digit (digit_char d)" "d < 10 \<Longrightarrow> digit_val (digit_char d) = d"
  by (auto simp: is_digit_def digit_val_def byte_digit_char)

lemma dec_acc_append: "dec_acc a (s @ t) = Option.bind (dec_acc a s) (\<lambda>b. dec_acc b t)"
  by (induction s arbitrary: a) auto

lemma nat_dec_not_Nil [simp]: "nat_dec n \<noteq> []"
  by (subst nat_dec.simps) simp

lemma nat_dec_digits: "\<forall>c \<in> set (nat_dec n). is_digit c"
proof (induction n rule: nat_dec.induct)
  case (1 n)
  then show ?case by (subst nat_dec.simps) auto
qed

lemma dec_acc_nat_dec: "dec_acc 0 (nat_dec n) = Some n"
proof (induction n rule: nat_dec.induct)
  case (1 n)
  then show ?case by (subst nat_dec.simps) (auto simp: dec_acc_append)
qed

lemma dec_nat_nat_dec [simp]: "dec_nat (nat_dec n) = Some n"
  by (simp add: dec_nat_def dec_acc_nat_dec)

lemma ParseUint_FormatUint [simp]: "n < 2 ^ 64 \<Longrightarrow> ParseUint (FormatUint n) = Some n"
  by (simp add: ParseUint_def FormatUint_def)

lemma not_digit_sign [simp]: "\<not> is_digit CHR ''-''" "\<not> is_digit CHR ''+''"
  by (code_simp)+

lemma nat_dec_hd_sign: "nat_dec n \<noteq> CHR ''-'' # t" "nat_dec n \<noteq> CHR ''+'' # t"
  using nat_dec_digits [of n] by (metis list.set_intros(1) not_digit_sign)+

lemma ParseInt_FormatInt [simp]:
  assumes "- (2 ^ 63) \<le> n" "n < 2 ^ 63"
  shows "ParseInt (FormatInt n) = Some n"
proof (cases "n < 0")
  case True
  then show ?thesis using assms by (simp add: ParseInt_def FormatInt_def)
next
  case False
  have "(case nat_dec (nat n) of [] \<Rightarrow> (False, [])
      | c # t \<Rightarrow> if c = CHR ''-'' then (True, t)
                 else if c = CHR ''+'' then (False, t) else (False, c # t)) = (False, nat_dec (nat n))"
    using nat_dec_hd_sign [of "nat n"] by (auto split: list.splits)
  then show ?thesis using False assms by (simp add: ParseInt_def FormatInt_def)
qed

lemma FormatInt_chars: "c \<in> set (FormatInt n) \<Longrightarrow> is_digit c \<or> c = CHR ''-''"
  using nat_dec_digits by (auto simp: FormatInt_def split: if_splits)

lemma nat_dec_inj: "nat_dec a = nat_dec b \<Longrightarrow> a = b"
  by (metis dec_nat_nat_dec option.inject)

lemma FormatInt_inj: "FormatInt m = FormatInt n \<Longrightarrow> m = n"
  using nat_dec_hd_sign(1) nat_dec_hd_sign(1) [symmetric]
  by (cases "m < 0"; cases "n < 0") (auto simp: FormatInt_def dest!: nat_dec_inj)

lemma FormatUint_inj: "FormatUint m = FormatUint n \<Longrightarrow> m = n"
  by (auto simp: FormatUint_def dest: nat_dec_inj)

lemma length_hex_encode [simp]: "length (hex_encode s) = 2 * length s"
  by (induction s) (auto simp: hex_encode_def)

lemma ToLower_sublist: "sublist a b \<Longrightarrow> sublist (ToLower a) (ToLower b)"
  unfolding ToLower_def by (rule map_mono_sublist)

end
