(* ===== verification/Requestlog.thy ===== *)
theory Requestlog
  imports GoStrings
begin

text \<open>
  \<open>internal/requestlog\<close>: the log of WAF outcomes.  The hot index is a map from request IDs to events with a ring
  of IDs in order of arrival; it is shown to implement a bounded first-in first-out list of events.  The durable store behind
  it is a list of the events it was given, and a lookup function.
\<close>

section \<open>Definitions\<close>

definition ActionBlock :: string where "ActionBlock = ''block''"
definition ActionChallenge :: string where "ActionChallenge = ''challenge''"
definition ActionRateLimit :: string where "ActionRateLimit = ''ratelimit''"
definition ActionCoraza :: string where "ActionCoraza = ''coraza''"
definition ActionOpenAPI :: string where "ActionOpenAPI = ''openapi''"
definition ActionAccess :: string where "ActionAccess = ''access''"
definition ActionSemantic :: string where "ActionSemantic = ''semantic''"
definition ActionML :: string where "ActionML = ''ml''"
definition ActionPayment :: string where "ActionPayment = ''payment''"

record Event =
  evt_RequestID :: string
  evt_Action :: string
  evt_Reason :: string
  evt_Method :: string
  evt_Path :: string
  evt_Host :: string
  evt_UA :: string
  evt_IPHash :: string
  evt_BindID :: string
  evt_Score :: int
  evt_Details :: "(string, string) gomap"
  evt_CreatedAt :: gotime

record Counters =
  ct_Challenges :: "64 word"
  ct_Blocks :: "64 word"
  ct_RateLimits :: "64 word"
  ct_Coraza :: "64 word"
  ct_Access :: "64 word"
  ct_OpenAPI :: "64 word"
  ct_Semantic :: "64 word"
  ct_ML :: "64 word"

definition zero_Counters :: Counters where
  "zero_Counters = \<lparr> ct_Challenges = 0, ct_Blocks = 0, ct_RateLimits = 0, ct_Coraza = 0, ct_Access = 0, ct_OpenAPI = 0, ct_Semantic = 0, ct_ML = 0 \<rparr>"

definition Counters_Sum :: "Counters \<Rightarrow> 64 word" where
  "Counters_Sum c = ct_Challenges c + ct_Blocks c + ct_RateLimits c + ct_Coraza c + ct_Access c + ct_OpenAPI c + ct_Semantic c + ct_ML c"

record Logger =
  lo_byID :: "(string, Event) gomap"
  lo_order :: "string list"
  lo_head :: nat
  lo_len :: nat
  lo_maxHot :: nat
  lo_persist :: "Event list option"
  lo_total :: Counters
  lo_interval :: Counters

definition Logger_New :: "int \<Rightarrow> Logger" where
  "Logger_New hotCapacity =
     (let n = nat (if hotCapacity < 1 then 2000 else hotCapacity)
      in \<lparr> lo_byID = [], lo_order = replicate n [], lo_head = 0, lo_len = 0, lo_maxHot = n, lo_persist = None,
           lo_total = zero_Counters, lo_interval = zero_Counters \<rparr>)"

definition SetPersister :: "Logger option \<Rightarrow> Event list option \<Rightarrow> Logger option" where
  "SetPersister lo p = map_option (\<lambda>l. l\<lparr> lo_persist := p \<rparr>) lo"

definition bump_counter :: "string \<Rightarrow> Counters \<Rightarrow> Counters" where
  "bump_counter action c =
     (if action = ActionChallenge then c\<lparr> ct_Challenges := ct_Challenges c + 1 \<rparr>
      else if action = ActionBlock then c\<lparr> ct_Blocks := ct_Blocks c + 1 \<rparr>
      else if action = ActionRateLimit then c\<lparr> ct_RateLimits := ct_RateLimits c + 1 \<rparr>
      else if action = ActionCoraza then c\<lparr> ct_Coraza := ct_Coraza c + 1 \<rparr>
      else if action = ActionAccess then c\<lparr> ct_Access := ct_Access c + 1 \<rparr>
      else if action = ActionOpenAPI then c\<lparr> ct_OpenAPI := ct_OpenAPI c + 1 \<rparr>
      else if action = ActionSemantic then c\<lparr> ct_Semantic := ct_Semantic c + 1 \<rparr>
      else if action = ActionML then c\<lparr> ct_ML := ct_ML c + 1 \<rparr>
      else c)"

definition Logger_bump :: "Logger \<Rightarrow> string \<Rightarrow> Logger" where
  "Logger_bump l action = l\<lparr> lo_total := bump_counter action (lo_total l), lo_interval := bump_counter action (lo_interval l) \<rparr>"

definition bind_conflict :: "(string, Event) gomap \<Rightarrow> Event \<Rightarrow> bool" where
  "bind_conflict m e =
     (case map_of m (evt_RequestID e) of
        None \<Rightarrow> False
      | Some prev \<Rightarrow> evt_BindID prev \<noteq> [] \<and> evt_BindID e \<noteq> [] \<and> evt_BindID prev \<noteq> evt_BindID e)"

definition hot_insert :: "Logger \<Rightarrow> string \<Rightarrow> Logger" where
  "hot_insert l i =
     (if lo_len l \<ge> lo_maxHot l then
        l\<lparr> lo_byID := AList.delete (lo_order l ! lo_head l) (lo_byID l),
           lo_order := (lo_order l)[lo_head l := i],
           lo_head := (lo_head l + 1) mod lo_maxHot l \<rparr>
      else l\<lparr> lo_order := (lo_order l)[(lo_head l + lo_len l) mod lo_maxHot l := i], lo_len := lo_len l + 1 \<rparr>)"

definition Logger_Record :: "Logger option \<Rightarrow> Event \<Rightarrow> gotime \<Rightarrow> Logger option" where
  "Logger_Record lo e0 now =
     (case lo of
        None \<Rightarrow> None
      | Some l \<Rightarrow>
          if evt_RequestID e0 = [] then Some l
          else
            let e = (if evt_CreatedAt e0 = 0 then e0\<lparr> evt_CreatedAt := now \<rparr> else e0) in
            if bind_conflict (lo_byID l) e then Some l
            else
              let l = (if map_of (lo_byID l) (evt_RequestID e) = None then hot_insert l (evt_RequestID e) else l);
                  l = l\<lparr> lo_byID := AList.update (evt_RequestID e) e (lo_byID l) \<rparr>;
                  l = Logger_bump l (evt_Action e)
              in Some (l\<lparr> lo_persist := map_option (\<lambda>p. p @ [e]) (lo_persist l) \<rparr>))"

definition Logger_Totals :: "Logger option \<Rightarrow> Counters" where
  "Logger_Totals lo = (case lo of None \<Rightarrow> zero_Counters | Some l \<Rightarrow> lo_total l)"

definition TakeInterval :: "Logger option \<Rightarrow> Counters \<times> Logger option" where
  "TakeInterval lo =
     (case lo of None \<Rightarrow> (zero_Counters, None) | Some l \<Rightarrow> (lo_interval l, Some (l\<lparr> lo_interval := zero_Counters \<rparr>)))"

definition Logger_GetByID :: "(Event list \<Rightarrow> string \<Rightarrow> Event option) \<Rightarrow> Logger option \<Rightarrow> string \<Rightarrow> Event option" where
  "Logger_GetByID db lo reqID =
     (case lo of
        None \<Rightarrow> None
      | Some l \<Rightarrow>
          if reqID = [] then None
          else case map_of (lo_byID l) reqID of
                 Some e \<Rightarrow> Some e
               | None \<Rightarrow> (case lo_persist l of None \<Rightarrow> None | Some p \<Rightarrow> db p reqID))"

text \<open>\<open>k\<close> is the number of entries the loop has not looked at yet, so its index is \<open>len - Suc k\<close>.\<close>

fun recent_loop :: "Logger \<Rightarrow> nat \<Rightarrow> Event list \<Rightarrow> nat \<Rightarrow> Event list" where
  "recent_loop l 0 out mx = out"
| "recent_loop l (Suc k) out mx =
     (if \<not> length out < mx then out
      else let i = lo_len l - Suc k; reqID = lo_order l ! ((lo_head l + lo_len l - 1 - i) mod lo_maxHot l)
           in recent_loop l k (case map_of (lo_byID l) reqID of Some e \<Rightarrow> out @ [e] | None \<Rightarrow> out) mx)"

definition Logger_Recent :: "Logger option \<Rightarrow> int \<Rightarrow> Event list" where
  "Logger_Recent lo limit0 =
     (case lo of
        None \<Rightarrow> []
      | Some l \<Rightarrow>
          let limit = (if limit0 \<le> 0 then 50 else limit0) in
          if lo_len l = 0 then [] else recent_loop l (lo_len l) [] (nat limit))"

text \<open>\<open>None\<close> from the durable store is an error.\<close>

definition RecentPreferDB :: "(Event list \<Rightarrow> int \<Rightarrow> Event list option) \<Rightarrow> Logger option \<Rightarrow> int \<Rightarrow> Event list" where
  "RecentPreferDB db lo limit =
     (case lo of
        None \<Rightarrow> []
      | Some l \<Rightarrow>
          (case lo_persist l of
             None \<Rightarrow> Logger_Recent lo limit
           | Some p \<Rightarrow>
               (case db p limit of
                  Some rows \<Rightarrow> if length rows > 0 then rows else Logger_Recent lo limit
                | None \<Rightarrow> Logger_Recent lo limit)))"

definition PurgeOlderThan :: "Logger option \<Rightarrow> gotime \<Rightarrow> Logger option" where
  "PurgeOlderThan lo cutoff =
     map_option (\<lambda>l. l\<lparr> lo_persist := map_option (filter (\<lambda>e. \<not> evt_CreatedAt e < cutoff)) (lo_persist l) \<rparr>) lo"

section \<open>The ring as a list\<close>

definition slot :: "Logger \<Rightarrow> nat \<Rightarrow> string" where
  "slot l i = lo_order l ! ((lo_head l + i) mod lo_maxHot l)"

definition hot_ids :: "Logger \<Rightarrow> string list" where
  "hot_ids l = map (slot l) [0..<lo_len l]"

definition hot_events :: "Logger \<Rightarrow> Event list" where
  "hot_events l = map (\<lambda>i. the (map_of (lo_byID l) i)) (hot_ids l)"

definition log_inv :: "Logger \<Rightarrow> bool" where
  "log_inv l \<longleftrightarrow> 0 < lo_maxHot l \<and> length (lo_order l) = lo_maxHot l \<and> lo_head l < lo_maxHot l \<and> lo_len l \<le> lo_maxHot l
     \<and> distinct (hot_ids l) \<and> dom (map_of (lo_byID l)) = set (hot_ids l)
     \<and> (\<forall>i e. map_of (lo_byID l) i = Some e \<longrightarrow> evt_RequestID e = i)"

text \<open>The abstract log: events oldest first, at most \<open>n\<close> of them.\<close>

definition fifo_record :: "nat \<Rightarrow> Event list \<Rightarrow> Event \<Rightarrow> Event list" where
  "fifo_record n es e =
     (case List.find (\<lambda>x. evt_RequestID x = evt_RequestID e) es of
        Some prev \<Rightarrow>
          if evt_BindID prev \<noteq> [] \<and> evt_BindID e \<noteq> [] \<and> evt_BindID prev \<noteq> evt_BindID e then es
          else map (\<lambda>x. if evt_RequestID x = evt_RequestID e then e else x) es
      | None \<Rightarrow> (if length es \<ge> n then tl es else es) @ [e])"

lemma mod_ring_inj: "(h + i) mod n = (h + j) mod (n::nat) \<Longrightarrow> i < n \<Longrightarrow> j < n \<Longrightarrow> i = j"
proof (induction i j rule: linorder_wlog)
  case (le i j)
  then have "n dvd (h + j) - (h + i)"
    using mod_eq_dvd_iff_nat [of "h + i" "h + j" n] by simp
  then show ?case
    using le by (auto dest: dvd_imp_le)
next
  case (sym i j)
  then show ?case by metis
qed

lemma ids_insert_free:
  assumes "log_inv l" "lo_len l < lo_maxHot l"
  shows "hot_ids (hot_insert l i) = hot_ids l @ [i]"
proof -
  let ?n = "lo_maxHot l" and ?h = "lo_head l" and ?k = "lo_len l"
  have "slot (hot_insert l i) j = slot l j" if "j < ?k" for j
    using assms that mod_ring_inj [of ?h j ?n ?k] by (auto simp: slot_def hot_insert_def log_inv_def nth_list_update)
  moreover have "slot (hot_insert l i) ?k = i"
    using assms by (simp add: slot_def hot_insert_def log_inv_def)
  ultimately show ?thesis
    using assms(2) by (simp add: hot_ids_def hot_insert_def)
qed

lemma ids_insert_full:
  assumes "log_inv l" "\<not> lo_len l < lo_maxHot l"
  shows "hot_ids (hot_insert l i) = tl (hot_ids l) @ [i]"
proof -
  let ?n = "lo_maxHot l" and ?h = "lo_head l"
  have n: "lo_len l = ?n" "0 < ?n" "?h < ?n" "length (lo_order l) = ?n"
    using assms by (auto simp: log_inv_def)
  have step: "(Suc ?h mod ?n + j) mod ?n = (?h + Suc j) mod ?n" for j
    by (simp add: mod_add_left_eq)
  have "slot (hot_insert l i) j = slot l (Suc j)" if "j < ?n - 1" for j
    using n that mod_ring_inj [of ?h 0 ?n "Suc j"] by (auto simp: slot_def hot_insert_def nth_list_update step less_diff_conv)
  moreover have "(Suc ?h mod ?n + (?n - 1)) mod ?n = ?h"
    using n(2,3) unfolding step by simp
  then have "slot (hot_insert l i) (?n - 1) = i"
    using n by (simp add: slot_def hot_insert_def)
  moreover have "[0..<?n] = [0..<?n - 1] @ [?n - 1]"
    using n(2) by (metis Suc_diff_1 upt_Suc_append zero_le)
  moreover have "tl (hot_ids l) = map (\<lambda>j. slot l (Suc j)) [0..<?n - 1]"
    using n by (intro nth_equalityI) (auto simp: hot_ids_def nth_tl less_diff_conv)
  moreover have "lo_len (hot_insert l i) = ?n"
    using n by (simp add: hot_insert_def)
  ultimately show ?thesis
    by (simp add: hot_ids_def)
qed

lemma hot_insert_byID:
  assumes "log_inv l"
  shows "map_of (lo_byID (hot_insert l i)) =
    (if lo_len l < lo_maxHot l then map_of (lo_byID l) else (map_of (lo_byID l))(hd (hot_ids l) := None))"
proof -
  have "hd (hot_ids l) = lo_order l ! lo_head l" if "\<not> lo_len l < lo_maxHot l"
    using assms that by (auto simp: log_inv_def hot_ids_def slot_def upt_conv_Cons)
  then show ?thesis
    by (simp add: hot_insert_def)
qed

lemma hot_insert_keep: "lo_maxHot (hot_insert l i) = lo_maxHot l" "length (lo_order (hot_insert l i)) = length (lo_order l)"
  "log_inv l \<Longrightarrow> lo_head (hot_insert l i) < lo_maxHot l" "log_inv l \<Longrightarrow> lo_len (hot_insert l i) \<le> lo_maxHot l"
  by (auto simp: hot_insert_def log_inv_def)

lemma ids_insert:
  "log_inv l \<Longrightarrow> hot_ids (hot_insert l i) = (if lo_len l < lo_maxHot l then hot_ids l else tl (hot_ids l)) @ [i]"
  by (simp add: ids_insert_free ids_insert_full)

definition put_event :: "Logger \<Rightarrow> Event \<Rightarrow> Logger" where
  "put_event l e = l\<lparr> lo_byID := AList.update (evt_RequestID e) e (lo_byID l) \<rparr>"

lemma ids_put [simp]: "hot_ids (put_event l e) = hot_ids l"
  by (simp add: hot_ids_def slot_def put_event_def)

lemma put_fields [simp]: "lo_maxHot (put_event l e) = lo_maxHot l" "lo_order (put_event l e) = lo_order l" "lo_head (put_event l e) = lo_head l"
  "lo_len (put_event l e) = lo_len l" "map_of (lo_byID (put_event l e)) = (map_of (lo_byID l))(evt_RequestID e \<mapsto> e)"
  by (simp_all add: put_event_def)

lemma dom_minus_hd: "distinct xs \<Longrightarrow> xs \<noteq> [] \<Longrightarrow> set xs - {hd xs} = set (tl xs)"
  by (cases xs) auto

lemma log_new_inv:
  assumes inv: "log_inv l" and new: "map_of (lo_byID l) (evt_RequestID e) = None"
  shows "log_inv (put_event (hot_insert l (evt_RequestID e)) e)"
proof -
  let ?i = "evt_RequestID e" and ?l = "hot_insert l (evt_RequestID e)"
  have d: "distinct (hot_ids l)" and dm: "dom (map_of (lo_byID l)) = set (hot_ids l)"
    using inv by (auto simp: log_inv_def)
  have i: "?i \<notin> set (hot_ids l)"
    using new dm by (auto simp: domIff)
  have ne: "hot_ids l \<noteq> []" if "\<not> lo_len l < lo_maxHot l"
    using inv that by (auto simp: log_inv_def hot_ids_def)
  have "distinct (hot_ids ?l)"
    using d i by (cases "hot_ids l") (auto simp: ids_insert [OF inv])
  moreover have "dom (map_of (lo_byID (put_event ?l e))) = set (hot_ids ?l)"
    using dm dom_minus_hd [OF d] ne
    by (auto simp: hot_insert_byID [OF inv] ids_insert [OF inv] simp del: map_of_eq_None_iff split: if_splits)
  ultimately show ?thesis
    using inv hot_insert_keep [of l ?i] hot_insert_byID [OF inv, of ?i]
    unfolding log_inv_def ids_put put_fields by (auto split: if_splits)
qed

lemma length_hot [simp]: "length (hot_ids l) = lo_len l" "length (hot_events l) = lo_len l"
  by (simp_all add: hot_events_def hot_ids_def)

lemma hot_known: "log_inv l \<Longrightarrow> i \<in> set (hot_ids l) \<Longrightarrow> \<exists>x. map_of (lo_byID l) i = Some x \<and> evt_RequestID x = i"
  unfolding log_inv_def by (metis domD)

lemma hot_key: "log_inv l \<Longrightarrow> i \<in> set (hot_ids l) \<Longrightarrow> evt_RequestID (the (map_of (lo_byID l) i)) = i"
  using hot_known [of l i] by auto

lemma log_new_events:
  assumes inv: "log_inv l" and new: "map_of (lo_byID l) (evt_RequestID e) = None"
  shows "hot_events (put_event (hot_insert l (evt_RequestID e)) e) =
    (if length (hot_events l) \<ge> lo_maxHot l then tl (hot_events l) else hot_events l) @ [e]"
proof -
  let ?i = "evt_RequestID e"
  have d: "distinct (hot_ids l)" and i: "?i \<notin> set (hot_ids l)"
    using inv new by (auto simp: log_inv_def domIff)
  show ?thesis
  proof (cases "lo_len l < lo_maxHot l")
    case True
    then show ?thesis
      using i by (auto simp: hot_events_def ids_insert [OF inv] hot_insert_byID [OF inv])
  next
    case False
    then have "lo_maxHot l \<le> length (hot_ids l)"
      by simp
    then show ?thesis
      using i d False by (cases "hot_ids l") (auto simp: hot_events_def ids_insert [OF inv] hot_insert_byID [OF inv] not_less)
  qed
qed

lemma log_replace:
  assumes inv: "log_inv l" and old: "map_of (lo_byID l) (evt_RequestID e) = Some prev"
  shows "log_inv (put_event l e)"
    and "hot_events (put_event l e) = map (\<lambda>x. if evt_RequestID x = evt_RequestID e then e else x) (hot_events l)"
proof -
  show "log_inv (put_event l e)"
    using inv old unfolding log_inv_def ids_put put_fields by (auto simp: insert_absorb domI)
  show "hot_events (put_event l e) = map (\<lambda>x. if evt_RequestID x = evt_RequestID e then e else x) (hot_events l)"
    unfolding hot_events_def ids_put put_fields map_map by (intro map_cong) (auto simp: hot_key [OF inv])
qed

lemma find_map_key:
  "(\<And>j. j \<in> set js \<Longrightarrow> key (f j) = j) \<Longrightarrow> List.find (\<lambda>x. key x = i) (map f js) = (if i \<in> set js then Some (f i) else None)"
  by (induction js) auto

lemma find_hot:
  assumes inv: "log_inv l"
  shows "List.find (\<lambda>x. evt_RequestID x = i) (hot_events l) = map_of (lo_byID l) i"
proof -
  have "List.find (\<lambda>x. evt_RequestID x = i) (hot_events l) = (if i \<in> set (hot_ids l) then Some (the (map_of (lo_byID l) i)) else None)"
    unfolding hot_events_def by (rule find_map_key) (rule hot_key [OF inv])
  moreover have "map_of (lo_byID l) i = None" if "i \<notin> set (hot_ids l)"
    using that inv unfolding log_inv_def by blast
  ultimately show ?thesis
    using hot_known [OF inv, of i] by (cases "i \<in> set (hot_ids l)") auto
qed

lemma recent_loop_eq:
  assumes inv: "log_inv l" and k: "k \<le> lo_len l"
  shows "length out \<le> mx \<Longrightarrow> recent_loop l k out mx = take mx (out @ rev (take k (hot_events l)))"
  using k
proof (induction k arbitrary: out)
  case (Suc k)
  have "lo_order l ! ((lo_head l + lo_len l - 1 - (lo_len l - Suc k)) mod lo_maxHot l) = hot_ids l ! k"
    using Suc.prems(2) by (simp add: hot_ids_def slot_def Suc_diff_Suc)
  moreover obtain x where x: "map_of (lo_byID l) (hot_ids l ! k) = Some x"
    using hot_known [OF inv, of "hot_ids l ! k"] Suc.prems(2) by auto
  moreover have "hot_events l ! k = x"
    using Suc.prems(2) x by (simp add: hot_events_def)
  ultimately show ?case
    using Suc by (auto simp: take_Suc_conv_app_nth take_Cons' Suc_diff_Suc)
qed simp

lemma Recent_eq: "log_inv l \<Longrightarrow> Logger_Recent (Some l) limit = take (nat (if limit \<le> 0 then 50 else limit)) (rev (hot_events l))"
  using recent_loop_eq [of l "lo_len l" "[]"] by (auto simp: Logger_Recent_def Let_def)

lemma log_inv_New: "log_inv (Logger_New n)" "hot_events (Logger_New n) = []"
  by (simp_all add: Logger_New_def log_inv_def hot_ids_def hot_events_def Let_def)

text \<open>The fields the invariant does not read.\<close>

lemma log_inv_frame:
  "log_inv (l\<lparr> lo_persist := p \<rparr>) = log_inv l" "hot_events (l\<lparr> lo_persist := p \<rparr>) = hot_events l"
  "log_inv (Logger_bump l a) = log_inv l" "hot_events (Logger_bump l a) = hot_events l"
  "lo_maxHot (l\<lparr> lo_persist := p \<rparr>) = lo_maxHot l" "lo_maxHot (Logger_bump l a) = lo_maxHot l"
  by (simp_all add: log_inv_def hot_ids_def hot_events_def slot_def [abs_def] Logger_bump_def)

definition stamped :: "Event \<Rightarrow> gotime \<Rightarrow> Event" where
  "stamped e now = (if evt_CreatedAt e = 0 then e\<lparr> evt_CreatedAt := now \<rparr> else e)"

lemma Record_eq:
  assumes "evt_RequestID e \<noteq> []"
  shows "Logger_Record (Some l) e now =
    (let e = stamped e now in
     if bind_conflict (lo_byID l) e then Some l
     else let l' = put_event (if map_of (lo_byID l) (evt_RequestID e) = None then hot_insert l (evt_RequestID e) else l) e
          in Some ((Logger_bump l' (evt_Action e))\<lparr> lo_persist := map_option (\<lambda>p. p @ [e]) (lo_persist (Logger_bump l' (evt_Action e))) \<rparr>))"
  using assms by (simp add: Logger_Record_def stamped_def put_event_def Let_def)

lemma Record_refines:
  assumes inv: "log_inv l" and i: "evt_RequestID e \<noteq> []" and r: "Logger_Record (Some l) e now = Some l'"
  shows "log_inv l'" "hot_events l' = fifo_record (lo_maxHot l) (hot_events l) (stamped e now)" "lo_maxHot l' = lo_maxHot l"
proof -
  let ?e = "stamped e now"
  have find: "List.find (\<lambda>x. evt_RequestID x = evt_RequestID ?e) (hot_events l) = map_of (lo_byID l) (evt_RequestID ?e)"
    by (rule find_hot [OF inv])
  show "log_inv l'" "hot_events l' = fifo_record (lo_maxHot l) (hot_events l) ?e" "lo_maxHot l' = lo_maxHot l"
    using r log_new_inv [OF inv, of ?e] log_new_events [OF inv, of ?e] log_replace [OF inv, of ?e] inv hot_insert_keep(1)
    by (cases "map_of (lo_byID l) (evt_RequestID ?e)";
        auto simp: Record_eq [OF i] Let_def fifo_record_def find bind_conflict_def log_inv_frame split: if_splits)+
qed

section \<open>Properties\<close>

definition record_events :: "Logger \<Rightarrow> (Event \<times> gotime) list \<Rightarrow> Logger" where
  "record_events l es = foldl (\<lambda>l (e, now). the (Logger_Record (Some l) e now)) l es"

lemma Record_Some: "\<exists>l'. Logger_Record (Some l) e now = Some l'"
  by (simp add: Logger_Record_def Let_def)

lemma record_events_refines:
  assumes "log_inv l" "\<forall>(e, now) \<in> set es. evt_RequestID e \<noteq> []"
  shows "log_inv (record_events l es) \<and> lo_maxHot (record_events l es) = lo_maxHot l
    \<and> hot_events (record_events l es) = foldl (\<lambda>h (e, now). fifo_record (lo_maxHot l) h (stamped e now)) (hot_events l) es"
  using assms
proof (induction es arbitrary: l)
  case (Cons p es)
  obtain e now where p: "p = (e, now)" by (cases p)
  obtain l' where l': "Logger_Record (Some l) e now = Some l'"
    using Record_Some by blast
  have i: "evt_RequestID e \<noteq> []" and rest: "\<forall>(e, now) \<in> set es. evt_RequestID e \<noteq> []"
    using Cons.prems p by auto
  note r = Record_refines [OF Cons.prems(1) i l']
  have "record_events l (p # es) = record_events l' es"
    by (simp add: record_events_def p l')
  then show ?case
    using Cons.IH [OF r(1) rest] r(2,3) by (simp add: p)
qed (simp add: record_events_def)

lemma persist_none: "lo_persist (record_events (Logger_New n) es) = None"
proof -
  have "lo_persist (record_events l es) = None" if "lo_persist l = None" for l
    using that
  proof (induction es arbitrary: l)
    case (Cons p es)
    have "lo_persist (the (Logger_Record (Some l) e now)) = None" for e now
      using Cons.prems by (simp add: Logger_Record_def Let_def Logger_bump_def hot_insert_def)
    then show ?case
      using Cons.IH by (simp add: record_events_def split: prod.splits)
  qed (simp add: record_events_def)
  then show ?thesis
    by (simp add: Logger_New_def Let_def)
qed

text \<open>C30: the ring buffer of the request log implements a bounded first-in first-out list: after any sequence of events the hot
  index holds what the abstract log holds (a known request ID is replaced in place and only by the same client, a new one
  drops the oldest when the log is full), lookups by ID search it, and the most recent events come newest first.\<close>

theorem request_log_is_fifo:
  assumes "\<forall>(e, now) \<in> set es. evt_RequestID e \<noteq> []"
  shows "let l = record_events (Logger_New n) es;
             cap = (if n < 1 then 2000 else nat n);
             h = foldl (\<lambda>h (e, now). fifo_record cap h (stamped e now)) [] es
         in hot_events l = h \<and> length h \<le> cap \<and> distinct (map evt_RequestID h)
          \<and> (i \<noteq> [] \<longrightarrow> Logger_GetByID db (Some l) i = List.find (\<lambda>e. evt_RequestID e = i) h)
          \<and> Logger_Recent (Some l) limit = take (nat (if limit \<le> 0 then 50 else limit)) (rev h)"
proof -
  let ?l = "record_events (Logger_New n) es"
  have cap: "lo_maxHot (Logger_New n) = (if n < 1 then 2000 else nat n)"
    by (simp add: Logger_New_def Let_def)
  have inv: "log_inv ?l" and ev: "hot_events ?l = foldl (\<lambda>h (e, now). fifo_record (lo_maxHot (Logger_New n)) h (stamped e now)) [] es"
    and mx: "lo_maxHot ?l = lo_maxHot (Logger_New n)"
    using record_events_refines [OF log_inv_New(1) assms, of n] by (simp_all add: log_inv_New)
  have "map evt_RequestID (hot_events ?l) = hot_ids ?l"
    by (auto simp: hot_events_def hot_key [OF inv] intro!: map_idI)
  moreover have "distinct (hot_ids ?l)" "length (hot_events ?l) \<le> lo_maxHot (Logger_New n)"
    using inv mx by (simp_all add: log_inv_def)
  moreover have "Logger_GetByID db (Some ?l) i = List.find (\<lambda>e. evt_RequestID e = i) (hot_events ?l)" if "i \<noteq> []"
    using that persist_none [of n es] by (simp add: Logger_GetByID_def find_hot [OF inv] split: option.splits)
  ultimately show ?thesis
    using Recent_eq [OF inv, of limit] unfolding Let_def ev [symmetric] cap [symmetric] by simp
qed

definition demo_event :: "string \<Rightarrow> string \<Rightarrow> Event" where
  "demo_event i b = \<lparr> evt_RequestID = i, evt_Action = ''block'', evt_Reason = [], evt_Method = [], evt_Path = [], evt_Host = [], evt_UA = [],
     evt_IPHash = [], evt_BindID = b, evt_Score = 0, evt_Details = [], evt_CreatedAt = 1 \<rparr>"

definition demo_events :: "(Event \<times> gotime) list" where
  "demo_events = [(demo_event ''a'' ''x'', 1), (demo_event ''b'' ''x'', 2), (demo_event ''a'' ''y'', 3), (demo_event ''c'' ''x'', 4)]"

theorem request_log_is_fifo_witness:
  "hot_events (record_events (Logger_New 2) demo_events) = [demo_event ''b'' ''x'', demo_event ''c'' ''x'']"
proof -
  have "\<forall>(e, now) \<in> set demo_events. evt_RequestID e \<noteq> []"
    by (simp add: demo_events_def demo_event_def)
  from request_log_is_fifo [OF this, of 2, unfolded Let_def, THEN conjunct1]
  have "hot_events (record_events (Logger_New 2) demo_events) = foldl (\<lambda>h (e, now). fifo_record 2 h (stamped e now)) [] demo_events"
    by simp
  also have "\<dots> = [demo_event ''b'' ''x'', demo_event ''c'' ''x'']"
    by (simp add: demo_events_def fifo_record_def stamped_def demo_event_def)
  finally show ?thesis .
qed

end
