(* ===== verification/GoEnc.thy ===== *)
theory GoEnc
  imports GoStrings
begin

text \<open>
  The parts of Go's \<open>encoding/hex\<close> and \<open>encoding/base64\<close> the program uses, on byte strings: the
  unpadded and padded encodings over an alphabet, with decoding that skips line breaks as Go's does, and the
  round trips.
\<close>

section \<open>Definitions\<close>

definition b64_std :: string where
  "b64_std = ''ABCDEFGHIJKLMNOPQRSTUVWXYZabcdefghijklmnopqrstuvwxyz0123456789+/''"

definition b64_url :: string where
  "b64_url = ''ABCDEFGHIJKLMNOPQRSTUVWXYZabcdefghijklmnopqrstuvwxyz0123456789-_''"

fun sextets :: "nat list \<Rightarrow> nat list" where
  "sextets (a # b # c # bs) = a div 4 # ((a mod 4) * 16 + b div 16) # ((b mod 16) * 4 + c div 64) # c mod 64 # sextets bs"
| "sextets [a, b] = [a div 4, (a mod 4) * 16 + b div 16, (b mod 16) * 4]"
| "sextets [a] = [a div 4, (a mod 4) * 16]"
| "sextets [] = []"

fun octets :: "nat list \<Rightarrow> nat list option" where
  "octets (p # q # r # s # xs) =
     map_option (\<lambda>bs. (p * 4 + q div 16) # ((q mod 16) * 16 + r div 4) # ((r mod 4) * 64 + s) # bs) (octets xs)"
| "octets [p, q, r] = Some [p * 4 + q div 16, (q mod 16) * 16 + r div 4]"
| "octets [p, q] = Some [p * 4 + q div 16]"
| "octets [p] = None"
| "octets [] = Some []"

definition RawEncodeToString :: "string \<Rightarrow> string \<Rightarrow> string" where
  "RawEncodeToString alpha s = map (\<lambda>i. alpha ! i) (sextets (map byte_of s))"

fun sextets_of :: "string \<Rightarrow> string \<Rightarrow> nat list option" where
  "sextets_of alpha [] = Some []"
| "sextets_of alpha (c # cs) =
     (case IndexByte alpha c of None \<Rightarrow> None | Some i \<Rightarrow> map_option ((#) i) (sextets_of alpha cs))"

definition RawDecodeString :: "string \<Rightarrow> string \<Rightarrow> string option" where
  "RawDecodeString alpha s =
     (case sextets_of alpha (filter (\<lambda>c. byte_of c \<noteq> 10 \<and> byte_of c \<noteq> 13) s) of
        None \<Rightarrow> None
      | Some xs \<Rightarrow> map_option (map char_of) (octets xs))"

text \<open>The padded encoding: the length without line breaks is a multiple of four, and at most two padding bytes
  end the last quantum.\<close>

definition PaddedDecodeString :: "string \<Rightarrow> string \<Rightarrow> string option" where
  "PaddedDecodeString alpha s =
     (let t = filter (\<lambda>c. byte_of c \<noteq> 10 \<and> byte_of c \<noteq> 13) s;
          u = (if HasSuffix t ''=='' then take (length t - 2) t else TrimSuffix t ''='')
      in if length t mod 4 = 0 then RawDecodeString alpha u else None)"

definition hex_val :: "char \<Rightarrow> nat option" where
  "hex_val c =
     (if is_digit c then Some (byte_of c - 48)
      else if 97 \<le> byte_of c \<and> byte_of c \<le> 102 then Some (byte_of c - 87)
      else if 65 \<le> byte_of c \<and> byte_of c \<le> 70 then Some (byte_of c - 55)
      else None)"

fun hex_DecodeString :: "string \<Rightarrow> string option" where
  "hex_DecodeString [] = Some []"
| "hex_DecodeString [_] = None"
| "hex_DecodeString (a # b # s) =
     (case (hex_val a, hex_val b) of
        (Some x, Some y) \<Rightarrow> map_option ((#) (char_of (16 * x + y))) (hex_DecodeString s)
      | _ \<Rightarrow> None)"

section \<open>Round trips\<close>

lemma sextets_bound: "\<forall>b \<in> set bs. b < 256 \<Longrightarrow> x \<in> set (sextets bs) \<Longrightarrow> x < 64"
  by (induction bs rule: sextets.induct) auto

lemma byte_parts:
  "(b :: nat) < 256 \<Longrightarrow> b div 16 div 16 = 0" "(b :: nat) < 256 \<Longrightarrow> b div 16 mod 16 = b div 16"
  "(b :: nat) < 256 \<Longrightarrow> b div 64 div 4 = 0" "(b :: nat) < 256 \<Longrightarrow> b div 64 mod 4 = b div 64"
  by simp_all

lemma octets_sextets: "\<forall>b \<in> set bs. b < 256 \<Longrightarrow> octets (sextets bs) = Some bs"
proof (induction bs rule: sextets.induct)
  case (1 a b c bs)
  then show ?case
    using byte_parts [of b] byte_parts [of c] by simp
next
  case (2 a b)
  then show ?case
    using byte_parts [of b] by simp
qed simp_all

lemma alphabets:
  "distinct b64_std" "length b64_std = 64" "distinct b64_url" "length b64_url = 64"
  "CHR ''.'' \<notin> set b64_url" "CHR ''$'' \<notin> set b64_std"
  "\<forall>c \<in> set b64_std. byte_of c \<noteq> 10 \<and> byte_of c \<noteq> 13" "\<forall>c \<in> set b64_url. byte_of c \<noteq> 10 \<and> byte_of c \<noteq> 13"
  by code_simp+

lemma IndexByte_nth: "distinct s \<Longrightarrow> i < length s \<Longrightarrow> IndexByte s (s ! i) = Some i"
  by (induction s arbitrary: i) (auto simp: nth_Cons split: nat.splits)

lemma sextets_of_map:
  "distinct alpha \<Longrightarrow> \<forall>x \<in> set xs. x < length alpha \<Longrightarrow> sextets_of alpha (map (\<lambda>i. alpha ! i) xs) = Some xs"
  by (induction xs) (simp_all add: IndexByte_nth)

lemma RawEncode_chars:
  assumes "length alpha = 64" "c \<in> set (RawEncodeToString alpha s)"
  shows "c \<in> set alpha"
proof -
  have "x < 64" if "x \<in> set (sextets (map byte_of s))" for x
    using sextets_bound [OF _ that] by auto
  then show ?thesis
    using assms by (auto simp: RawEncodeToString_def)
qed

lemma Raw_roundtrip:
  assumes "distinct alpha" "length alpha = 64" "\<forall>c \<in> set alpha. byte_of c \<noteq> 10 \<and> byte_of c \<noteq> 13"
  shows "RawDecodeString alpha (RawEncodeToString alpha s) = Some s"
proof -
  let ?xs = "sextets (map byte_of s)"
  have "filter (\<lambda>c. byte_of c \<noteq> 10 \<and> byte_of c \<noteq> 13) (RawEncodeToString alpha s) = RawEncodeToString alpha s"
    using RawEncode_chars [OF assms(2)] assms(3) by (simp add: filter_id_conv)
  moreover have "sextets_of alpha (RawEncodeToString alpha s) = Some ?xs"
    unfolding RawEncodeToString_def
    by (rule sextets_of_map) (use assms sextets_bound [of "map byte_of s"] in auto)
  moreover have "octets ?xs = Some (map byte_of s)"
    by (rule octets_sextets) simp
  ultimately show ?thesis
    by (simp add: RawDecodeString_def comp_def)
qed

lemma url_roundtrip [simp]: "RawDecodeString b64_url (RawEncodeToString b64_url s) = Some s"
  by (rule Raw_roundtrip) (rule alphabets)+

lemma std_roundtrip [simp]: "RawDecodeString b64_std (RawEncodeToString b64_std s) = Some s"
  by (rule Raw_roundtrip) (rule alphabets)+

lemma hex_val_digit: "d < 16 \<Longrightarrow> hex_val (hex_digit d) = Some d"
  by (auto simp: hex_val_def hex_digit_def is_digit_def)

lemma hex_Cons: "hex_encode (c # s) = hex_digit (byte_of c div 16) # hex_digit (byte_of c mod 16) # hex_encode s"
  by (simp add: hex_encode_def)

lemma hex_Nil [simp]: "hex_encode [] = []"
  by (simp add: hex_encode_def)

lemma hex_roundtrip [simp]: "hex_DecodeString (hex_encode s) = Some s"
proof (induction s)
  case (Cons c s)
  have "byte_of c div 16 < 16" "byte_of c mod 16 < 16"
    using byte_of_less [of c] by (simp_all add: less_mult_imp_div_less)
  then show ?case
    using Cons by (simp add: hex_Cons hex_val_digit)
qed simp

lemma hex_encode_inj: "hex_encode a = hex_encode b \<Longrightarrow> a = b"
  by (metis hex_roundtrip option.inject)

lemma hex_chars: "c \<in> set (hex_encode s) \<Longrightarrow> is_digit c \<or> is_lower c"
proof (induction s)
  case (Cons a s)
  have "byte_of a div 16 < 16" "byte_of a mod 16 < 16"
    using byte_of_less [of a] by (simp_all add: less_mult_imp_div_less)
  then have "is_digit (hex_digit x) \<or> is_lower (hex_digit x)" if "x \<in> {byte_of a div 16, byte_of a mod 16}" for x
    using that by (auto simp: hex_digit_def is_digit_def is_lower_def)
  then show ?case
    using Cons by (auto simp: hex_Cons)
qed simp

lemma separators_not_hex [simp]: "CHR ''.'' \<notin> set (hex_encode s)" "CHR ''|'' \<notin> set (hex_encode s)" "CHR '':'' \<notin> set (hex_encode s)"
  by (auto dest!: hex_chars simp: is_digit_def is_lower_def)

lemma separators_not_number [simp]: "CHR ''.'' \<notin> set (FormatInt n)" "CHR ''|'' \<notin> set (FormatInt n)"
  "CHR '','' \<notin> set (FormatInt n)" "CHR ''='' \<notin> set (FormatInt n)"
  by (auto dest!: FormatInt_chars simp: is_digit_def)

lemma FormatUint_eq: "FormatUint n = FormatInt (int n)"
  by (simp add: FormatUint_def FormatInt_def)

end
