(* ===== verification/GoNet.thy ===== *)
theory GoNet
  imports GoStrings
begin

text \<open>
  The parts of Go's \<open>net\<close>, \<open>net/netip\<close> and \<open>net/http\<close> packages that the program uses:
  parsing and printing of addresses, CIDR networks, \<open>SplitHostPort\<close> and header maps.  A
  \<open>net.IP\<close> is kept in canonical form: an IPv4-mapped IPv6 address and the corresponding
  four-byte address are the same value \<open>V4\<close>, as every method the program calls (\<open>To4\<close>,
  \<open>String\<close>, \<open>Contains\<close>) treats them alike.  A nil \<open>net.IP\<close> is \<open>None\<close>.
\<close>

unbundle bit_operations_syntax

section \<open>Definitions\<close>

datatype addr = A4 "32 word" | A6 "128 word"

datatype IP = V4 "32 word" | V6 "128 word"

datatype IPNet = Net4 "32 word" nat | Net6 "128 word" nat

definition canon_ip :: "addr \<Rightarrow> IP" where
  "canon_ip a = (case a of A4 w \<Rightarrow> V4 w
     | A6 w \<Rightarrow> if drop_bit 32 w = 0xFFFF then V4 (ucast w) else V6 w)"

definition octet :: "string \<Rightarrow> nat option" where
  "octet s =
     (if s = [] \<or> (length s > 1 \<and> hd s = CHR ''0'') then None
      else case dec_nat s of None \<Rightarrow> None | Some n \<Rightarrow> if n > 255 then None else Some n)"

definition be_int :: "int \<Rightarrow> nat list \<Rightarrow> int" where
  "be_int b ds = foldl (\<lambda>a d. a * b + int d) 0 ds"

definition parseIPv4 :: "string \<Rightarrow> nat list option" where
  "parseIPv4 s =
     (case Split (CHR ''.'') s of
        [a, b, c, d] \<Rightarrow>
          (case (octet a, octet b, octet c, octet d) of
             (Some w, Some x, Some y, Some z) \<Rightarrow> Some [w, x, y, z]
           | _ \<Rightarrow> None)
      | _ \<Rightarrow> None)"

definition hex_val :: "char \<Rightarrow> nat option" where
  "hex_val c =
     (if is_digit c then Some (byte_of c - 48)
      else if 97 \<le> byte_of c \<and> byte_of c \<le> 102 then Some (byte_of c - 87)
      else if 65 \<le> byte_of c \<and> byte_of c \<le> 70 then Some (byte_of c - 55) else None)"

definition hex_group :: "string \<Rightarrow> nat option" where
  "hex_group s = (if s = [] \<or> length s > 4 then None else Some (nat (be_int 16 (map (\<lambda>c. the (hex_val c)) s))))"

text \<open>The group loop of \<open>netip.parseIPv6\<close>: \<open>gs\<close> are the 16-bit groups read so far, \<open>ell\<close> the
  position of the ellipsis.\<close>

fun ipv6_groups :: "nat \<Rightarrow> string \<Rightarrow> nat list \<Rightarrow> nat option \<Rightarrow> (nat list \<times> nat option) option" where
  "ipv6_groups 0 s gs ell = (if s = [] then Some (gs, ell) else None)"
| "ipv6_groups (Suc fuel) s gs ell =
     (if length gs \<ge> 8 then (if s = [] then Some (gs, ell) else None)
      else
        let hs = takeWhile (\<lambda>c. hex_val c \<noteq> None) s; rest = dropWhile (\<lambda>c. hex_val c \<noteq> None) s in
        case hex_group hs of
          None \<Rightarrow> None
        | Some g \<Rightarrow>
            (case rest of
               [] \<Rightarrow> Some (gs @ [g], ell)
             | c # t \<Rightarrow>
                 if c = CHR ''.'' then
                   (if (ell = None \<and> length gs \<noteq> 6) \<or> length gs + 2 > 8 then None
                    else case parseIPv4 s of
                           None \<Rightarrow> None
                         | Some os \<Rightarrow> Some (gs @ [os ! 0 * 256 + os ! 1, os ! 2 * 256 + os ! 3], ell))
                 else if c \<noteq> CHR '':'' \<or> t = [] then None
                 else if hd t = CHR '':'' then
                   (if ell \<noteq> None then None
                    else if tl t = [] then Some (gs @ [g], Some (length gs + 1))
                    else ipv6_groups fuel (tl t) (gs @ [g]) (Some (length gs + 1)))
                 else ipv6_groups fuel t (gs @ [g]) ell))"

definition parseIPv6 :: "string \<Rightarrow> nat list option" where
  "parseIPv6 s =
     (let lead = HasPrefix s ''::''; body = (if lead then drop 2 s else s); ell = (if lead then Some 0 else None) in
      if lead \<and> body = [] then Some (replicate 8 0)
      else case ipv6_groups 9 body [] ell of
             None \<Rightarrow> None
           | Some (gs, e) \<Rightarrow>
               if length gs < 8 then
                 (case e of None \<Rightarrow> None
                  | Some k \<Rightarrow> Some (take k gs @ replicate (8 - length gs) 0 @ drop k gs))
               else if e \<noteq> None then None else Some gs)"

text \<open>\<open>netip.ParseAddr\<close>, without zones: an address with a zone is not accepted by \<open>net.ParseIP\<close>.\<close>

definition ParseAddr :: "string \<Rightarrow> addr option" where
  "ParseAddr s =
     (case dropWhile (\<lambda>c. c \<noteq> CHR ''.'' \<and> c \<noteq> CHR '':'' \<and> c \<noteq> CHR ''%'') s of
        [] \<Rightarrow> None
      | c # _ \<Rightarrow>
          if c = CHR ''.'' then map_option (\<lambda>os. A4 (word_of_int (be_int 256 os))) (parseIPv4 s)
          else if c = CHR '':'' then
            (if CHR ''%'' \<in> set s then None else map_option (\<lambda>gs. A6 (word_of_int (be_int 65536 gs))) (parseIPv6 s))
          else None)"

definition net_ParseIP :: "string \<Rightarrow> IP option" where
  "net_ParseIP s = map_option canon_ip (ParseAddr s)"

definition To4 :: "IP \<Rightarrow> 32 word option" where
  "To4 ip = (case ip of V4 w \<Rightarrow> Some w | V6 w \<Rightarrow> None)"

definition mask_word :: "nat \<Rightarrow> 'a::len word \<Rightarrow> 'a word" where
  "mask_word n w = push_bit (LENGTH('a) - n) (drop_bit (LENGTH('a) - n) w)"

definition dtoi :: "string \<Rightarrow> nat option" where
  "dtoi s = (case dec_nat s of None \<Rightarrow> None | Some n \<Rightarrow> if int n \<ge> 0xFFFFFF then None else Some n)"

definition ParseCIDR :: "string \<Rightarrow> IPNet option" where
  "ParseCIDR s =
     (case Cut s (CHR ''/'') of None \<Rightarrow> None | Some (a, m) \<Rightarrow>
       (case ParseAddr a of None \<Rightarrow> None | Some ad \<Rightarrow>
         (case dtoi m of None \<Rightarrow> None | Some n \<Rightarrow>
           (case ad of
              A4 w \<Rightarrow> if n > 32 then None else Some (Net4 (mask_word n w) n)
            | A6 w \<Rightarrow>
                if n > 128 then None
                else (case canon_ip (A6 w) of
                        V4 x \<Rightarrow> if n \<ge> 96 then Some (Net4 (mask_word (n - 96) x) (n - 96))
                                else Some (Net6 (mask_word n w) n)
                      | V6 _ \<Rightarrow> Some (Net6 (mask_word n w) n))))))"

definition IPNet_Contains :: "IPNet \<Rightarrow> IP \<Rightarrow> bool" where
  "IPNet_Contains n ip =
     (case (n, ip) of
        (Net4 a k, V4 w) \<Rightarrow> mask_word k a = mask_word k w
      | (Net6 a k, V6 w) \<Rightarrow> mask_word k a = mask_word k w
      | _ \<Rightarrow> False)"

definition be_digits :: "int \<Rightarrow> nat \<Rightarrow> int \<Rightarrow> nat list" where
  "be_digits b k n = map (\<lambda>i. nat (n div b ^ (k - 1 - i) mod b)) [0..<k]"

definition ipv4_string :: "32 word \<Rightarrow> string" where
  "ipv4_string w = join (CHR ''.'') (map nat_dec (be_digits 256 4 (uint w)))"

fun hex_nat :: "nat \<Rightarrow> string" where
  "hex_nat n = (if n < 16 then [hex_digit n] else hex_nat (n div 16) @ [hex_digit (n mod 16)])"

declare hex_nat.simps [simp del]

definition zero_run :: "nat list \<Rightarrow> nat \<Rightarrow> nat" where
  "zero_run gs i = length (takeWhile (\<lambda>g. g = 0) (drop i gs))"

definition longest_zero_run :: "nat list \<Rightarrow> nat \<times> nat" where
  "longest_zero_run gs =
     fold (\<lambda>i (s, l). if zero_run gs i \<ge> 2 \<and> zero_run gs i > l then (i, zero_run gs i) else (s, l)) [0..<8] (255, 0)"

definition ipv6_string :: "128 word \<Rightarrow> string" where
  "ipv6_string w =
     (let gs = be_digits 65536 8 (uint w); (s, l) = longest_zero_run gs;
          hs = map hex_nat gs
      in if s = 255 then join (CHR '':'') hs
         else join (CHR '':'') (take s hs) @ ''::'' @ join (CHR '':'') (drop (s + l) hs))"

definition IP_String :: "IP \<Rightarrow> string" where
  "IP_String ip = (case ip of V4 w \<Rightarrow> ipv4_string w | V6 w \<Rightarrow> ipv6_string w)"

definition IPNet_String :: "IPNet \<Rightarrow> string" where
  "IPNet_String n =
     (case n of Net4 a k \<Rightarrow> ipv4_string a @ ''/'' @ nat_dec k | Net6 a k \<Rightarrow> ipv6_string a @ ''/'' @ nat_dec k)"

definition SplitHostPort :: "string \<Rightarrow> (string \<times> string) option" where
  "SplitHostPort hp =
     (case LastIndexByte hp (CHR '':'') of
        None \<Rightarrow> None
      | Some i \<Rightarrow>
          (case (if hd hp = CHR ''['' then
                   (case IndexByte hp (CHR '']'') of
                      None \<Rightarrow> None
                    | Some e \<Rightarrow> if e + 1 = i then Some (take (e - 1) (drop 1 hp), 1, e + 1) else None)
                 else if CHR '':'' \<in> set (take i hp) then None else Some (take i hp, 0, 0)) of
             None \<Rightarrow> None
           | Some (host, j, k) \<Rightarrow>
               if CHR ''['' \<in> set (drop j hp) then None
               else if CHR '']'' \<in> set (drop k hp) then None
               else Some (host, drop (i + 1) hp)))"

type_synonym Header = "(string, string list) gomap"

definition is_token_char :: "char \<Rightarrow> bool" where
  "is_token_char c \<longleftrightarrow> is_upper c \<or> is_lower c \<or> is_digit c \<or> c \<in> set ''!#$%&'' \<or> byte_of c = 39 \<or>
     c \<in> set ''*+-.^_`|~''"

fun canon_chars :: "bool \<Rightarrow> string \<Rightarrow> string" where
  "canon_chars up [] = []"
| "canon_chars up (c # s) = (if up then upper_char c else lower_char c) # canon_chars (c = CHR ''-'') s"

definition CanonicalHeaderKey :: "string \<Rightarrow> string" where
  "CanonicalHeaderKey s = (if \<forall>c \<in> set s. is_token_char c then canon_chars True s else s)"

definition Header_Get :: "Header \<Rightarrow> string \<Rightarrow> string" where
  "Header_Get h k = (case map_of h (CanonicalHeaderKey k) of Some (v # _) \<Rightarrow> v | _ \<Rightarrow> [])"

definition Header_Set :: "Header \<Rightarrow> string \<Rightarrow> string \<Rightarrow> Header" where
  "Header_Set h k v = AList.update (CanonicalHeaderKey k) [v] h"

definition Header_Del :: "Header \<Rightarrow> string \<Rightarrow> Header" where
  "Header_Del h k = AList.delete (CanonicalHeaderKey k) h"

text \<open>The fields of \<open>http.Request\<close> that the program reads; the body is the whole body text,
  \<open>req_HasBody\<close> says whether \<open>Body\<close> is neither nil nor \<open>NoBody\<close>, and \<open>req_ServerName\<close> is the TLS server name.\<close>

record Request =
  req_Method :: string
  req_Host :: string
  req_Path :: string
  req_RawQuery :: string
  req_RemoteAddr :: string
  req_Header :: Header
  req_TLS :: bool
  req_ContentLength :: int
  req_Body :: string
  req_HasBody :: bool
  req_RawPath :: string
  req_ProtoMajor :: int
  req_ProtoMinor :: int
  req_ServerName :: string

section \<open>Headers\<close>

lemma Header_Get_Set [simp]:
  "Header_Get (Header_Set h k v) k' =
     (if CanonicalHeaderKey k' = CanonicalHeaderKey k then v else Header_Get h k')"
  by (simp add: Header_Get_def Header_Set_def)

lemma Header_Get_Del [simp]:
  "Header_Get (Header_Del h k) k' =
     (if CanonicalHeaderKey k' = CanonicalHeaderKey k then [] else Header_Get h k')"
  by (simp add: Header_Get_def Header_Del_def)

section \<open>Networks\<close>

lemma bit_mask_word:
  fixes w :: "'a::len word"
  shows "n \<le> LENGTH('a) \<Longrightarrow> bit (mask_word n w) i \<longleftrightarrow> LENGTH('a) - n \<le> i \<and> bit w i"
  using bit_imp_le_length [of w i] by (auto simp: mask_word_def bit_simps)

lemma mask_word_idem [simp]: "n \<le> LENGTH('a) \<Longrightarrow> mask_word n (mask_word n w) = mask_word n (w :: 'a::len word)"
  by (rule bit_word_eqI) (simp add: bit_mask_word)

lemma mask_word_full [simp]: "mask_word LENGTH('a) (w :: 'a::len word) = w"
  by (simp add: mask_word_def)

lemma mask_word_full_32 [simp]: "mask_word 32 (w :: 32 word) = w"
  using mask_word_full [of w] by simp

lemma mask_word_full_128 [simp]: "mask_word 128 (w :: 128 word) = w"
  using mask_word_full [of w] by simp

text \<open>An address lies in a network exactly when it agrees with it on the prefix.\<close>

lemma Contains_prefix_bits:
  assumes "k \<le> 32"
  shows "IPNet_Contains (Net4 a k) (V4 w) \<longleftrightarrow> (\<forall>i < 32. 32 - k \<le> i \<longrightarrow> bit a i = bit w i)"
proof -
  have "mask_word k a = mask_word k w \<longleftrightarrow> (\<forall>i < LENGTH(32). bit (mask_word k a) i = bit (mask_word k w) i)"
    by (metis bit_word_eqI)
  then show ?thesis using assms by (auto simp: IPNet_Contains_def bit_mask_word)
qed

end
