(* ===== verification/GoHttp.thy ===== *)
theory GoHttp
  imports GoNet GoEnc
begin

text \<open>
  The part of \<open>net/http\<close>'s cookie handling the program uses: \<open>Request.Cookie\<close> finds the first cookie of a
  name in the \<open>Cookie\<close> headers; and \<open>fmt.Sscanf\<close> for decimal fields.
\<close>

section \<open>Definitions\<close>

definition is_http_space :: "char \<Rightarrow> bool" where
  "is_http_space c \<longleftrightarrow> c = CHR '' '' \<or> byte_of c \<in> {9, 10, 13}"

definition TrimString :: "string \<Rightarrow> string" where
  "TrimString s = TrimFunc is_http_space s"

definition isToken :: "string \<Rightarrow> bool" where
  "isToken s \<longleftrightarrow> s \<noteq> [] \<and> (\<forall>c \<in> set s. is_token_char c)"

definition validCookieValueByte :: "char \<Rightarrow> bool" where
  "validCookieValueByte c \<longleftrightarrow> 32 \<le> byte_of c \<and> byte_of c < 127 \<and> byte_of c \<noteq> 34 \<and> c \<noteq> CHR '';'' \<and> byte_of c \<noteq> 92"

definition parseCookieValue :: "string \<Rightarrow> string option" where
  "parseCookieValue raw =
     (let v = (if length raw > 1 \<and> byte_of (hd raw) = 34 \<and> byte_of (last raw) = 34 then butlast (tl raw) else raw)
      in if \<forall>c \<in> set v. validCookieValueByte c then Some v else None)"

definition cookie_part :: "string \<Rightarrow> string \<Rightarrow> string option" where
  "cookie_part name part =
     (let p = TrimString part in
      if p = [] then None
      else let (n, v) = (case Cut p (CHR ''='') of None \<Rightarrow> (p, []) | Some nv \<Rightarrow> nv); n = TrimString n
           in if \<not> isToken n \<or> n \<noteq> name then None else parseCookieValue v)"

fun first_some :: "('a \<Rightarrow> 'b option) \<Rightarrow> 'a list \<Rightarrow> 'b option" where
  "first_some f [] = None"
| "first_some f (x # xs) = (case f x of None \<Rightarrow> first_some f xs | Some y \<Rightarrow> Some y)"

definition Request_Cookie :: "Request \<Rightarrow> string \<Rightarrow> string option" where
  "Request_Cookie r name =
     (if name = [] then None
      else first_some (\<lambda>line. first_some (cookie_part name) (Split (CHR '';'') (TrimString line)))
             (case map_of (req_Header r) ''Cookie'' of None \<Rightarrow> [] | Some ls \<Rightarrow> ls))"

text \<open>The request of a client that sends back one cookie.\<close>

definition with_cookie :: "Request \<Rightarrow> string \<Rightarrow> string \<Rightarrow> Request" where
  "with_cookie r name val = r\<lparr> req_Header := Header_Set (req_Header r) ''Cookie'' (name @ CHR ''='' # val) \<rparr>"

text \<open>\<open>%d\<close>: blanks, digits, the rest; a line break among the blanks is an error, and so is a value out of range.\<close>

definition scan_uint :: "nat \<Rightarrow> string \<Rightarrow> (nat \<times> string) option" where
  "scan_uint bnd s =
     (let blanks = takeWhile is_space s; t = dropWhile is_space s; ds = takeWhile is_digit t
      in if CHR 0x0A \<in> set blanks then None
         else case dec_nat ds of None \<Rightarrow> None | Some n \<Rightarrow> if n < bnd then Some (n, dropWhile is_digit t) else None)"

definition scan_lit :: "string \<Rightarrow> string \<Rightarrow> string option" where
  "scan_lit l s = (if HasPrefix s l then Some (drop (length l) s) else None)"

section \<open>Lemmas\<close>

lemma cookie_value_trim:
  assumes "v \<noteq> []" "\<forall>c \<in> set v. validCookieValueByte c \<and> c \<noteq> CHR '' ''"
  shows "\<not> is_http_space (last v)"
proof -
  have "validCookieValueByte (last v)" "last v \<noteq> CHR '' ''"
    using assms by auto
  then show ?thesis
    by (auto simp: validCookieValueByte_def is_http_space_def)
qed

lemma token_char_facts: "is_token_char c \<Longrightarrow> \<not> is_http_space c" "is_token_char c \<Longrightarrow> c \<noteq> CHR ''=''" "is_token_char c \<Longrightarrow> c \<noteq> CHR '';''"
  by (auto simp: is_token_char_def is_http_space_def is_upper_def is_lower_def is_digit_def)

lemma Cookie_with_cookie:
  assumes name: "isToken name" and v: "v \<noteq> []" "\<forall>c \<in> set v. validCookieValueByte c \<and> c \<noteq> CHR '' ''"
  shows "Request_Cookie (with_cookie r name v) name = Some v"
proof -
  have n: "name \<noteq> []" "\<And>c. c \<in> set name \<Longrightarrow> is_token_char c"
    using name by (auto simp: isToken_def)
  have k: "CanonicalHeaderKey ''Cookie'' = ''Cookie''"
    by code_simp
  have hl: "\<not> is_http_space (hd name)" "\<not> is_http_space (last name)"
    using n token_char_facts(1) by (meson hd_in_set last_in_set)+
  have t: "TrimString (name @ CHR ''='' # v) = name @ CHR ''='' # v" "TrimString name = name"
    using n hl cookie_value_trim [OF v] v(1) by (auto simp: TrimString_def intro!: TrimFunc_id)
  have "CHR '';'' \<notin> set (name @ CHR ''='' # v)"
    using n(2) token_char_facts(3) v(2) by (auto simp: validCookieValueByte_def)
  then have s: "Split (CHR '';'') (name @ CHR ''='' # v) = [name @ CHR ''='' # v]"
    by (rule Split_no_sep)
  have "CHR ''='' \<notin> set name"
    using n(2) token_char_facts(2) by blast
  then have c: "Cut (name @ CHR ''='' # v) (CHR ''='') = Some (name, v)"
    by (rule Cut_append)
  have "byte_of (hd v) \<noteq> 34"
    using v by (cases v) (auto simp: validCookieValueByte_def)
  then have p: "parseCookieValue v = Some v"
    using v(2) by (simp add: parseCookieValue_def)
  show ?thesis
    using n(1) name by (simp add: Request_Cookie_def with_cookie_def Header_Set_def k t s cookie_part_def c p)
qed

lemma scan_uint_dec:
  assumes "n < bnd" "rest = [] \<or> \<not> is_digit (hd rest)"
  shows "scan_uint bnd (nat_dec n @ rest) = Some (n, rest)"
proof -
  have d: "\<forall>c \<in> set (nat_dec n). is_digit c"
    by (rule nat_dec_digits)
  then have "\<not> is_space (hd (nat_dec n))"
    by (cases "nat_dec n") (auto simp: is_digit_def is_space_def)
  then have "takeWhile is_space (nat_dec n @ rest) = []" "dropWhile is_space (nat_dec n @ rest) = nat_dec n @ rest"
    by (cases "nat_dec n"; simp)+
  moreover have "takeWhile is_digit rest = []" "dropWhile is_digit rest = rest"
    using assms(2) by (cases rest; simp)+
  then have "takeWhile is_digit (nat_dec n @ rest) = nat_dec n" "dropWhile is_digit (nat_dec n @ rest) = rest"
    using d by (simp_all add: takeWhile_append dropWhile_append)
  ultimately show ?thesis
    using assms(1) by (simp add: scan_uint_def)
qed

lemma scan_lit_append [simp]: "scan_lit l (l @ s) = Some s"
  by (simp add: scan_lit_def HasPrefix_def)

end
