(* ===== verification/Edge.thy ===== *)
theory Edge
  imports GoEnc GoNet GoHttp
begin

unbundle bit_operations_syntax

text \<open>
  The small components at the edge of a connection: \<open>internal/bodybuf\<close> (capturing a body for inspection),
  \<open>internal/requestid\<close> (identifiers of requests) and \<open>internal/proxyproto\<close> (the PROXY protocol header).
\<close>

section \<open>Definitions\<close>

subsection \<open>Body capture\<close>

text \<open>A body still to be read: its bytes, and whether it ends with an error instead of EOF.  \<open>http.NoBody\<close> and a nil body
  are \<open>None\<close>.\<close>

record bodyStream =
  bs_data :: string
  bs_fails :: bool

text \<open>\<open>readAllAppend\<close> on a reader limited to \<open>n\<close> bytes: what it read, and whether it met the error.\<close>

definition readAllLimited :: "bodyStream \<Rightarrow> nat \<Rightarrow> string \<times> bool" where
  "readAllLimited b n = (take n (bs_data b), bs_fails b \<and> length (bs_data b) < n)"

record captureResult =
  cr_captured :: "string option"
  cr_err :: bool
  cr_body :: "bodyStream option"
  cr_contentLength :: "int option"

definition Capture :: "bodyStream option \<Rightarrow> int \<Rightarrow> captureResult" where
  "Capture body maxBytes =
     (case body of
        None \<Rightarrow> \<lparr> cr_captured = None, cr_err = False, cr_body = None, cr_contentLength = None \<rparr>
      | Some b \<Rightarrow>
          if maxBytes \<le> 0 then \<lparr> cr_captured = None, cr_err = False, cr_body = Some b, cr_contentLength = None \<rparr>
          else
            let (buf, err) = readAllLimited b (nat (int64 (maxBytes + 1)));
                rest = b\<lparr> bs_data := drop (length buf) (bs_data b) \<rparr>
            in if err then \<lparr> cr_captured = None, cr_err = True, cr_body = Some rest, cr_contentLength = None \<rparr>
               else if int (length buf) \<le> maxBytes then
                 \<lparr> cr_captured = Some buf, cr_err = False, cr_body = Some \<lparr> bs_data = buf, bs_fails = False \<rparr>,
                   cr_contentLength = Some (int (length buf)) \<rparr>
               else
                 \<lparr> cr_captured = Some (take (nat maxBytes) buf), cr_err = False,
                   cr_body = Some \<lparr> bs_data = buf @ bs_data rest, bs_fails = bs_fails rest \<rparr>, cr_contentLength = None \<rparr>)"

definition Restore :: "string \<Rightarrow> bodyStream option \<times> int" where
  "Restore buf = (if buf = [] then (None, 0) else (Some \<lparr> bs_data = buf, bs_fails = False \<rparr>, int (length buf)))"

subsection \<open>Request identifiers\<close>

fun hexU64_loop :: "nat \<Rightarrow> 64 word \<Rightarrow> string \<Rightarrow> string" where
  "hexU64_loop 0 v buf = buf"
| "hexU64_loop (Suc k) v buf = hexU64_loop k (drop_bit 4 v) (hex_digit (unat (v AND 15)) # buf)"

definition appendHexU64 :: "string \<Rightarrow> 64 word \<Rightarrow> string" where
  "appendHexU64 dst v = dst @ hexU64_loop 16 v []"

definition appendHexBytes :: "string \<Rightarrow> string \<Rightarrow> string" where
  "appendHexBytes dst src = dst @ hex_encode src"

text \<open>\<open>rb\<close> are the random bytes, \<open>ts\<close> the clock; the counter is the state.\<close>

definition requestid_New :: "64 word \<Rightarrow> string \<Rightarrow> 64 word \<Rightarrow> string \<times> 64 word" where
  "requestid_New counter rb ts =
     (let n = counter + 1 in (appendHexBytes (appendHexU64 (appendHexU64 [] ts) n) rb, n))"

subsection \<open>PROXY protocol\<close>

record TCPAddr =
  ta_IP :: IP
  ta_Port :: int

datatype proxy_error = ShortHeader | NoLine | BadLine | ShortLine | BadIP | BadPort

fun fields_loop :: "string \<Rightarrow> string \<Rightarrow> string list" where
  "fields_loop acc [] = (if acc = [] then [] else [rev acc])"
| "fields_loop acc (c # s) =
     (if is_space c then (if acc = [] then fields_loop [] s else rev acc # fields_loop [] s) else fields_loop (c # acc) s)"

definition Fields :: "string \<Rightarrow> string list" where
  "Fields s = fields_loop [] s"

text \<open>\<open>fmt.Sscanf(s, "%d", &port)\<close> on a field, which has no blanks: a sign, digits, and whatever follows.\<close>

definition scan_int :: "string \<Rightarrow> int option" where
  "scan_int s =
     (let (sgn, t) = (case s of c # t \<Rightarrow> if c = CHR ''-'' \<or> c = CHR ''+'' then ([c], t) else ([], c # t) | [] \<Rightarrow> ([], []))
      in ParseInt (sgn @ takeWhile is_digit t))"

definition parseProxyLine :: "string \<Rightarrow> proxy_error + TCPAddr option" where
  "parseProxyLine line0 =
     (let parts = Fields (TrimSpace line0) in
      if length parts < 2 \<or> parts ! 0 \<noteq> ''PROXY'' then Inl BadLine
      else if parts ! 1 = ''UNKNOWN'' then Inr None
      else if length parts < 6 then Inl ShortLine
      else case net_ParseIP (parts ! 2) of
        None \<Rightarrow> Inl BadIP
      | Some ip \<Rightarrow>
          (case scan_int (parts ! 4) of None \<Rightarrow> Inl BadPort | Some port \<Rightarrow> Inr (Some \<lparr> ta_IP = ip, ta_Port = port \<rparr>)))"

text \<open>A connection: the peer, the address the header gave, whether the header has been looked for, and the bytes that arrive
  before it is closed.  After an error the server drops the connection, so no state is kept there.\<close>

record pconn =
  pc_peer :: TCPAddr
  pc_remote :: "TCPAddr option"
  pc_inited :: bool
  pc_in :: string

definition Accept :: "TCPAddr \<Rightarrow> string \<Rightarrow> pconn" where
  "Accept peer input = \<lparr> pc_peer = peer, pc_remote = None, pc_inited = False, pc_in = input \<rparr>"

definition RemoteAddr :: "pconn \<Rightarrow> TCPAddr" where
  "RemoteAddr c = (case pc_remote c of Some a \<Rightarrow> a | None \<Rightarrow> pc_peer c)"

definition conn_ensure :: "pconn \<Rightarrow> proxy_error + pconn" where
  "conn_ensure c =
     (if pc_inited c then Inr c
      else if length (pc_in c) < 6 then Inl ShortHeader
      else if HasPrefix (pc_in c) ''PROXY '' then
        (case IndexByte (pc_in c) (CHR 0x0A) of
           None \<Rightarrow> Inl NoLine
         | Some i \<Rightarrow>
             (case parseProxyLine (take (Suc i) (pc_in c)) of
                Inl e \<Rightarrow> Inl e
              | Inr addr \<Rightarrow>
                  Inr (c\<lparr> pc_remote := (case addr of Some a \<Rightarrow> Some a | None \<Rightarrow> pc_remote c), pc_inited := True,
                         pc_in := drop (Suc i) (pc_in c) \<rparr>)))
      else Inr (c\<lparr> pc_inited := True \<rparr>))"

definition conn_Read :: "pconn \<Rightarrow> nat \<Rightarrow> proxy_error + (string \<times> pconn)" where
  "conn_Read c n =
     (case conn_ensure c of
        Inl e \<Rightarrow> Inl e
      | Inr c \<Rightarrow> Inr (take n (pc_in c), c\<lparr> pc_in := drop n (pc_in c) \<rparr>))"

section \<open>Lemmas\<close>

lemma nibble: "unat (v AND 15 :: 64 word) = unat v mod 16"
proof -
  have "v AND 15 = take_bit 4 v"
    by (simp add: take_bit_eq_mask mask_eq_exp_minus_1)
  then have "unat (v AND 15) = take_bit 4 (unat v)"
    by (simp only: unsigned_take_bit_eq)
  then show ?thesis
    by (simp add: take_bit_eq_mod)
qed

lemma unat_drop4: "unat (drop_bit 4 v :: 64 word) = unat v div 16"
proof -
  have "unat (drop_bit 4 v) = drop_bit 4 (unat v)" by (rule unat_drop_bit_eq)
  also have "\<dots> = unat v div 16" by (simp add: drop_bit_eq_div)
  finally show ?thesis .
qed

lemma hex_digit_inj: "a < 16 \<Longrightarrow> b < 16 \<Longrightarrow> hex_digit a = hex_digit b \<Longrightarrow> a = b"
  by (metis hex_val_digit option.inject)

text \<open>Sixteen rounds of the loop write the last \<open>k\<close> base-16 digits in front of the buffer, so they determine the number.\<close>

lemma length_hexU64 [simp]: "length (hexU64_loop k v buf) = k + length buf"
  by (induction k v buf rule: hexU64_loop.induct) simp_all

lemma hexU64_append: "hexU64_loop k v buf = hexU64_loop k v [] @ buf"
proof (induction k arbitrary: v buf)
  case (Suc k)
  show ?case
    using Suc.IH [of "drop_bit 4 v" "hex_digit (unat (v AND 15)) # buf"] Suc.IH [of "drop_bit 4 v" "[hex_digit (unat (v AND 15))]"]
    by (metis append.assoc append_Cons append_Nil hexU64_loop.simps(2))
qed simp

lemma hexU64_inj: "hexU64_loop k v [] = hexU64_loop k w [] \<Longrightarrow> unat v mod 16 ^ k = unat w mod 16 ^ k"
proof (induction k arbitrary: v w)
  case (Suc k)
  have "hexU64_loop k (drop_bit 4 v) [] @ [hex_digit (unat (v AND 15))] = hexU64_loop k (drop_bit 4 w) [] @ [hex_digit (unat (w AND 15))]"
    using Suc.prems by (metis hexU64_loop.simps(2) hexU64_append)
  then have "unat v div 16 mod 16 ^ k = unat w div 16 mod 16 ^ k" "unat v mod 16 = unat w mod 16"
    using Suc.IH [of "drop_bit 4 v" "drop_bit 4 w"] hex_digit_inj [of "unat v mod 16" "unat w mod 16"]
    by (simp_all add: nibble unat_drop4)
  then show ?case
    by (simp only: power_Suc mod_mult2_eq)
qed simp

lemma appendHexU64_inj: "appendHexU64 [] v = appendHexU64 [] w \<Longrightarrow> v = w"
proof -
  assume "appendHexU64 [] v = appendHexU64 [] w"
  then have "unat v mod 16 ^ 16 = unat w mod 16 ^ 16"
    unfolding appendHexU64_def by (intro hexU64_inj) simp
  moreover have "unat v < 16 ^ 16" "unat w < 16 ^ 16"
    using unsigned_less [of v] unsigned_less [of w] by simp_all
  ultimately have "unat v = unat w" by simp
  then show "v = w" by (rule unsigned_word_eqI)
qed

text \<open>Capturing a body for inspection does not change what the upstream receives: unless reading fails, the request still
  delivers the whole original stream (with its final error, if it had one beyond the cap), the captured bytes are the first
  \<open>maxBytes\<close> of it, and a \<open>Content-Length\<close> that is set is the length of the stream.\<close>

theorem capture_preserves_body:
  assumes "0 < maxBytes" "maxBytes < 2 ^ 63 - 1"
    and "\<not> cr_err (Capture (Some b) maxBytes)"
  shows "map_option bs_data (cr_body (Capture (Some b) maxBytes)) = Some (bs_data b)
    \<and> (case cr_body (Capture (Some b) maxBytes) of None \<Rightarrow> False | Some b' \<Rightarrow> bs_fails b' \<longleftrightarrow> bs_fails b)
    \<and> cr_captured (Capture (Some b) maxBytes) = Some (take (nat maxBytes) (bs_data b))
    \<and> (case cr_contentLength (Capture (Some b) maxBytes) of None \<Rightarrow> int (length (bs_data b)) > maxBytes
        | Some n \<Rightarrow> n = int (length (bs_data b)))"
proof -
  have i: "int64 (maxBytes + 1) = maxBytes + 1"
    by (rule int64_id) (use assms in auto)
  have e: "\<not> (bs_fails b \<and> length (bs_data b) < nat (maxBytes + 1))"
    using assms by (auto simp: Capture_def readAllLimited_def i Let_def split: if_splits)
  have fit: "length (bs_data b) \<le> nat maxBytes" if "int (min (length (bs_data b)) (nat (maxBytes + 1))) \<le> maxBytes"
    using that assms(1) by linarith
  have over: "min (nat maxBytes) (nat (maxBytes + 1)) = nat maxBytes" using assms(1) by simp
  show ?thesis
  proof (cases "int (min (length (bs_data b)) (nat (maxBytes + 1))) \<le> maxBytes")
    case True
    have "take (nat (maxBytes + 1)) (bs_data b) = bs_data b" "take (nat maxBytes) (bs_data b) = bs_data b" "\<not> bs_fails b"
      "int (length (bs_data b)) \<le> maxBytes"
      using fit [OF True] e assms(1) by auto
    with True show ?thesis
      using assms(1) e by (simp add: Capture_def readAllLimited_def i Let_def)
  next
    case False
    then have "maxBytes < int (length (bs_data b))" using assms(1) by linarith
    with False assms(1) e over show ?thesis
      by (simp add: Capture_def readAllLimited_def i Let_def)
  qed
qed

lemma capture_preserves_body_witness:
  "cr_captured (Capture (Some \<lparr> bs_data = ''abcd'', bs_fails = True \<rparr>) 2) = Some ''ab''
   \<and> map_option bs_data (cr_body (Capture (Some \<lparr> bs_data = ''abcd'', bs_fails = True \<rparr>) 2)) = Some ''abcd''"
proof -
  have n: "\<not> cr_err (Capture (Some \<lparr> bs_data = ''abcd'', bs_fails = True \<rparr>) 2)"
    by (simp add: Capture_def readAllLimited_def int64_id)
  show ?thesis
    using capture_preserves_body [OF _ _ n] by simp
qed

text \<open>Identifiers handed out one after the other, each with its own clock reading and random bytes.\<close>

fun request_ids :: "64 word \<Rightarrow> (string \<times> 64 word) list \<Rightarrow> string list" where
  "request_ids c [] = []"
| "request_ids c ((rb, ts) # es) = (let (rid, c') = requestid_New c rb ts in rid # request_ids c' es)"

lemma request_ids_nth:
  "i < length es \<Longrightarrow> request_ids c es ! i
     = appendHexU64 [] (snd (es ! i)) @ appendHexU64 [] (c + 1 + of_nat i) @ hex_encode (fst (es ! i))"
proof (induction c es arbitrary: i rule: request_ids.induct)
  case (2 c rb ts es)
  show ?case
  proof (cases i)
    case 0
    then show ?thesis
      by (simp add: requestid_New_def Let_def appendHexU64_def appendHexBytes_def)
  next
    case (Suc j)
    then show ?thesis
      using 2 by (simp add: requestid_New_def Let_def add.assoc)
  qed
qed simp

lemma length_request_ids [simp]: "length (request_ids c es) = length es"
  by (induction c es rule: request_ids.induct) (simp_all add: requestid_New_def Let_def)

text \<open>C31: the identifiers of a run of requests are pairwise distinct, whatever the clock and the random source return, as long
  as the run is shorter than the period of the 64-bit counter; each is 48 characters long when the random source gives eight
  bytes.\<close>

theorem request_ids_distinct:
  assumes "length es < 2 ^ 64" "\<forall>e \<in> set es. length (fst e) = 8"
  shows "distinct (request_ids c es) \<and> (\<forall>rid \<in> set (request_ids c es). length rid = 48)"
proof
  show "distinct (request_ids c es)"
    unfolding distinct_conv_nth
  proof (intro allI impI notI)
    fix i j
    assume ij: "i < length (request_ids c es)" "j < length (request_ids c es)" "i \<noteq> j"
      and eq: "request_ids c es ! i = request_ids c es ! j"
    from ij eq have "appendHexU64 [] (c + 1 + of_nat i) = appendHexU64 [] (c + 1 + of_nat j)"
      by (simp add: request_ids_nth appendHexU64_def)
    then have "(of_nat i :: 64 word) = of_nat j"
      by (auto dest: appendHexU64_inj)
    with ij assms(1) show False
      by (simp add: word_of_nat_eq_iff take_bit_eq_mod)
  qed
  show "\<forall>rid \<in> set (request_ids c es). length rid = 48"
    using assms(2) by (auto simp: in_set_conv_nth request_ids_nth appendHexU64_def) (metis nth_mem fst_conv surjective_pairing)+
qed

lemma request_ids_distinct_witness:
  "distinct (request_ids (- 1) [(''aaaaaaaa'', 5), (''aaaaaaaa'', 5)])"
  using request_ids_distinct [of "[(''aaaaaaaa'', 5), (''aaaaaaaa'', 5)]" "- 1"] by simp

text \<open>A connection that starts with a well-formed PROXY line has, after its first read, the source address of the line as
  its remote address and delivers exactly the bytes after the line; one that starts with anything else keeps its peer and
  delivers every byte.  Before the first read the remote address is always the peer's.\<close>

theorem proxy_header_consumed_exactly:
  assumes "6 \<le> length input"
  shows "RemoteAddr (Accept peer input) = peer
    \<and> (\<forall>hd rest a. input = hd @ CHR 0x0A # rest \<longrightarrow> CHR 0x0A \<notin> set hd \<longrightarrow> HasPrefix hd ''PROXY '' \<longrightarrow>
         parseProxyLine (hd @ [CHR 0x0A]) = Inr (Some a) \<longrightarrow>
         (\<exists>c. conn_Read (Accept peer input) n = Inr (take n rest, c) \<and> RemoteAddr c = a \<and> conn_ensure c = Inr c
              \<and> pc_in c = drop n rest))
    \<and> (\<not> HasPrefix input ''PROXY '' \<longrightarrow>
         (\<exists>c. conn_Read (Accept peer input) n = Inr (take n input, c) \<and> RemoteAddr c = peer \<and> conn_ensure c = Inr c
              \<and> pc_in c = drop n input))"
proof (intro conjI allI impI)
  show "RemoteAddr (Accept peer input) = peer"
    by (simp add: RemoteAddr_def Accept_def)
next
  fix hd rest a
  assume i: "input = hd @ CHR 0x0A # rest" "CHR 0x0A \<notin> set hd" "HasPrefix hd ''PROXY ''"
    and p: "parseProxyLine (hd @ [CHR 0x0A]) = Inr (Some a)"
  have "HasPrefix input ''PROXY ''" using i(1,3) by (auto simp: HasPrefix_iff prefix_def)
  then show "\<exists>c. conn_Read (Accept peer input) n = Inr (take n rest, c) \<and> RemoteAddr c = a \<and> conn_ensure c = Inr c
      \<and> pc_in c = drop n rest"
    using assms i(2) p by (simp add: conn_Read_def conn_ensure_def Accept_def RemoteAddr_def i(1) IndexByte_append)
next
  assume "\<not> HasPrefix input ''PROXY ''"
  then show "\<exists>c. conn_Read (Accept peer input) n = Inr (take n input, c) \<and> RemoteAddr c = peer \<and> conn_ensure c = Inr c
      \<and> pc_in c = drop n input"
    using assms by (simp add: conn_Read_def conn_ensure_def Accept_def RemoteAddr_def)
qed

definition proxy_example :: string where
  "proxy_example = ''PROXY TCP4 1.0.0.9 1.0.0.1 25 80'' @ [CHR 0x0D]"

lemma proxy_header_consumed_exactly_witness:
  "\<exists>c a. conn_Read (Accept \<lparr> ta_IP = V4 1, ta_Port = 1 \<rparr> (proxy_example @ CHR 0x0A # ''GET /'')) 3 = Inr (''GET'', c)
     \<and> RemoteAddr c = a \<and> ta_Port a = 25"
proof -
  let ?in = "proxy_example @ CHR 0x0A # ''GET /''"
  have l: "6 \<le> length ?in" "CHR 0x0A \<notin> set proxy_example" "HasPrefix proxy_example ''PROXY ''" by code_simp+
  have f: "Fields (TrimSpace (proxy_example @ [CHR 0x0A])) = [''PROXY'', ''TCP4'', ''1.0.0.9'', ''1.0.0.1'', ''25'', ''80'']" by code_simp
  have ip: "net_ParseIP ''1.0.0.9'' = Some (V4 0x01000009)" by code_simp
  have port: "scan_int ''25'' = Some 25"
    by (simp add: scan_int_def ParseInt_def dec_nat_def is_digit_def digit_val_def)
  define a where "a = \<lparr> ta_IP = V4 0x01000009, ta_Port = 25 \<rparr>"
  have a: "parseProxyLine (proxy_example @ [CHR 0x0A]) = Inr (Some a)" "ta_Port a = 25"
    by (simp_all add: parseProxyLine_def f ip port a_def)
  have "\<exists>c. conn_Read (Accept \<lparr> ta_IP = V4 1, ta_Port = 1 \<rparr> ?in) 3 = Inr (take 3 ''GET /'', c) \<and> RemoteAddr c = a
      \<and> conn_ensure c = Inr c \<and> pc_in c = drop 3 ''GET /''"
    using proxy_header_consumed_exactly [OF l(1), of "\<lparr> ta_IP = V4 1, ta_Port = 1 \<rparr>" 3] l(2,3) a(1) by blast
  then show ?thesis using a(2) by auto
qed

end
