(* ===== verification/Sharding.thy ===== *)
theory Sharding
  imports GoStrings
begin

text \<open>
  \<open>internal/strhash\<close> and the sharded stores built on it.  The rate limiter, the ban table, the
  three detection trackers and the replay store all keep an array of \<open>n\<close> maps, each behind
  its own mutex, and put a key into shard \<open>strhash.String(key) % n\<close>.  The locale
  \<open>keyed_store\<close> is the contract those components rely on (a finite map with a purge and a
  count); the sharded array is shown to satisfy it for each of the shard counts in use,
  so a sharded component behaves as if it kept one flat map.
\<close>

section \<open>Definitions\<close>

text \<open>FNV-1a, 32 bits: \<open>h \<^bold>^= b; h *= prime\<close> per byte, wrapping.\<close>

definition strhash_step :: "32 word \<Rightarrow> char \<Rightarrow> 32 word" where
  "strhash_step h c = xor h (of_nat (byte_of c)) * 16777619"

definition strhash_String :: "string \<Rightarrow> 32 word" where
  "strhash_String s = foldl strhash_step 2166136261 s"

type_synonym 'v shards = "(string, 'v) gomap list"

definition shard_index :: "nat \<Rightarrow> string \<Rightarrow> nat" where
  "shard_index n k = unat (strhash_String k) mod n"

definition shard_new :: "nat \<Rightarrow> 'v shards" where
  "shard_new n = replicate n []"

definition shard_get :: "nat \<Rightarrow> 'v shards \<Rightarrow> string \<Rightarrow> 'v option" where
  "shard_get n sh k = map_of (sh ! shard_index n k) k"

definition shard_put :: "nat \<Rightarrow> string \<Rightarrow> 'v \<Rightarrow> 'v shards \<Rightarrow> 'v shards" where
  "shard_put n k v sh =
     (let i = shard_index n k in sh[i := AList.update k v (sh ! i)])"

definition shard_del :: "nat \<Rightarrow> string \<Rightarrow> 'v shards \<Rightarrow> 'v shards" where
  "shard_del n k sh =
     (let i = shard_index n k in sh[i := AList.delete k (sh ! i)])"

definition shard_purge :: "(string \<Rightarrow> 'v \<Rightarrow> bool) \<Rightarrow> 'v shards \<Rightarrow> 'v shards" where
  "shard_purge P sh = map (mpurge P) sh"

definition shard_count :: "'v shards \<Rightarrow> nat" where
  "shard_count sh = sum_list (map length sh)"

definition shard_entries :: "'v shards \<Rightarrow> (string \<times> 'v) list" where
  "shard_entries sh = concat sh"

definition shard_inv :: "nat \<Rightarrow> 'v shards \<Rightarrow> bool" where
  "shard_inv n sh \<longleftrightarrow>
     length sh = n \<and>
     (\<forall>i < n. wf_map (sh ! i) \<and> (\<forall>k \<in> fst ` set (sh ! i). shard_index n k = i))"

section \<open>The store contract\<close>

locale keyed_store =
  fixes empty :: 's
    and get :: "'s \<Rightarrow> 'k \<Rightarrow> 'v option"
    and put :: "'k \<Rightarrow> 'v \<Rightarrow> 's \<Rightarrow> 's"
    and del :: "'k \<Rightarrow> 's \<Rightarrow> 's"
    and purge :: "('k \<Rightarrow> 'v \<Rightarrow> bool) \<Rightarrow> 's \<Rightarrow> 's"
    and count :: "'s \<Rightarrow> nat"
    and entries :: "'s \<Rightarrow> ('k \<times> 'v) list"
    and invar :: "'s \<Rightarrow> bool"
  assumes invar_empty: "invar empty"
    and invar_put: "invar s \<Longrightarrow> invar (put k v s)"
    and invar_del: "invar s \<Longrightarrow> invar (del k s)"
    and invar_purge: "invar s \<Longrightarrow> invar (purge P s)"
    and get_empty: "get empty k = None"
    and get_put: "invar s \<Longrightarrow> get (put k v s) k' = (if k' = k then Some v else get s k')"
    and get_del: "invar s \<Longrightarrow> get (del k s) k' = (if k' = k then None else get s k')"
    and get_purge: "invar s \<Longrightarrow>
          get (purge P s) k = (case get s k of None \<Rightarrow> None | Some v \<Rightarrow> if P k v then None else Some v)"
    and entries_get: "invar s \<Longrightarrow> (k, v) \<in> set (entries s) \<longleftrightarrow> get s k = Some v"
    and entries_distinct: "invar s \<Longrightarrow> distinct (map fst (entries s))"
    and count_entries: "invar s \<Longrightarrow> count s = length (entries s)"
begin

lemmas store_invars = invar_empty invar_put invar_del invar_purge
lemmas store_gets = get_empty get_put get_del get_purge

lemma map_of_entries: "invar s \<Longrightarrow> map_of (entries s) = get s"
proof
  fix k
  assume inv: "invar s"
  show "map_of (entries s) k = get s k"
  proof (cases "get s k")
    case None
    then have "k \<notin> fst ` set (entries s)" using entries_get [OF inv] by force
    with None show ?thesis by (simp add: map_of_eq_None_iff)
  next
    case (Some v)
    then have "(k, v) \<in> set (entries s)" by (simp add: entries_get [OF inv])
    then have "map_of (entries s) k = Some v"
      by (simp add: entries_distinct [OF inv])
    with Some show ?thesis by simp
  qed
qed

lemma count_card: "invar s \<Longrightarrow> count s = card {k. get s k \<noteq> None}"
proof -
  assume inv: "invar s"
  have "{k. get s k \<noteq> None} = fst ` set (entries s)"
    using map_of_entries [OF inv] map_of_eq_None_iff [of "entries s"] by auto
  then have "card {k. get s k \<noteq> None} = length (map fst (entries s))"
    using distinct_card [OF entries_distinct [OF inv]] by simp
  then show ?thesis by (simp add: count_entries [OF inv])
qed

lemma count_empty: "count empty = 0"
  using count_card [OF invar_empty] by (simp add: get_empty)

lemma finite_keys: "invar s \<Longrightarrow> finite {k. get s k \<noteq> None}"
proof -
  assume inv: "invar s"
  have "{k. get s k \<noteq> None} = dom (map_of (entries s))"
    by (simp add: map_of_entries [OF inv] dom_def)
  then show ?thesis by (simp add: finite_dom_map_of)
qed

lemma count_put_le: "invar s \<Longrightarrow> count (put k v s) \<le> Suc (count s)"
proof -
  assume inv: "invar s"
  have "{j. get (put k v s) j \<noteq> None} = insert k {j. get s j \<noteq> None}"
    using inv by (auto simp: get_put)
  then have "count (put k v s) = card (insert k {j. get s j \<noteq> None})"
    using count_card [OF invar_put [OF inv]] by metis
  also have "\<dots> \<le> Suc (card {j. get s j \<noteq> None})"
    using finite_keys [OF inv] by (metis card_insert_if le_Suc_eq order_refl)
  finally show ?thesis using count_card [OF inv] by simp
qed

lemma get_purge_SomeD:
  "invar s \<Longrightarrow> get (purge P s) k = Some v \<Longrightarrow> get s k = Some v \<and> \<not> P k v"
  by (auto simp: get_purge split: option.splits if_splits)

end

section \<open>The sharded array satisfies it\<close>

lemma shard_index_less: "0 < n \<Longrightarrow> shard_index n k < n"
  by (simp add: shard_index_def)

lemma shard_inv_new: "shard_inv n (shard_new n)"
  by (simp add: shard_inv_def shard_new_def)

lemma shard_inv_lt: "0 < n \<Longrightarrow> shard_inv n sh \<Longrightarrow> shard_index n k < length sh"
  by (simp add: shard_inv_def shard_index_less)

lemma shard_inv_nth:
  "shard_inv n sh \<Longrightarrow> i < n \<Longrightarrow> wf_map (sh ! i)"
  "shard_inv n sh \<Longrightarrow> i < n \<Longrightarrow> (k, v) \<in> set (sh ! i) \<Longrightarrow> shard_index n k = i"
  by (force simp: shard_inv_def)+

lemma shard_inv_update:
  assumes "0 < n" "shard_inv n sh" "wf_map m"
    and keys: "fst ` set m \<subseteq> insert k (fst ` set (sh ! shard_index n k))"
  shows "shard_inv n (sh[shard_index n k := m])"
  unfolding shard_inv_def
proof (intro conjI allI impI ballI)
  show "length (sh[shard_index n k := m]) = n" using assms by (simp add: shard_inv_def)
next
  fix i assume "i < n"
  then show "wf_map (sh[shard_index n k := m] ! i)"
    using assms(2,3) shard_inv_lt [OF assms(1,2)]
    by (cases "i = shard_index n k") (simp_all add: shard_inv_nth(1))
next
  fix i j assume "i < n" "j \<in> fst ` set (sh[shard_index n k := m] ! i)"
  then show "shard_index n j = i"
    using assms shard_inv_lt [OF assms(1,2)] keys
    by (cases "i = shard_index n k") (fastforce simp: shard_inv_def)+
qed

lemma shard_inv_put: "0 < n \<Longrightarrow> shard_inv n sh \<Longrightarrow> shard_inv n (shard_put n k v sh)"
  unfolding shard_put_def Let_def
  by (rule shard_inv_update) (auto simp: shard_inv_nth(1) shard_index_less AList.dom_update)

lemma shard_inv_del: "0 < n \<Longrightarrow> shard_inv n sh \<Longrightarrow> shard_inv n (shard_del n k sh)"
  unfolding shard_del_def Let_def
  using AList.dom_delete_subset [of k "sh ! shard_index n k"]
  by (intro shard_inv_update) (auto simp: shard_inv_nth(1) shard_index_less)

lemma shard_inv_purge: "shard_inv n sh \<Longrightarrow> shard_inv n (shard_purge P sh)"
  using fst_mpurge by (fastforce simp: shard_inv_def shard_purge_def)

lemma shard_get_put:
  "0 < n \<Longrightarrow> shard_inv n sh \<Longrightarrow>
   shard_get n (shard_put n k v sh) k' = (if k' = k then Some v else shard_get n sh k')"
  using shard_inv_lt [of n sh k] by (auto simp: shard_get_def shard_put_def Let_def nth_list_update)

lemma shard_get_del:
  "0 < n \<Longrightarrow> shard_inv n sh \<Longrightarrow>
   shard_get n (shard_del n k sh) k' = (if k' = k then None else shard_get n sh k')"
  using shard_inv_lt [of n sh k] by (auto simp: shard_get_def shard_del_def Let_def nth_list_update)

lemma shard_get_purge:
  assumes "0 < n" "shard_inv n sh"
  shows "shard_get n (shard_purge P sh) k =
    (case shard_get n sh k of None \<Rightarrow> None | Some v \<Rightarrow> if P k v then None else Some v)"
  using assms
  by (simp add: shard_get_def shard_purge_def shard_inv_def shard_index_less map_of_mpurge)

lemma shard_entries_get:
  assumes "0 < n" "shard_inv n sh"
  shows "(k, v) \<in> set (shard_entries sh) \<longleftrightarrow> shard_get n sh k = Some v"
proof
  assume "(k, v) \<in> set (shard_entries sh)"
  then obtain m where "m \<in> set sh" "(k, v) \<in> set m" by (auto simp: shard_entries_def)
  then obtain i where i: "i < length sh" "(k, v) \<in> set (sh ! i)" by (auto simp: in_set_conv_nth)
  then have "shard_index n k = i" "wf_map (sh ! i)"
    using assms(2) shard_inv_nth [OF assms(2), of i] by (auto simp: shard_inv_def)
  with i show "shard_get n sh k = Some v" by (simp add: shard_get_def wf_map_def)
next
  assume "shard_get n sh k = Some v"
  then have "(k, v) \<in> set (sh ! shard_index n k)"
    by (auto simp: shard_get_def dest: map_of_SomeD)
  moreover have "shard_index n k < length sh"
    using assms by (simp add: shard_inv_def shard_index_less)
  ultimately show "(k, v) \<in> set (shard_entries sh)" by (auto simp: shard_entries_def)
qed

lemma shard_entries_distinct:
  assumes "shard_inv n sh"
  shows "distinct (map fst (shard_entries sh))"
proof -
  have "distinct (map fst (concat sh))"
    if "\<forall>i < length sh. wf_map (sh ! i)"
       "\<forall>i < length sh. \<forall>k \<in> fst ` set (sh ! i). f k = i + d" for d and f :: "string \<Rightarrow> nat"
    using that
  proof (induction sh arbitrary: d)
    case Nil
    then show ?case by simp
  next
    case (Cons m sh)
    have IH: "distinct (map fst (concat sh))"
    proof (rule Cons.IH)
      show "\<forall>i < length sh. wf_map (sh ! i)" using Cons.prems(1) by fastforce
      show "\<forall>i < length sh. \<forall>k \<in> fst ` set (sh ! i). f k = i + Suc d"
        using Cons.prems(2) by fastforce
    qed
    have here: "\<forall>k \<in> fst ` set m. f k = d" using Cons.prems(2) by fastforce
    have later: "\<forall>k \<in> fst ` set (concat sh). f k \<noteq> d"
    proof
      fix k assume "k \<in> fst ` set (concat sh)"
      then obtain i where "i < length sh" "k \<in> fst ` set (sh ! i)"
        by (auto simp: in_set_conv_nth) (metis fst_conv image_eqI in_set_conv_nth nth_mem)
      then have "f k = Suc i + d" using Cons.prems(2) by fastforce
      then show "f k \<noteq> d" by simp
    qed
    have "wf_map m" using Cons.prems(1) by fastforce
    with IH here later show ?case by (fastforce simp: wf_map_def)
  qed
  from this [of "shard_index n" 0] show ?thesis
    using assms by (auto simp: shard_inv_def shard_entries_def)
qed

lemma shard_count_entries: "shard_count sh = length (shard_entries sh)"
  by (simp add: shard_count_def shard_entries_def length_concat)

lemma shard_get_new: "0 < n \<Longrightarrow> shard_get n (shard_new n) k = None"
  by (simp add: shard_get_def shard_new_def shard_index_less)

lemmas shard_store_laws [store_laws] =
  shard_inv_new shard_inv_put shard_inv_del shard_inv_purge
  shard_get_new shard_get_put shard_get_del shard_get_purge
  shard_entries_get shard_entries_distinct shard_count_entries

interpretation store64: keyed_store "shard_new 64" "shard_get 64" "shard_put 64" "shard_del 64"
  shard_purge shard_count shard_entries "shard_inv 64"
  by unfold_locales (simp_all add: store_laws shard_entries_get [of 64])

interpretation store256: keyed_store "shard_new 256" "shard_get 256" "shard_put 256" "shard_del 256"
  shard_purge shard_count shard_entries "shard_inv 256"
  by unfold_locales (simp_all add: store_laws shard_entries_get [of 256])

end
