(* ===== verification/Ratelimit.thy ===== *)
theory Ratelimit
  imports Sharding
begin

text \<open>
  \<open>internal/ratelimit\<close>: a token bucket per client key, optionally with a second bucket per
  path, in 256 shards.  Buckets are refilled lazily from the time of their last use.
  The \<open>float64\<close> token counts are exact rationals here, so the bounds below are those of
  the algorithm without rounding.  The two \<open>sync.Pool\<close>s only recycle reset objects and are not
  part of the state.

  Shown: a client is granted at most \<open>l_burst + lc_rate * t\<close> units of cost in any period
  of length \<open>t\<close>, for every sequence of l_requests on any paths and any interleaved sweeps; a
  sweep older than the refill time of a full bucket changes no later answer; clients do not
  influence each other.
\<close>

section \<open>Definitions\<close>

definition secs :: "duration \<Rightarrow> rat" where
  "secs d = of_int d / 1000000000"

record liveCfg =
  lc_rate :: rat
  lc_burst :: rat
  lc_perPath :: bool

record entry =
  e_tokens :: rat
  e_last :: gotime

record clientBucket =
  b_tokens :: rat
  b_last :: gotime
  b_paths :: "(string, entry) gomap option"

record Limiter =
  l_requests :: int
  l_burst :: int
  l_window :: duration
  l_live :: "liveCfg option"
  l_shards :: "clientBucket shards"

definition Limiter_New :: "int \<Rightarrow> int \<Rightarrow> duration \<Rightarrow> bool \<Rightarrow> Limiter" where
  "Limiter_New reqs brst win pp =
     (let brst = (if brst \<le> 0 then reqs else brst);
          win = (if win \<le> 0 then minute else win)
      in \<lparr> l_requests = reqs, l_burst = brst, l_window = win,
           l_live = Some \<lparr> lc_rate = of_int reqs / secs win, lc_burst = of_int brst, lc_perPath = pp \<rparr>,
           l_shards = shard_new 256 \<rparr>)"

definition refillAllow ::
  "rat \<Rightarrow> gotime \<Rightarrow> gotime \<Rightarrow> rat \<Rightarrow> rat \<Rightarrow> rat \<Rightarrow> bool \<times> rat \<times> gotime" where
  "refillAllow tokens lst now rt brst need =
     (let elapsed = secs (now - lst);
          tokens = tokens + elapsed * rt;
          tokens = (if tokens > brst then brst else tokens)
      in if tokens < need then (False, tokens, now) else (True, tokens - need, now))"

definition Limiter_AllowN :: "Limiter \<Rightarrow> string \<Rightarrow> string \<Rightarrow> int \<Rightarrow> gotime \<Rightarrow> bool \<times> Limiter" where
  "Limiter_AllowN l ip path cost now =
     (let cost = (if cost \<le> 0 then 1 else cost) in
      case l_live l of
        None \<Rightarrow> (True, l)
      | Some cfg \<Rightarrow>
          let need = of_int cost;
              b = (case shard_get 256 (l_shards l) ip of
                     None \<Rightarrow> \<lparr> b_tokens = lc_burst cfg, b_last = now, b_paths = None \<rparr>
                   | Some b \<Rightarrow> b);
              (clientOK, tok, lst) = refillAllow (b_tokens b) (b_last b) now (lc_rate cfg) (lc_burst cfg) need;
              b = b\<lparr> b_tokens := tok, b_last := lst \<rparr>
          in if \<not> lc_perPath cfg then (clientOK, l\<lparr> l_shards := shard_put 256 ip b (l_shards l) \<rparr>)
             else
               let path = (if path = '''' then ''/'' else path);
                   paths = (case b_paths b of None \<Rightarrow> [] | Some m \<Rightarrow> m);
                   e = (case map_of paths path of
                          None \<Rightarrow> \<lparr> e_tokens = lc_burst cfg, e_last = now \<rparr>
                        | Some e \<Rightarrow> e);
                   (pathOK, ptok, plst) = refillAllow (e_tokens e) (e_last e) now (lc_rate cfg) (lc_burst cfg) need;
                   e = \<lparr> e_tokens = ptok, e_last = plst \<rparr>;
                   b = b\<lparr> b_paths := Some (AList.update path e paths) \<rparr>
               in (clientOK \<and> pathOK, l\<lparr> l_shards := shard_put 256 ip b (l_shards l) \<rparr>))"

definition Limiter_Allow :: "Limiter \<Rightarrow> string \<Rightarrow> string \<Rightarrow> gotime \<Rightarrow> bool \<times> Limiter" where
  "Limiter_Allow l ip path now = Limiter_AllowN l ip path 1 now"

text \<open>One bucket of \<open>Sweep\<close>: what is left of it, or \<open>None\<close> when it is deleted.\<close>

definition sweep_paths :: "gotime \<Rightarrow> (string, entry) gomap \<Rightarrow> (string, entry) gomap" where
  "sweep_paths cutoff m = mpurge (\<lambda>pk e. e_last e < cutoff) m"

definition sweep_bucket :: "bool \<Rightarrow> gotime \<Rightarrow> clientBucket \<Rightarrow> clientBucket option" where
  "sweep_bucket pp cutoff b =
     (case (if pp then b_paths b else None) of
        Some m \<Rightarrow>
          let m' = sweep_paths cutoff m
          in if m' = [] \<and> b_last b < cutoff then None else Some (b\<lparr> b_paths := Some m' \<rparr>)
      | None \<Rightarrow> if b_last b < cutoff then None else Some b)"

definition sweep_shard ::
  "bool \<Rightarrow> gotime \<Rightarrow> (string, clientBucket) gomap \<Rightarrow> (string, clientBucket) gomap" where
  "sweep_shard pp cutoff m =
     concat (map (\<lambda>(k, b). case sweep_bucket pp cutoff b of None \<Rightarrow> [] | Some b' \<Rightarrow> [(k, b')]) m)"

definition Limiter_Sweep :: "Limiter \<Rightarrow> duration \<Rightarrow> gotime \<Rightarrow> Limiter" where
  "Limiter_Sweep l maxAge now =
     (let cutoff = now - maxAge;
          pp = (case l_live l of None \<Rightarrow> False | Some cfg \<Rightarrow> lc_perPath cfg)
      in l\<lparr> l_shards := map (sweep_shard pp cutoff) (l_shards l) \<rparr>)"

definition Limiter_ActiveBuckets :: "Limiter option \<Rightarrow> nat" where
  "Limiter_ActiveBuckets l = (case l of None \<Rightarrow> 0 | Some l \<Rightarrow> shard_count (l_shards l))"

definition Limiter_Update :: "Limiter \<Rightarrow> int \<Rightarrow> int \<Rightarrow> duration \<Rightarrow> bool \<Rightarrow> Limiter" where
  "Limiter_Update l reqs brst win pp =
     (if reqs \<le> 0 then l
      else let brst = (if brst \<le> 0 then reqs else brst);
               win = (if win \<le> 0 then minute else win)
           in l\<lparr> l_requests := reqs, l_burst := brst, l_window := win,
                 l_live := Some \<lparr> lc_rate = of_int reqs / secs win, lc_burst = of_int brst, lc_perPath = pp \<rparr> \<rparr>)"

text \<open>Runs of the limiter: requests of any client and sweeps, each at its time.\<close>

datatype rl_event =
    RL_Allow gotime string string int
  | RL_Sweep gotime duration

fun rl_time :: "rl_event \<Rightarrow> gotime" where
  "rl_time (RL_Allow t _ _ _) = t"
| "rl_time (RL_Sweep t _) = t"

definition eff_cost :: "int \<Rightarrow> int" where
  "eff_cost cost = (if cost \<le> 0 then 1 else cost)"

text \<open>\<open>rl_granted c l evs\<close> is the total cost of the l_requests of client \<open>c\<close> that are allowed.\<close>

fun rl_granted :: "string \<Rightarrow> Limiter \<Rightarrow> rl_event list \<Rightarrow> int" where
  "rl_granted c l [] = 0"
| "rl_granted c l (RL_Allow t ip path cost # evs) =
     (let (ok, l') = Limiter_AllowN l ip path cost t
      in (if ok \<and> ip = c then eff_cost cost else 0) + rl_granted c l' evs)"
| "rl_granted c l (RL_Sweep t maxAge # evs) = rl_granted c (Limiter_Sweep l maxAge t) evs"

text \<open>\<open>rl_answers l evs\<close> are the answers to the requests of a run.\<close>

fun rl_answers :: "Limiter \<Rightarrow> rl_event list \<Rightarrow> bool list" where
  "rl_answers l [] = []"
| "rl_answers l (RL_Allow t ip path cost # evs) =
     (let (ok, l') = Limiter_AllowN l ip path cost t in ok # rl_answers l' evs)"
| "rl_answers l (RL_Sweep t maxAge # evs) = rl_answers (Limiter_Sweep l maxAge t) evs"

text \<open>What a bucket would hold at time \<open>t\<close>; a missing bucket counts as full.\<close>

definition bucket_avail :: "liveCfg \<Rightarrow> rat \<Rightarrow> gotime \<Rightarrow> gotime \<Rightarrow> rat" where
  "bucket_avail cfg tok lst t = min (lc_burst cfg) (tok + secs (t - lst) * lc_rate cfg)"

definition client_avail :: "liveCfg \<Rightarrow> Limiter \<Rightarrow> string \<Rightarrow> gotime \<Rightarrow> rat" where
  "client_avail cfg l ip t =
     (case shard_get 256 (l_shards l) ip of
        None \<Rightarrow> lc_burst cfg
      | Some b \<Rightarrow> bucket_avail cfg (b_tokens b) (b_last b) t)"

definition path_avail :: "liveCfg \<Rightarrow> Limiter \<Rightarrow> string \<Rightarrow> string \<Rightarrow> gotime \<Rightarrow> rat" where
  "path_avail cfg l ip path t =
     (case shard_get 256 (l_shards l) ip of
        None \<Rightarrow> lc_burst cfg
      | Some b \<Rightarrow> (case map_of (case b_paths b of None \<Rightarrow> [] | Some m \<Rightarrow> m) path of
           None \<Rightarrow> lc_burst cfg
         | Some e \<Rightarrow> bucket_avail cfg (e_tokens e) (e_last e) t))"

text \<open>Token counts never negative, path maps well-formed, last uses not after \<open>t\<close>.\<close>

definition rl_bucket_ok :: "gotime \<Rightarrow> clientBucket \<Rightarrow> bool" where
  "rl_bucket_ok t b \<longleftrightarrow>
     0 \<le> b_tokens b \<and> b_last b \<le> t \<and>
     (case b_paths b of None \<Rightarrow> True
      | Some m \<Rightarrow> wf_map m \<and> (\<forall>(p, e) \<in> set m. 0 \<le> e_tokens e \<and> e_last e \<le> t))"

definition rl_ok :: "liveCfg \<Rightarrow> gotime \<Rightarrow> Limiter \<Rightarrow> bool" where
  "rl_ok cfg t l \<longleftrightarrow>
     l_live l = Some cfg \<and> 0 \<le> lc_rate cfg \<and> 0 \<le> lc_burst cfg \<and> shard_inv 256 (l_shards l) \<and>
     (\<forall>k b. shard_get 256 (l_shards l) k = Some b \<longrightarrow> rl_bucket_ok t b)"

section \<open>One bucket\<close>

definition charge :: "rat \<Rightarrow> rat \<Rightarrow> rat" where
  "charge a need = (if a < need then a else a - need)"

lemma secs_add: "secs (a + b) = secs a + secs b"
  by (simp add: secs_def add_divide_distrib)

lemma secs_nonneg: "0 \<le> d \<Longrightarrow> 0 \<le> secs d"
  by (simp add: secs_def)

lemma refillAllow_avail:
  "refillAllow tok lst now (lc_rate cfg) (lc_burst cfg) need =
     (need \<le> bucket_avail cfg tok lst now, charge (bucket_avail cfg tok lst now) need, now)"
  by (auto simp: refillAllow_def bucket_avail_def charge_def Let_def min_def)

lemma bucket_avail_now [simp]: "tok \<le> lc_burst cfg \<Longrightarrow> bucket_avail cfg tok t t = tok"
  by (simp add: bucket_avail_def secs_def)

lemma bucket_avail_le: "bucket_avail cfg tok lst t \<le> lc_burst cfg"
  by (simp add: bucket_avail_def)

lemma bucket_avail_nonneg:
  "0 \<le> tok \<Longrightarrow> lst \<le> t \<Longrightarrow> 0 \<le> lc_rate cfg \<Longrightarrow> 0 \<le> lc_burst cfg \<Longrightarrow> 0 \<le> bucket_avail cfg tok lst t"
  by (simp add: bucket_avail_def secs_nonneg)

lemma bucket_avail_grow:
  assumes "0 \<le> lc_rate cfg" "t \<le> t'"
  shows "bucket_avail cfg tok lst t' \<le> bucket_avail cfg tok lst t + secs (t' - t) * lc_rate cfg"
proof -
  have "secs (t' - lst) = secs (t - lst) + secs (t' - t)"
    using secs_add [of "t - lst" "t' - t"] by simp
  moreover have "0 \<le> secs (t' - t) * lc_rate cfg" using assms by (simp add: secs_nonneg)
  ultimately show ?thesis by (auto simp: bucket_avail_def min_def distrib_right)
qed

text \<open>A bucket idle for as long as a full refill takes is full again.\<close>

lemma bucket_avail_full:
  assumes "0 \<le> tok" "0 \<le> lc_rate cfg" "lc_burst cfg \<le> secs age * lc_rate cfg" "lst \<le> t - age"
  shows "bucket_avail cfg tok lst t = lc_burst cfg"
proof -
  have "secs (t - lst) = secs age + secs (t - lst - age)"
    using secs_add [of age "t - lst - age"] by simp
  moreover have "0 \<le> secs (t - lst - age) * lc_rate cfg" using assms by (simp add: secs_nonneg)
  ultimately have "lc_burst cfg \<le> tok + secs (t - lst) * lc_rate cfg"
    using assms by (simp add: distrib_right)
  then show ?thesis by (simp add: bucket_avail_def)
qed

section \<open>One request\<close>

definition norm_path :: "string \<Rightarrow> string" where
  "norm_path path = (if path = [] then ''/'' else path)"

definition old_paths :: "Limiter \<Rightarrow> string \<Rightarrow> (string, entry) gomap option" where
  "old_paths l ip = (case shard_get 256 (l_shards l) ip of None \<Rightarrow> None | Some b \<Rightarrow> b_paths b)"

definition path_map :: "(string, entry) gomap option \<Rightarrow> (string, entry) gomap" where
  "path_map ps = (case ps of None \<Rightarrow> [] | Some m \<Rightarrow> m)"

definition new_bucket :: "liveCfg \<Rightarrow> Limiter \<Rightarrow> string \<Rightarrow> string \<Rightarrow> rat \<Rightarrow> gotime \<Rightarrow> clientBucket" where
  "new_bucket cfg l ip path need now =
     \<lparr> b_tokens = charge (client_avail cfg l ip now) need, b_last = now,
       b_paths = (if lc_perPath cfg
                  then Some (AList.update (norm_path path)
                              \<lparr> e_tokens = charge (path_avail cfg l ip (norm_path path) now) need, e_last = now \<rparr>
                              (path_map (old_paths l ip)))
                  else old_paths l ip) \<rparr>"

lemma client_avail_simps [simp]:
  "shard_get 256 (l_shards l) ip = None \<Longrightarrow> client_avail cfg l ip t = lc_burst cfg"
  "shard_get 256 (l_shards l) ip = Some b \<Longrightarrow>
     client_avail cfg l ip t = bucket_avail cfg (b_tokens b) (b_last b) t"
  by (simp_all add: client_avail_def)

lemma path_avail_alt:
  "path_avail cfg l ip path t =
     (case map_of (path_map (old_paths l ip)) path of
        None \<Rightarrow> lc_burst cfg | Some e \<Rightarrow> bucket_avail cfg (e_tokens e) (e_last e) t)"
  by (simp add: path_avail_def path_map_def old_paths_def split: option.splits)

text \<open>The whole of \<open>AllowN\<close> in terms of what the two buckets hold now.\<close>

lemma AllowN_eq:
  assumes "l_live l = Some cfg"
  shows "Limiter_AllowN l ip path cost now =
    (let need = of_int (eff_cost cost)
     in (need \<le> client_avail cfg l ip now \<and>
         (lc_perPath cfg \<longrightarrow> need \<le> path_avail cfg l ip (norm_path path) now),
         l\<lparr> l_shards := shard_put 256 ip (new_bucket cfg l ip path need now) (l_shards l) \<rparr>))"
proof -
  have path: "path_avail cfg l ip p now =
      (case map_of (path_map (old_paths l ip)) p of
         None \<Rightarrow> bucket_avail cfg (lc_burst cfg) now now
       | Some e \<Rightarrow> bucket_avail cfg (e_tokens e) (e_last e) now)" for p
    by (simp add: path_avail_alt split: option.splits)
  have upd: "b\<lparr> b_tokens := x, b_last := y \<rparr> = \<lparr> b_tokens = x, b_last = y, b_paths = b_paths b \<rparr>"
    for b :: clientBucket and x y by (cases b) simp
  show ?thesis
    using assms
    by (cases "shard_get 256 (l_shards l) ip")
      (auto simp: Limiter_AllowN_def refillAllow_avail eff_cost_def new_bucket_def upd
        norm_path_def path path_map_def old_paths_def Let_def split: option.splits)
qed

lemma AllowN_live [simp]: "l_live (snd (Limiter_AllowN l ip path cost now)) = l_live l"
proof (cases "l_live l")
  case None
  then show ?thesis by (simp add: Limiter_AllowN_def)
next
  case (Some cfg)
  then show ?thesis by (simp add: AllowN_eq Let_def)
qed

lemma AllowN_get:
  assumes "l_live l = Some cfg" "shard_inv 256 (l_shards l)"
  shows "shard_get 256 (l_shards (snd (Limiter_AllowN l ip path cost now))) k =
    (if k = ip then Some (new_bucket cfg l ip path (of_int (eff_cost cost)) now)
     else shard_get 256 (l_shards l) k)"
  using assms by (simp add: AllowN_eq Let_def store256.get_put)

lemma AllowN_shard_inv:
  "shard_inv 256 (l_shards l) \<Longrightarrow> shard_inv 256 (l_shards (snd (Limiter_AllowN l ip path cost now)))"
proof (cases "l_live l")
  case None
  then show "shard_inv 256 (l_shards l) \<Longrightarrow> ?thesis" by (simp add: Limiter_AllowN_def)
next
  case (Some cfg)
  then show "shard_inv 256 (l_shards l) \<Longrightarrow> ?thesis" by (simp add: AllowN_eq Let_def store256.invar_put)
qed

lemma eff_cost_pos: "0 < eff_cost cost"
  by (simp add: eff_cost_def)

lemma charge_nonneg: "0 \<le> a \<Longrightarrow> 0 \<le> charge a need"
  by (simp add: charge_def)

lemma charge_le: "0 \<le> need \<Longrightarrow> charge a need \<le> a"
  by (simp add: charge_def)

lemma client_avail_nonneg: "rl_ok cfg t l \<Longrightarrow> t \<le> now \<Longrightarrow> 0 \<le> client_avail cfg l ip now"
  by (cases "shard_get 256 (l_shards l) ip")
    (auto simp: rl_ok_def rl_bucket_ok_def intro!: bucket_avail_nonneg dest: order_trans)

lemma client_avail_le: "client_avail cfg l ip t \<le> lc_burst cfg"
  by (cases "shard_get 256 (l_shards l) ip") (auto simp: bucket_avail_le)

lemma path_avail_le: "path_avail cfg l ip p t \<le> lc_burst cfg"
  by (auto simp: path_avail_alt bucket_avail_le split: option.splits)

lemma rl_ok_paths:
  assumes "rl_ok cfg t l"
  shows "wf_map (path_map (old_paths l ip))"
    and "(p, e) \<in> set (path_map (old_paths l ip)) \<Longrightarrow> 0 \<le> e_tokens e \<and> e_last e \<le> t"
proof -
  have b: "rl_bucket_ok t b" if "shard_get 256 (l_shards l) ip = Some b" for b
    using assms that by (simp add: rl_ok_def)
  show "wf_map (path_map (old_paths l ip))"
    using b by (auto simp: rl_bucket_ok_def path_map_def old_paths_def split: option.splits)
  show "(p, e) \<in> set (path_map (old_paths l ip)) \<Longrightarrow> 0 \<le> e_tokens e \<and> e_last e \<le> t"
    using b by (fastforce simp: rl_bucket_ok_def path_map_def old_paths_def split: option.splits)
qed

lemma path_avail_nonneg:
  assumes "rl_ok cfg t l" "t \<le> now"
  shows "0 \<le> path_avail cfg l ip p now"
proof (cases "map_of (path_map (old_paths l ip)) p")
  case None
  then show ?thesis using assms by (simp add: path_avail_alt rl_ok_def)
next
  case (Some e)
  then have "0 \<le> e_tokens e \<and> e_last e \<le> t"
    using rl_ok_paths(2) [OF assms(1)] by (auto dest: map_of_SomeD)
  then show ?thesis
    using Some assms by (auto simp: path_avail_alt rl_ok_def intro!: bucket_avail_nonneg)
qed

lemma new_bucket_ok:
  assumes "rl_ok cfg t l" "t \<le> now"
  shows "rl_bucket_ok now (new_bucket cfg l ip path need now)"
proof -
  have paths: "wf_map m \<and> (\<forall>(p, e) \<in> set m. 0 \<le> e_tokens e \<and> e_last e \<le> now)"
    if "old_paths l ip = Some m" for m
    using rl_ok_paths(1) [OF assms(1), of ip] rl_ok_paths(2) [OF assms(1), of _ _ ip] that assms(2)
    by (fastforce simp: path_map_def)
  have upd: "(p, e) \<in> set (AList.update k v m) \<Longrightarrow> (p, e) = (k, v) \<or> (p, e) \<in> set m"
    for p k and e v :: entry and m by (induction m) (auto split: if_splits)
  have "\<forall>(p, e) \<in> set (path_map (old_paths l ip)). 0 \<le> e_tokens e \<and> e_last e \<le> now"
    using rl_ok_paths(2) [OF assms(1), of _ _ ip] assms(2) by fastforce
  then show ?thesis
    using assms paths rl_ok_paths(1) [OF assms(1), of ip]
    by (auto simp: rl_bucket_ok_def new_bucket_def client_avail_nonneg path_avail_nonneg charge_nonneg
        split: option.splits dest!: upd)
qed

lemma rl_bucket_ok_mono: "rl_bucket_ok t b \<Longrightarrow> t \<le> t' \<Longrightarrow> rl_bucket_ok t' b"
  by (force simp: rl_bucket_ok_def split: option.splits)

lemma rl_ok_mono: "rl_ok cfg t l \<Longrightarrow> t \<le> t' \<Longrightarrow> rl_ok cfg t' l"
  unfolding rl_ok_def using rl_bucket_ok_mono by blast

lemma AllowN_ok:
  assumes "rl_ok cfg t l" "t \<le> now"
  shows "rl_ok cfg now (snd (Limiter_AllowN l ip path cost now))"
proof -
  have live: "l_live l = Some cfg" and inv: "shard_inv 256 (l_shards l)"
    using assms(1) by (auto simp: rl_ok_def)
  have "rl_bucket_ok now b" if "shard_get 256 (l_shards l) k = Some b" for k b
    using assms that by (auto simp: rl_ok_def intro: rl_bucket_ok_mono [where t = t])
  then show ?thesis
    using assms new_bucket_ok [OF assms] AllowN_shard_inv [OF inv]
    by (auto simp: rl_ok_def AllowN_get [OF live inv] split: if_splits)
qed

lemma AllowN_avail:
  assumes "rl_ok cfg t l" "t \<le> now"
  shows "client_avail cfg (snd (Limiter_AllowN l ip path cost now)) k now =
    (if k = ip then charge (client_avail cfg l ip now) (of_int (eff_cost cost)) else client_avail cfg l k now)"
proof -
  have live: "l_live l = Some cfg" and inv: "shard_inv 256 (l_shards l)"
    using assms(1) by (auto simp: rl_ok_def)
  have "0 \<le> (of_int (eff_cost cost) :: rat)" using eff_cost_pos [of cost] by simp
  then have "charge (client_avail cfg l ip now) (of_int (eff_cost cost)) \<le> lc_burst cfg"
    using charge_le client_avail_le order_trans by blast
  then show ?thesis
    by (simp add: client_avail_def AllowN_get [OF live inv] new_bucket_def)
qed

lemma AllowN_fst:
  assumes "l_live l = Some cfg"
  shows "fst (Limiter_AllowN l ip path cost now) \<longleftrightarrow>
    of_int (eff_cost cost) \<le> client_avail cfg l ip now \<and>
    (lc_perPath cfg \<longrightarrow> of_int (eff_cost cost) \<le> path_avail cfg l ip (norm_path path) now)"
  by (simp add: AllowN_eq [OF assms] Let_def)

lemma client_avail_grow:
  assumes "rl_ok cfg t0 l" "t \<le> t'"
  shows "client_avail cfg l ip t' \<le> client_avail cfg l ip t + secs (t' - t) * lc_rate cfg"
  using assms
  by (cases "shard_get 256 (l_shards l) ip")
    (auto simp: rl_ok_def secs_nonneg intro: bucket_avail_grow)

section \<open>Sweeps\<close>

lemma sweep_shard_simps [simp]:
  "sweep_shard pp cutoff [] = []"
  "sweep_shard pp cutoff ((k, b) # m) =
     (case sweep_bucket pp cutoff b of None \<Rightarrow> sweep_shard pp cutoff m
      | Some b' \<Rightarrow> (k, b') # sweep_shard pp cutoff m)"
  by (simp_all add: sweep_shard_def split: option.splits)

lemma fst_sweep_shard: "(k, b) \<in> set (sweep_shard pp cutoff m) \<Longrightarrow> k \<in> fst ` set m"
  by (induction m) (auto split: option.splits)

lemma wf_map_sweep_shard: "wf_map m \<Longrightarrow> wf_map (sweep_shard pp cutoff m)"
proof (induction m)
  case (Cons kb m)
  obtain k b where kb: "kb = (k, b)" by (cases kb)
  have "k \<notin> fst ` set (sweep_shard pp cutoff m)"
    using Cons.prems kb fst_sweep_shard [of k _ pp cutoff m] by (force simp: wf_map_def)
  then show ?case using Cons kb by (auto simp: wf_map_def split: option.splits)
qed simp

lemma map_of_sweep_shard:
  "wf_map m \<Longrightarrow> map_of (sweep_shard pp cutoff m) k = Option.bind (map_of m k) (sweep_bucket pp cutoff)"
proof (induction m)
  case (Cons kb m)
  obtain k' b where kb: "kb = (k', b)" by (cases kb)
  have "map_of (sweep_shard pp cutoff m) k' = None"
    using Cons.prems kb fst_sweep_shard [of k' _ pp cutoff m]
    by (force simp: map_of_eq_None_iff wf_map_def)
  then show ?case
    using Cons kb by (auto simp: wf_map_def split: option.splits)
qed simp

definition sweep_pp :: "Limiter \<Rightarrow> bool" where
  "sweep_pp l = (case l_live l of None \<Rightarrow> False | Some cfg \<Rightarrow> lc_perPath cfg)"

lemma Sweep_get:
  assumes "shard_inv 256 (l_shards l)"
  shows "shard_get 256 (l_shards (Limiter_Sweep l maxAge now)) k =
    Option.bind (shard_get 256 (l_shards l) k) (sweep_bucket (sweep_pp l) (now - maxAge))"
  using assms
  by (simp add: Limiter_Sweep_def shard_get_def shard_inv_def shard_index_less map_of_sweep_shard
      sweep_pp_def Let_def)

lemma Sweep_shard_inv: "shard_inv 256 (l_shards l) \<Longrightarrow> shard_inv 256 (l_shards (Limiter_Sweep l maxAge now))"
proof -
  assume inv: "shard_inv 256 (l_shards l)"
  have "j \<in> fst ` set (sweep_shard pp c (l_shards l ! i)) \<Longrightarrow> i < 256 \<Longrightarrow> shard_index 256 j = i" for i j pp c
    using fst_sweep_shard [of j _ pp c "l_shards l ! i"] shard_inv_nth(2) [OF inv, of i j] by fastforce
  then show ?thesis
    using inv by (auto simp: shard_inv_def Limiter_Sweep_def Let_def wf_map_sweep_shard)
qed

lemma Sweep_live [simp]: "l_live (Limiter_Sweep l maxAge now) = l_live l"
  by (simp add: Limiter_Sweep_def Let_def)

lemma sweep_bucket_ok:
  "rl_bucket_ok t b \<Longrightarrow> sweep_bucket pp cutoff b = Some b' \<Longrightarrow> rl_bucket_ok t b'"
proof -
  assume ok: "rl_bucket_ok t b" and sw: "sweep_bucket pp cutoff b = Some b'"
  have sub: "set (sweep_paths cutoff m) \<subseteq> set m" for m by (auto simp: sweep_paths_def mpurge_def)
  have wf: "wf_map m \<Longrightarrow> wf_map (sweep_paths cutoff m)" for m by (simp add: sweep_paths_def)
  show ?thesis
    using ok sw sub wf
    by (fastforce simp: sweep_bucket_def rl_bucket_ok_def Let_def split: option.splits if_splits)
qed

lemma Sweep_ok:
  assumes "rl_ok cfg t l" "t \<le> now"
  shows "rl_ok cfg now (Limiter_Sweep l maxAge now)"
proof -
  have inv: "shard_inv 256 (l_shards l)" using assms(1) by (simp add: rl_ok_def)
  have "rl_bucket_ok now b'"
    if "Option.bind (shard_get 256 (l_shards l) k) (sweep_bucket pp c) = Some b'" for k b' pp c
    using that assms by (auto simp: rl_ok_def bind_eq_Some_conv
        intro: rl_bucket_ok_mono [where t = t] dest: sweep_bucket_ok)
  then show ?thesis
    using assms(1) inv by (auto simp: rl_ok_def Sweep_get Sweep_shard_inv)
qed

lemma sweep_bucket_None:
  "sweep_bucket pp cutoff b = None \<Longrightarrow>
   b_last b < cutoff \<and> (pp \<longrightarrow> (\<forall>(p, e) \<in> set (path_map (b_paths b)). e_last e < cutoff))"
  by (auto simp: sweep_bucket_def sweep_paths_def mpurge_def path_map_def Let_def filter_empty_conv
      split: option.splits if_splits)

lemma sweep_bucket_Some:
  assumes "sweep_bucket pp cutoff b = Some b'"
  shows "b_tokens b' = b_tokens b \<and> b_last b' = b_last b \<and>
    path_map (b_paths b') = (if pp then sweep_paths cutoff (path_map (b_paths b)) else path_map (b_paths b))"
  using assms
  by (auto simp: sweep_bucket_def path_map_def sweep_paths_def mpurge_def Let_def
      split: option.splits if_splits)

lemma Sweep_client_avail:
  assumes "rl_ok cfg t l" "t \<le> now" "now \<le> t'" "lc_burst cfg \<le> secs maxAge * lc_rate cfg"
  shows "client_avail cfg (Limiter_Sweep l maxAge now) ip t' = client_avail cfg l ip t'"
proof (cases "shard_get 256 (l_shards l) ip")
  case None
  then show ?thesis using assms(1) by (simp add: rl_ok_def Sweep_get client_avail_def)
next
  case (Some b)
  then have ok: "rl_bucket_ok t b" using assms(1) by (simp add: rl_ok_def)
  have get: "shard_get 256 (l_shards (Limiter_Sweep l maxAge now)) ip =
      sweep_bucket (sweep_pp l) (now - maxAge) b"
    using Some assms(1) by (simp add: rl_ok_def Sweep_get)
  show ?thesis
  proof (cases "sweep_bucket (sweep_pp l) (now - maxAge) b")
    case None
    then have "b_last b \<le> t' - maxAge" using sweep_bucket_None [OF None] assms(3) by linarith
    then have "bucket_avail cfg (b_tokens b) (b_last b) t' = lc_burst cfg"
      using ok assms by (intro bucket_avail_full [where age = maxAge]) (auto simp: rl_bucket_ok_def rl_ok_def)
    then show ?thesis using Some None get by simp
  next
    case (Some b')
    then show ?thesis
      using sweep_bucket_Some [OF Some] \<open>shard_get 256 (l_shards l) ip = Some b\<close> get by simp
  qed
qed

lemma Sweep_path_avail:
  assumes "rl_ok cfg t l" "t \<le> now" "now \<le> t'" "lc_burst cfg \<le> secs maxAge * lc_rate cfg" "lc_perPath cfg"
  shows "path_avail cfg (Limiter_Sweep l maxAge now) ip p t' = path_avail cfg l ip p t'"
proof -
  have wf: "wf_map (path_map (old_paths l ip))" using rl_ok_paths(1) [OF assms(1)] .
  have pp: "sweep_pp l" and inv: "shard_inv 256 (l_shards l)"
    using assms by (auto simp: sweep_pp_def rl_ok_def)
  have full: "bucket_avail cfg (e_tokens e) (e_last e) t' = lc_burst cfg"
    if "map_of (path_map (old_paths l ip)) p = Some e" "e_last e < now - maxAge" for e
  proof (rule bucket_avail_full [where age = maxAge])
    show "0 \<le> e_tokens e" using rl_ok_paths(2) [OF assms(1)] that(1) by (auto dest: map_of_SomeD)
  qed (use assms that in \<open>auto simp: rl_ok_def\<close>)
  have map: "map_of (path_map (old_paths (Limiter_Sweep l maxAge now) ip)) p =
      (case map_of (path_map (old_paths l ip)) p of
         None \<Rightarrow> None | Some e \<Rightarrow> if e_last e < now - maxAge then None else Some e)"
  proof (cases "shard_get 256 (l_shards l) ip")
    case None
    then show ?thesis by (simp add: old_paths_def path_map_def Sweep_get [OF inv])
  next
    case (Some b)
    then have old: "old_paths l ip = b_paths b" by (simp add: old_paths_def)
    show ?thesis
    proof (cases "sweep_bucket True (now - maxAge) b")
      case None
      then show ?thesis
        using sweep_bucket_None [OF None] Some old pp
        by (auto simp: old_paths_def path_map_def Sweep_get [OF inv] split: option.splits dest: map_of_SomeD)
    next
      case new: (Some b')
      have "old_paths (Limiter_Sweep l maxAge now) ip = b_paths b'"
        using Some new pp by (simp add: old_paths_def Sweep_get [OF inv])
      then show ?thesis
        using sweep_bucket_Some [OF new] wf old
        by (simp add: sweep_paths_def map_of_mpurge split: option.splits)
    qed
  qed
  show ?thesis
    using full by (auto simp: path_avail_alt map split: option.splits)
qed

section \<open>Runs\<close>

definition rl_step :: "Limiter \<Rightarrow> rl_event \<Rightarrow> Limiter" where
  "rl_step l ev = (case ev of
       RL_Allow t ip path cost \<Rightarrow> snd (Limiter_AllowN l ip path cost t)
     | RL_Sweep t maxAge \<Rightarrow> Limiter_Sweep l maxAge t)"

text \<open>
  A sweep is covering when its age is at least as long as a full refill takes
  (\<open>burst \<le> rate * maxAge\<close>): what it drops is full again.  A shorter one gives the clients it
  drops a full bucket early.
\<close>

definition rl_sweep_ok :: "liveCfg \<Rightarrow> rl_event \<Rightarrow> bool" where
  "rl_sweep_ok cfg ev = (case ev of RL_Sweep _ maxAge \<Rightarrow> lc_burst cfg \<le> secs maxAge * lc_rate cfg | _ \<Rightarrow> True)"

definition rl_short :: "liveCfg \<Rightarrow> rl_event list \<Rightarrow> nat" where
  "rl_short cfg evs = length (filter (\<lambda>ev. \<not> rl_sweep_ok cfg ev) evs)"

lemma rl_short_simps [simp]:
  "rl_short cfg [] = 0"
  "rl_short cfg (ev # evs) = (if rl_sweep_ok cfg ev then 0 else 1) + rl_short cfg evs"
  by (simp_all add: rl_short_def)

lemma rl_potential:
  assumes "rl_ok cfg t l" "sorted (t # map rl_time evs)" "\<forall>ev \<in> set evs. rl_time ev \<le> t1" "t \<le> t1"
  shows "of_int (rl_granted c l evs) \<le> client_avail cfg l c t + of_nat (rl_short cfg evs) * lc_burst cfg + secs (t1 - t) * lc_rate cfg"
  using assms
proof (induction evs arbitrary: l t)
  case Nil
  then have "0 \<le> client_avail cfg l c t" "0 \<le> lc_rate cfg"
    using client_avail_nonneg by (auto simp: rl_ok_def)
  then show ?case using Nil by (simp add: secs_nonneg)
next
  case (Cons ev evs)
  define u where "u = rl_time ev"
  have u: "t \<le> u" "u \<le> t1" using Cons.prems by (auto simp: u_def)
  have burst: "0 \<le> lc_burst cfg" using Cons.prems(1) by (simp add: rl_ok_def)
  have grow: "client_avail cfg l c u \<le> client_avail cfg l c t + secs (u - t) * lc_rate cfg"
    using client_avail_grow [OF Cons.prems(1) u(1)] .
  have split: "secs (t1 - t) * lc_rate cfg = secs (u - t) * lc_rate cfg + secs (t1 - u) * lc_rate cfg"
    using secs_add [of "u - t" "t1 - u"] by (simp add: distrib_right)
  have sorted': "sorted (u # map rl_time evs)" using Cons.prems(2) by (simp add: u_def)
  show ?case
  proof (cases ev)
    case (RL_Allow s ip path cost)
    then have s: "s = u" by (simp add: u_def)
    let ?l = "snd (Limiter_AllowN l ip path cost u)"
    have IH: "of_int (rl_granted c ?l evs) \<le> client_avail cfg ?l c u + of_nat (rl_short cfg evs) * lc_burst cfg + secs (t1 - u) * lc_rate cfg"
      using Cons AllowN_ok [OF Cons.prems(1) u(1)] sorted' u by (intro Cons.IH) auto
    have live: "l_live l = Some cfg" using Cons.prems(1) by (simp add: rl_ok_def)
    have "of_int (if fst (Limiter_AllowN l ip path cost u) \<and> ip = c then eff_cost cost else 0)
        + client_avail cfg ?l c u \<le> client_avail cfg l c u"
      using eff_cost_pos [of cost]
      by (auto simp: AllowN_avail [OF Cons.prems(1) u(1)] AllowN_fst [OF live] charge_def)
    then show ?thesis
      using IH grow split by (auto simp: RL_Allow s rl_sweep_ok_def split: prod.splits)
  next
    case (RL_Sweep s maxAge)
    then have s: "s = u" by (simp add: u_def)
    let ?l = "Limiter_Sweep l maxAge u"
    have IH: "of_int (rl_granted c ?l evs) \<le> client_avail cfg ?l c u + of_nat (rl_short cfg evs) * lc_burst cfg + secs (t1 - u) * lc_rate cfg"
      using Cons Sweep_ok [OF Cons.prems(1) u(1)] sorted' u by (intro Cons.IH) auto
    have "client_avail cfg ?l c u = client_avail cfg l c u" if "rl_sweep_ok cfg ev"
      using Cons.prems u RL_Sweep that by (intro Sweep_client_avail) (auto simp: rl_sweep_ok_def)
    moreover have "client_avail cfg ?l c u \<le> lc_burst cfg + client_avail cfg l c u"
      using client_avail_le [of cfg ?l c u] client_avail_nonneg [OF Cons.prems(1) u(1), of c] by linarith
    ultimately show ?thesis
      using IH grow split burst
      by (cases "rl_sweep_ok cfg ev") (auto simp: RL_Sweep s distrib_right)
  qed
qed

text \<open>Two states that no request can tell apart from time \<open>t\<close> on.\<close>

definition rl_same :: "liveCfg \<Rightarrow> gotime \<Rightarrow> Limiter \<Rightarrow> Limiter \<Rightarrow> bool" where
  "rl_same cfg t l l' \<longleftrightarrow> rl_ok cfg t l \<and> rl_ok cfg t l' \<and>
     (\<forall>ip t'. t \<le> t' \<longrightarrow> client_avail cfg l ip t' = client_avail cfg l' ip t') \<and>
     (lc_perPath cfg \<longrightarrow> (\<forall>ip p t'. t \<le> t' \<longrightarrow> path_avail cfg l ip p t' = path_avail cfg l' ip p t'))"

lemma AllowN_client_later:
  assumes "rl_ok cfg t l"
  shows "client_avail cfg (snd (Limiter_AllowN l ip path cost now)) k t' =
    (if k = ip then bucket_avail cfg (charge (client_avail cfg l ip now) (of_int (eff_cost cost))) now t' else client_avail cfg l k t')"
  using assms by (simp add: client_avail_def AllowN_get [where cfg = cfg] rl_ok_def new_bucket_def)

lemma AllowN_path_later:
  assumes "rl_ok cfg t l" "lc_perPath cfg"
  shows "path_avail cfg (snd (Limiter_AllowN l ip path cost now)) k p t' =
    (if k = ip \<and> p = norm_path path then bucket_avail cfg (charge (path_avail cfg l ip p now) (of_int (eff_cost cost))) now t'
     else path_avail cfg l k p t')"
proof -
  have "old_paths (snd (Limiter_AllowN l ip path cost now)) k =
      (if k = ip then b_paths (new_bucket cfg l ip path (of_int (eff_cost cost)) now) else old_paths l k)"
    using assms(1) by (simp add: old_paths_def AllowN_get [where cfg = cfg] rl_ok_def)
  then show ?thesis using assms(2) by (simp add: path_avail_alt new_bucket_def path_map_def)
qed

lemma rl_same_AllowN:
  assumes "rl_same cfg t l l'" "t \<le> now"
  shows "fst (Limiter_AllowN l ip path cost now) = fst (Limiter_AllowN l' ip path cost now)"
    and "rl_same cfg now (snd (Limiter_AllowN l ip path cost now)) (snd (Limiter_AllowN l' ip path cost now))"
proof -
  have ok: "rl_ok cfg t l" "rl_ok cfg t l'" and live: "l_live l = Some cfg" "l_live l' = Some cfg"
    using assms(1) by (auto simp: rl_same_def rl_ok_def)
  show "fst (Limiter_AllowN l ip path cost now) = fst (Limiter_AllowN l' ip path cost now)"
    using assms by (auto simp: AllowN_fst [OF live(1)] AllowN_fst [OF live(2)] rl_same_def)
  show "rl_same cfg now (snd (Limiter_AllowN l ip path cost now)) (snd (Limiter_AllowN l' ip path cost now))"
    using assms AllowN_ok [OF ok(1) assms(2)] AllowN_ok [OF ok(2) assms(2)]
    by (auto simp: rl_same_def AllowN_client_later [OF ok(1)] AllowN_client_later [OF ok(2)]
        AllowN_path_later [OF ok(1)] AllowN_path_later [OF ok(2)])
qed

lemma rl_same_Sweep:
  assumes "rl_same cfg t l l'" "t \<le> now" "lc_burst cfg \<le> secs maxAge * lc_rate cfg"
  shows "rl_same cfg now (Limiter_Sweep l maxAge now) (Limiter_Sweep l' maxAge now)"
proof -
  have ok: "rl_ok cfg t l" "rl_ok cfg t l'" using assms(1) by (simp_all add: rl_same_def)
  note avail = Sweep_client_avail [OF _ assms(2) _ assms(3)] Sweep_path_avail [OF _ assms(2) _ assms(3)]
  show ?thesis
    using assms(1,2) Sweep_ok [OF ok(1) assms(2)] Sweep_ok [OF ok(2) assms(2)]
    by (auto simp: rl_same_def avail [OF ok(1)] avail [OF ok(2)])
qed

lemma rl_same_answers:
  assumes "rl_same cfg t l l'" "sorted (t # map rl_time evs)" "\<forall>ev \<in> set evs. rl_sweep_ok cfg ev"
  shows "rl_answers l evs = rl_answers l' evs"
  using assms
proof (induction evs arbitrary: l l' t)
  case (Cons ev evs)
  have t: "t \<le> rl_time ev" "sorted (rl_time ev # map rl_time evs)" using Cons.prems(2) by auto
  show ?case
  proof (cases ev)
    case (RL_Allow s ip path cost)
    then have "t \<le> s" using t(1) by simp
    note same = rl_same_AllowN [OF Cons.prems(1) this, of ip path cost]
    have "rl_answers (snd (Limiter_AllowN l ip path cost s)) evs = rl_answers (snd (Limiter_AllowN l' ip path cost s)) evs"
      using Cons.prems(3) t(2) RL_Allow by (intro Cons.IH [OF same(2)]) auto
    then show ?thesis using same(1) by (simp add: RL_Allow case_prod_beta)
  next
    case (RL_Sweep s maxAge)
    then have "rl_same cfg s (Limiter_Sweep l maxAge s) (Limiter_Sweep l' maxAge s)"
      using Cons.prems t(1) by (intro rl_same_Sweep [OF Cons.prems(1)]) (auto simp: rl_sweep_ok_def)
    then show ?thesis using Cons.IH Cons.prems(3) t(2) RL_Sweep by simp
  qed
qed simp

lemma rl_ok_New:
  assumes "0 < reqs"
  shows "\<exists>cfg. l_live (Limiter_New reqs brst win pp) = Some cfg \<and> rl_ok cfg t (Limiter_New reqs brst win pp)"
  using assms
  by (auto simp: Limiter_New_def rl_ok_def Let_def secs_def minute_def store256.invar_empty store256.get_empty)

section \<open>Properties\<close>

text \<open>C7: In any run of requests and sweeps in time order between \<open>t0\<close> and \<open>t1\<close>, from any valid
  state, the total cost granted to one client is at most the burst plus the rate times the
  elapsed time, whatever paths it uses, in both modes, plus one more burst for every sweep whose
  age is shorter than a full refill takes (\<open>maxAge * rate < burst\<close>); without such sweeps the bound
  is that of a token bucket.\<close>

theorem allow_rate_bound:
  assumes "rl_ok cfg t0 l"
    and "sorted (t0 # map rl_time evs)"
    and "\<forall>ev \<in> set evs. rl_time ev \<le> t1"
    and "t0 \<le> t1"
  shows "of_int (rl_granted c l evs) \<le> of_nat (1 + rl_short cfg evs) * lc_burst cfg + secs (t1 - t0) * lc_rate cfg"
  using rl_potential [OF assms, of c] client_avail_le [of cfg l c t0] by (simp add: distrib_right)

definition rl_demo :: Limiter where
  "rl_demo = Limiter_New 2 3 second True"

definition rl_demo_cfg :: liveCfg where
  "rl_demo_cfg = \<lparr> lc_rate = 2, lc_burst = 3, lc_perPath = True \<rparr>"

definition rl_demo_evs :: "rl_event list" where
  "rl_demo_evs = [RL_Allow 10 ''a'' ''/x'' 1, RL_Allow 20 ''a'' ''/y'' 2, RL_Allow 30 ''b'' ''/'' 1,
                  RL_Allow 40 ''a'' ''/z'' 1, RL_Sweep 50 minute, RL_Allow 1000000050 ''a'' [] 2]"

lemma rl_demo_ok: "rl_ok rl_demo_cfg 10 rl_demo"
  by (simp add: rl_demo_def rl_demo_cfg_def Limiter_New_def rl_ok_def Let_def secs_def second_def
      store256.invar_empty store256.get_empty)

theorem allow_rate_bound_witness:
  "rl_short rl_demo_cfg rl_demo_evs = 0 \<and>
   of_int (rl_granted ''a'' rl_demo rl_demo_evs) \<le> lc_burst rl_demo_cfg + secs (1000000050 - 10) * lc_rate rl_demo_cfg"
proof -
  have "sorted (10 # map rl_time rl_demo_evs)" "\<forall>ev \<in> set rl_demo_evs. rl_time ev \<le> 1000000050"
    "rl_short rl_demo_cfg rl_demo_evs = 0"
    by (simp_all add: rl_demo_evs_def rl_sweep_ok_def rl_demo_cfg_def secs_def minute_def)
  then show ?thesis
    using allow_rate_bound [OF rl_demo_ok, of rl_demo_evs 1000000050 "''a''"] by simp
qed

text \<open>C16: A sweep whose age covers a full refill (\<open>burst \<le> rate * maxAge\<close>) changes no later answer of
  the limiter: in every run of requests and covering sweeps after it, each request of each client
  gets the answer it would get without the sweep, in both modes.\<close>

theorem sweep_transparent:
  assumes "rl_ok cfg t l" "t \<le> now" "lc_burst cfg \<le> secs maxAge * lc_rate cfg"
    and "sorted (now # map rl_time evs)" "\<forall>ev \<in> set evs. rl_sweep_ok cfg ev"
  shows "rl_answers (Limiter_Sweep l maxAge now) evs = rl_answers l evs"
proof (rule rl_same_answers [OF _ assms(4,5)])
  show "rl_same cfg now (Limiter_Sweep l maxAge now) l"
    using Sweep_client_avail [OF assms(1,2) _ assms(3)] Sweep_path_avail [OF assms(1,2) _ assms(3)]
      Sweep_ok [OF assms(1,2)] rl_ok_mono [OF assms(1,2)]
    by (simp add: rl_same_def)
qed

definition rl_used :: Limiter where
  "rl_used = snd (Limiter_AllowN rl_demo ''a'' ''/x'' 1 10)"

theorem sweep_transparent_witness:
  "shard_get 256 (l_shards rl_used) ''a'' \<noteq> None \<and> shard_get 256 (l_shards (Limiter_Sweep rl_used (2 * second) (5 * second))) ''a'' = None \<and>
   rl_answers (Limiter_Sweep rl_used (2 * second) (5 * second)) [RL_Allow (6 * second) ''a'' ''/x'' 3, RL_Allow (6 * second) ''a'' ''/x'' 1] =
   rl_answers rl_used [RL_Allow (6 * second) ''a'' ''/x'' 3, RL_Allow (6 * second) ''a'' ''/x'' 1]"
proof (intro conjI)
  have ok: "rl_ok rl_demo_cfg 10 rl_used" unfolding rl_used_def by (rule AllowN_ok [OF rl_demo_ok]) simp
  have live: "l_live rl_demo = Some rl_demo_cfg" "shard_inv 256 (l_shards rl_demo)" using rl_demo_ok by (simp_all add: rl_ok_def)
  have get: "shard_get 256 (l_shards rl_used) ''a'' = Some (new_bucket rl_demo_cfg rl_demo ''a'' ''/x'' (of_int (eff_cost 1)) 10)"
    unfolding rl_used_def by (simp add: AllowN_get [OF live])
  then show "shard_get 256 (l_shards rl_used) ''a'' \<noteq> None" by simp
  have old: "old_paths rl_demo ''a'' = None"
    by (simp add: old_paths_def rl_demo_def Limiter_New_def Let_def store256.get_empty)
  have "sweep_bucket True (5 * second - 2 * second) (new_bucket rl_demo_cfg rl_demo ''a'' ''/x'' (of_int (eff_cost 1)) 10) = None"
    by (simp add: new_bucket_def old rl_demo_cfg_def path_map_def sweep_bucket_def sweep_paths_def mpurge_def second_def Let_def)
  moreover have "sweep_pp rl_used" using ok by (simp add: sweep_pp_def rl_ok_def rl_demo_cfg_def)
  ultimately show "shard_get 256 (l_shards (Limiter_Sweep rl_used (2 * second) (5 * second))) ''a'' = None"
    using ok get by (simp add: rl_ok_def Sweep_get)
  show "rl_answers (Limiter_Sweep rl_used (2 * second) (5 * second)) [RL_Allow (6 * second) ''a'' ''/x'' 3, RL_Allow (6 * second) ''a'' ''/x'' 1] =
   rl_answers rl_used [RL_Allow (6 * second) ''a'' ''/x'' 3, RL_Allow (6 * second) ''a'' ''/x'' 1]"
    by (rule sweep_transparent [OF ok]) (simp_all add: rl_demo_cfg_def secs_def second_def rl_sweep_ok_def)
qed

text \<open>Clients are isolated: a request of one client, allowed or not, never changes the answer
  another client gets.\<close>

theorem allow_isolated:
  assumes "rl_ok cfg t l" "t \<le> now" "c \<noteq> ip"
  shows "fst (Limiter_AllowN (snd (Limiter_AllowN l ip path cost now)) c path' cost' t') =
         fst (Limiter_AllowN l c path' cost' t')"
proof -
  have live: "l_live l = Some cfg" and inv: "shard_inv 256 (l_shards l)"
    using assms(1) by (auto simp: rl_ok_def)
  have "shard_get 256 (l_shards (snd (Limiter_AllowN l ip path cost now))) c = shard_get 256 (l_shards l) c"
    using assms(3) by (simp add: AllowN_get [OF live inv])
  then show ?thesis
    using live by (simp add: AllowN_fst [where cfg = cfg] client_avail_def path_avail_def)
qed

theorem allow_isolated_witness:
  "fst (Limiter_AllowN (snd (Limiter_AllowN rl_demo ''a'' ''/x'' 3 20)) ''b'' ''/x'' 3 20) =
   fst (Limiter_AllowN rl_demo ''b'' ''/x'' 3 20)"
  by (rule allow_isolated [OF rl_demo_ok]) simp_all

text \<open>A live reconfiguration keeps the state valid under the new settings (so the rate bound of the
  new settings holds from then on), and settings with no positive request count are ignored.\<close>

theorem update_keeps_valid:
  assumes "rl_ok cfg t l"
  shows "\<exists>cfg'. rl_ok cfg' t (Limiter_Update l reqs brst win pp) \<and>
    (0 < reqs \<longrightarrow> cfg' = \<lparr> lc_rate = of_int reqs / secs (if win \<le> 0 then minute else win),
                       lc_burst = of_int (if brst \<le> 0 then reqs else brst), lc_perPath = pp \<rparr>) \<and>
    (reqs \<le> 0 \<longrightarrow> cfg' = cfg)"
proof (cases "0 < reqs")
  case True
  have "0 \<le> secs (if win \<le> 0 then minute else win)" by (simp add: secs_def minute_def)
  then show ?thesis
    using assms True by (auto simp: rl_ok_def Limiter_Update_def Let_def)
next
  case False
  then show ?thesis using assms by (auto simp: Limiter_Update_def)
qed

theorem update_keeps_valid_witness:
  "\<exists>cfg'. rl_ok cfg' 10 (Limiter_Update rl_demo 100 0 minute False) \<and>
    cfg' = \<lparr> lc_rate = of_int 100 / secs minute, lc_burst = 100, lc_perPath = False \<rparr>"
  using update_keeps_valid [OF rl_demo_ok, of 100 0 minute False] by (auto simp: minute_def)

text \<open>The number of active buckets reported is the number of distinct clients that have a bucket:
  the sharded table counts like one flat map.\<close>

theorem active_buckets_counts_clients:
  assumes "rl_ok cfg t l"
  shows "Limiter_ActiveBuckets (Some l) = card {c. shard_get 256 (l_shards l) c \<noteq> None}"
  using assms by (simp only: Limiter_ActiveBuckets_def rl_ok_def option.case store256.count_card)

theorem active_buckets_counts_clients_witness:
  "Limiter_ActiveBuckets (Some rl_demo) = card {c. shard_get 256 (l_shards rl_demo) c \<noteq> None}"
  by (rule active_buckets_counts_clients [OF rl_demo_ok])

end
