(* ===== verification/Faststr.thy ===== *)
theory Faststr
  imports GoStrings
begin

text \<open>
  \<open>internal/faststr\<close>: allocation-free ASCII string search.  The Aho-Corasick matcher is
  modelled on a heap of nodes: a node pointer is an index into the heap, the root is node 0,
  \<open>next\<close> is an array of 128 optional pointers.  \<open>buildFail\<close> overwrites the trie edges in
  breadth-first order exactly as the Go code does; \<open>None\<close> as its result stands for a nil
  dereference or for the fuel of its loop running out, and is proved impossible.
\<close>

section \<open>Definitions\<close>

fun equalFold_loop :: "string \<Rightarrow> string \<Rightarrow> bool" where
  "equalFold_loop (ca # a) (cb # b) =
     (if ca = cb then equalFold_loop a b
      else let ca' = (if is_upper ca then char_of (byte_of ca + 32) else ca);
               cb' = (if is_upper cb then char_of (byte_of cb + 32) else cb)
           in if ca' \<noteq> cb' then False else equalFold_loop a b)"
| "equalFold_loop _ _ = True"

definition equalFoldASCII :: "string \<Rightarrow> string \<Rightarrow> bool" where
  "equalFoldASCII a b = (if length a \<noteq> length b then False else equalFold_loop a b)"

definition ContainsFold :: "string \<Rightarrow> string \<Rightarrow> bool" where
  "ContainsFold s substr =
     (let n = length substr in
      if n = 0 then True
      else if n > length s then False
      else let first = substr ! 0;
               firstUpper = (if is_lower first then char_of (byte_of first - 32) else first);
               limit = length s - n
           in list_ex (\<lambda>i. (s ! i = first \<or> s ! i = firstUpper) \<and> equalFoldASCII (take n (drop i s)) substr)
                [0..<Suc limit])"

definition HasPrefixFold :: "string \<Rightarrow> string \<Rightarrow> bool" where
  "HasPrefixFold s p = (if length p > length s then False else equalFoldASCII (take (length p) s) p)"

fun AppendLowerASCII :: "string \<Rightarrow> string \<Rightarrow> string" where
  "AppendLowerASCII dst [] = dst"
| "AppendLowerASCII dst (c # s) =
     AppendLowerASCII (dst @ [if is_upper c then char_of (byte_of c + 32) else c]) s"

definition ContainsBytes :: "string \<Rightarrow> string \<Rightarrow> bool" where
  "ContainsBytes haystack needle = (if needle = [] then True else Contains haystack needle)"

definition fs_space :: "char \<Rightarrow> bool" where
  "fs_space c \<longleftrightarrow> byte_of c \<in> {32, 9, 10, 13}"

function fs_start :: "string \<Rightarrow> nat \<Rightarrow> nat" where
  "fs_start s i = (if i < length s \<and> fs_space (s ! i) then fs_start s (Suc i) else i)"
  by auto
termination by (relation "measure (\<lambda>(s, i). length s - i)") auto

fun fs_end :: "string \<Rightarrow> nat \<Rightarrow> nat \<Rightarrow> nat" where
  "fs_end s start 0 = 0"
| "fs_end s start (Suc e) = (if Suc e > start \<and> fs_space (s ! e) then fs_end s start e else Suc e)"

definition fs_TrimSpace :: "string \<Rightarrow> string" where
  "fs_TrimSpace s = (let start = fs_start s 0; e = fs_end s start (length s) in take (e - start) (drop start s))"

declare fs_start.simps [simp del]

record acNode =
  an_next :: "nat option list"
  an_fail :: "nat option"
  an_out :: bool

type_synonym Matcher = "acNode list"

definition new_acNode :: acNode where
  "new_acNode = \<lparr> an_next = replicate 128 None, an_fail = None, an_out = False \<rparr>"

definition ac_next :: "Matcher \<Rightarrow> nat \<Rightarrow> nat \<Rightarrow> nat option" where
  "ac_next h n c = an_next (h ! n) ! c"

definition set_next :: "nat \<Rightarrow> nat \<Rightarrow> nat option \<Rightarrow> Matcher \<Rightarrow> Matcher" where
  "set_next n c v h = h[n := (h ! n)\<lparr> an_next := (an_next (h ! n))[c := v] \<rparr>]"

definition set_fail :: "nat \<Rightarrow> nat option \<Rightarrow> Matcher \<Rightarrow> Matcher" where
  "set_fail n v h = h[n := (h ! n)\<lparr> an_fail := v \<rparr>]"

definition set_out :: "nat \<Rightarrow> Matcher \<Rightarrow> Matcher" where
  "set_out n h = h[n := (h ! n)\<lparr> an_out := True \<rparr>]"

fun ac_walk :: "string \<Rightarrow> nat \<Rightarrow> Matcher \<Rightarrow> nat \<times> Matcher" where
  "ac_walk [] n h = (n, h)"
| "ac_walk (ch # p) n h =
     (let c = byte_of ch in
      if c \<ge> 128 then ac_walk p n h
      else case ac_next h n c of
             Some j \<Rightarrow> ac_walk p j h
           | None \<Rightarrow> ac_walk p (length h) (set_next n c (Some (length h)) h @ [new_acNode]))"

definition ac_insert :: "string \<Rightarrow> Matcher \<Rightarrow> Matcher" where
  "ac_insert p h = (if p = [] then h else let (n, h) = ac_walk p 0 h in set_out n h)"

definition ac_chars :: "nat list" where
  "ac_chars = [0..<128]"

definition ac_root_char :: "nat \<Rightarrow> Matcher \<times> nat list \<Rightarrow> Matcher \<times> nat list" where
  "ac_root_char c s = (case s of (h, q) \<Rightarrow>
     (case ac_next h 0 c of
        Some n \<Rightarrow> (set_fail n (Some 0) h, q @ [n])
      | None \<Rightarrow> (set_next 0 c (Some 0) h, q)))"

definition ac_visit_char :: "nat \<Rightarrow> nat \<Rightarrow> (Matcher \<times> nat list) option \<Rightarrow> (Matcher \<times> nat list) option" where
  "ac_visit_char r c s = (case s of None \<Rightarrow> None | Some (h, q) \<Rightarrow>
     (case an_fail (h ! r) of None \<Rightarrow> None | Some f \<Rightarrow>
       (case ac_next h r c of
          None \<Rightarrow> Some (set_next r c (ac_next h f c) h, q)
        | Some u \<Rightarrow>
            (let h = set_fail u (ac_next h f c) h in
             case an_fail (h ! u) of None \<Rightarrow> None | Some uf \<Rightarrow>
               Some (if an_out (h ! uf) then set_out u h else h, q @ [u])))))"

fun ac_bfs :: "nat \<Rightarrow> Matcher \<Rightarrow> nat list \<Rightarrow> Matcher option" where
  "ac_bfs fuel h [] = Some h"
| "ac_bfs 0 h (r # q) = None"
| "ac_bfs (Suc fuel) h (r # q) =
     (case fold (ac_visit_char r) ac_chars (Some (h, q)) of
        None \<Rightarrow> None
      | Some (h, q) \<Rightarrow> ac_bfs fuel h q)"

definition buildFail :: "Matcher \<Rightarrow> Matcher option" where
  "buildFail h = (let (h, q) = fold ac_root_char ac_chars (h, []) in ac_bfs (length h) h q)"

definition NewMatcher :: "string list \<Rightarrow> Matcher" where
  "NewMatcher patterns =
     (case buildFail (fold ac_insert patterns [new_acNode]) of Some h \<Rightarrow> h | None \<Rightarrow> [])"

fun ac_scan :: "Matcher \<Rightarrow> nat \<Rightarrow> string \<Rightarrow> bool" where
  "ac_scan h n [] = False"
| "ac_scan h n (ch # s) =
     (let c = byte_of ch in
      if c \<ge> 128 then ac_scan h 0 s
      else case ac_next h n c of
             None \<Rightarrow> False
           | Some j \<Rightarrow> if an_out (h ! j) then True else ac_scan h j s)"

definition Matcher_Contains :: "Matcher option \<Rightarrow> string \<Rightarrow> bool" where
  "Matcher_Contains m haystack =
     (case m of None \<Rightarrow> False | Some h \<Rightarrow> if h = [] \<or> haystack = [] then False else ac_scan h 0 haystack)"

definition Matcher_ContainsString :: "Matcher option \<Rightarrow> string \<Rightarrow> bool" where
  "Matcher_ContainsString m haystack =
     (case m of None \<Rightarrow> False | Some h \<Rightarrow> if h = [] \<or> haystack = [] then False else ac_scan h 0 haystack)"

section \<open>Case folding\<close>

lemma equalFold_loop_iff: "length a = length b \<Longrightarrow> equalFold_loop a b \<longleftrightarrow> ToLower a = ToLower b"
proof (induction a b rule: list_induct2)
  case (Cons x xs y ys)
  then show ?case by (simp add: ToLower_Cons lower_char_def Let_def)
qed simp

lemma equalFoldASCII_iff: "equalFoldASCII a b \<longleftrightarrow> ToLower a = ToLower b"
  by (metis equalFoldASCII_def equalFold_loop_iff length_ToLower)

lemma AppendLowerASCII_eq: "AppendLowerASCII dst s = dst @ ToLower s"
  by (induction s arbitrary: dst) (auto simp: ToLower_def lower_char_def)

lemma HasPrefixFold_iff: "ToLower p = p \<Longrightarrow> HasPrefixFold s p \<longleftrightarrow> HasPrefix (ToLower s) p"
  by (auto simp: HasPrefixFold_def equalFoldASCII_iff HasPrefix_def ToLower_def take_map)

lemma sublist_iff_take_drop: "sublist p s \<longleftrightarrow> (\<exists>i. i + length p \<le> length s \<and> take (length p) (drop i s) = p)"
proof
  assume "sublist p s"
  then obtain a b where "s = a @ p @ b" by (auto simp: sublist_def)
  then show "\<exists>i. i + length p \<le> length s \<and> take (length p) (drop i s) = p"
    by (intro exI [of _ "length a"]) simp
next
  assume "\<exists>i. i + length p \<le> length s \<and> take (length p) (drop i s) = p"
  then show "sublist p s" by (metis append_take_drop_id sublist_def)
qed

lemma lower_first:
  assumes "lower_char c = f" "lower_char f = f"
  shows "c = f \<or> c = (if is_lower f then char_of (byte_of f - 32) else f)"
proof (cases "is_upper c")
  case True
  then have f: "f = char_of (byte_of c + 32)" using assms(1) by (simp add: lower_char_def)
  then have b: "byte_of f = byte_of c + 32" using True by (simp add: is_upper_def)
  then have "is_lower f" using True by (simp add: is_upper_def is_lower_def)
  moreover have "char_of (byte_of f - 32) = c" unfolding b by simp
  ultimately show ?thesis by simp
next
  case False
  then show ?thesis using assms(1) by (simp add: lower_char_def)
qed

lemma ContainsFold_iff:
  assumes low: "ToLower p = p"
  shows "ContainsFold s p \<longleftrightarrow> Contains (ToLower s) p"
proof (cases "p = [] \<or> length p > length s")
  case True
  then show ?thesis
    by (auto simp: ContainsFold_def Contains_iff Let_def dest: sublist_length_le)
next
  case False
  let ?fu = "if is_lower (p ! 0) then char_of (byte_of (p ! 0) - 32) else p ! 0"
  have first: "s ! i = p ! 0 \<or> s ! i = ?fu"
    if i: "i + length p \<le> length s" and eq: "ToLower (take (length p) (drop i s)) = p" for i
  proof (rule lower_first)
    have "ToLower (take (length p) (drop i s)) ! 0 = lower_char (s ! i)"
      using False i by (simp add: ToLower_def)
    then show "lower_char (s ! i) = p ! 0" using eq by simp
    have "lower_char (p ! 0) = ToLower p ! 0" using False by (simp add: ToLower_def)
    then show "lower_char (p ! 0) = p ! 0" using low by simp
  qed
  have "ContainsFold s p \<longleftrightarrow> (\<exists>i. i + length p \<le> length s \<and> (s ! i = p ! 0 \<or> s ! i = ?fu) \<and>
      ToLower (take (length p) (drop i s)) = p)"
  proof -
    have ne: "(p = []) = False" "(length s < length p) = False" using False by auto
    have "(i \<in> set [0..<Suc (length s - length p)]) = (i + length p \<le> length s)" for i
      using False by auto
    moreover have "ContainsFold s p \<longleftrightarrow> (\<exists>i\<in>set [0..<Suc (length s - length p)].
        (s ! i = p ! 0 \<or> s ! i = ?fu) \<and> ToLower (take (length p) (drop i s)) = p)"
      by (simp only: ContainsFold_def Let_def list_ex_iff equalFoldASCII_iff low length_0_conv ne if_False)
    ultimately show ?thesis by (simp only: Bex_def)
  qed
  also have "\<dots> \<longleftrightarrow> (\<exists>i. i + length p \<le> length s \<and> ToLower (take (length p) (drop i s)) = p)"
    using first by blast
  also have "\<dots> \<longleftrightarrow> Contains (ToLower s) p"
    by (simp add: Contains_iff sublist_iff_take_drop ToLower_def take_map drop_map)
  finally show ?thesis .
qed

lemma fs_start_eq: "i \<le> length s \<Longrightarrow> fs_start s i = i + length (takeWhile fs_space (drop i s))"
proof (induction s i rule: fs_start.induct)
  case (1 s i)
  have "takeWhile fs_space (drop i s) = (if i < length s \<and> fs_space (s ! i)
      then s ! i # takeWhile fs_space (drop (Suc i) s) else [])"
    by (cases "i < length s") (simp_all add: Cons_nth_drop_Suc [symmetric])
  then show ?case using 1 by (subst fs_start.simps) auto
qed

lemma fs_end_eq:
  "start \<le> e \<Longrightarrow> e \<le> length s \<Longrightarrow>
   fs_end s start e = start + length (dropWhile fs_space (rev (take (e - start) (drop start s))))"
proof (induction e)
  case (Suc e)
  show ?case
  proof (cases "start = Suc e")
    case False
    then have "take (Suc e - start) (drop start s) = take (e - start) (drop start s) @ [s ! e]"
      using Suc.prems by (simp add: Suc_diff_le take_Suc_conv_app_nth)
    then show ?thesis using Suc False by auto
  qed simp
qed simp

lemma fs_TrimSpace_eq: "fs_TrimSpace s = TrimFunc fs_space s"
proof -
  let ?m = "dropWhile fs_space s"
  have st: "fs_start s 0 = length (takeWhile fs_space s)" by (simp add: fs_start_eq)
  have dr: "drop (length (takeWhile fs_space s)) s = ?m" by (simp add: dropWhile_eq_drop)
  have le: "length (takeWhile fs_space s) \<le> length s" by (rule length_takeWhile_le)
  have "take (length s - length (takeWhile fs_space s)) ?m = ?m"
    by (metis dr length_drop order_refl take_all)
  then have e: "fs_end s (fs_start s 0) (length s) - fs_start s 0 = length (dropWhile fs_space (rev ?m))"
    using fs_end_eq [OF le order_refl] by (simp add: st dr)
  have "take (length (dropWhile fs_space (rev ?m))) ?m = rev (dropWhile fs_space (rev ?m))"
  proof -
    have "?m = rev (dropWhile fs_space (rev ?m)) @ rev (takeWhile fs_space (rev ?m))"
      by (metis rev_append rev_rev_ident takeWhile_dropWhile_id)
    then show ?thesis by (metis append_eq_conv_conj length_rev)
  qed
  then show ?thesis by (simp add: fs_TrimSpace_def Let_def e TrimFunc_def) (simp add: st dr)
qed

section \<open>Longest suffixes\<close>

text \<open>The longest suffix of \<open>w\<close> in \<open>L\<close>, for a set \<open>L\<close> that contains the empty word.\<close>

fun lsuf :: "'a list set \<Rightarrow> 'a list \<Rightarrow> 'a list" where
  "lsuf L [] = []"
| "lsuf L (x # w) = (if x # w \<in> L then x # w else lsuf L w)"

lemma lsuf_in: "[] \<in> L \<Longrightarrow> lsuf L w \<in> L"
  by (induction w) auto

lemma lsuf_id: "w \<in> L \<Longrightarrow> lsuf L w = w"
  by (cases w) auto

lemma lsuf_suffix: "suffix (lsuf L w) w"
  by (induction w) (auto simp: suffix_ConsI)

lemma lsuf_greatest: "v \<in> L \<Longrightarrow> suffix v w \<Longrightarrow> suffix v (lsuf L w)"
  by (induction w) (auto simp: suffix_Cons)

definition prefix_closed :: "'a list set \<Rightarrow> bool" where
  "prefix_closed L \<longleftrightarrow> (\<forall>w c. w @ [c] \<in> L \<longrightarrow> w \<in> L)"

lemma lsuf_snoc: "prefix_closed L \<Longrightarrow> lsuf L (w @ [c]) = lsuf L (lsuf L w @ [c])"
proof (induction w)
  case (Cons x w)
  then show ?case
    unfolding prefix_closed_def by (metis append_Cons lsuf.simps(2))
qed simp

lemma length_lsuf: "length (lsuf L w) \<le> length w"
  using lsuf_suffix suffix_length_le by blast

definition occurs_end :: "'a list set \<Rightarrow> 'a list \<Rightarrow> bool" where
  "occurs_end P w \<longleftrightarrow> (\<exists>p \<in> P. suffix p w)"

lemma occurs_end_lsuf: "P \<subseteq> L \<Longrightarrow> occurs_end P (lsuf L w) \<longleftrightarrow> occurs_end P w"
  unfolding occurs_end_def by (meson lsuf_greatest lsuf_suffix subsetD suffix_order.trans)

lemma occurs_end_Cons: "occurs_end P (x # w) \<longleftrightarrow> x # w \<in> P \<or> occurs_end P w"
  by (auto simp: occurs_end_def suffix_Cons)

section \<open>The trie\<close>

text \<open>\<open>lab i\<close> is the word spelled by the path from the root to node \<open>i\<close>.\<close>

definition is_trie :: "(nat \<Rightarrow> nat list) \<Rightarrow> nat \<Rightarrow> bool" where
  "is_trie lab N \<longleftrightarrow> 0 < N \<and> lab 0 = [] \<and> inj_on lab {..<N} \<and> prefix_closed (lab ` {..<N})"

definition trie_edge :: "(nat \<Rightarrow> nat list) \<Rightarrow> nat \<Rightarrow> nat \<Rightarrow> nat \<Rightarrow> nat option \<Rightarrow> bool" where
  "trie_edge lab N i c v \<longleftrightarrow>
     (case v of None \<Rightarrow> lab i @ [c] \<notin> lab ` {..<N} | Some j \<Rightarrow> j < N \<and> lab j = lab i @ [c])"

definition trie_heap :: "Matcher \<Rightarrow> (nat \<Rightarrow> nat list) \<Rightarrow> nat list set \<Rightarrow> bool" where
  "trie_heap h lab P \<longleftrightarrow>
     is_trie lab (length h) \<and> P \<subseteq> lab ` {..<length h} \<and> (\<forall>i < length h. set (lab i) \<subseteq> {..<128}) \<and>
     (\<forall>i < length h. length (an_next (h ! i)) = 128 \<and> (an_out (h ! i) \<longleftrightarrow> lab i \<in> P) \<and>
        (\<forall>c < 128. trie_edge lab (length h) i c (ac_next h i c)))"

lemma trie_heap_new: "trie_heap [new_acNode] (\<lambda>i. []) {}"
  by (auto simp: trie_heap_def is_trie_def prefix_closed_def new_acNode_def trie_edge_def ac_next_def
      inj_on_def)

lemma nth_set_next:
  "n < length h \<Longrightarrow> i < length h \<Longrightarrow> set_next n c v h ! i =
     (if i = n then (h ! n)\<lparr> an_next := (an_next (h ! n))[c := v] \<rparr> else h ! i)"
  by (simp add: set_next_def)

lemma ac_next_set_next:
  "n < length h \<Longrightarrow> c < length (an_next (h ! n)) \<Longrightarrow> i < length h \<Longrightarrow> ac_next (set_next n c v h) i d =
     (if i = n \<and> d = c then v else ac_next h i d)"
  by (auto simp: ac_next_def nth_set_next)

lemma length_setters [simp]:
  "length (set_next n c v h) = length h" "length (set_fail n v h) = length h" "length (set_out n h) = length h"
  by (simp_all add: set_next_def set_fail_def set_out_def)

lemma trie_heap_extend:
  assumes "trie_heap h lab P" "n < length h" "c < 128" "ac_next h n c = None"
  shows "trie_heap (set_next n c (Some (length h)) h @ [new_acNode]) (lab(length h := lab n @ [c])) P"
    (is "trie_heap ?h ?lab P")
proof -
  let ?N = "length h"
  note t = assms(1)[unfolded trie_heap_def]
  have fresh: "lab n @ [c] \<notin> lab ` {..<?N}"
  proof -
    have "trie_edge lab ?N n c (ac_next h n c)" using t assms(2,3) by blast
    then show ?thesis by (simp add: assms(4) trie_edge_def)
  qed
  have lbl: "?lab ` {..<Suc ?N} = insert (lab n @ [c]) (lab ` {..<?N})"
    by (auto simp: lessThan_Suc)
  have len: "length ?h = Suc ?N" by simp
  have "inj_on ?lab {..<Suc ?N}"
  proof -
    have "inj_on lab {..<?N}" using t by (simp add: is_trie_def)
    then have "inj_on ?lab {..<?N}" by (auto simp: inj_on_def)
    moreover have "?lab ` {..<?N} = lab ` {..<?N}" by auto
    ultimately show ?thesis using fresh by (simp add: lessThan_Suc)
  qed
  moreover have "prefix_closed (?lab ` {..<Suc ?N})"
    unfolding lbl using t assms(2) by (auto simp: is_trie_def prefix_closed_def)
  ultimately have trie: "is_trie ?lab (Suc ?N)"
    using t by (auto simp: is_trie_def)
  have old: "length (an_next (?h ! i)) = 128 \<and> (an_out (?h ! i) \<longleftrightarrow> lab i \<in> P)" if "i < ?N" for i
    using t that assms(2) by (auto simp: nth_append nth_set_next)
  have new: "length (an_next (?h ! ?N)) = 128" "\<not> an_out (?h ! ?N)" "\<And>d. d < 128 \<Longrightarrow> ac_next ?h ?N d = None"
    by (auto simp: nth_append new_acNode_def ac_next_def)
  have ascii: "set (lab n @ [c]) \<subseteq> {..<128}" using t assms(2,3) by simp
  have newP: "lab n @ [c] \<notin> P" using fresh t by blast
  have edge: "trie_edge ?lab (Suc ?N) i d (ac_next ?h i d)" if i: "i < ?N" and d: "d < 128" for i d
  proof (cases "i = n \<and> d = c")
    case True
    then have "ac_next ?h i d = Some ?N"
      using assms(2,3) t by (auto simp: ac_next_def nth_append nth_set_next)
    then show ?thesis using True assms(2) by (simp add: trie_edge_def)
  next
    case False
    then have "ac_next ?h i d = ac_next h i d"
      using assms(2,3) t i by (auto simp: ac_next_def nth_append nth_set_next)
    moreover have "trie_edge lab ?N i d (ac_next h i d)" using t i d by blast
    moreover have "lab i @ [d] \<noteq> lab n @ [c]"
      using False t i assms(2) by (auto simp: is_trie_def inj_on_def)
    ultimately show ?thesis
      using i unfolding trie_edge_def lbl by (auto split: option.splits)
  qed
  have leaf: "lab n @ [c] @ [d] \<notin> lab ` {..<?N}" for d
    using fresh t unfolding is_trie_def prefix_closed_def by (metis append_assoc)
  have "trie_edge ?lab (Suc ?N) ?N d (ac_next ?h ?N d)" if "d < 128" for d
    using new(3) [OF that] leaf unfolding trie_edge_def lbl by auto
  then show ?thesis
    unfolding trie_heap_def len
    using trie lbl t old new newP edge ascii by (auto simp: less_Suc_eq)
qed

abbreviation ascii_word :: "string \<Rightarrow> nat list" where
  "ascii_word p \<equiv> map byte_of (filter is_ascii p)"

lemma ac_walk_ok:
  "trie_heap h lab P \<Longrightarrow> n < length h \<Longrightarrow> ac_walk p n h = (m, h') \<Longrightarrow>
   \<exists>lab'. trie_heap h' lab' P \<and> m < length h' \<and> lab' m = lab n @ ascii_word p"
proof (induction p arbitrary: n h lab)
  case Nil
  then show ?case by auto
next
  case (Cons ch p)
  show ?case
  proof (cases "byte_of ch < 128")
    case False
    then show ?thesis using Cons by (simp add: is_ascii_def)
  next
    case True
    show ?thesis
    proof (cases "ac_next h n (byte_of ch)")
      case None
      let ?h = "set_next n (byte_of ch) (Some (length h)) h @ [new_acNode]"
      have "ac_walk p (length h) ?h = (m, h')" using Cons.prems(3) None True by (simp add: Let_def)
      from Cons.IH [OF trie_heap_extend [OF Cons.prems(1,2) True None] _ this]
      show ?thesis using True by (auto simp: is_ascii_def)
    next
      case (Some j)
      have "trie_edge lab (length h) n (byte_of ch) (Some j)"
        using Cons.prems(1,2) True Some unfolding trie_heap_def by metis
      then have j: "j < length h" "lab j = lab n @ [byte_of ch]" by (auto simp: trie_edge_def)
      have "ac_walk p j h = (m, h')" using Cons.prems(3) Some True by (simp add: Let_def)
      from Cons.IH [OF Cons.prems(1) j(1) this] show ?thesis
        using True j(2) by (auto simp: is_ascii_def)
    qed
  qed
qed

lemma trie_heap_set_out:
  assumes "trie_heap h lab P" "n < length h"
  shows "trie_heap (set_out n h) lab (insert (lab n) P)"
proof -
  have "ac_next (set_out n h) i c = ac_next h i c" if "i < length h" for i c
    using that by (cases "i = n") (simp_all add: ac_next_def set_out_def)
  moreover have "inj_on lab {..<length h}" using assms(1) by (simp add: trie_heap_def is_trie_def)
  ultimately show ?thesis
    using assms unfolding trie_heap_def
    by (auto simp: set_out_def nth_list_update inj_on_def)
qed

abbreviation words :: "string list \<Rightarrow> nat list set" where
  "words ps \<equiv> ascii_word ` {p \<in> set ps. p \<noteq> []}"

lemma ac_insert_all:
  "trie_heap h lab P \<Longrightarrow> \<exists>lab'. trie_heap (fold ac_insert ps h) lab' (P \<union> words ps)"
proof (induction ps arbitrary: h lab P)
  case Nil
  then show ?case by auto
next
  case (Cons p ps)
  show ?case
  proof (cases "p = []")
    case True
    then have "words (p # ps) = words ps" by auto
    then show ?thesis using Cons True by (simp add: ac_insert_def)
  next
    case False
    obtain m h' where w: "ac_walk p 0 h = (m, h')" by (cases "ac_walk p 0 h")
    have root: "0 < length h" "lab 0 = []" using Cons.prems by (auto simp: trie_heap_def is_trie_def)
    from ac_walk_ok [OF Cons.prems root(1) w] obtain lab' where
      "trie_heap h' lab' P" "m < length h'" "lab' m = ascii_word p" using root by auto
    from Cons.IH [OF trie_heap_set_out [OF this(1,2)]] this(3)
    have "\<exists>lab'. trie_heap (fold ac_insert ps (set_out m h')) lab' (insert (ascii_word p) P \<union> words ps)" by simp
    moreover have "insert (ascii_word p) P \<union> words ps = P \<union> words (p # ps)" using False by auto
    moreover have "ac_insert p h = set_out m h'" using False w by (simp add: ac_insert_def)
    ultimately show ?thesis by simp
  qed
qed

section \<open>The breadth-first pass\<close>

text \<open>During \<open>buildFail\<close> the labels stay fixed.  \<open>fin i c\<close> says that the edge of node \<open>i\<close> for
  byte \<open>c\<close> has its final value; \<open>disc\<close> are the nodes whose \<open>fail\<close> and \<open>out\<close> are final.\<close>

abbreviation lang :: "(nat \<Rightarrow> nat list) \<Rightarrow> nat \<Rightarrow> nat list set" where
  "lang lab N \<equiv> lab ` {..<N}"

definition final_edge :: "(nat \<Rightarrow> nat list) \<Rightarrow> nat \<Rightarrow> nat \<Rightarrow> nat \<Rightarrow> nat option \<Rightarrow> bool" where
  "final_edge lab N i c v \<longleftrightarrow> (\<exists>j. v = Some j \<and> j < N \<and> lab j = lsuf (lang lab N) (lab i @ [c]))"

definition final_fail :: "(nat \<Rightarrow> nat list) \<Rightarrow> nat \<Rightarrow> nat \<Rightarrow> nat option \<Rightarrow> bool" where
  "final_fail lab N i v \<longleftrightarrow> (\<exists>j. v = Some j \<and> j < N \<and> lab j = lsuf (lang lab N) (tl (lab i)))"

definition bfs_state :: "(nat \<Rightarrow> nat list) \<Rightarrow> nat list set \<Rightarrow> (nat \<Rightarrow> nat \<Rightarrow> bool) \<Rightarrow> nat set \<Rightarrow> Matcher \<Rightarrow> bool" where
  "bfs_state lab P fin disc h \<longleftrightarrow>
     is_trie lab (length h) \<and> P \<subseteq> lang lab (length h) \<and> [] \<notin> P \<and>
     (\<forall>i < length h. length (an_next (h ! i)) = 128) \<and>
     (\<forall>i < length h. \<forall>c < 128. if fin i c then final_edge lab (length h) i c (ac_next h i c)
                                 else trie_edge lab (length h) i c (ac_next h i c)) \<and>
     (\<forall>i < length h. i \<in> disc \<and> i \<noteq> 0 \<longrightarrow> final_fail lab (length h) i (an_fail (h ! i))) \<and>
     (\<forall>i < length h. an_out (h ! i) \<longleftrightarrow> (if i \<in> disc then occurs_end P (lab i) else lab i \<in> P))"

lemma ac_chars [simp]: "set ac_chars = {..<128}" "distinct ac_chars"
  by (auto simp: ac_chars_def simp del: upt_rec_numeral)

lemma trie_lang:
  assumes "is_trie lab N"
  shows "[] \<in> lang lab N" "prefix_closed (lang lab N)"
proof -
  have "0 < N" "lab 0 = []" using assms by (auto simp: is_trie_def)
  then show "[] \<in> lang lab N" by (metis imageI lessThan_iff)
  show "prefix_closed (lang lab N)" using assms by (simp add: is_trie_def)
qed

lemma trie_inj: "is_trie lab N \<Longrightarrow> i < N \<Longrightarrow> j < N \<Longrightarrow> lab i = lab j \<longleftrightarrow> i = j"
  by (auto simp: is_trie_def inj_on_def)

lemma trie_label_Nil: "is_trie lab N \<Longrightarrow> i < N \<Longrightarrow> lab i = [] \<longleftrightarrow> i = 0"
  using trie_inj [of lab N i 0] by (auto simp: is_trie_def)

text \<open>The failure function and the goto function of the automaton, in words.\<close>

lemma delta_of_fail:
  assumes "is_trie lab N" "lab r \<noteq> []"
  shows "lsuf (lang lab N) (lsuf (lang lab N) (tl (lab r)) @ [c]) = lsuf (lang lab N) (tl (lab r @ [c]))"
  using lsuf_snoc [OF trie_lang(2) [OF assms(1)], of "tl (lab r)" c] assms(2)
  by (cases "lab r") simp_all

lemma delta_miss:
  assumes "is_trie lab N" "lab r \<noteq> []" "lab r @ [c] \<notin> lang lab N"
  shows "lsuf (lang lab N) (lab r @ [c]) = lsuf (lang lab N) (tl (lab r @ [c]))"
  using assms(2,3) by (cases "lab r") auto

text \<open>Filling in a missing edge, and discovering a child.\<close>

lemma bfs_set_edge:
  assumes st: "bfs_state lab P fin disc h" and r: "r < length h" and c: "c < 128"
    and edge: "final_edge lab (length h) r c (Some g)"
  shows "bfs_state lab P (\<lambda>i d. fin i d \<or> i = r \<and> d = c) disc (set_next r c (Some g) h)"
proof -
  have len: "\<And>i. i < length h \<Longrightarrow> length (an_next (h ! i)) = 128" using st by (simp add: bfs_state_def)
  have nx: "ac_next (set_next r c (Some g) h) i d = (if i = r \<and> d = c then Some g else ac_next h i d)"
    if "i < length h" for i d
    using ac_next_set_next [OF r] len [OF r] c that by simp
  have same: "length (an_next (set_next r c (Some g) h ! i)) = 128"
    "an_fail (set_next r c (Some g) h ! i) = an_fail (h ! i)"
    "an_out (set_next r c (Some g) h ! i) = an_out (h ! i)" if "i < length h" for i
    using that r len by (auto simp: nth_set_next)
  show ?thesis using st nx same edge unfolding bfs_state_def by auto
qed

lemma bfs_discover:
  assumes st: "bfs_state lab P fin disc h" and r: "r < length h"
    and u: "u < length h" "lab u = lab r @ [c]" "ac_next h r c = Some u"
    and g: "final_fail lab (length h) u (Some g)"
    and out: "b \<longleftrightarrow> occurs_end P (lab u)"
  shows "bfs_state lab P (\<lambda>i d. fin i d \<or> i = r \<and> d = c) (disc \<union> {u})
    (h[u := (h ! u)\<lparr> an_fail := Some g, an_out := b \<rparr>])" (is "bfs_state _ _ _ _ ?h")
proof -
  have edges: "\<And>i d. i < length h \<Longrightarrow> d < 128 \<Longrightarrow> if fin i d then final_edge lab (length h) i d (ac_next h i d)
                                 else trie_edge lab (length h) i d (ac_next h i d)"
    and rest: "\<And>i. i < length h \<Longrightarrow> i \<in> disc \<Longrightarrow> i \<noteq> 0 \<Longrightarrow> final_fail lab (length h) i (an_fail (h ! i))"
      "\<And>i. i < length h \<Longrightarrow> an_out (h ! i) \<longleftrightarrow> (if i \<in> disc then occurs_end P (lab i) else lab i \<in> P)"
      "\<And>i. i < length h \<Longrightarrow> length (an_next (h ! i)) = 128"
    using st unfolding bfs_state_def by blast+
  have h: "?h ! i = (if i = u then (h ! u)\<lparr> an_fail := Some g, an_out := b \<rparr> else h ! i)" if "i < length h" for i
    using that by simp
  have nx: "ac_next ?h i d = ac_next h i d" if "i < length h" for i d unfolding ac_next_def h [OF that] by simp
  have "lsuf (lang lab (length h)) (lab r @ [c]) = lab u" using u by (metis imageI lessThan_iff lsuf_id)
  then have edge': "final_edge lab (length h) r c (ac_next h r c)" using u by (simp add: final_edge_def)
  have len: "length ?h = length h" by simp
  show ?thesis
    unfolding bfs_state_def len
  proof (intro conjI allI impI)
    fix i d :: nat assume i: "i < length h" and d: "d < 128"
    show "if fin i d \<or> i = r \<and> d = c then final_edge lab (length h) i d (ac_next ?h i d)
        else trie_edge lab (length h) i d (ac_next ?h i d)"
      unfolding nx [OF i] using edges [OF i d] edge' by (auto split: if_splits)
  next
    fix i assume i: "i < length h"
    show "length (an_next (?h ! i)) = 128" unfolding h [OF i] using rest(3) i u(1) by simp
    show "an_out (?h ! i) \<longleftrightarrow> (if i \<in> disc \<union> {u} then occurs_end P (lab i) else lab i \<in> P)"
      unfolding h [OF i] using out rest(2) [OF i] by auto
    assume "i \<in> disc \<union> {u} \<and> i \<noteq> 0"
    then show "final_fail lab (length h) i (an_fail (?h ! i))"
      unfolding h [OF i] using g rest(1) [OF i] by auto
  qed (use st in \<open>auto simp: bfs_state_def\<close>)
qed

lemma children_none: "w \<notin> lang lab N \<Longrightarrow> {u. u < N \<and> lab u = w} = {}"
proof -
  assume miss: "w \<notin> lang lab N"
  have "lab u \<noteq> w" if "u < N" for u using miss that by (metis imageI lessThan_iff)
  then show ?thesis by simp
qed

lemma children_one: "is_trie lab N \<Longrightarrow> u < N \<Longrightarrow> {v. v < N \<and> lab v = lab u} = {u}"
  using trie_inj [of lab N] by force

lemma ac_visit_char_ok:
  assumes st: "bfs_state lab P fin disc h" and r: "r < length h" "r \<noteq> 0" "r \<in> disc"
    and c: "c < 128" "\<not> fin r c"
    and short_done: "\<And>i. i < length h \<Longrightarrow> length (lab i) < length (lab r) \<Longrightarrow> fin i c"
    and short_disc: "\<And>i. i < length h \<Longrightarrow> length (lab i) \<le> length (lab r) \<Longrightarrow> i \<in> disc"
  shows "\<exists>h' us. ac_visit_char r c (Some (h, q)) = Some (h', q @ us) \<and> length h' = length h \<and> distinct us \<and>
     set us = {u. u < length h \<and> lab u = lab r @ [c]} \<and>
     bfs_state lab P (\<lambda>i d. fin i d \<or> i = r \<and> d = c) (disc \<union> set us) h'"
proof -
  let ?N = "length h" and ?L = "lang lab (length h)"
  have trie: "is_trie lab ?N" and P: "P \<subseteq> ?L"
    and edges: "\<And>i d. i < ?N \<Longrightarrow> d < 128 \<Longrightarrow> if fin i d then final_edge lab ?N i d (ac_next h i d)
                                 else trie_edge lab ?N i d (ac_next h i d)"
    and fails: "\<And>i. i < ?N \<Longrightarrow> i \<in> disc \<Longrightarrow> i \<noteq> 0 \<Longrightarrow> final_fail lab ?N i (an_fail (h ! i))"
    and outs: "\<And>i. i < ?N \<Longrightarrow> an_out (h ! i) \<longleftrightarrow> (if i \<in> disc then occurs_end P (lab i) else lab i \<in> P)"
    using st unfolding bfs_state_def by blast+
  have rlab: "lab r \<noteq> []" using trie_label_Nil [OF trie r(1)] r(2) by blast
  obtain f where f: "an_fail (h ! r) = Some f" "f < ?N" "lab f = lsuf ?L (tl (lab r))"
    using fails [OF r(1,3,2)] by (auto simp: final_fail_def)
  have "length (lab f) < length (lab r)"
    using rlab length_lsuf [of ?L "tl (lab r)"] by (simp add: f(3) less_le_trans order.strict_trans1)
  then have "fin f c" using short_done f(2) by blast
  then obtain g where g: "ac_next h f c = Some g" "g < ?N" "lab g = lsuf ?L (tl (lab r @ [c]))"
    using edges [OF f(2) c(1)] delta_of_fail [OF trie rlab, of c] by (auto simp: final_edge_def f(3))
  have redge: "trie_edge lab ?N r c (ac_next h r c)" using edges [OF r(1) c(1)] c(2) by simp
  show ?thesis
  proof (cases "ac_next h r c")
    case None
    then have miss: "lab r @ [c] \<notin> ?L" using redge by (simp add: trie_edge_def)
    then have "final_edge lab ?N r c (Some g)"
      using g(2,3) delta_miss [OF trie rlab miss] by (simp add: final_edge_def)
    from bfs_set_edge [OF st r(1) c(1) this] show ?thesis
      using None f(1) g(1) children_none [OF miss]
      by (intro exI [of _ "set_next r c (Some g) h"] exI [of _ "[]"]) (simp add: ac_visit_char_def)
  next
    case (Some u)
    then have u: "u < ?N" "lab u = lab r @ [c]" using redge by (auto simp: trie_edge_def)
    have "length (lab g) \<le> length (lab r)" using length_lsuf [of ?L "tl (lab r @ [c])"] by (simp add: g(3))
    then have out_g: "an_out (h ! g) = occurs_end P (lab g)" and gu: "g \<noteq> u"
      using short_disc [OF g(2)] outs [OF g(2)] u(2) by auto
    have out_u: "an_out (h ! u) \<or> an_out (h ! g) \<longleftrightarrow> occurs_end P (lab u)"
      unfolding out_g g(3) occurs_end_lsuf [OF P]
      using occurs_end_Cons [of P "hd (lab u)" "tl (lab u)"] outs [OF u(1)] u(2) by (auto split: if_splits)
    have "final_fail lab ?N u (Some g)" using g(2,3) by (simp add: final_fail_def u(2))
    note upd = bfs_discover [OF st r(1) u Some this out_u]
    let ?h = "h[u := (h ! u)\<lparr> an_fail := Some g, an_out := an_out (h ! u) \<or> an_out (h ! g) \<rparr>]"
    have "ac_visit_char r c (Some (h, q)) = Some (?h, q @ [u])"
      using Some f(1) g(1) u(1) gu by (cases "an_out (h ! g)") (simp_all add: ac_visit_char_def Let_def set_fail_def set_out_def)
    then show ?thesis
      using upd children_one [OF trie u(1)] u(2) by (intro exI [of _ ?h] exI [of _ "[u]"]) simp
  qed
qed

text \<open>One round of the outer loop, over all 128 bytes.\<close>

lemma ac_visit_chars_ok:
  assumes "bfs_state lab P fin disc h" "r < length h" "r \<noteq> 0" "r \<in> disc" "distinct cs"
    and "\<And>c. c \<in> set cs \<Longrightarrow> c < 128 \<and> \<not> fin r c"
    and "\<And>i c. i < length h \<Longrightarrow> length (lab i) < length (lab r) \<Longrightarrow> c \<in> set cs \<Longrightarrow> fin i c"
    and "\<And>i. i < length h \<Longrightarrow> length (lab i) \<le> length (lab r) \<Longrightarrow> i \<in> disc"
  shows "\<exists>h' us. fold (ac_visit_char r) cs (Some (h, q)) = Some (h', q @ us) \<and> length h' = length h \<and>
     distinct us \<and> set us = {u. u < length h \<and> (\<exists>c \<in> set cs. lab u = lab r @ [c])} \<and>
     bfs_state lab P (\<lambda>i d. fin i d \<or> i = r \<and> d \<in> set cs) (disc \<union> set us) h'"
  using assms
proof (induction cs arbitrary: h q fin disc)
  case Nil
  then show ?case by simp
next
  case (Cons c cs)
  from ac_visit_char_ok [OF Cons.prems(1-4), of c q] Cons.prems(5-8)
  obtain h1 us1 where v: "ac_visit_char r c (Some (h, q)) = Some (h1, q @ us1)" "length h1 = length h" "distinct us1"
    "set us1 = {u. u < length h \<and> lab u = lab r @ [c]}"
    "bfs_state lab P (\<lambda>i d. fin i d \<or> i = r \<and> d = c) (disc \<union> set us1) h1"
    by auto
  have fresh: "d < 128 \<and> \<not> (fin r d \<or> r = r \<and> d = c)" if "d \<in> set cs" for d
    using that Cons.prems(5,6) by auto
  have "\<exists>h2 us2. fold (ac_visit_char r) cs (Some (h1, q @ us1)) = Some (h2, (q @ us1) @ us2) \<and>
    length h2 = length h1 \<and> distinct us2 \<and> set us2 = {u. u < length h1 \<and> (\<exists>c \<in> set cs. lab u = lab r @ [c])} \<and>
    bfs_state lab P (\<lambda>i d. (fin i d \<or> i = r \<and> d = c) \<or> i = r \<and> d \<in> set cs) (disc \<union> set us1 \<union> set us2) h2"
  proof (rule Cons.IH [OF v(5)])
    show "r < length h1" "r \<noteq> 0" "r \<in> disc \<union> set us1" using Cons.prems(2-4) v(2) by simp_all
    show "distinct cs" using Cons.prems(5) by simp
    show "d < 128 \<and> \<not> (fin r d \<or> r = r \<and> d = c)" if "d \<in> set cs" for d by (rule fresh [OF that])
    show "fin i d \<or> i = r \<and> d = c" if "i < length h1" "length (lab i) < length (lab r)" "d \<in> set cs" for i d
      using Cons.prems(7) [of i d] that v(2) by simp
    show "i \<in> disc \<union> set us1" if "i < length h1" "length (lab i) \<le> length (lab r)" for i
      using Cons.prems(8) [of i] that v(2) by simp
  qed
  then obtain h2 us2 where w: "fold (ac_visit_char r) cs (Some (h1, q @ us1)) = Some (h2, (q @ us1) @ us2)"
    "length h2 = length h" "distinct us2" "set us2 = {u. u < length h \<and> (\<exists>c \<in> set cs. lab u = lab r @ [c])}"
    "bfs_state lab P (\<lambda>i d. (fin i d \<or> i = r \<and> d = c) \<or> i = r \<and> d \<in> set cs) (disc \<union> set us1 \<union> set us2) h2"
    unfolding v(2) by (elim exE conjE) (rule that)
  have "set us1 \<inter> set us2 = {}"
  proof (rule equals0I)
    fix u assume u: "u \<in> set us1 \<inter> set us2"
    have "lab u = lab r @ [c]" "\<exists>d \<in> set cs. lab u = lab r @ [d]" using u unfolding v(4) w(4) by blast+
    then show False using Cons.prems(5) by auto
  qed
  then have "distinct (us1 @ us2)" using v(3) w(3) by simp
  moreover have "set (us1 @ us2) = {u. u < length h \<and> (\<exists>d \<in> set (c # cs). lab u = lab r @ [d])}"
    using v(4) w(4) by auto
  moreover have "bfs_state lab P (\<lambda>i d. fin i d \<or> i = r \<and> d \<in> set (c # cs)) (disc \<union> set (us1 @ us2)) h2"
  proof -
    have "(\<lambda>i d. (fin i d \<or> i = r \<and> d = c) \<or> i = r \<and> d \<in> set cs) = (\<lambda>i d. fin i d \<or> i = r \<and> d \<in> set (c # cs))"
      by auto
    then show ?thesis using w(5) by (simp add: Un_assoc)
  qed
  ultimately show ?case
    using v(1) w(1,2) by (intro exI [of _ h2] exI [of _ "us1 @ us2"]) simp
qed

definition bfs_inv :: "(nat \<Rightarrow> nat list) \<Rightarrow> nat list set \<Rightarrow> nat set \<Rightarrow> nat list \<Rightarrow> Matcher \<Rightarrow> bool" where
  "bfs_inv lab P dn q h \<longleftrightarrow>
     bfs_state lab P (\<lambda>i c. i \<in> dn) (dn \<union> set q) h \<and>
     (\<forall>i < length h. set (lab i) \<subseteq> {..<128}) \<and>
     0 \<in> dn \<and> dn \<subseteq> {..<length h} \<and> set q \<subseteq> {..<length h} \<and> distinct q \<and> dn \<inter> set q = {} \<and>
     sorted_wrt (\<lambda>a b. length (lab a) \<le> length (lab b)) q \<and>
     (\<forall>a \<in> set q. length (lab a) \<le> Suc (length (lab (hd q)))) \<and>
     (\<forall>i \<in> dn. \<forall>j < length h. \<forall>c. lab j = lab i @ [c] \<longrightarrow> j \<in> dn \<union> set q) \<and>
     (\<forall>j \<in> dn \<union> set q. j \<noteq> 0 \<longrightarrow> (\<exists>i \<in> dn. \<exists>c. lab j = lab i @ [c]))"

text \<open>A node that is not discovered yet has an ancestor in the queue.\<close>

lemma undiscovered_ancestor:
  assumes "bfs_inv lab P dn q h" "i < length h"
  shows "i \<in> dn \<union> set q \<or> (\<exists>a \<in> set q. length (lab a) < length (lab i))"
  using assms(2)
proof (induction "length (lab i)" arbitrary: i)
  case 0
  then have "i = 0" using assms(1) trie_label_Nil by (auto simp: bfs_inv_def bfs_state_def)
  then show ?case using assms(1) by (simp add: bfs_inv_def)
next
  case (Suc n)
  have trie: "is_trie lab (length h)" using assms(1) by (simp add: bfs_inv_def bfs_state_def)
  have split: "lab i = butlast (lab i) @ [last (lab i)]" using Suc.hyps(2) by (metis append_butlast_last_id length_0_conv nat.distinct(1))
  then have "butlast (lab i) \<in> lang lab (length h)"
    using trie_lang(2) [OF trie] Suc.prems unfolding prefix_closed_def by (metis imageI lessThan_iff)
  then obtain p where p: "p < length h" "lab p = butlast (lab i)" by auto
  then have len: "length (lab p) = n" using Suc.hyps(2) by simp
  from Suc.hyps(1) [of p] p len consider "p \<in> dn" | "p \<in> set q" | a where "a \<in> set q" "length (lab a) < length (lab p)"
    by auto
  then show ?case
  proof cases
    case 1
    then show ?thesis using assms(1) Suc.prems p(2) split unfolding bfs_inv_def by metis
  next
    case 2
    then show ?thesis using len Suc.hyps(2) by (metis lessI)
  next
    case 3
    then show ?thesis using len Suc.hyps(2) by (metis less_SucI)
  qed
qed

lemma bfs_shorter:
  assumes "bfs_inv lab P dn (r # q) h" "i < length h"
  shows "length (lab i) < length (lab r) \<Longrightarrow> i \<in> dn"
    and "length (lab i) \<le> length (lab r) \<Longrightarrow> i \<in> dn \<union> set (r # q)"
proof -
  have srt: "\<forall>a \<in> set (r # q). length (lab r) \<le> length (lab a)" using assms(1) by (auto simp: bfs_inv_def)
  show "length (lab i) \<le> length (lab r) \<Longrightarrow> i \<in> dn \<union> set (r # q)"
    using undiscovered_ancestor [OF assms] srt by fastforce
  then show "length (lab i) < length (lab r) \<Longrightarrow> i \<in> dn" using srt by fastforce
qed

lemma bfs_inv_step:
  assumes inv: "bfs_inv lab P dn (r # q) h"
  shows "\<exists>h' us. fold (ac_visit_char r) ac_chars (Some (h, q)) = Some (h', q @ us) \<and> length h' = length h \<and>
    bfs_inv lab P (insert r dn) (q @ us) h'"
proof -
  have st: "bfs_state lab P (\<lambda>i c. i \<in> dn) (dn \<union> set (r # q)) h"
    and r: "r < length h" "r \<notin> dn" "r \<noteq> 0" "r \<notin> set q" using inv unfolding bfs_inv_def by auto
  have trie: "is_trie lab (length h)" using st by (simp add: bfs_state_def)
  have "\<exists>h' us. fold (ac_visit_char r) ac_chars (Some (h, q)) = Some (h', q @ us) \<and> length h' = length h \<and>
     distinct us \<and> set us = {u. u < length h \<and> (\<exists>c \<in> set ac_chars. lab u = lab r @ [c])} \<and>
     bfs_state lab P (\<lambda>i d. i \<in> dn \<or> i = r \<and> d \<in> set ac_chars) (dn \<union> set (r # q) \<union> set us) h'"
  proof (rule ac_visit_chars_ok [OF st r(1,3)])
    show "r \<in> dn \<union> set (r # q)" "distinct ac_chars" by simp_all
    show "c < 128 \<and> r \<notin> dn" if "c \<in> set ac_chars" for c using r(2) that by simp
    show "i \<in> dn" if "i < length h" "length (lab i) < length (lab r)" for i using bfs_shorter(1) [OF inv] that by blast
    show "i \<in> dn \<union> set (r # q)" if "i < length h" "length (lab i) \<le> length (lab r)" for i
      using bfs_shorter(2) [OF inv] that by blast
  qed
  then obtain h' us where v: "fold (ac_visit_char r) ac_chars (Some (h, q)) = Some (h', q @ us)" "length h' = length h"
    "distinct us" "set us = {u. u < length h \<and> (\<exists>c \<in> set ac_chars. lab u = lab r @ [c])}"
    "bfs_state lab P (\<lambda>i d. i \<in> dn \<or> i = r \<and> d \<in> set ac_chars) (dn \<union> set (r # q) \<union> set us) h'"
    by (elim exE conjE) (rule that)
  have ascii: "c < 128" if "u < length h" "lab u = lab r @ [c]" for u c
  proof -
    have "set (lab u) \<subseteq> {..<128}" using inv that(1) by (simp add: bfs_inv_def)
    then show ?thesis by (simp add: that(2))
  qed
  have kids: "set us = {u. u < length h \<and> (\<exists>c. lab u = lab r @ [c])}"
  proof (intro set_eqI iffI)
    fix u assume "u \<in> {u. u < length h \<and> (\<exists>c. lab u = lab r @ [c])}"
    then obtain c where "u < length h" "lab u = lab r @ [c]" by blast
    then show "u \<in> set us" using ascii unfolding v(4) by auto
  qed (use v(4) in blast)
  have len_us: "length (lab u) = Suc (length (lab r))" if "u \<in> set us" for u
    using that unfolding kids by (elim CollectE conjE exE) simp
  have q_le: "length (lab r) \<le> length (lab a)" "length (lab a) \<le> Suc (length (lab r))" if "a \<in> set q" for a
    using inv that unfolding bfs_inv_def by auto
  have inrange: "dn \<union> set (r # q) \<subseteq> {..<length h}" using inv unfolding bfs_inv_def by auto
  have par: "\<forall>j \<in> dn \<union> set (r # q). j \<noteq> 0 \<longrightarrow> (\<exists>i \<in> dn. \<exists>c. lab j = lab i @ [c])"
    using inv unfolding bfs_inv_def by (elim conjE)
  have chl: "\<forall>i \<in> dn. \<forall>j < length h. \<forall>c. lab j = lab i @ [c] \<longrightarrow> j \<in> dn \<union> set (r # q)"
    using inv unfolding bfs_inv_def by (elim conjE)
  have newu: "u \<notin> dn \<union> set (r # q)" if u: "u \<in> set us" for u
  proof
    assume "u \<in> dn \<union> set (r # q)"
    moreover obtain c where c: "lab u = lab r @ [c]" using u kids by auto
    moreover have "u \<noteq> 0" using c trie unfolding is_trie_def by (metis append_is_Nil_conv list.distinct(1))
    ultimately obtain i d where "i \<in> dn" "lab u = lab i @ [d]" using par by blast
    then show False using c trie_inj [OF trie r(1), of i] inrange r(2) by auto
  qed
  have sets: "insert r dn \<union> set (q @ us) = dn \<union> set (r # q) \<union> set us" by auto
  have "bfs_state lab P (\<lambda>i c. i \<in> insert r dn) (insert r dn \<union> set (q @ us)) h'"
    unfolding sets using v(5) unfolding bfs_state_def by (auto split: if_splits)
  moreover have "sorted_wrt (\<lambda>a b. length (lab a) \<le> length (lab b)) (q @ us)"
  proof -
    have "sorted_wrt (\<lambda>a b. length (lab a) \<le> length (lab b)) us"
      using len_us by (simp add: sorted_wrt_iff_nth_less)
    then show ?thesis
      using inv q_le(2) len_us unfolding bfs_inv_def by (auto simp: sorted_wrt_append)
  qed
  moreover have "\<forall>a \<in> set (q @ us). length (lab a) \<le> Suc (length (lab (hd (q @ us))))"
  proof (cases "q @ us")
    case (Cons x xs)
    then have "x \<in> set q \<or> x \<in> set us" by (metis list.set_intros(1) set_append Un_iff)
    then have "length (lab r) \<le> length (lab x)" using q_le(1) len_us by fastforce
    moreover have "length (lab a) \<le> Suc (length (lab r))" if "a \<in> set (q @ us)" for a
      using that q_le(2) len_us by (auto simp: less_imp_le)
    ultimately show ?thesis using Cons by (metis Suc_le_mono list.sel(1) order_trans)
  qed simp
  moreover have "\<forall>i \<in> insert r dn. \<forall>j < length h. \<forall>c. lab j = lab i @ [c] \<longrightarrow> j \<in> insert r dn \<union> set (q @ us)"
    using chl unfolding sets kids by blast
  moreover have "\<forall>j \<in> insert r dn \<union> set (q @ us). j \<noteq> 0 \<longrightarrow> (\<exists>i \<in> insert r dn. \<exists>c. lab j = lab i @ [c])"
    using par unfolding sets kids by blast
  moreover have "set (q @ us) \<subseteq> {..<length h}" "distinct (q @ us)" "insert r dn \<inter> set (q @ us) = {}"
    using inv kids newu v(3) unfolding bfs_inv_def by auto
  ultimately have "bfs_inv lab P (insert r dn) (q @ us) h'"
    using inv unfolding bfs_inv_def v(2) by (intro conjI) auto
  then show ?thesis using v(1,2) by blast
qed

text \<open>The first loop of \<open>buildFail\<close>, over the edges of the root.\<close>

lemma ac_root_char_ok:
  assumes st: "bfs_state lab P fin disc h" and c: "c < 128" "\<not> fin 0 c" and root: "0 \<in> disc"
  shows "\<exists>h' us. ac_root_char c (h, q) = (h', q @ us) \<and> length h' = length h \<and> distinct us \<and>
     set us = {u. u < length h \<and> lab u = [c]} \<and>
     bfs_state lab P (\<lambda>i d. fin i d \<or> i = 0 \<and> d = c) (disc \<union> set us) h'"
proof -
  let ?N = "length h" and ?L = "lang lab (length h)"
  have trie: "is_trie lab ?N" and P: "[] \<notin> P"
    and edges: "\<And>i d. i < ?N \<Longrightarrow> d < 128 \<Longrightarrow> if fin i d then final_edge lab ?N i d (ac_next h i d)
                                 else trie_edge lab ?N i d (ac_next h i d)"
    and outs: "\<And>i. i < ?N \<Longrightarrow> an_out (h ! i) \<longleftrightarrow> (if i \<in> disc then occurs_end P (lab i) else lab i \<in> P)"
    using st unfolding bfs_state_def by blast+
  have zero: "0 < ?N" "lab 0 = []" using trie by (auto simp: is_trie_def)
  have redge: "trie_edge lab ?N 0 c (ac_next h 0 c)" using edges [OF zero(1) c(1)] c(2) by simp
  show ?thesis
  proof (cases "ac_next h 0 c")
    case None
    then have miss: "[c] \<notin> ?L" using redge by (simp add: trie_edge_def zero(2))
    then have "final_edge lab ?N 0 c (Some 0)" using zero by (simp add: final_edge_def)
    from bfs_set_edge [OF st zero(1) c(1) this] show ?thesis
      using None children_none [OF miss]
      by (intro exI [of _ "set_next 0 c (Some 0) h"] exI [of _ "[]"]) (simp add: ac_root_char_def)
  next
    case (Some u)
    then have u: "u < ?N" "lab u = lab 0 @ [c]" using redge by (auto simp: trie_edge_def)
    have out: "an_out (h ! u) \<longleftrightarrow> occurs_end P (lab u)"
      using outs [OF u(1)] P by (auto simp: u(2) zero(2) occurs_end_Cons) (simp add: occurs_end_def)
    have "final_fail lab ?N u (Some 0)" using zero by (simp add: final_fail_def u(2))
    note upd = bfs_discover [OF st zero(1) u Some this out]
    have "ac_root_char c (h, q) = (h[u := (h ! u)\<lparr> an_fail := Some 0, an_out := an_out (h ! u) \<rparr>], q @ [u])"
      using Some by (simp add: ac_root_char_def set_fail_def)
    then show ?thesis
      using upd children_one [OF trie u(1)] u(2) zero(2)
      by (intro exI [of _ "h[u := (h ! u)\<lparr> an_fail := Some 0, an_out := an_out (h ! u) \<rparr>]"] exI [of _ "[u]"]) simp
  qed
qed

lemma ac_root_chars_ok:
  assumes "bfs_state lab P fin disc h" "0 \<in> disc" "distinct cs" "\<And>c. c \<in> set cs \<Longrightarrow> c < 128 \<and> \<not> fin 0 c"
  shows "\<exists>h' us. fold ac_root_char cs (h, q) = (h', q @ us) \<and> length h' = length h \<and> distinct us \<and>
     set us = {u. u < length h \<and> (\<exists>c \<in> set cs. lab u = [c])} \<and>
     bfs_state lab P (\<lambda>i d. fin i d \<or> i = 0 \<and> d \<in> set cs) (disc \<union> set us) h'"
  using assms
proof (induction cs arbitrary: h q fin disc)
  case (Cons c cs)
  have "c < 128" "\<not> fin 0 c" using Cons.prems(4) by auto
  from ac_root_char_ok [OF Cons.prems(1) this Cons.prems(2), of q]
  obtain h1 us1 where v: "ac_root_char c (h, q) = (h1, q @ us1)" "length h1 = length h" "distinct us1"
    "set us1 = {u. u < length h \<and> lab u = [c]}"
    "bfs_state lab P (\<lambda>i d. fin i d \<or> i = 0 \<and> d = c) (disc \<union> set us1) h1"
    by (elim exE conjE) (rule that)
  have "\<exists>h2 us2. fold ac_root_char cs (h1, q @ us1) = (h2, (q @ us1) @ us2) \<and>
    length h2 = length h1 \<and> distinct us2 \<and> set us2 = {u. u < length h1 \<and> (\<exists>c \<in> set cs. lab u = [c])} \<and>
    bfs_state lab P (\<lambda>i d. (fin i d \<or> i = 0 \<and> d = c) \<or> i = 0 \<and> d \<in> set cs) (disc \<union> set us1 \<union> set us2) h2"
  proof (rule Cons.IH [OF v(5)])
    show "0 \<in> disc \<union> set us1" using Cons.prems(2) by simp
    show "distinct cs" using Cons.prems(3) by simp
    show "d < 128 \<and> \<not> (fin 0 d \<or> 0 = 0 \<and> d = c)" if "d \<in> set cs" for d using that Cons.prems(3,4) by auto
  qed
  then obtain h2 us2 where w: "fold ac_root_char cs (h1, q @ us1) = (h2, (q @ us1) @ us2)"
    "length h2 = length h" "distinct us2" "set us2 = {u. u < length h \<and> (\<exists>c \<in> set cs. lab u = [c])}"
    "bfs_state lab P (\<lambda>i d. (fin i d \<or> i = 0 \<and> d = c) \<or> i = 0 \<and> d \<in> set cs) (disc \<union> set us1 \<union> set us2) h2"
    unfolding v(2) by (elim exE conjE) (rule that)
  have "set us1 \<inter> set us2 = {}" using v(4) w(4) Cons.prems(3) by auto
  then have "distinct (us1 @ us2)" using v(3) w(3) by simp
  moreover have "set (us1 @ us2) = {u. u < length h \<and> (\<exists>d \<in> set (c # cs). lab u = [d])}"
    using v(4) w(4) by auto
  moreover have "bfs_state lab P (\<lambda>i d. fin i d \<or> i = 0 \<and> d \<in> set (c # cs)) (disc \<union> set (us1 @ us2)) h2"
  proof -
    have "(\<lambda>i d. (fin i d \<or> i = 0 \<and> d = c) \<or> i = 0 \<and> d \<in> set cs) = (\<lambda>i d. fin i d \<or> i = 0 \<and> d \<in> set (c # cs))"
      by auto
    then show ?thesis using w(5) by (simp add: Un_assoc)
  qed
  ultimately show ?case
    using v(1) w(1,2) by (intro exI [of _ h2] exI [of _ "us1 @ us2"]) simp
qed simp

text \<open>Each round finishes one node, so as many rounds as there are nodes are enough.\<close>

lemma ac_bfs_ok:
  assumes "bfs_inv lab P dn q h" "length h \<le> fuel + card dn"
  shows "\<exists>h' dn'. ac_bfs fuel h q = Some h' \<and> bfs_inv lab P dn' [] h' \<and> length h' = length h"
  using assms
proof (induction fuel arbitrary: dn q h)
  case 0
  have "dn \<subseteq> {..<length h}" using 0 by (simp add: bfs_inv_def)
  then have "dn = {..<length h}" using 0 by (intro card_subset_eq) (auto dest: card_mono [rotated])
  moreover have "dn \<inter> set q = {}" "set q \<subseteq> {..<length h}" using 0 by (auto simp: bfs_inv_def)
  ultimately have "set q = {}" by (simp add: Int_absorb1)
  then have "ac_bfs 0 h q = Some h" "bfs_inv lab P dn [] h" using 0(1) by simp_all
  then show ?case by blast
next
  case (Suc fuel)
  show ?case
  proof (cases q)
    case Nil
    then show ?thesis using Suc.prems(1) by auto
  next
    case (Cons r q')
    have fin: "finite dn" using Suc.prems(1) by (auto simp: bfs_inv_def intro: finite_subset)
    have r: "r \<notin> dn" using Suc.prems(1) Cons by (auto simp: bfs_inv_def)
    from bfs_inv_step [OF Suc.prems(1) [unfolded Cons]] obtain h1 us where
      v: "fold (ac_visit_char r) ac_chars (Some (h, q')) = Some (h1, q' @ us)" "length h1 = length h"
        "bfs_inv lab P (insert r dn) (q' @ us) h1" by (elim exE conjE) (rule that)
    have "length h1 \<le> fuel + card (insert r dn)" using Suc.prems(2) fin r v(2) by simp
    from Suc.IH [OF v(3) this] show ?thesis using v(1,2) Cons by simp
  qed
qed

lemma bfs_init:
  assumes "trie_heap h lab P" "[] \<notin> P" "\<forall>i < length h. set (lab i) \<subseteq> {..<128}"
  shows "\<exists>h' q. fold ac_root_char ac_chars (h, []) = (h', q) \<and> length h' = length h \<and> bfs_inv lab P {0} q h'"
proof -
  have trie: "is_trie lab (length h)" using assms(1) by (simp add: trie_heap_def)
  then have zero: "0 < length h" "lab 0 = []" by (auto simp: is_trie_def)
  have "bfs_state lab P (\<lambda>i c. False) {0} h"
    using assms zero unfolding trie_heap_def bfs_state_def by (auto simp: occurs_end_def)
  then have "\<exists>h' us. fold ac_root_char ac_chars (h, []) = (h', [] @ us) \<and> length h' = length h \<and> distinct us \<and>
     set us = {u. u < length h \<and> (\<exists>c \<in> set ac_chars. lab u = [c])} \<and>
     bfs_state lab P (\<lambda>i d. False \<or> i = 0 \<and> d \<in> set ac_chars) ({0} \<union> set us) h'"
    by (rule ac_root_chars_ok) simp_all
  then obtain h' us where
    v: "fold ac_root_char ac_chars (h, []) = (h', us)" "length h' = length h" "distinct us"
      "set us = {u. u < length h \<and> (\<exists>c \<in> {..<128}. lab u = [c])}"
      "bfs_state lab P (\<lambda>i d. i = 0 \<and> d \<in> {..<128}) ({0} \<union> set us) h'"
    unfolding ac_chars append_Nil simp_thms by (elim exE conjE) (rule that)
  have kids: "u \<in> set us \<longleftrightarrow> u < length h \<and> (\<exists>c. lab u = [c])" for u
  proof
    assume u: "u < length h \<and> (\<exists>c. lab u = [c])"
    then obtain c where c: "lab u = [c]" by blast
    have "set (lab u) \<subseteq> {..<128}" using assms(3) u by blast
    then have "c \<in> {..<128}" by (simp add: c)
    then show "u \<in> set us" unfolding v(4) using u c by blast
  qed (use v(4) in blast)
  have len: "length (lab u) = 1" "u \<noteq> 0" if "u \<in> set us" for u
  proof -
    have "\<exists>c. lab u = [c]" using kids [of u] that by (simp only: simp_thms)
    then obtain c where "lab u = [c]" ..
    then show "length (lab u) = 1" "u \<noteq> 0" using zero(2) by (simp, metis list.distinct(1))
  qed
  have "bfs_state lab P (\<lambda>i c. i \<in> {0}) ({0} \<union> set us) h'"
    using v(5) unfolding bfs_state_def by (elim conjE) simp
  moreover have "sorted_wrt (\<lambda>a b. length (lab a) \<le> length (lab b)) us"
    using len(1) by (simp add: sorted_wrt_iff_nth_less)
  moreover have "{0} \<inter> set us = {}" using len(2) by auto
  moreover have "\<forall>a \<in> set us. length (lab a) \<le> Suc (length (lab (hd us)))" using len(1) by simp
  moreover have "\<forall>i \<in> {0}. \<forall>j < length h'. \<forall>c. lab j = lab i @ [c] \<longrightarrow> j \<in> {0} \<union> set us"
    unfolding v(2) using kids zero by (intro ballI allI impI) simp
  moreover have "\<forall>j \<in> {0} \<union> set us. j \<noteq> 0 \<longrightarrow> (\<exists>i \<in> {0}. \<exists>c. lab j = lab i @ [c])"
  proof (intro ballI impI)
    fix j assume "j \<in> {0} \<union> set us" "j \<noteq> 0"
    then have "\<exists>c. lab j = [c]" using kids [of j] by simp
    then show "\<exists>i \<in> {0}. \<exists>c. lab j = lab i @ [c]" using zero by simp
  qed
  moreover have "set us \<subseteq> {..<length h'}" unfolding v(2) by (intro subsetI) (simp add: kids)
  ultimately have "bfs_inv lab P {0} us h'"
    unfolding bfs_inv_def using assms(3) v(2,3) zero by (intro conjI) simp_all
  then show ?thesis using v(1,2) by blast
qed

lemma bfs_done_all:
  assumes "bfs_inv lab P dn [] h" "i < length h"
  shows "i \<in> dn"
  using undiscovered_ancestor [OF assms] by simp

text \<open>The finished automaton: its edges are the goto function, its marks say whether a pattern ends.\<close>

definition automaton :: "(nat \<Rightarrow> nat list) \<Rightarrow> nat list set \<Rightarrow> Matcher \<Rightarrow> bool" where
  "automaton lab P h \<longleftrightarrow> is_trie lab (length h) \<and> P \<subseteq> lang lab (length h) \<and>
     (\<forall>i < length h. \<forall>c < 128. final_edge lab (length h) i c (ac_next h i c)) \<and>
     (\<forall>i < length h. an_out (h ! i) \<longleftrightarrow> occurs_end P (lab i))"

lemma automaton_of_bfs: "bfs_inv lab P dn [] h \<Longrightarrow> automaton lab P h"
proof -
  assume inv: "bfs_inv lab P dn [] h"
  have dn: "i < length h \<Longrightarrow> i \<in> dn" for i by (rule bfs_done_all [OF inv])
  have st: "bfs_state lab P (\<lambda>i c. i \<in> dn) dn h" using inv by (simp add: bfs_inv_def)
  have edges: "\<forall>i < length h. \<forall>c < 128. if i \<in> dn then final_edge lab (length h) i c (ac_next h i c)
      else trie_edge lab (length h) i c (ac_next h i c)"
    and outs: "\<forall>i < length h. an_out (h ! i) \<longleftrightarrow> (if i \<in> dn then occurs_end P (lab i) else lab i \<in> P)"
    using st unfolding bfs_state_def by blast+
  have "is_trie lab (length h)" "P \<subseteq> lang lab (length h)" using st by (simp_all add: bfs_state_def)
  then show ?thesis using edges outs dn unfolding automaton_def by simp
qed

definition occurs_in :: "nat list set \<Rightarrow> nat list \<Rightarrow> string \<Rightarrow> bool" where
  "occurs_in P w s \<longleftrightarrow> (\<exists>n. 0 < n \<and> n \<le> length s \<and> (\<forall>c \<in> set (take n s). is_ascii c) \<and>
     occurs_end P (w @ map byte_of (take n s)))"

lemma buildFail_ok:
  assumes "trie_heap h lab P" "[] \<notin> P" "\<forall>i < length h. set (lab i) \<subseteq> {..<128}"
  shows "\<exists>h'. buildFail h = Some h' \<and> automaton lab P h' \<and> h' \<noteq> []"
proof -
  from bfs_init [OF assms] obtain h1 q where v: "fold ac_root_char ac_chars (h, []) = (h1, q)"
    "length h1 = length h" "bfs_inv lab P {0} q h1" by (elim exE conjE) (rule that)
  from ac_bfs_ok [OF v(3), of "length h1"] obtain h2 dn where
    w: "ac_bfs (length h1) h1 q = Some h2" "bfs_inv lab P dn [] h2" "length h2 = length h1" by auto
  then show ?thesis
    using automaton_of_bfs [OF w(2)] assms(1) v
    by (auto simp: buildFail_def trie_heap_def is_trie_def)
qed

section \<open>Scanning\<close>

lemma occurs_in_Cons:
  assumes "is_ascii ch"
  shows "occurs_in P w (ch # s) \<longleftrightarrow>
    occurs_end P (w @ [byte_of ch]) \<or> occurs_in P (w @ [byte_of ch]) s"
proof
  assume "occurs_in P w (ch # s)"
  then obtain n where n: "0 < n" "n \<le> Suc (length s)" "\<forall>c \<in> set (take n (ch # s)). is_ascii c"
    "occurs_end P (w @ map byte_of (take n (ch # s)))" by (auto simp: occurs_in_def)
  then show "occurs_end P (w @ [byte_of ch]) \<or> occurs_in P (w @ [byte_of ch]) s"
    by (cases n; cases "n = 1") (auto simp: occurs_in_def intro!: exI [of _ "n - 1"])
next
  assume "occurs_end P (w @ [byte_of ch]) \<or> occurs_in P (w @ [byte_of ch]) s"
  then show "occurs_in P w (ch # s)"
  proof
    assume "occurs_in P (w @ [byte_of ch]) s"
    then obtain n where "n \<le> length s" "\<forall>c \<in> set (take n s). is_ascii c"
      "occurs_end P (w @ [byte_of ch] @ map byte_of (take n s))" by (auto simp: occurs_in_def)
    then show ?thesis using assms unfolding occurs_in_def by (intro exI [of _ "Suc n"]) auto
  qed (use assms in \<open>auto simp: occurs_in_def intro!: exI [of _ 1]\<close>)
qed

lemma occurs_in_non_ascii: "\<not> is_ascii ch \<Longrightarrow> \<not> occurs_in P w (ch # s)"
  by (auto simp: occurs_in_def take_Cons split: nat.splits)

lemma ac_scan_step:
  assumes "automaton lab P h" "n < length h" "lab n = lsuf (lang lab (length h)) w" "is_ascii ch"
  shows "\<exists>j < length h. ac_next h n (byte_of ch) = Some j \<and> lab j = lsuf (lang lab (length h)) (w @ [byte_of ch]) \<and>
    (an_out (h ! j) \<longleftrightarrow> occurs_end P (w @ [byte_of ch]))"
proof -
  have trie: "is_trie lab (length h)" and P: "P \<subseteq> lang lab (length h)" using assms(1) by (auto simp: automaton_def)
  have "final_edge lab (length h) n (byte_of ch) (ac_next h n (byte_of ch))"
    using assms by (simp add: automaton_def is_ascii_def)
  then obtain j where j: "ac_next h n (byte_of ch) = Some j" "j < length h"
    "lab j = lsuf (lang lab (length h)) (lab n @ [byte_of ch])" by (auto simp: final_edge_def)
  have lab: "lab j = lsuf (lang lab (length h)) (w @ [byte_of ch])"
    using lsuf_snoc [OF trie_lang(2) [OF trie], of w "byte_of ch"] by (simp add: j(3) assms(3))
  have "an_out (h ! j) \<longleftrightarrow> occurs_end P (lab j)" using assms(1) j(2) by (simp add: automaton_def)
  then show ?thesis using j(1,2) lab occurs_end_lsuf [OF P] by auto
qed

text \<open>A word of ASCII bytes occurs in \<open>w @ s\<close> beyond \<open>w\<close>: either it ends in the first ASCII run, or it
  lies in what follows the next non-ASCII byte.\<close>

lemma ac_scan_iff:
  assumes "automaton lab P h" "n < length h" "lab n = lsuf (lang lab (length h)) w"
  shows "ac_scan h n s \<longleftrightarrow> occurs_in P w s \<or>
    (\<exists>k < length s. \<not> is_ascii (s ! k) \<and> occurs_in P [] (drop (Suc k) s))"
  using assms(2,3)
proof (induction s arbitrary: n w)
  case Nil
  then show ?case by (auto simp: occurs_in_def)
next
  case (Cons ch s)
  have trie: "is_trie lab (length h)" using assms(1) by (simp add: automaton_def)
  have later: "(\<exists>k < length (ch # s). \<not> is_ascii ((ch # s) ! k) \<and> occurs_in P [] (drop (Suc k) (ch # s))) \<longleftrightarrow>
      \<not> is_ascii ch \<and> occurs_in P [] s \<or>
      (\<exists>k < length s. \<not> is_ascii (s ! k) \<and> occurs_in P [] (drop (Suc k) s))"
    by (auto simp: less_Suc_eq_0_disj)
  show ?case
  proof (cases "is_ascii ch")
    case False
    have zero: "0 < length h" "lab 0 = lsuf (lang lab (length h)) []" using trie by (auto simp: is_trie_def)
    show ?thesis
      unfolding later using Cons.IH [OF zero] False occurs_in_non_ascii [OF False]
      by (auto simp: is_ascii_def)
  next
    case True
    from ac_scan_step [OF assms(1) Cons.prems True] obtain j where
      j: "j < length h" "ac_next h n (byte_of ch) = Some j" "lab j = lsuf (lang lab (length h)) (w @ [byte_of ch])"
        "an_out (h ! j) \<longleftrightarrow> occurs_end P (w @ [byte_of ch])" by blast
    show ?thesis
      unfolding later occurs_in_Cons [OF True] using Cons.IH [OF j(1,3)] j(2,4) True
      by (auto simp: is_ascii_def)
  qed
qed

lemma map_byte_inj: "map byte_of a = map byte_of b \<longleftrightarrow> a = b"
  by (metis char_of_char list.inj_map_strong of_char_eq_iff)

text \<open>An ASCII word occurs in \<open>s\<close> exactly when it lies in one ASCII run of \<open>s\<close>.\<close>

lemma occurs_scan_iff:
  assumes "\<forall>p \<in> Q. p \<noteq> [] \<and> (\<forall>c \<in> set p. is_ascii c)"
  shows "(occurs_in (map byte_of ` Q) [] s \<or>
      (\<exists>k < length s. \<not> is_ascii (s ! k) \<and> occurs_in (map byte_of ` Q) [] (drop (Suc k) s))) \<longleftrightarrow>
    (\<exists>p \<in> Q. sublist p s)"
proof -
  have occ: "occurs_in (map byte_of ` Q) [] t \<longleftrightarrow> (\<exists>p \<in> Q. \<exists>n. (\<forall>c \<in> set (take n t). is_ascii c) \<and> suffix p (take n t))" for t
  proof
    assume "occurs_in (map byte_of ` Q) [] t"
    then obtain p n where p: "p \<in> Q" "\<forall>c \<in> set (take n t). is_ascii c" "suffix (map byte_of p) (map byte_of (take n t))"
      by (auto simp: occurs_in_def occurs_end_def)
    then obtain zs where "map byte_of (take n t) = zs @ map byte_of p" by (auto simp: suffix_def)
    then obtain ys where "take n t = ys @ p"
      by (metis append_eq_map_conv map_byte_inj)
    then show "\<exists>p \<in> Q. \<exists>n. (\<forall>c \<in> set (take n t). is_ascii c) \<and> suffix p (take n t)"
      using p by (metis suffixI)
  next
    assume "\<exists>p \<in> Q. \<exists>n. (\<forall>c \<in> set (take n t). is_ascii c) \<and> suffix p (take n t)"
    then obtain p n where p: "p \<in> Q" "\<forall>c \<in> set (take n t). is_ascii c" "suffix p (take n t)" by blast
    from p(3) obtain zs where zs: "take n t = zs @ p" by (auto simp: suffix_def)
    have "take n t \<noteq> []" unfolding zs using p(1) assms by simp
    then have "0 < min n (length t)" by auto
    moreover have "take (min n (length t)) t = take n t" by (simp add: min_def)
    moreover have "suffix (map byte_of p) (map byte_of (take n t))" using p(3) by (auto simp: suffix_def)
    ultimately show "occurs_in (map byte_of ` Q) [] t"
      unfolding occurs_in_def occurs_end_def using p(1,2)
      by (intro exI [of _ "min n (length t)"]) auto
  qed
  show ?thesis
  proof
    assume "occurs_in (map byte_of ` Q) [] s \<or>
      (\<exists>k < length s. \<not> is_ascii (s ! k) \<and> occurs_in (map byte_of ` Q) [] (drop (Suc k) s))"
    then obtain k where "occurs_in (map byte_of ` Q) [] (drop k s)" by (metis drop0)
    then obtain p n where "p \<in> Q" "suffix p (take n (drop k s))" unfolding occ by blast
    then show "\<exists>p \<in> Q. sublist p s"
      by (meson sublist_drop sublist_order.order.trans sublist_take suffix_imp_sublist)
  next
    assume "\<exists>p \<in> Q. sublist p s"
    then obtain p a b where p: "p \<in> Q" "s = a @ p @ b" by (auto simp: sublist_def)
    show "occurs_in (map byte_of ` Q) [] s \<or>
      (\<exists>k < length s. \<not> is_ascii (s ! k) \<and> occurs_in (map byte_of ` Q) [] (drop (Suc k) s))"
    proof (cases "\<forall>c \<in> set a. is_ascii c")
      case True
      then have "\<forall>c \<in> set (take (length (a @ p)) s). is_ascii c" "suffix p (take (length (a @ p)) s)"
        using p assms by (auto simp: suffixI)
      then show ?thesis unfolding occ using p(1) by blast
    next
      case False
      then obtain u x v where a: "a = u @ x # v" "\<not> is_ascii x" "\<forall>c \<in> set v. is_ascii c"
        using split_list_last_prop [of a "\<lambda>c. \<not> is_ascii c"] by blast
      let ?k = "length u"
      have k: "?k < length s" "s ! ?k = x" "drop (Suc ?k) s = v @ p @ b" using p(2) a(1) by auto
      have "take (length (v @ p)) (v @ p @ b) = v @ p" by simp
      then have "occurs_in (map byte_of ` Q) [] (drop (Suc ?k) s)"
        unfolding occ k(3) using p(1) a(3) assms by (intro bexI [of _ p] exI [of _ "length (v @ p)"]) (auto simp: suffixI)
      then show ?thesis using k(1,2) a(2) by blast
    qed
  qed
qed

lemma NewMatcher_ok:
  assumes "\<forall>p \<in> set ps. p \<noteq> [] \<longrightarrow> filter is_ascii p \<noteq> []"
  shows "\<exists>h lab. buildFail (fold ac_insert ps [new_acNode]) = Some h \<and> NewMatcher ps = h \<and> h \<noteq> [] \<and>
    automaton lab (words ps) h"
proof -
  from ac_insert_all [OF trie_heap_new, of ps] obtain lab where
    t: "trie_heap (fold ac_insert ps [new_acNode]) lab (words ps)" by auto
  have "[] \<notin> words ps" using assms by (auto simp: filter_empty_conv)
  from buildFail_ok [OF t this] t show ?thesis
    by (auto simp: NewMatcher_def trie_heap_def)
qed

lemma matcher_iff:
  assumes "\<forall>p \<in> set ps. p \<noteq> [] \<longrightarrow> filter is_ascii p \<noteq> []"
  shows "buildFail (fold ac_insert ps [new_acNode]) = Some (NewMatcher ps) \<and>
    (Matcher_ContainsString (Some (NewMatcher ps)) s \<longleftrightarrow>
      (\<exists>p \<in> set ps. p \<noteq> [] \<and> Contains s (filter is_ascii p))) \<and>
    Matcher_Contains (Some (NewMatcher ps)) s = Matcher_ContainsString (Some (NewMatcher ps)) s"
proof -
  from NewMatcher_ok [OF assms] obtain lab where
    h: "buildFail (fold ac_insert ps [new_acNode]) = Some (NewMatcher ps)" "NewMatcher ps \<noteq> []"
      "automaton lab (words ps) (NewMatcher ps)" by auto
  define Q where "Q = filter is_ascii ` {p \<in> set ps. p \<noteq> []}"
  have words: "words ps = map byte_of ` Q" by (simp add: Q_def image_image)
  have Q: "\<forall>p \<in> Q. p \<noteq> [] \<and> (\<forall>c \<in> set p. is_ascii c)" using assms by (auto simp: Q_def)
  have trie: "is_trie lab (length (NewMatcher ps))" using h(3) by (simp add: automaton_def)
  then have zero: "0 < length (NewMatcher ps)" "lab 0 = lsuf (lang lab (length (NewMatcher ps))) []"
    by (auto simp: is_trie_def)
  have "ac_scan (NewMatcher ps) 0 s \<longleftrightarrow> (\<exists>p \<in> Q. sublist p s)"
    using ac_scan_iff [OF h(3) zero, of s] occurs_scan_iff [OF Q, of s] unfolding words by simp
  moreover have "\<not> (\<exists>p \<in> Q. sublist p [])" using Q by auto
  ultimately have "Matcher_ContainsString (Some (NewMatcher ps)) s \<longleftrightarrow> (\<exists>p \<in> Q. sublist p s)"
    using h(2) by (auto simp: Matcher_ContainsString_def)
  then show ?thesis
    using h(1) by (auto simp: Contains_iff Q_def Matcher_Contains_def Matcher_ContainsString_def)
qed

section \<open>Properties\<close>

text \<open>C9: The Aho-Corasick matcher is correct: for any list of patterns in which no non-empty pattern
  consists of non-ASCII bytes only, building it finishes without a nil dereference, and
  searching a string finds a match exactly when the ASCII part of some non-empty pattern
  occurs in it as a substring.  For ASCII patterns this is plain substring search.\<close>

theorem matcher_correct:
  assumes "\<forall>p \<in> set ps. p \<noteq> [] \<longrightarrow> filter is_ascii p \<noteq> []"
  shows "buildFail (fold ac_insert ps [new_acNode]) = Some (NewMatcher ps) \<and>
    (Matcher_ContainsString (Some (NewMatcher ps)) s \<longleftrightarrow>
      (\<exists>p \<in> set ps. p \<noteq> [] \<and> Contains s (filter is_ascii p))) \<and>
    Matcher_Contains (Some (NewMatcher ps)) s = Matcher_ContainsString (Some (NewMatcher ps)) s"
  using assms by (rule matcher_iff)

theorem matcher_correct_witness:
  "Matcher_ContainsString (Some (NewMatcher [''he'', ''she'', ''hers''])) ''ushers''"
proof -
  have "\<forall>p \<in> set [''he'', ''she'', ''hers'']. p \<noteq> [] \<longrightarrow> filter is_ascii p \<noteq> []" by code_simp
  moreover have "Contains ''ushers'' (filter is_ascii ''she'')" by code_simp
  ultimately show ?thesis using matcher_correct [of "[''he'', ''she'', ''hers'']" "''ushers''"] by auto
qed

text \<open>The zero-allocation helpers agree with their standard library counterparts: for a lowercase
  needle, \<open>ContainsFold\<close> and \<open>HasPrefixFold\<close> decide substring and prefix of the lowercased
  string, \<open>AppendLowerASCII\<close> appends the lowercased string, and \<open>TrimSpace\<close> removes exactly the
  leading and trailing blanks.\<close>

theorem faststr_fold_correct:
  assumes "ToLower p = p"
  shows "ContainsFold s p = Contains (ToLower s) p \<and> HasPrefixFold s p = HasPrefix (ToLower s) p \<and>
    AppendLowerASCII dst s = dst @ ToLower s \<and> ContainsBytes s p = Contains s p \<and>
    fs_TrimSpace s = TrimFunc fs_space s"
  using assms by (simp add: ContainsFold_iff HasPrefixFold_iff AppendLowerASCII_eq fs_TrimSpace_eq
      ContainsBytes_def Contains_iff)

theorem faststr_fold_correct_witness:
  "ContainsFold ''Mozilla BOT/1'' ''bot'' = Contains (ToLower ''Mozilla BOT/1'') ''bot'' \<and>
   ToLower ''bot'' = ''bot''"
proof
  show low: "ToLower ''bot'' = ''bot''" by code_simp
  show "ContainsFold ''Mozilla BOT/1'' ''bot'' = Contains (ToLower ''Mozilla BOT/1'') ''bot''"
    using faststr_fold_correct [OF low] by blast
qed

end
