(* ===== verification/Attack.thy ===== *)
theory Attack
  imports Faststr GoNet
begin

text \<open>
  \<open>internal/detect/attack.go\<close>: exploit probes in path and query, in the text as received and after one
  and two levels of URL decoding, with \<open>url.PathUnescape\<close> and \<open>url.QueryUnescape\<close>.  The byte pools
  only recycle memory and are not modelled.
\<close>

section \<open>Definitions\<close>

text \<open>Go's \<open>url.unescape\<close>; \<open>query\<close> is the query mode, in which a plus sign is a blank.\<close>

fun url_hex :: "char \<Rightarrow> nat option" where
  "url_hex c =
     (if is_digit c then Some (byte_of c - 48)
      else if 97 \<le> byte_of c \<and> byte_of c \<le> 102 then Some (byte_of c - 87)
      else if 65 \<le> byte_of c \<and> byte_of c \<le> 70 then Some (byte_of c - 55)
      else None)"

fun url_unescape :: "bool \<Rightarrow> string \<Rightarrow> string option" where
  "url_unescape query [] = Some []"
| "url_unescape query (c # s) =
     (if c = CHR ''%'' then
        (case s of
           a # b # t \<Rightarrow>
             (case (url_hex a, url_hex b) of
                (Some x, Some y) \<Rightarrow> map_option ((#) (char_of (16 * x + y))) (url_unescape query t)
              | _ \<Rightarrow> None)
         | _ \<Rightarrow> None)
      else map_option ((#) (if query \<and> c = CHR ''+'' then CHR '' '' else c)) (url_unescape query s))"

definition PathUnescape :: "string \<Rightarrow> string option" where
  "PathUnescape s = url_unescape False s"

definition QueryUnescape :: "string \<Rightarrow> string option" where
  "QueryUnescape s = url_unescape True s"

definition attackSubs :: "string list" where
  \<open>attackSubs =
     [''union select'', ''union%20select'', ''union+select'', [CHR 0x27] @ '' or '' @ [CHR 0x27] @ ''1'' @ [CHR 0x27] @ ''='' @ [CHR 0x27] @ ''1'', [CHR 0x27] @ '' or 1=1'', [CHR 0x22] @ '' or '' @ [CHR 0x22] @ ''1'' @ [CHR 0x22] @ ''='' @ [CHR 0x22] @ ''1'',
      ''sleep('', ''benchmark('', ''waitfor delay'', ''<script'', ''%3cscript'', ''javascript:'',
      ''onerror='', ''onload='', ''/etc/passwd'', ''c:'' @ [CHR 0x5C] @ ''windows'', ''file://'', ''{{'',
      ''${jndi:'', ''#{'', ''xp_cmdshell'', ''information_schema'', ''into outfile'', ''load_file('',
      ''||id'', '';powershell'', ''|powershell'', '';cmd.exe'', ''nc -e'', ''/dev/tcp/'',
      '';cat '', ''|cat '', '';ls '', ''|ls '', '';chmod'', ''|chmod'',
      '';wget'', ''|wget'', '';curl'', ''|curl'', '';nc '', ''|nc '',
      '';ncat'', ''|ncat'']\<close>

definition mayHaveInjection :: "string \<Rightarrow> bool" where
  "mayHaveInjection s = list_ex (\<lambda>c. c \<in> set ''<{$#+%();*` :_|'' \<or> byte_of c \<in> {34, 39, 92}) s"

definition attack_containsByte :: "string \<Rightarrow> nat \<Rightarrow> bool" where
  "attack_containsByte s b = list_ex (\<lambda>c. byte_of c = b) s"

definition traversal_probe :: "string \<Rightarrow> bool" where
  "traversal_probe s \<longleftrightarrow>
     ContainsFold s ''../'' \<or> ContainsFold s (''..'' @ [CHR 0x5C]) \<or> ContainsFold s ''%2e%2e/'' \<or> ContainsFold s ''%2e%2e%2f'' \<or>
     ContainsFold s ''..%2f'' \<or> ContainsFold s (''%2e%2e'' @ [CHR 0x5C]) \<or> ContainsFold s ''..;/'' \<or> ContainsFold s ''/.;/''"

definition scanAttackString :: "string \<Rightarrow> string" where
  "scanAttackString s =
     (if s = [] then []
      else if attack_containsByte s 0 \<or> ContainsFold s ''%00'' then ''null_byte''
      else if traversal_probe s then ''path_traversal''
      else if ContainsFold s ''/etc/passwd'' \<or> ContainsFold s (''c:'' @ [CHR 0x5C] @ ''windows'') then ''injection_probe''
      else if \<not> mayHaveInjection s then []
      else let buf = AppendLowerASCII [] s in
           if list_ex (ContainsBytes buf) attackSubs then ''injection_probe'' else [])"

fun scan_levels :: "nat \<Rightarrow> (string \<Rightarrow> string option) \<Rightarrow> string \<Rightarrow> string" where
  "scan_levels 0 unescape s = []"
| "scan_levels (Suc k) unescape s =
     (if CHR ''%'' \<notin> set s then []
      else case unescape s of
             None \<Rightarrow> []
           | Some dec \<Rightarrow>
               if dec = s then []
               else let reason = scanAttackString dec in if reason \<noteq> [] then reason else scan_levels k unescape dec)"

definition scanDecoded :: "string \<Rightarrow> (string \<Rightarrow> string option) \<Rightarrow> string" where
  "scanDecoded s unescape = scan_levels 2 unescape s"

definition AttackMatch :: "Request option \<Rightarrow> string" where
  "AttackMatch ro =
     (case ro of
        None \<Rightarrow> []
      | Some r \<Rightarrow>
          let rawPath = (if req_RawPath r \<noteq> [] then req_RawPath r else req_Path r);
              rawQuery = req_RawQuery r
          in if scanAttackString rawPath \<noteq> [] then scanAttackString rawPath
             else if scanAttackString rawQuery \<noteq> [] then scanAttackString rawQuery
             else if scanDecoded rawPath PathUnescape \<noteq> [] then scanDecoded rawPath PathUnescape
             else scanDecoded rawQuery QueryUnescape)"

section \<open>The pre-filter\<close>

definition special_byte :: "char \<Rightarrow> bool" where
  "special_byte c \<longleftrightarrow> c \<in> set ''<{$#+%();*` :_|'' \<or> byte_of c \<in> {34, 39, 92}"

text \<open>The patterns without a byte that the pre-filter looks for.\<close>

definition unseen_subs :: "string list" where
  "unseen_subs = [''onerror='', ''onload='', ''/etc/passwd'', ''/dev/tcp/'']"

lemma subs_filter: "\<forall>p \<in> set attackSubs. p \<in> set unseen_subs \<or> list_ex special_byte p"
  by code_simp

lemma subs_facts: "\<forall>p \<in> set attackSubs. p \<noteq> []"
  by code_simp

lemma special_not_letter: "special_byte (lower_char c) \<Longrightarrow> special_byte c"
proof (cases "is_upper c")
  case True
  assume "special_byte (lower_char c)"
  moreover have "byte_of (lower_char c) = byte_of c + 32" "byte_of c \<le> 90" "65 \<le> byte_of c"
    using True by (simp_all add: byte_of_lower is_upper_def)
  then have "97 \<le> byte_of (lower_char c)" "byte_of (lower_char c) \<le> 122"
    by simp_all
  then have "\<not> special_byte (lower_char c)"
    by (auto simp: special_byte_def)
  ultimately show ?thesis by simp
qed simp

lemma mayHaveInjection_iff: "mayHaveInjection s \<longleftrightarrow> (\<exists>c \<in> set s. special_byte c)"
  by (auto simp: mayHaveInjection_def special_byte_def list_ex_iff)

lemma pattern_seen:
  assumes "Contains (ToLower s) p" "list_ex special_byte p"
  shows "mayHaveInjection s"
proof -
  obtain c where "c \<in> set p" "special_byte c"
    using assms(2) by (auto simp: list_ex_iff)
  moreover have "set p \<subseteq> set (ToLower s)"
    using assms(1) by (auto simp: Contains_iff dest: set_mono_sublist)
  ultimately obtain d where "d \<in> set s" "c = lower_char d" "special_byte (lower_char d)"
    by (auto simp: ToLower_def)
  then show ?thesis
    using special_not_letter mayHaveInjection_iff by blast
qed

section \<open>Decoding\<close>

lemma unescape_plain: "CHR ''%'' \<notin> set s \<Longrightarrow> url_unescape False s = Some s"
  by (induction s) auto

lemma traversal_scanned: "Contains s ''../'' \<Longrightarrow> scanAttackString s \<noteq> []"
proof -
  assume c: "Contains s ''../''"
  have low: "ToLower ''../'' = ''../''"
    by code_simp
  then have "Contains (ToLower s) ''../''"
    using ToLower_sublist [of "''../''" s] c by (simp add: Contains_iff)
  then have "traversal_probe s"
    using ContainsFold_iff [OF low] by (simp add: traversal_probe_def)
  moreover have "s \<noteq> []"
    using c by auto
  ultimately show ?thesis
    by (simp add: scanAttackString_def)
qed

lemma AttackMatch_none:
  assumes "AttackMatch (Some r) = []" "rawPath = (if req_RawPath r \<noteq> [] then req_RawPath r else req_Path r)"
  shows "scanAttackString rawPath = []" "scanDecoded rawPath PathUnescape = []"
  using assms by (auto simp: AttackMatch_def Let_def split: if_splits)

lemma scan_levels_step:
  assumes "scan_levels (Suc k) PathUnescape s = []" "PathUnescape s = Some d"
  shows "d = s \<or> (scanAttackString d = [] \<and> scan_levels k PathUnescape d = [])"
proof (cases "CHR ''%'' \<in> set s")
  case True
  then show ?thesis
    using assms by (auto simp: Let_def split: if_splits)
next
  case False
  then show ?thesis
    using assms(2) unescape_plain by (simp add: PathUnescape_def)
qed

section \<open>Properties\<close>

text \<open>C26: What a scanned text is flagged for: a null byte, a traversal, or one of the exploit patterns in any letter case; the
  pre-filter loses nothing except that the three patterns \<open>onerror=\<close>, \<open>onload=\<close> and \<open>/dev/tcp/\<close> are seen only in a text
  that also has one of the pre-filter's bytes.\<close>

theorem attack_scan_exact:
  "scanAttackString s \<noteq> [] \<longleftrightarrow>
     (\<exists>c \<in> set s. byte_of c = 0) \<or> Contains (ToLower s) ''%00'' \<or> traversal_probe s \<or>
     (\<exists>p \<in> set attackSubs. Contains (ToLower s) p \<and> (p \<in> {''onerror='', ''onload='', ''/dev/tcp/''} \<longrightarrow> mayHaveInjection s))"
proof -
  have low: "ToLower ''%00'' = ''%00''" "ToLower ''/etc/passwd'' = ''/etc/passwd''"
    "ToLower (''c:'' @ [CHR 0x5C] @ ''windows'') = ''c:'' @ [CHR 0x5C] @ ''windows''"
    by code_simp+
  note fold = ContainsFold_iff [OF low(1)] ContainsFold_iff [OF low(2)] ContainsFold_iff [OF low(3)]
  have mem: "''/etc/passwd'' \<in> set attackSubs" "''c:'' @ [CHR 0x5C] @ ''windows'' \<in> set attackSubs"
    by code_simp+
  have cb: "ContainsBytes b p \<longleftrightarrow> Contains b p" if "p \<in> set attackSubs" for b p
    using that subs_facts by (auto simp: ContainsBytes_def)
  have nul: "attack_containsByte s 0 \<longleftrightarrow> (\<exists>c \<in> set s. byte_of c = 0)"
    by (simp add: attack_containsByte_def list_ex_iff)
  have seen: "mayHaveInjection s" if "p \<in> set attackSubs" "Contains (ToLower s) p"
    "p \<in> {''onerror='', ''onload='', ''/dev/tcp/''} \<longrightarrow> mayHaveInjection s" "p \<noteq> ''/etc/passwd''" for p
    using that subs_filter pattern_seen by (auto simp: unseen_subs_def)
  have empty: "\<not> traversal_probe []" "\<forall>p \<in> set attackSubs. \<not> Contains (ToLower []) p"
    by code_simp+
  show ?thesis
  proof (cases "s = []")
    case True
    then show ?thesis
      using empty by (auto simp: scanAttackString_def ToLower_def)
  next
    case False
    have subs: "list_ex (ContainsBytes (AppendLowerASCII [] s)) attackSubs \<longleftrightarrow> (\<exists>p \<in> set attackSubs. Contains (ToLower s) p)"
      using cb by (auto simp: list_ex_iff AppendLowerASCII_eq)
    let ?w = "''c:'' @ [CHR 0x5C] @ ''windows''"
    let ?rhs = "\<exists>p \<in> set attackSubs. Contains (ToLower s) p \<and> (p \<in> {''onerror='', ''onload='', ''/dev/tcp/''} \<longrightarrow> mayHaveInjection s)"
    have direct: "?rhs" if "Contains (ToLower s) ''/etc/passwd'' \<or> Contains (ToLower s) ?w"
      using that
    proof
      assume "Contains (ToLower s) ''/etc/passwd''"
      then show ?rhs
        by (intro bexI [OF _ mem(1)]) simp
    next
      assume "Contains (ToLower s) ?w"
      then show ?rhs
        by (intro bexI [OF _ mem(2)]) simp
    qed
    have filtered: "?rhs \<longleftrightarrow> mayHaveInjection s \<and> (\<exists>p \<in> set attackSubs. Contains (ToLower s) p)"
      if "\<not> Contains (ToLower s) ''/etc/passwd''"
      using that seen by blast
    show ?thesis
    proof (cases "Contains (ToLower s) ''/etc/passwd'' \<or> Contains (ToLower s) ?w")
      case True
      then show ?thesis
        using False direct unfolding scanAttackString_def fold nul by simp
    next
      case no: False
      then have f: "?rhs \<longleftrightarrow> mayHaveInjection s \<and> (\<exists>p \<in> set attackSubs. Contains (ToLower s) p)"
        using filtered by blast
      show ?thesis
        using False no unfolding f scanAttackString_def fold nul subs Let_def by simp
    qed
  qed
qed

theorem attack_scan_exact_witness:
  "scanAttackString ''x=onerror=1'' = [] \<and> Contains ''x=onerror=1'' ''onerror='' \<and> scanAttackString ''x=<onerror=1'' \<noteq> []"
proof -
  have a: "\<not> mayHaveInjection ''x=onerror=1''" "\<not> traversal_probe ''x=onerror=1''" "\<not> Contains (ToLower ''x=onerror=1'') ''%00''"
    "\<not> (\<exists>c \<in> set ''x=onerror=1''. byte_of c = 0)"
    "\<forall>p \<in> set attackSubs. Contains (ToLower ''x=onerror=1'') p \<longrightarrow> p \<in> {''onerror='', ''onload='', ''/dev/tcp/''}"
    by code_simp+
  have b: "''onerror='' \<in> set attackSubs" "Contains (ToLower ''x=<onerror=1'') ''onerror=''" "mayHaveInjection ''x=<onerror=1''"
    "Contains ''x=onerror=1'' ''onerror=''"
    by code_simp+
  have "scanAttackString ''x=onerror=1'' = []"
    using attack_scan_exact [of "''x=onerror=1''"] a by blast
  moreover have "scanAttackString ''x=<onerror=1'' \<noteq> []"
    using attack_scan_exact [of "''x=<onerror=1''"] b by blast
  ultimately show ?thesis
    using b(4) by blast
qed

text \<open>Encoding does not hide a traversal: a path that contains \<open>../\<close> after one or two levels of URL decoding is flagged.\<close>

theorem decoded_traversal_flagged:
  assumes "rawPath = (if req_RawPath r \<noteq> [] then req_RawPath r else req_Path r)" "PathUnescape rawPath = Some d"
    "Contains d ''../'' \<or> (\<exists>d2. PathUnescape d = Some d2 \<and> Contains d2 ''../'')"
  shows "AttackMatch (Some r) \<noteq> []"
proof
  assume none: "AttackMatch (Some r) = []"
  note n = AttackMatch_none [OF none assms(1)]
  have "scan_levels (Suc 1) PathUnescape rawPath = []"
    using n(2) by (simp add: scanDecoded_def numeral_2_eq_2)
  from scan_levels_step [OF this assms(2)] have d: "scanAttackString d = []" "d = rawPath \<or> scan_levels (Suc 0) PathUnescape d = []"
    using n(1) by auto
  then obtain d2 where d2: "PathUnescape d = Some d2" "Contains d2 ''../''"
    using assms(3) traversal_scanned by blast
  from d(2) have "scan_levels (Suc 0) PathUnescape d = []"
  proof
    assume "d = rawPath"
    then have "scan_levels (Suc 1) PathUnescape d = []"
      using n(2) by (simp add: scanDecoded_def numeral_2_eq_2)
    from scan_levels_step [OF this d2(1)] show ?thesis
      using traversal_scanned [OF d2(2)] d(1) by auto
  qed
  from scan_levels_step [OF this d2(1)] show False
    using traversal_scanned [OF d2(2)] d(1) by auto
qed

definition demo_probe :: Request where
  "demo_probe = \<lparr> req_Method = ''GET'', req_Host = ''a'', req_Path = ''/%2e%2e%2fx'', req_RawQuery = [], req_RemoteAddr = [],
     req_Header = [], req_TLS = True, req_ContentLength = 0, req_Body = [], req_HasBody = False,
     req_RawPath = ''/%252e%252e%252fx'', req_ProtoMajor = 1, req_ProtoMinor = 1, req_ServerName = [] \<rparr>"

theorem decoded_traversal_flagged_witness: "AttackMatch (Some demo_probe) \<noteq> []"
proof (rule decoded_traversal_flagged)
  show "''/%252e%252e%252fx'' = (if req_RawPath demo_probe \<noteq> [] then req_RawPath demo_probe else req_Path demo_probe)"
    by (simp add: demo_probe_def)
  show "PathUnescape ''/%252e%252e%252fx'' = Some ''/%2e%2e%2fx''"
    by code_simp
  have "PathUnescape ''/%2e%2e%2fx'' = Some ''/../x''" "Contains ''/../x'' ''../''"
    by code_simp+
  then show "Contains ''/%2e%2e%2fx'' ''../'' \<or> (\<exists>d2. PathUnescape ''/%2e%2e%2fx'' = Some d2 \<and> Contains d2 ''../'')"
    by blast
qed

end
