(* ===== verification/Detect.thy ===== *)
theory Detect
  imports Attack
begin

text \<open>
  \<open>internal/detect\<close>: classification of requests without state.  \<open>forge.go\<close> rates repository paths by cost,
  \<open>detect.go\<close> sums the weights of suspicious traits and recognises the stream protocols.  The User-Agent lists are
  searched with the Aho-Corasick matcher of \<open>Faststr\<close>.
\<close>

section \<open>Forge paths\<close>

datatype ForgeClass = ForgeNone | ForgeBrowse | ForgeHot
datatype ForgeFlavor = ForgeAuto | ForgeGitea | ForgeCgit

definition eqFoldASCII :: "string \<Rightarrow> string \<Rightarrow> bool" where
  "eqFoldASCII a b \<longleftrightarrow> length a = length b \<and> list_all2 (\<lambda>x y. lower_char x = lower_char y) a b"

definition ParseForgeFlavor :: "string \<Rightarrow> ForgeFlavor" where
  "ParseForgeFlavor s =
     (if eqFoldASCII s ''gitea'' \<or> eqFoldASCII s ''forgejo'' then ForgeGitea
      else if eqFoldASCII s ''cgit'' then ForgeCgit
      else ForgeAuto)"

definition skipLeadSlash :: "string \<Rightarrow> string" where
  "skipLeadSlash p = (if p \<noteq> [] \<and> hd p = CHR ''/'' then tl p else p)"

definition nextSeg :: "string \<Rightarrow> string \<times> string" where
  "nextSeg p0 =
     (if p0 = [] then ([], [])
      else let p = (if hd p0 = CHR ''/'' then tl p0 else p0) in
           if p = [] then ([], [])
           else case IndexByte p (CHR ''/'') of
                  Some i \<Rightarrow> (take i p, drop (Suc i) p)
                | None \<Rightarrow> (p, []))"

definition hasPathSuffix :: "string \<Rightarrow> string \<Rightarrow> bool" where
  "hasPathSuffix path sfx = (if length path < length sfx then False else drop (length path - length sfx) path = sfx)"

definition isSmartHTTPPath :: "string \<Rightarrow> bool" where
  "isSmartHTTPPath path \<longleftrightarrow>
     hasPathSuffix path ''/info/refs'' \<or> hasPathSuffix path ''/git-upload-pack'' \<or> hasPathSuffix path ''/git-receive-pack''"

definition classifyForgeAction :: "string \<Rightarrow> ForgeClass" where
  "classifyForgeAction seg =
     (if length seg = 3 then (if eqFoldASCII seg ''src'' \<or> eqFoldASCII seg ''raw'' then ForgeBrowse else ForgeNone)
      else if length seg = 5 then
        (if eqFoldASCII seg ''blame'' then ForgeHot else if eqFoldASCII seg ''media'' then ForgeBrowse else ForgeNone)
      else if length seg = 6 then (if eqFoldASCII seg ''commit'' then ForgeBrowse else ForgeNone)
      else if length seg = 7 then
        (if eqFoldASCII seg ''compare'' \<or> eqFoldASCII seg ''archive'' then ForgeHot
         else if eqFoldASCII seg ''commits'' then ForgeBrowse else ForgeNone)
      else ForgeNone)"

definition classifyCgitCmd :: "string \<Rightarrow> ForgeClass" where
  "classifyCgitCmd seg =
     (if length seg = 3 then (if eqFoldASCII seg ''log'' \<or> eqFoldASCII seg ''tag'' then ForgeBrowse else ForgeNone)
      else if length seg = 4 then
        (if eqFoldASCII seg ''tree'' \<or> eqFoldASCII seg ''blob'' \<or> eqFoldASCII seg ''atom'' \<or> eqFoldASCII seg ''refs'' then ForgeBrowse
         else if eqFoldASCII seg ''diff'' then ForgeHot else ForgeNone)
      else if length seg = 5 then
        (if eqFoldASCII seg ''plain'' \<or> eqFoldASCII seg ''about'' \<or> eqFoldASCII seg ''clone'' \<or> eqFoldASCII seg ''graph'' \<or>
            eqFoldASCII seg ''stats'' then ForgeBrowse
         else if eqFoldASCII seg ''blame'' \<or> eqFoldASCII seg ''patch'' then ForgeHot else ForgeNone)
      else if length seg = 6 then (if eqFoldASCII seg ''commit'' \<or> eqFoldASCII seg ''branch'' then ForgeBrowse else ForgeNone)
      else if length seg = 7 then (if eqFoldASCII seg ''summary'' then ForgeBrowse else ForgeNone)
      else if length seg = 8 then (if eqFoldASCII seg ''snapshot'' then ForgeHot else ForgeNone)
      else ForgeNone)"

lemma nextSeg_shrinks: "p \<noteq> [] \<Longrightarrow> length (snd (nextSeg p)) < length p"
proof -
  assume "p \<noteq> []"
  let ?q = "if hd p = CHR ''/'' then tl p else p"
  have q: "length ?q \<le> length p"
    by simp
  show ?thesis
  proof (cases "?q = []")
    case True
    then show ?thesis
      using \<open>p \<noteq> []\<close> by (simp add: nextSeg_def Let_def)
  next
    case False
    then have "length (drop (Suc i) ?q) < length p" for i
      using q by (cases ?q) auto
    then show ?thesis
      using False \<open>p \<noteq> []\<close> by (auto simp: nextSeg_def Let_def split: option.splits)
  qed
qed

function gitlabDashClass :: "string \<Rightarrow> ForgeClass" where
  "gitlabDashClass rest =
     (if rest = [] then ForgeNone
      else if fst (nextSeg rest) \<noteq> ''-'' then gitlabDashClass (snd (nextSeg rest))
      else let act = fst (nextSeg (snd (nextSeg rest))); cls = classifyForgeAction act
           in if cls \<noteq> ForgeNone then cls else classifyCgitCmd act)"
  by pat_completeness auto
termination
  by (relation "measure length") (auto simp: nextSeg_shrinks)

function cgit_segments :: "string \<Rightarrow> ForgeClass" where
  "cgit_segments rest =
     (if rest = [] then ForgeNone
      else let seg = fst (nextSeg rest) in
           if seg = [] then cgit_segments (snd (nextSeg rest))
           else if classifyCgitCmd seg \<noteq> ForgeNone then classifyCgitCmd seg
           else cgit_segments (snd (nextSeg rest)))"
  by pat_completeness auto
termination
  by (relation "measure length") (auto simp: nextSeg_shrinks)

definition api_repos_rest :: "string \<Rightarrow> string" where
  "api_repos_rest p =
     (if length p \<ge> 6 \<and> eqFoldASCII (take 4 p) ''api/'' \<and> (p ! 4 = CHR ''v'' \<or> p ! 4 = CHR ''V'') then
        let i = 5 + length (takeWhile is_digit (drop 5 p)) in
        if i > 5 \<and> i + 7 \<le> length p \<and> p ! i = CHR ''/'' \<and> eqFoldASCII (take 5 (drop (i + 1) p)) ''repos'' \<and>
           (i + 6 = length p \<or> p ! (i + 6) = CHR ''/'')
        then let q = drop (i + 7) p in if length q > 0 \<and> hd q = CHR ''/'' then tl q else q
        else p
      else p)"

definition forgeActionSeg :: "string \<Rightarrow> string \<times> string" where
  "forgeActionSeg path =
     (let p = skipLeadSlash path in
      if p = [] then ([], [])
      else let (seg0, rest) = nextSeg (api_repos_rest p) in
        if seg0 = [] \<or> rest = [] then ([], [])
        else let (seg1, rest) = nextSeg rest in
          if seg1 = [] \<or> rest = [] then ([], [])
          else let (action, rest) = nextSeg rest in
            if action = [] then ([], []) else (action, fst (nextSeg rest)))"

definition action_class :: "string \<Rightarrow> string \<Rightarrow> ForgeClass" where
  "action_class action nxt =
     (if action = [] then ForgeNone
      else if eqFoldASCII action ''git'' then
        (if eqFoldASCII nxt ''trees'' \<or> eqFoldASCII nxt ''blobs'' then ForgeHot else ForgeNone)
      else if classifyForgeAction action \<noteq> ForgeNone then classifyForgeAction action
      else classifyCgitCmd action)"

definition Classify :: "ForgeFlavor \<Rightarrow> string \<Rightarrow> ForgeClass" where
  "Classify f path =
     (if path = [] \<or> path = ''/'' then ForgeNone
      else if isSmartHTTPPath path then ForgeNone
      else if f \<noteq> ForgeCgit then
        let (action, nxt) = forgeActionSeg path in
        if action_class action nxt \<noteq> ForgeNone then action_class action nxt
        else if gitlabDashClass path \<noteq> ForgeNone then gitlabDashClass path
        else if f = ForgeGitea then ForgeNone
        else let rest = snd (nextSeg (skipLeadSlash path)) in
          if rest \<noteq> [] then
            let cmd = fst (nextSeg rest) in
            if cmd \<noteq> [] then classifyCgitCmd cmd else ForgeNone
          else ForgeNone
      else cgit_segments path)"

definition ForgePathClass :: "string \<Rightarrow> ForgeClass" where
  "ForgePathClass path = Classify ForgeAuto path"

text \<open>\<open>raw[i+n:]\<close> is shorter than \<open>raw\<close>, as the searched prefix ends in an equals sign.\<close>

function rawQueryValue :: "string \<Rightarrow> string \<Rightarrow> string option" where
  "rawQueryValue raw key =
     (if raw = [] then None
      else case Index raw (key @ ''='') of
             None \<Rightarrow> None
           | Some i \<Rightarrow>
               if i > 0 \<and> raw ! (i - 1) \<noteq> CHR ''&'' then rawQueryValue (drop (i + length key + 1) raw) key
               else Some (takeWhile (\<lambda>c. c \<noteq> CHR ''&'') (drop (i + length key + 1) raw)))"
  by pat_completeness auto
termination
  by (relation "measure (\<lambda>(raw, key). length raw)") auto

definition ClassifyRequest :: "ForgeFlavor \<Rightarrow> string \<Rightarrow> string \<Rightarrow> ForgeClass" where
  "ClassifyRequest f path rawQuery =
     (if Classify f path \<noteq> ForgeNone \<or> f = ForgeGitea then Classify f path
      else case rawQueryValue rawQuery ''url'' of
             Some u \<Rightarrow> if u \<noteq> [] \<and> snd (nextSeg (skipLeadSlash path)) = [] then Classify f (CHR ''/'' # u) else ForgeNone
           | None \<Rightarrow> ForgeNone)"

section \<open>Lists\<close>

definition scannerUA :: "string list" where
  "scannerUA =
     [''sqlmap'', ''nikto'', ''nmap'', ''masscan'', ''zgrab'', ''zgrab2'', ''dirbuster'', ''gobuster'', ''wfuzz'',
      ''ffuf'', ''nuclei'', ''httpx'', ''acunetix'', ''nessus'', ''openvas'', ''w3af'', ''burpsuite'', ''burp/'',
      ''python-requests'', ''python-urllib'', ''aiohttp'', ''go-http-client'', ''scrapy'', ''curl/'', ''wget/'',
      ''libwww-perl'', ''libcurl'', ''java/'', ''okhttp'', ''apache-httpclient'', ''axios/'', ''node-fetch'',
      ''undici'', ''postmanruntime'', ''insomnia/'', ''phantomjs'', ''headlesschrome'', ''puppeteer'', ''playwright'',
      ''selenium'', ''chromedriver'', ''geckodriver'', ''crawl4ai'', ''firecrawl'', ''browser-use'', ''scrapling'',
      ''httrack'', ''semrush'', ''ahrefs'', ''mj12bot'', ''dotbot'', ''petalbot'', ''dataforseobot'', ''serpstat'',
      ''majestic'', ''rogerbot'', ''screaming frog'', ''seokicks'', ''blexbot'', ''linkdexbot'', ''xrumer'',
      ''scrapebox'', ''gsa ser'', ''senukai'', ''magic submitter'', ''sape_api'', ''botasaurus'', ''nodriver'',
      ''zendriver'', ''camoufox'', ''seleniumbase'', ''undetected_chromedriver'', ''uc_chrome'', ''rebrowser'',
      ''browserless'', ''steel-browser'', ''skyvern'', ''langchain'', ''crewai'', ''autogen/'', ''openai-agents'',
      ''apify'', ''lightpanda'', ''crawlspace'', ''brightbot'', ''awario'', ''hyperagent'', ''hyperbrowser'',
      ''browserbase'', ''anchor-browser'', ''browsercat'', ''scrapybara'', ''self-operating-computer'']"

definition aiUA :: "string list" where
  "aiUA =
     [''gptbot'', ''chatgpt-user'', ''oai-searchbot'', ''chatgpt-atlas'', ''claudebot'', ''claude-user'',
      ''claude-searchbot'', ''claude-web'', ''claude-code'', ''anthropic-ai'', ''anthropic/'', ''bytespider'',
      ''ccbot'', ''google-extended'', ''google-agent'', ''google-cloudvertexbot'', ''googleagent-mariner'',
      ''googleother'', ''meta-externalagent'', ''meta-externalfetcher'', ''facebookbot'', ''facebookexternalhit'',
      ''perplexitybot'', ''perplexity-user'', ''amazonbot'', ''cohere-ai'', ''ai2bot'', ''diffbot'', ''youbot'',
      ''omgili'', ''omgilibot'', ''webzio'', ''imagesiftbot'', ''applebot-extended'', ''mistralai-user'',
      ''duckassistbot'', ''timpibot'', ''pangubot'', ''kangaroo bot'', ''kangaroobot'', ''deepseekbot'', ''qwenbot'',
      ''iaskspider'', ''phindbot'', ''notebooklm'', ''gemini-deep-research'', ''cohere-training-data-crawler'',
      ''mistralai-training'', ''mistralai-index'', ''meta-webindexer'', ''amazon-kendra'', ''amazon-qbusiness'',
      ''aiwebindex'', ''aihitbot'', ''img2dataset'', ''laiondownloader'', ''panscient'', ''yandexadditional'',
      ''terracotta'', ''sbintuitionsbot'', ''mycentralaiscraperbot'', ''chatgpt agent'', ''oai-adsbot'',
      ''manus-user'', ''novaact'', ''devin'', ''cursor'', ''opencode'', ''qodercli'', ''trae'', ''google-gemini-cli'',
      ''googleagent-urlcontext'', ''exasearchbot'', ''tavilybot'', ''linerbot'', ''linkupbot'', ''kagi-fetcher'',
      ''querit'', ''addsearchbot'', ''aranet-searchbot'', ''bedrockbot'', ''azureai-searchbot'', ''quillbot'',
      ''poseidon research crawler'', ''poggio-citations'', ''wpbot'', ''wrtnbot'', ''kimibot'', ''kimi-user'',
      ''kimi-agent'', ''kimi-searchbot'', ''doubaobot'', ''erniebot'', ''yiyanbot'', ''tongyibot'', ''chatglm-spider'',
      ''tiktokspider'', ''amzn-user'', ''amazonbuyforme'', ''echoboxbot'', ''andibot'', ''bixelbot'', ''buddybot'',
      ''cotoyogi'', ''cragcrawler'', ''agentdatabot'', ''agenttimes'', ''atlassian-bot'', ''nagetbot'', ''zanistabot'',
      ''aiwebindex'', ''lyrenth'', ''swurl'', ''rarebot'']"

definition forumWritePaths :: "string list" where
  "forumWritePaths =
     [''comment'', ''comments'', ''reply'', ''replies'', ''newthread'', ''newtopic'', ''new-topic'', ''posting'',
      ''register'', ''signup'', ''sign-up'', ''create-account'', ''guestbook'', ''wp-comments-post'']"

definition probePaths :: "string list" where
  "probePaths =
     [''/.env'', ''/wp-admin'', ''/wp-login'', ''/xmlrpc.php'', ''/phpmyadmin'', ''/.git'', ''/admin'', ''/actuator'',
      ''/server-status'', ''/cgi-bin'', ''/vendor/phpunit'', ''/etc/passwd'', ''/.aws'', ''/api/v1/admin'',
      ''/console'', ''/manager/html'', ''/owa/'', ''/hnap1'', ''/.svn'', ''/.hg'', ''/.bzr'', ''/.ds_store'',
      ''/.vscode'', ''/.idea'', ''/.npmrc'', ''/.ssh'', ''/composer.json'', ''/vendor/composer'', ''/server-info'',
      ''/phpinfo'', ''/boaform'', ''/hudson'', ''/jmx-console'', ''/elmah'', ''/debug/vars'', ''/debug/pprof'',
      ''/wp-login'', ''/xmlrpc.php'', ''/host-manager'', ''/druid'', ''/nacos'', ''/geoserver'', ''/actuator/env'',
      ''/actuator/heapdump'', ''/actuator/beans'', ''/db.sql'', ''/dump.sql'', ''/backup.sql'', ''/backup.zip'',
      ''/backup.tar'', ''/wp-config'', ''/shell.php'', ''/cmd.php'', ''/up.php'', ''/c99'', ''/r57'', ''/webshell'']"

definition textBrowserUAs :: "string list" where
  "textBrowserUAs =
     [''lynx/'', ''links ('', ''elinks'', ''w3m/'', ''emacs-w3'', ''dillo/'', ''netsurf'', ''browsh/'', ''edbrowse'',
      ''retawq'', ''mothra'', ''amaya/'', ''charlotte/'', ''serenityos'', ''netcompletes'', ''wwwoffle'']"

definition scannerMatcher :: "Matcher option" where
  "scannerMatcher = Some (NewMatcher scannerUA)"

definition aiMatcher :: "Matcher option" where
  "aiMatcher = Some (NewMatcher aiUA)"

definition textBrowserMatcher :: "Matcher option" where
  "textBrowserMatcher = Some (NewMatcher textBrowserUAs)"

definition matchAnyFold :: "string \<Rightarrow> Matcher option \<Rightarrow> bool" where
  "matchAnyFold s m = (if s = [] \<or> m = None then False else Matcher_Contains m (AppendLowerASCII [] s))"

definition IsScannerUA :: "string \<Rightarrow> bool" where
  "IsScannerUA ua \<longleftrightarrow> matchAnyFold ua scannerMatcher \<or> matchAnyFold ua aiMatcher"

definition IsAIUA :: "string \<Rightarrow> bool" where
  "IsAIUA ua = matchAnyFold ua aiMatcher"

definition IsTextBrowserUA :: "string \<Rightarrow> bool" where
  "IsTextBrowserUA ua \<longleftrightarrow> ua \<noteq> [] \<and> matchAnyFold ua textBrowserMatcher"

section \<open>Stream protocols\<close>

definition IsGitSmartHTTP :: "Request option \<Rightarrow> bool" where
  "IsGitSmartHTTP ro =
     (case ro of
        None \<Rightarrow> False
      | Some r \<Rightarrow>
          if \<not> HasPrefixFold (Header_Get (req_Header r) ''User-Agent'') ''git/'' then False
          else if HasSuffix (req_Path r) ''/git-upload-pack'' \<or> HasSuffix (req_Path r) ''/git-receive-pack'' then True
          else if HasSuffix (req_Path r) ''/info/refs'' then
            (case rawQueryValue (req_RawQuery r) ''service'' of
               None \<Rightarrow> False
             | Some svc \<Rightarrow> EqualFold svc ''git-upload-pack'' \<or> EqualFold svc ''git-receive-pack'')
          else False)"

definition IsSSE :: "Request option \<Rightarrow> bool" where
  "IsSSE ro = (case ro of None \<Rightarrow> False | Some r \<Rightarrow> ContainsFold (Header_Get (req_Header r) ''Accept'') ''text/event-stream'')"

text \<open>One token of a comma-separated header: the loop skips blanks and commas, reads to the next comma and drops trailing
  blanks.\<close>

definition is_blank :: "char \<Rightarrow> bool" where
  "is_blank c \<longleftrightarrow> c = CHR '' '' \<or> byte_of c = 9"

definition fold_match :: "string \<Rightarrow> string \<Rightarrow> bool" where
  "fold_match s token \<longleftrightarrow> length s = length token \<and> list_all2 (\<lambda>c want. c = want \<or> lower_char c = want) s token"

function token_loop :: "string \<Rightarrow> string \<Rightarrow> bool" where
  "token_loop s token =
     (if s = [] then False
      else let t = dropWhile (\<lambda>c. is_blank c \<or> c = CHR '','') s;
               seg = takeWhile (\<lambda>c. c \<noteq> CHR '','') t;
               rest = dropWhile (\<lambda>c. c \<noteq> CHR '','') t
           in if fold_match (rev (dropWhile is_blank (rev seg))) token then True
              else if rest = [] then False
              else token_loop (tl rest) token)"
  by pat_completeness auto
termination
proof (relation "measure (\<lambda>(s, token). length s)", goal_cases)
  case (2 s token t seg rest)
  have "length t \<le> length s" "length rest \<le> length t"
    using 2 by (auto simp: length_dropWhile_le)
  moreover have "length (tl rest) < length rest"
    using 2 by (cases rest) auto
  ultimately show ?case by simp
qed simp

definition headerHasTokenFold :: "string \<Rightarrow> string \<Rightarrow> bool" where
  "headerHasTokenFold s token = (if length token = 0 then True else token_loop s token)"

definition IsWebSocketUpgrade :: "Request option \<Rightarrow> bool" where
  "IsWebSocketUpgrade ro =
     (case ro of
        None \<Rightarrow> False
      | Some r \<Rightarrow>
          if \<not> EqualFold (Header_Get (req_Header r) ''Upgrade'') ''websocket'' then False
          else headerHasTokenFold (Header_Get (req_Header r) ''Connection'') ''upgrade'')"

definition IsWebTransport :: "Request option \<Rightarrow> bool" where
  "IsWebTransport ro =
     (case ro of
        None \<Rightarrow> False
      | Some r \<Rightarrow>
          if req_Method r = ''CONNECT'' \<and> req_ProtoMajor r \<ge> 3 then True
          else if EqualFold (Header_Get (req_Header r) ''Upgrade'') ''webtransport'' then True
          else if Header_Get (req_Header r) ''Sec-WebTransport-Version'' \<noteq> [] then True
          else False)"

definition IsStreamProtocol :: "Request option \<Rightarrow> bool" where
  "IsStreamProtocol ro \<longleftrightarrow> IsSSE ro \<or> IsWebSocketUpgrade ro \<or> IsWebTransport ro"

section \<open>Scoring\<close>

record DetectConfig =
  dc_MissingUAScore :: int
  dc_ScannerUAScore :: int
  dc_AIUAScore :: int
  dc_ProbePathScore :: int
  dc_OddMethodScore :: int
  dc_MissingAcceptScore :: int
  dc_MissingAcceptLangScore :: int
  dc_MissingSecFetchScore :: int
  dc_SecCHUAMismatchScore :: int
  dc_StarAcceptBrowserScore :: int
  dc_EmptyFormContextScore :: int
  dc_ForumWritePathScore :: int
  dc_ForgeExpensiveScore :: int
  dc_ForgeFlavor :: ForgeFlavor
  dc_ProxyBotLowScore :: int
  dc_ProxyBotHeader :: string
  dc_ProxyBotScoreHeader :: string
  dc_MissingAcceptEncScore :: int
  dc_SecCHUANonChromiumScore :: int
  dc_HTTP10BrowserScore :: int
  dc_MissingContentTypeScore :: int
  dc_LongUAScore :: int
  dc_MissingUIRScore :: int
  dc_SNIHostMismatchScore :: int
  dc_AIUAAction :: string

record DetectResult =
  dr_Score :: int
  dr_Reasons :: "string list"

definition zero_result :: DetectResult where
  "zero_result = \<lparr> dr_Score = 0, dr_Reasons = [] \<rparr>"

text \<open>The repeated step \<open>if cond { res.Score += n; if wantReasons { append } }\<close>.\<close>

definition add_score :: "bool \<Rightarrow> bool \<Rightarrow> int \<Rightarrow> string \<Rightarrow> DetectResult \<Rightarrow> DetectResult" where
  "add_score want cond n reason res =
     (if cond then \<lparr> dr_Score = dr_Score res + n, dr_Reasons = (if want then dr_Reasons res @ [reason] else dr_Reasons res) \<rparr> else res)"

definition isWriteMethod :: "string \<Rightarrow> bool" where
  "isWriteMethod m \<longleftrightarrow> m \<in> {''POST'', ''PUT'', ''PATCH''}"

definition isBrowserFormContentType :: "string \<Rightarrow> bool" where
  "isBrowserFormContentType ct0 =
     (let ct = ToLower (TrimSpace ct0) in
      if ct = [] then False else HasPrefix ct ''application/x-www-form-urlencoded'' \<or> HasPrefix ct ''multipart/form-data'')"

definition forumWritePath :: "string \<Rightarrow> bool" where
  "forumWritePath path =
     (if path = [] then False
      else list_ex (\<lambda>seg. seg \<noteq> [] \<and> list_ex (\<lambda>p. length seg = length p \<and> EqualFold seg p) forumWritePaths) (Split (CHR ''/'') path))"

definition looksBrowserBytes :: "string \<Rightarrow> bool" where
  "looksBrowserBytes low =
     (if length low = 0 then False
      else ContainsBytes low ''mozilla/'' \<or> ContainsBytes low ''chrome/'' \<or> ContainsBytes low ''safari/'' \<or>
           ContainsBytes low ''firefox/'' \<or> ContainsBytes low ''edg/'')"

definition equalFoldExt :: "string \<Rightarrow> string \<Rightarrow> bool" where
  "equalFoldExt ext want \<longleftrightarrow> length ext = length want \<and> list_all2 (\<lambda>a b. a = b \<or> lower_char a = b) ext want"

text \<open>The extension: from the last dot of the last path segment.\<close>

definition path_ext :: "string \<Rightarrow> string option" where
  "path_ext path =
     (let seg = rev (takeWhile (\<lambda>c. c \<noteq> CHR ''/'') (rev path)) in
      if CHR ''.'' \<in> set seg then Some (CHR ''.'' # rev (takeWhile (\<lambda>c. c \<noteq> CHR ''.'') (rev seg))) else None)"

definition isDocumentPath :: "string \<Rightarrow> bool" where
  "isDocumentPath path =
     (if path = [] \<or> path = ''/'' then True
      else case path_ext path of
             None \<Rightarrow> True
           | Some ext \<Rightarrow>
               if list_ex (equalFoldExt ext) [''.html'', ''.htm'', ''.php'', ''.asp'', ''.aspx'', ''.jsp''] then True
               else if list_ex (equalFoldExt ext) [''.js'', ''.css'', ''.png'', ''.jpg'', ''.jpeg'', ''.gif'', ''.webp'', ''.ico'', ''.svg'',
                      ''.woff'', ''.woff2'', ''.ttf'', ''.map'', ''.json'', ''.xml''] then False
               else True)"

definition isDocumentGET :: "Request \<Rightarrow> bool" where
  "isDocumentGET r \<longleftrightarrow> req_Method r = ''GET'' \<and> isDocumentPath (req_Path r)"

definition missingSecFetch :: "Request \<Rightarrow> bool" where
  "missingSecFetch r \<longleftrightarrow> Header_Get (req_Header r) ''Sec-Fetch-Site'' = [] \<and> Header_Get (req_Header r) ''Sec-Fetch-Mode'' = [] \<and>
     Header_Get (req_Header r) ''Sec-Fetch-Dest'' = []"

definition uaAnomalous :: "string \<Rightarrow> bool" where
  "uaAnomalous ua = (if length ua > 280 then True else list_ex (\<lambda>c. byte_of c < 32 \<and> byte_of c \<noteq> 9) ua)"

definition chromiumOrFirefoxUA :: "string \<Rightarrow> bool" where
  "chromiumOrFirefoxUA low \<longleftrightarrow> ContainsBytes low ''chrome/'' \<or> ContainsBytes low ''edg/'' \<or> ContainsBytes low ''firefox/''"

definition secCHUAOnNonChromiumBytes :: "Request \<Rightarrow> string \<Rightarrow> bool" where
  "secCHUAOnNonChromiumBytes r low =
     (if Header_Get (req_Header r) ''Sec-CH-UA'' = [] then False
      else \<not> (ContainsBytes low ''chrome/'' \<or> ContainsBytes low ''chromium'' \<or> ContainsBytes low ''edg/'' \<or> ContainsBytes low ''opr/''))"

definition secCHUAMismatchBytes :: "Request \<Rightarrow> string \<Rightarrow> bool" where
  "secCHUAMismatchBytes r low =
     (let ch = Header_Get (req_Header r) ''Sec-CH-UA'' in
      if ch = [] then False
      else let lowCH = AppendLowerASCII [] ch in
        if ContainsBytes low ''firefox/'' \<and> ContainsBytes lowCH ''chrome'' then True
        else if ContainsBytes low ''edg/'' then False
        else if ContainsBytes low ''chrome/'' \<and> \<not> ContainsBytes low ''edg/'' \<and> ContainsBytes lowCH ''firefox'' then True
        else if ContainsBytes low ''safari/'' \<and> \<not> ContainsBytes low ''chrome/'' \<and> ContainsBytes lowCH ''chrome'' then True
        else False)"

definition missingContentTypeOnWrite :: "Request \<Rightarrow> bool" where
  "missingContentTypeOnWrite r =
     (if \<not> isWriteMethod (req_Method r) then False
      else (req_ContentLength r \<noteq> 0 \<or> req_HasBody r) \<and> Header_Get (req_Header r) ''Content-Type'' = [])"

definition sniHostMismatch :: "Request \<Rightarrow> bool" where
  "sniHostMismatch r =
     (if \<not> req_TLS r \<or> req_ServerName r = [] then False
      else let host = (case IndexByte (req_Host r) (CHR '':'') of Some i \<Rightarrow> take i (req_Host r) | None \<Rightarrow> req_Host r);
               host = TrimSuffix host ''.'';
               sni = TrimSuffix (req_ServerName r) ''.''
           in if host = [] then False else \<not> EqualFold host sni)"

definition scoreFormSpam :: "Request \<Rightarrow> DetectConfig \<Rightarrow> bool \<Rightarrow> DetectResult \<Rightarrow> DetectResult" where
  "scoreFormSpam r cfg want res =
     (if \<not> isWriteMethod (req_Method r) then res
      else
        let emptyCtx = (Header_Get (req_Header r) ''Origin'' = [] \<and> Header_Get (req_Header r) ''Referer'' = []);
            formLike = isBrowserFormContentType (Header_Get (req_Header r) ''Content-Type'');
            forumPath = forumWritePath (req_Path r);
            res = add_score want (emptyCtx \<and> dc_EmptyFormContextScore cfg > 0 \<and> (formLike \<or> forumPath)) (dc_EmptyFormContextScore cfg)
                    ''empty_form_context'' res
        in add_score want (forumPath \<and> dc_ForumWritePathScore cfg > 0 \<and> (emptyCtx \<or> missingSecFetch r)) (dc_ForumWritePathScore cfg)
             ''forum_write_path'' res)"

definition proxy_header_hit :: "Request \<Rightarrow> string \<Rightarrow> bool" where
  "proxy_header_hit r h =
     (let raw = fs_TrimSpace (Header_Get (req_Header r) h) in
      if raw = [] then False else case ParseInt raw of None \<Rightarrow> False | Some n \<Rightarrow> n > 0 \<and> n < 30)"

definition scoreProxyHeader :: "Request \<Rightarrow> string \<Rightarrow> DetectConfig \<Rightarrow> bool \<Rightarrow> DetectResult \<Rightarrow> bool \<times> DetectResult" where
  "scoreProxyHeader r h cfg want res = (proxy_header_hit r h, add_score want (proxy_header_hit r h) (dc_ProxyBotLowScore cfg) ''proxy_bot_score'' res)"

definition scoreProxySignals :: "Request \<Rightarrow> DetectConfig \<Rightarrow> bool \<Rightarrow> DetectResult \<Rightarrow> DetectResult" where
  "scoreProxySignals r cfg want res =
     (if dc_ProxyBotLowScore cfg \<le> 0 then res
      else
        let (hit, res) = (if dc_ProxyBotHeader cfg \<noteq> [] then scoreProxyHeader r (dc_ProxyBotHeader cfg) cfg want res else (False, res))
        in if hit then res
           else if dc_ProxyBotScoreHeader cfg \<noteq> [] then snd (scoreProxyHeader r (dc_ProxyBotScoreHeader cfg) cfg want res) else res)"

definition score_ua :: "Request \<Rightarrow> DetectConfig \<Rightarrow> bool \<Rightarrow> DetectResult \<Rightarrow> DetectResult" where
  "score_ua r cfg want res =
     (let ua = Header_Get (req_Header r) ''User-Agent''; lowUA = AppendLowerASCII [] ua;
          res = add_score want (HasPrefixFold ua ''git/'') (dc_ScannerUAScore cfg) ''git ua on non-smart path'' res
      in if ua = [] then add_score want True (dc_MissingUAScore cfg) ''missing_ua'' res
         else
           let res = add_score want (Matcher_Contains scannerMatcher lowUA) (dc_ScannerUAScore cfg) ''scanner_ua'' res;
               res = add_score want (Matcher_Contains aiMatcher lowUA \<and> \<not> EqualFold (dc_AIUAAction cfg) ''allow'')
                       (if dc_AIUAScore cfg \<le> 0 then dc_ScannerUAScore cfg else dc_AIUAScore cfg) ''ai_ua'' res
           in add_score want (uaAnomalous ua \<and> dc_LongUAScore cfg > 0) (dc_LongUAScore cfg) ''ua_anomalous'' res)"

definition score_browser :: "Request \<Rightarrow> DetectConfig \<Rightarrow> bool \<Rightarrow> string \<Rightarrow> DetectResult \<Rightarrow> DetectResult" where
  "score_browser r cfg want lowUA res =
     (let hdr = Header_Get (req_Header r);
          res = add_score want (hdr ''Accept-Language'' = [] \<and> dc_MissingAcceptLangScore cfg > 0) (dc_MissingAcceptLangScore cfg) ''missing_accept_lang'' res;
          res = add_score want (hdr ''Accept-Encoding'' = [] \<and> dc_MissingAcceptEncScore cfg > 0) (dc_MissingAcceptEncScore cfg) ''missing_accept_encoding'' res;
          res = add_score want (isDocumentGET r \<and> missingSecFetch r \<and> dc_MissingSecFetchScore cfg > 0) (dc_MissingSecFetchScore cfg) ''missing_sec_fetch'' res;
          chMismatch = secCHUAMismatchBytes r lowUA;
          res = add_score want (chMismatch \<and> dc_SecCHUAMismatchScore cfg > 0) (dc_SecCHUAMismatchScore cfg) ''sec_ch_ua_mismatch'' res;
          res = add_score want (\<not> chMismatch \<and> secCHUAOnNonChromiumBytes r lowUA \<and> dc_SecCHUANonChromiumScore cfg > 0)
                  (dc_SecCHUANonChromiumScore cfg) ''sec_ch_ua_non_chromium'' res;
          res = add_score want (req_ProtoMajor r = 1 \<and> req_ProtoMinor r = 0 \<and> dc_HTTP10BrowserScore cfg > 0) (dc_HTTP10BrowserScore cfg) ''http10_browser'' res;
          res = add_score want (chromiumOrFirefoxUA lowUA \<and> isDocumentGET r \<and> hdr ''Upgrade-Insecure-Requests'' = [] \<and> dc_MissingUIRScore cfg > 0)
                  (dc_MissingUIRScore cfg) ''missing_upgrade_insecure'' res;
          res = add_score want (missingContentTypeOnWrite r \<and> dc_MissingContentTypeScore cfg > 0) (dc_MissingContentTypeScore cfg) ''missing_content_type'' res;
          res = add_score want (hdr ''Accept'' = ''*/*'' \<and> isDocumentPath (req_Path r) \<and> dc_StarAcceptBrowserScore cfg > 0)
                  (dc_StarAcceptBrowserScore cfg) ''star_accept_browser'' res
      in scoreFormSpam r cfg want res)"

definition probe_path :: "string \<Rightarrow> bool" where
  "probe_path path = list_ex (\<lambda>p. HasPrefixFold path p \<or> ContainsFold path p) probePaths"

definition detect_score :: "Request \<Rightarrow> DetectConfig \<Rightarrow> bool \<Rightarrow> DetectResult" where
  "detect_score r cfg want =
     (if IsGitSmartHTTP (Some r) then zero_result
      else
        let lowUA = AppendLowerASCII [] (Header_Get (req_Header r) ''User-Agent'');
            res = score_ua r cfg want zero_result;
            res = add_score want (Header_Get (req_Header r) ''Accept'' = []) (dc_MissingAcceptScore cfg) ''missing_accept'' res;
            res = (if looksBrowserBytes lowUA then score_browser r cfg want lowUA res else res);
            res = add_score want (dc_SNIHostMismatchScore cfg > 0 \<and> sniHostMismatch r) (dc_SNIHostMismatchScore cfg) ''sni_host_mismatch'' res;
            res = add_score want (req_Method r \<notin> {''GET'', ''HEAD'', ''POST'', ''PUT'', ''PATCH'', ''DELETE'', ''OPTIONS''}) (dc_OddMethodScore cfg) ''odd_method'' res;
            res = add_score want (probe_path (req_Path r)) (dc_ProbePathScore cfg) ''probe_path'' res;
            res = add_score want (dc_ForgeExpensiveScore cfg > 0 \<and> ClassifyRequest (dc_ForgeFlavor cfg) (req_Path r) (req_RawQuery r) = ForgeHot)
                    (dc_ForgeExpensiveScore cfg) ''forge_expensive'' res
        in scoreProxySignals r cfg want res)"

definition Score :: "Request \<Rightarrow> DetectConfig \<Rightarrow> DetectResult" where
  "Score r cfg = detect_score r cfg False"

definition ScoreDebug :: "Request \<Rightarrow> DetectConfig \<Rightarrow> DetectResult" where
  "ScoreDebug r cfg = detect_score r cfg True"

section \<open>Scores and reasons\<close>

text \<open>The weight the configuration gives to each reason.\<close>

definition weights :: "DetectConfig \<Rightarrow> (string \<times> int) list" where
  "weights cfg =
     [(''git ua on non-smart path'', dc_ScannerUAScore cfg), (''missing_ua'', dc_MissingUAScore cfg), (''scanner_ua'', dc_ScannerUAScore cfg),
      (''ai_ua'', if dc_AIUAScore cfg \<le> 0 then dc_ScannerUAScore cfg else dc_AIUAScore cfg), (''ua_anomalous'', dc_LongUAScore cfg),
      (''missing_accept'', dc_MissingAcceptScore cfg), (''missing_accept_lang'', dc_MissingAcceptLangScore cfg),
      (''missing_accept_encoding'', dc_MissingAcceptEncScore cfg), (''missing_sec_fetch'', dc_MissingSecFetchScore cfg),
      (''sec_ch_ua_mismatch'', dc_SecCHUAMismatchScore cfg), (''sec_ch_ua_non_chromium'', dc_SecCHUANonChromiumScore cfg),
      (''http10_browser'', dc_HTTP10BrowserScore cfg), (''missing_upgrade_insecure'', dc_MissingUIRScore cfg),
      (''missing_content_type'', dc_MissingContentTypeScore cfg), (''star_accept_browser'', dc_StarAcceptBrowserScore cfg),
      (''empty_form_context'', dc_EmptyFormContextScore cfg), (''forum_write_path'', dc_ForumWritePathScore cfg),
      (''sni_host_mismatch'', dc_SNIHostMismatchScore cfg), (''odd_method'', dc_OddMethodScore cfg), (''probe_path'', dc_ProbePathScore cfg),
      (''forge_expensive'', dc_ForgeExpensiveScore cfg), (''proxy_bot_score'', dc_ProxyBotLowScore cfg)]"

definition weight :: "DetectConfig \<Rightarrow> string \<Rightarrow> int" where
  "weight cfg reason = (case map_of (weights cfg) reason of Some n \<Rightarrow> n | None \<Rightarrow> 0)"

text \<open>The two runs, with and without reasons, and the sum the reasons account for.\<close>

definition accounted :: "DetectConfig \<Rightarrow> DetectResult \<Rightarrow> DetectResult \<Rightarrow> bool" where
  "accounted cfg plain dbg \<longleftrightarrow> dr_Score plain = dr_Score dbg \<and> dr_Score dbg = (\<Sum>reason \<leftarrow> dr_Reasons dbg. weight cfg reason)"

lemma accounted_zero [simp]: "accounted cfg zero_result zero_result"
  by (simp add: accounted_def zero_result_def)

lemma accounted_add:
  "accounted cfg p d \<Longrightarrow> n = weight cfg reason \<Longrightarrow> accounted cfg (add_score False c n reason p) (add_score True c n reason d)"
  by (simp add: accounted_def add_score_def)

lemma weight_simps:
  "weight cfg ''git ua on non-smart path'' = dc_ScannerUAScore cfg" "weight cfg ''missing_ua'' = dc_MissingUAScore cfg"
  "weight cfg ''scanner_ua'' = dc_ScannerUAScore cfg"
  "weight cfg ''ai_ua'' = (if dc_AIUAScore cfg \<le> 0 then dc_ScannerUAScore cfg else dc_AIUAScore cfg)"
  "weight cfg ''ua_anomalous'' = dc_LongUAScore cfg" "weight cfg ''missing_accept'' = dc_MissingAcceptScore cfg"
  "weight cfg ''missing_accept_lang'' = dc_MissingAcceptLangScore cfg" "weight cfg ''missing_accept_encoding'' = dc_MissingAcceptEncScore cfg"
  "weight cfg ''missing_sec_fetch'' = dc_MissingSecFetchScore cfg" "weight cfg ''sec_ch_ua_mismatch'' = dc_SecCHUAMismatchScore cfg"
  "weight cfg ''sec_ch_ua_non_chromium'' = dc_SecCHUANonChromiumScore cfg" "weight cfg ''http10_browser'' = dc_HTTP10BrowserScore cfg"
  "weight cfg ''missing_upgrade_insecure'' = dc_MissingUIRScore cfg" "weight cfg ''missing_content_type'' = dc_MissingContentTypeScore cfg"
  "weight cfg ''star_accept_browser'' = dc_StarAcceptBrowserScore cfg" "weight cfg ''empty_form_context'' = dc_EmptyFormContextScore cfg"
  "weight cfg ''forum_write_path'' = dc_ForumWritePathScore cfg" "weight cfg ''sni_host_mismatch'' = dc_SNIHostMismatchScore cfg"
  "weight cfg ''odd_method'' = dc_OddMethodScore cfg" "weight cfg ''probe_path'' = dc_ProbePathScore cfg"
  "weight cfg ''forge_expensive'' = dc_ForgeExpensiveScore cfg" "weight cfg ''proxy_bot_score'' = dc_ProxyBotLowScore cfg"
  by (simp_all add: weight_def weights_def)

lemma accounted_if:
  "(c \<Longrightarrow> accounted cfg p d) \<Longrightarrow> (\<not> c \<Longrightarrow> accounted cfg p' d') \<Longrightarrow> accounted cfg (if c then p else p') (if c then d else d')"
  by simp

lemma accounted_ua: "accounted cfg p d \<Longrightarrow> accounted cfg (score_ua r cfg False p) (score_ua r cfg True d)"
  unfolding score_ua_def Let_def by (intro accounted_if accounted_add; simp only: weight_simps)

lemma accounted_form: "accounted cfg p d \<Longrightarrow> accounted cfg (scoreFormSpam r cfg False p) (scoreFormSpam r cfg True d)"
  unfolding scoreFormSpam_def Let_def by (intro accounted_if accounted_add; simp only: weight_simps)

lemma accounted_browser: "accounted cfg p d \<Longrightarrow> accounted cfg (score_browser r cfg False low p) (score_browser r cfg True low d)"
  unfolding score_browser_def Let_def by (intro accounted_form accounted_add; simp only: weight_simps)

lemma accounted_proxy: "accounted cfg p d \<Longrightarrow> accounted cfg (scoreProxySignals r cfg False p) (scoreProxySignals r cfg True d)"
  by (auto simp: scoreProxySignals_def scoreProxyHeader_def intro!: accounted_add weight_simps [symmetric])

section \<open>Lists as sets of substrings\<close>

lemma ua_lists_ascii:
  "\<forall>p \<in> set scannerUA. p \<noteq> [] \<and> filter is_ascii p = p" "\<forall>p \<in> set aiUA. p \<noteq> [] \<and> filter is_ascii p = p"
  "\<forall>p \<in> set textBrowserUAs. p \<noteq> [] \<and> filter is_ascii p = p"
  by code_simp+

lemma Contains_matcher:
  assumes "\<forall>p \<in> set ps. p \<noteq> [] \<and> filter is_ascii p = p"
  shows "Matcher_Contains (Some (NewMatcher ps)) s \<longleftrightarrow> (\<exists>p \<in> set ps. Contains s p)"
proof -
  have "\<forall>p \<in> set ps. p \<noteq> [] \<longrightarrow> filter is_ascii p \<noteq> []"
    using assms by simp
  from matcher_iff [OF this, of s] show ?thesis
    using assms by auto
qed

lemma IsAIUA_iff: "IsAIUA ua \<longleftrightarrow> (\<exists>p \<in> set aiUA. Contains (ToLower ua) p)"
proof (cases "ua = []")
  case True
  have "\<forall>p \<in> set aiUA. \<not> Contains [] p"
    using ua_lists_ascii(2) by simp
  then show ?thesis
    using True by (simp add: IsAIUA_def matchAnyFold_def ToLower_def)
next
  case False
  then show ?thesis
    by (simp add: IsAIUA_def matchAnyFold_def aiMatcher_def AppendLowerASCII_eq Contains_matcher [OF ua_lists_ascii(2)])
qed

section \<open>Properties\<close>

text \<open>C27: Every point of a request's score is accounted for: the score is the sum of the configured weights of the reasons that the
  diagnostic run reports, and the run without reasons gives the same score.\<close>

theorem score_accounted:
  "dr_Score (Score r cfg) = dr_Score (ScoreDebug r cfg) \<and>
   dr_Score (ScoreDebug r cfg) = (\<Sum>reason \<leftarrow> dr_Reasons (ScoreDebug r cfg). weight cfg reason)"
proof -
  have "accounted cfg (detect_score r cfg False) (detect_score r cfg True)"
  proof (cases "IsGitSmartHTTP (Some r)")
    case True
    then show ?thesis
      by (simp add: detect_score_def)
  next
    case False
    let ?low = "AppendLowerASCII [] (Header_Get (req_Header r) ''User-Agent'')"
    have br: "accounted cfg (if looksBrowserBytes ?low then score_browser r cfg False ?low p else p) (if looksBrowserBytes ?low then score_browser r cfg True ?low d else d)"
      if "accounted cfg p d" for p d
      using that accounted_browser by simp
    show ?thesis
      unfolding detect_score_def Let_def using False
      by (simp only: if_False) (intro accounted_proxy accounted_ua br accounted_zero accounted_add; simp only: weight_simps)
  qed
  then show ?thesis
    by (simp add: accounted_def Score_def ScoreDebug_def)
qed

end
