(* ===== verification/Trackers.thy ===== *)
theory Trackers
  imports Detect Sharding
begin

text \<open>
  \<open>internal/detect\<close>: the trackers that keep per-client counts over a window of time, in 64 shards each:
  \<open>notfound.go\<close> (missing pages), \<open>penalty.go\<close> (expensive responses) and \<open>behavior.go\<close> (bursts, path and
  User-Agent variety, write spam, failed challenges).  \<open>now\<close> is the clock; a nil tracker is \<open>None\<close>.
\<close>

section \<open>Missing pages and expensive responses\<close>

record countEntry =
  ce_count :: int
  ce_start :: gotime

record CountTracker =
  ct_threshold :: int
  ct_window :: duration
  ct_ents :: "countEntry shards"

definition NewNotFoundTracker :: "int \<Rightarrow> duration \<Rightarrow> CountTracker" where
  "NewNotFoundTracker threshold window =
     \<lparr> ct_threshold = (if threshold \<le> 0 then 20 else threshold), ct_window = (if window \<le> 0 then minute else window), ct_ents = shard_new 64 \<rparr>"

definition NotFound_Exceeded :: "CountTracker \<Rightarrow> string \<Rightarrow> gotime \<Rightarrow> bool \<times> CountTracker" where
  "NotFound_Exceeded t ip now =
     (if ip = [] then (False, t)
      else case shard_get 64 (ct_ents t) ip of
             None \<Rightarrow> (False, t)
           | Some e \<Rightarrow>
               if now - ce_start e > ct_window t then (False, t\<lparr> ct_ents := shard_del 64 ip (ct_ents t) \<rparr>)
               else (ce_count e \<ge> ct_threshold t, t))"

definition NotFound_Record :: "CountTracker \<Rightarrow> string \<Rightarrow> int \<Rightarrow> gotime \<Rightarrow> CountTracker" where
  "NotFound_Record t ip status now =
     (if status \<noteq> 404 \<or> ip = [] then t
      else case shard_get 64 (ct_ents t) ip of
             None \<Rightarrow> t\<lparr> ct_ents := shard_put 64 ip \<lparr> ce_count = 1, ce_start = now \<rparr> (ct_ents t) \<rparr>
           | Some e \<Rightarrow>
               if now - ce_start e > ct_window t
               then t\<lparr> ct_ents := shard_put 64 ip \<lparr> ce_count = 1, ce_start = now \<rparr> (ct_ents t) \<rparr>
               else t\<lparr> ct_ents := shard_put 64 ip (e\<lparr> ce_count := ce_count e + 1 \<rparr>) (ct_ents t) \<rparr>)"

definition NotFound_Sweep :: "CountTracker \<Rightarrow> duration \<Rightarrow> gotime \<Rightarrow> CountTracker" where
  "NotFound_Sweep t maxAge now = t\<lparr> ct_ents := shard_purge (\<lambda>k e. ce_start e < now - maxAge) (ct_ents t) \<rparr>"

definition NewPenaltyTracker :: "int \<Rightarrow> duration \<Rightarrow> CountTracker" where
  "NewPenaltyTracker threshold window =
     \<lparr> ct_threshold = (if threshold \<le> 0 then 30 else threshold), ct_window = (if window \<le> 0 then minute else window), ct_ents = shard_new 64 \<rparr>"

definition ExpensiveStatus :: "int \<Rightarrow> int" where
  "ExpensiveStatus status =
     (if status = 404 \<or> status = 410 then 1
      else if status = 301 \<or> status = 302 \<or> status = 303 \<or> status = 307 \<or> status = 308 then 1
      else if status \<ge> 500 \<and> status \<le> 599 then 1
      else 0)"

definition CacheableMissStatus :: "int \<Rightarrow> bool" where
  "CacheableMissStatus status \<longleftrightarrow> status \<in> {301, 302, 303, 307, 308, 404, 410}"

definition Penalty_Exceeded :: "CountTracker \<Rightarrow> string \<Rightarrow> gotime \<Rightarrow> bool \<times> CountTracker" where
  "Penalty_Exceeded t ip now =
     (if ip = [] then (False, t)
      else case shard_get 64 (ct_ents t) ip of
             None \<Rightarrow> (False, t)
           | Some e \<Rightarrow>
               if now - ce_start e > ct_window t then (False, t\<lparr> ct_ents := shard_del 64 ip (ct_ents t) \<rparr>)
               else (ce_count e \<ge> ct_threshold t, t))"

definition Penalty_Record :: "CountTracker \<Rightarrow> string \<Rightarrow> int \<Rightarrow> gotime \<Rightarrow> CountTracker" where
  "Penalty_Record t ip status now =
     (if ExpensiveStatus status = 0 \<or> ip = [] then t
      else case shard_get 64 (ct_ents t) ip of
             None \<Rightarrow> t\<lparr> ct_ents := shard_put 64 ip \<lparr> ce_count = 1, ce_start = now \<rparr> (ct_ents t) \<rparr>
           | Some e \<Rightarrow>
               if now - ce_start e > ct_window t
               then t\<lparr> ct_ents := shard_put 64 ip \<lparr> ce_count = 1, ce_start = now \<rparr> (ct_ents t) \<rparr>
               else t\<lparr> ct_ents := shard_put 64 ip (e\<lparr> ce_count := ce_count e + 1 \<rparr>) (ct_ents t) \<rparr>)"

definition Penalty_Sweep :: "CountTracker \<Rightarrow> duration \<Rightarrow> gotime \<Rightarrow> CountTracker" where
  "Penalty_Sweep t maxAge now = t\<lparr> ct_ents := shard_purge (\<lambda>k e. ce_start e < now - maxAge) (ct_ents t) \<rparr>"

section \<open>Behaviour\<close>

record BehaviorConfig =
  bc_Window :: duration
  bc_BurstLimit :: int
  bc_BurstScore :: int
  bc_PathFanout :: int
  bc_PathFanoutScore :: int
  bc_StrikeLimit :: int
  bc_StrikeScore :: int
  bc_WriteBurstLimit :: int
  bc_WriteBurstScore :: int
  bc_WriteRepeatLimit :: int
  bc_WriteRepeatScore :: int
  bc_ForgeBurstLimit :: int
  bc_ForgeBurstScore :: int
  bc_ForgeFlavor :: ForgeFlavor
  bc_UAVarietyLimit :: int
  bc_UAVarietyScore :: int

record behEntry =
  be_start :: gotime
  be_reqs :: int
  be_writes :: int
  be_paths :: "string list"
  be_uas :: "32 word list"
  be_strikes :: int
  be_lastPath :: string
  be_seqHits :: int
  be_lastWritePath :: string
  be_samePathWrite :: int
  be_forgeHits :: int

record BehaviorTracker =
  bt_cfg :: BehaviorConfig
  bt_ents :: "behEntry shards"

definition new_behEntry :: "gotime \<Rightarrow> behEntry" where
  "new_behEntry now = \<lparr> be_start = now, be_reqs = 0, be_writes = 0, be_paths = [], be_uas = [], be_strikes = 0, be_lastPath = [],
     be_seqHits = 0, be_lastWritePath = [], be_samePathWrite = 0, be_forgeHits = 0 \<rparr>"

definition NewBehaviorTracker :: "BehaviorConfig \<Rightarrow> BehaviorTracker" where
  "NewBehaviorTracker cfg =
     (let cfg = (if bc_Window cfg \<le> 0 then cfg\<lparr> bc_Window := minute \<rparr> else cfg);
          cfg = (if bc_BurstLimit cfg \<le> 0 then cfg\<lparr> bc_BurstLimit := 60 \<rparr> else cfg);
          cfg = (if bc_PathFanout cfg \<le> 0 then cfg\<lparr> bc_PathFanout := 40 \<rparr> else cfg);
          cfg = (if bc_StrikeLimit cfg \<le> 0 then cfg\<lparr> bc_StrikeLimit := 3 \<rparr> else cfg);
          cfg = (if bc_WriteBurstLimit cfg \<le> 0 then cfg\<lparr> bc_WriteBurstLimit := 20 \<rparr> else cfg);
          cfg = (if bc_WriteRepeatLimit cfg \<le> 0 then cfg\<lparr> bc_WriteRepeatLimit := 8 \<rparr> else cfg);
          cfg = (if bc_ForgeBurstLimit cfg \<le> 0 then cfg\<lparr> bc_ForgeBurstLimit := 24 \<rparr> else cfg);
          cfg = (if bc_UAVarietyLimit cfg \<le> 0 then cfg\<lparr> bc_UAVarietyLimit := 4 \<rparr> else cfg)
      in \<lparr> bt_cfg = cfg, bt_ents = shard_new 64 \<rparr>)"

definition maxTrackedUAs :: nat where "maxTrackedUAs = 64"

fun trailing_loop :: "string \<Rightarrow> int \<Rightarrow> int \<Rightarrow> int" where
  "trailing_loop [] n mul = n"
| "trailing_loop (c # rs) n mul =
     (if \<not> is_digit c then n
      else let n = int64 (n + int64 (int (byte_of c - 48) * mul)); mul = int64 (mul * 10)
           in if n > 1000000 then - 1 else trailing_loop rs n mul)"

text \<open>The string is read from its end; the multiplier wraps around on long runs of zeros.\<close>

definition trailingInt :: "string \<Rightarrow> int" where
  "trailingInt s = (if s = [] \<or> \<not> is_digit (last s) then - 1 else trailing_loop (rev s) 0 1)"

definition stripTrailingInt :: "string \<Rightarrow> string" where
  "stripTrailingInt s = rev (dropWhile is_digit (rev s))"

definition sequentialPath :: "string \<Rightarrow> string \<Rightarrow> bool" where
  "sequentialPath prev cur =
     (if prev = [] \<or> cur = [] \<or> prev = cur then False
      else let pv = trailingInt prev; cv = trailingInt cur in
        if pv < 0 \<or> cv < 0 then False else cv = pv + 1 \<and> stripTrailingInt prev = stripTrailingInt cur)"

definition entryLocked :: "BehaviorTracker \<Rightarrow> string \<Rightarrow> gotime \<Rightarrow> behEntry" where
  "entryLocked t key now =
     (case shard_get 64 (bt_ents t) key of
        None \<Rightarrow> new_behEntry now
      | Some e \<Rightarrow> if now - be_start e > bc_Window (bt_cfg t) then new_behEntry now else e)"

definition beh_update :: "BehaviorConfig \<Rightarrow> string \<Rightarrow> string \<Rightarrow> string \<Rightarrow> string \<Rightarrow> behEntry \<Rightarrow> behEntry" where
  "beh_update cfg path rawQuery meth ua e =
     (let e = e\<lparr> be_reqs := be_reqs e + 1 \<rparr>;
          e = (if ua \<noteq> [] \<and> length (be_uas e) < maxTrackedUAs then e\<lparr> be_uas := List.insert (strhash_String ua) (be_uas e) \<rparr> else e);
          e = (if path \<noteq> [] then
                 let e = e\<lparr> be_paths := List.insert path (be_paths e) \<rparr>;
                     e = (if sequentialPath (be_lastPath e) path then e\<lparr> be_seqHits := be_seqHits e + 1 \<rparr> else e)
                 in e\<lparr> be_lastPath := path \<rparr>
               else e);
          e = (if isWriteMethod meth then
                 let e = e\<lparr> be_writes := be_writes e + 1 \<rparr> in
                 if forumWritePath path then
                   (if path \<noteq> [] \<and> path = be_lastWritePath e then e\<lparr> be_samePathWrite := be_samePathWrite e + 1 \<rparr>
                    else e\<lparr> be_lastWritePath := path, be_samePathWrite := 1 \<rparr>)
                 else e\<lparr> be_lastWritePath := [], be_samePathWrite := 0 \<rparr>
               else e)
      in if ClassifyRequest (bc_ForgeFlavor cfg) path rawQuery \<noteq> ForgeNone then e\<lparr> be_forgeHits := be_forgeHits e + 1 \<rparr> else e)"

definition Behavior_Record :: "BehaviorTracker option \<Rightarrow> string \<Rightarrow> string \<Rightarrow> string \<Rightarrow> string \<Rightarrow> string \<Rightarrow> gotime \<Rightarrow> BehaviorTracker option" where
  "Behavior_Record to key path rawQuery meth ua now =
     (case to of
        None \<Rightarrow> None
      | Some t \<Rightarrow>
          if key = [] then Some t
          else Some (t\<lparr> bt_ents := shard_put 64 key (beh_update (bt_cfg t) path rawQuery meth ua (entryLocked t key now)) (bt_ents t) \<rparr>))"

definition Behavior_Strike :: "BehaviorTracker option \<Rightarrow> string \<Rightarrow> gotime \<Rightarrow> BehaviorTracker option" where
  "Behavior_Strike to key now =
     (case to of
        None \<Rightarrow> None
      | Some t \<Rightarrow>
          if key = [] then Some t
          else let e = entryLocked t key now
               in Some (t\<lparr> bt_ents := shard_put 64 key (e\<lparr> be_strikes := be_strikes e + 1 \<rparr>) (bt_ents t) \<rparr>))"

definition StrikesExceeded :: "BehaviorTracker option \<Rightarrow> string \<Rightarrow> gotime \<Rightarrow> bool \<times> BehaviorTracker option" where
  "StrikesExceeded to key now =
     (case to of
        None \<Rightarrow> (False, None)
      | Some t \<Rightarrow>
          if key = [] then (False, Some t)
          else case shard_get 64 (bt_ents t) key of
                 None \<Rightarrow> (False, Some t)
               | Some e \<Rightarrow>
                   if now - be_start e > bc_Window (bt_cfg t) then (False, Some (t\<lparr> bt_ents := shard_del 64 key (bt_ents t) \<rparr>))
                   else (be_strikes e \<ge> bc_StrikeLimit (bt_cfg t), Some t))"

definition score_entry :: "BehaviorConfig \<Rightarrow> behEntry \<Rightarrow> DetectResult" where
  "score_entry cfg e =
     (let res = add_score True (be_reqs e \<ge> bc_BurstLimit cfg \<and> bc_BurstScore cfg > 0) (bc_BurstScore cfg) ''behavior_burst'' zero_result;
          res = add_score True (int (length (be_paths e)) \<ge> bc_PathFanout cfg \<and> bc_PathFanoutScore cfg > 0) (bc_PathFanoutScore cfg) ''behavior_path_fanout'' res;
          res = add_score True (be_seqHits e \<ge> 8 \<and> bc_PathFanoutScore cfg > 0) (bc_PathFanoutScore cfg div 2) ''behavior_sequential'' res;
          res = add_score True (be_writes e \<ge> bc_WriteBurstLimit cfg \<and> bc_WriteBurstScore cfg > 0) (bc_WriteBurstScore cfg) ''behavior_write_burst'' res;
          res = add_score True (be_samePathWrite e \<ge> bc_WriteRepeatLimit cfg \<and> bc_WriteRepeatScore cfg > 0) (bc_WriteRepeatScore cfg) ''behavior_write_repeat'' res;
          res = add_score True (be_forgeHits e \<ge> bc_ForgeBurstLimit cfg \<and> bc_ForgeBurstScore cfg > 0) (bc_ForgeBurstScore cfg) ''behavior_forge_burst'' res;
          res = add_score True (be_strikes e > 0 \<and> bc_StrikeScore cfg > 0) (be_strikes e * bc_StrikeScore cfg) ''behavior_strikes'' res
      in add_score True (int (length (be_uas e)) \<ge> bc_UAVarietyLimit cfg \<and> bc_UAVarietyScore cfg > 0) (bc_UAVarietyScore cfg) ''behavior_ua_variety'' res)"

definition Behavior_Score :: "BehaviorTracker option \<Rightarrow> string \<Rightarrow> gotime \<Rightarrow> DetectResult \<times> BehaviorTracker option" where
  "Behavior_Score to key now =
     (case to of
        None \<Rightarrow> (zero_result, None)
      | Some t \<Rightarrow>
          if key = [] then (zero_result, Some t)
          else case shard_get 64 (bt_ents t) key of
                 None \<Rightarrow> (zero_result, Some t)
               | Some e \<Rightarrow>
                   if now - be_start e > bc_Window (bt_cfg t) then (zero_result, Some (t\<lparr> bt_ents := shard_del 64 key (bt_ents t) \<rparr>))
                   else (score_entry (bt_cfg t) e, Some t))"

definition Behavior_Sweep :: "BehaviorTracker option \<Rightarrow> duration \<Rightarrow> gotime \<Rightarrow> BehaviorTracker option" where
  "Behavior_Sweep to maxAge now = map_option (\<lambda>t. t\<lparr> bt_ents := shard_purge (\<lambda>k e. be_start e < now - maxAge) (bt_ents t) \<rparr>) to"

section \<open>Counting in a window\<close>

abbreviation count_of :: "CountTracker \<Rightarrow> string \<Rightarrow> countEntry option" where
  "count_of t k \<equiv> shard_get 64 (ct_ents t) k"

definition tracker_ok :: "CountTracker \<Rightarrow> bool" where
  "tracker_ok t \<longleftrightarrow> shard_inv 64 (ct_ents t)"

definition count_hit :: "duration \<Rightarrow> gotime \<Rightarrow> countEntry option \<Rightarrow> countEntry" where
  "count_hit window now eo =
     (case eo of
        None \<Rightarrow> \<lparr> ce_count = 1, ce_start = now \<rparr>
      | Some e \<Rightarrow> if now - ce_start e > window then \<lparr> ce_count = 1, ce_start = now \<rparr> else e\<lparr> ce_count := ce_count e + 1 \<rparr>)"

text \<open>An entry that has counted \<open>c\<close> hits since a time in the window that begins at \<open>a\<close>.\<close>

definition counted :: "countEntry option \<Rightarrow> nat \<Rightarrow> gotime \<Rightarrow> duration \<Rightarrow> bool" where
  "counted eo c a w =
     (case eo of None \<Rightarrow> c = 0 | Some e \<Rightarrow> ce_count e = int c \<and> a \<le> ce_start e \<and> ce_start e \<le> a + w \<and> 0 < c)"

lemma counted_hit: "counted eo c a w \<Longrightarrow> a \<le> now \<Longrightarrow> now \<le> a + w \<Longrightarrow> counted (Some (count_hit w now eo)) (Suc c) a w"
  by (auto simp: counted_def count_hit_def split: option.splits)

text \<open>What the pipeline relies on in both trackers: which statuses count, and how a count grows and is read.\<close>

locale window_counter =
  fixes hit :: "int \<Rightarrow> bool"
    and rec :: "CountTracker \<Rightarrow> string \<Rightarrow> int \<Rightarrow> gotime \<Rightarrow> CountTracker"
    and exceeded :: "CountTracker \<Rightarrow> string \<Rightarrow> gotime \<Rightarrow> bool \<times> CountTracker"
  assumes rec_miss: "\<not> hit st \<or> k = [] \<Longrightarrow> rec t k st now = t"
    and rec_hit: "tracker_ok t \<Longrightarrow> hit st \<Longrightarrow> k \<noteq> [] \<Longrightarrow>
      count_of (rec t k st now) k' = (if k' = k then Some (count_hit (ct_window t) now (count_of t k)) else count_of t k')"
    and rec_ok: "tracker_ok t \<Longrightarrow> tracker_ok (rec t k st now)"
    and rec_cfg: "ct_window (rec t k st now) = ct_window t" "ct_threshold (rec t k st now) = ct_threshold t"
    and exceeded_iff: "fst (exceeded t k now) \<longleftrightarrow>
      k \<noteq> [] \<and> (\<exists>e. count_of t k = Some e \<and> now - ce_start e \<le> ct_window t \<and> ce_count e \<ge> ct_threshold t)"
begin

fun run :: "CountTracker \<Rightarrow> (string \<times> int \<times> gotime) list \<Rightarrow> CountTracker" where
  "run t [] = t"
| "run t ((k, st, now) # rs) = run (rec t k st now) rs"

definition hits :: "string \<Rightarrow> (string \<times> int \<times> gotime) list \<Rightarrow> nat" where
  "hits k rs = length (filter (\<lambda>(k', st, now). k' = k \<and> hit st) rs)"

text \<open>While all records fall into one window, the entry of a client counts its hits.\<close>

lemma run_counts:
  assumes "tracker_ok t" "ct_window t = w" "k \<noteq> []" "\<forall>(k', st, now) \<in> set rs. a \<le> now \<and> now \<le> a + w" "counted (count_of t k) c a w"
  shows "counted (count_of (run t rs) k) (c + hits k rs) a w"
  using assms
proof (induction rs arbitrary: t c)
  case Nil
  then show ?case
    by (simp add: hits_def)
next
  case (Cons r rs)
  obtain k' st now where r: "r = (k', st, now)"
    by (cases r)
  have now: "a \<le> now" "now \<le> a + w" and rest: "\<forall>(k', st, now) \<in> set rs. a \<le> now \<and> now \<le> a + w"
    using Cons.prems(4) r by auto
  let ?c = "if k' = k \<and> hit st then Suc c else c"
  have "counted (count_of (rec t k' st now) k) ?c a w"
  proof (cases "hit st \<and> k' \<noteq> []")
    case True
    then show ?thesis
      using Cons.prems(1,2,5) counted_hit [OF _ now] by (simp add: rec_hit)
  next
    case False
    then have "rec t k' st now = t"
      using rec_miss by blast
    then show ?thesis
      using Cons.prems(3,5) False by auto
  qed
  then have "counted (count_of (run (rec t k' st now) rs) k) (?c + hits k rs) a w"
    using Cons.prems(1-3) rest by (intro Cons.IH) (simp_all add: rec_ok rec_cfg)
  moreover have "?c + hits k rs = c + hits k ((k', st, now) # rs)"
    by (auto simp: hits_def)
  ultimately show ?case
    using r by simp
qed

lemma run_foldl: "run t rs = foldl (\<lambda>t (k, st, now). rec t k st now) t rs"
  by (induction t rs rule: run.induct) simp_all

lemma run_cfg: "ct_window (run t rs) = ct_window t" "ct_threshold (run t rs) = ct_threshold t"
  by (induction t rs rule: run.induct) (simp_all add: rec_cfg)

lemma exceeded_exact:
  assumes "tracker_ok t" "\<And>k. count_of t k = None" "0 < ct_threshold t"
    "\<forall>(k', st, now) \<in> set rs. a \<le> now \<and> now \<le> a + ct_window t" "a \<le> now" "now \<le> a + ct_window t"
  shows "fst (exceeded (run t rs) k now) \<longleftrightarrow> k \<noteq> [] \<and> int (hits k rs) \<ge> ct_threshold t"
proof (cases "k = []")
  case True
  then show ?thesis
    by (simp add: exceeded_iff)
next
  case False
  have "counted (count_of (run t rs) k) (0 + hits k rs) a (ct_window t)"
    by (rule run_counts [OF assms(1) refl False assms(4)]) (simp add: counted_def assms(2))
  then show ?thesis
    using False assms(3,5,6) by (auto simp: counted_def exceeded_iff run_cfg split: option.splits)
qed

end

interpretation notfound: window_counter "\<lambda>st. st = 404" NotFound_Record NotFound_Exceeded
  by unfold_locales
     (auto simp: NotFound_Record_def NotFound_Exceeded_def tracker_ok_def count_hit_def store64.get_put store64.invar_put not_less
       split: option.splits if_splits)

interpretation penalty: window_counter "\<lambda>st. ExpensiveStatus st \<noteq> 0" Penalty_Record Penalty_Exceeded
  by unfold_locales
     (auto simp: Penalty_Record_def Penalty_Exceeded_def tracker_ok_def count_hit_def store64.get_put store64.invar_put not_less
       split: option.splits if_splits)

lemma new_tracker_laws:
  "tracker_ok (NewNotFoundTracker thr w)" "count_of (NewNotFoundTracker thr w) k = None" "0 < ct_threshold (NewNotFoundTracker thr w)"
  "tracker_ok (NewPenaltyTracker thr w)" "count_of (NewPenaltyTracker thr w) k = None" "0 < ct_threshold (NewPenaltyTracker thr w)"
  by (simp_all add: NewNotFoundTracker_def NewPenaltyTracker_def tracker_ok_def store64.store_gets store64.store_invars)

definition record_all :: "(CountTracker \<Rightarrow> string \<Rightarrow> int \<Rightarrow> gotime \<Rightarrow> CountTracker) \<Rightarrow> CountTracker \<Rightarrow> (string \<times> int \<times> gotime) list \<Rightarrow> CountTracker" where
  "record_all rec t rs = foldl (\<lambda>t (k, st, now). rec t k st now) t rs"

definition in_window :: "gotime \<Rightarrow> duration \<Rightarrow> (string \<times> int \<times> gotime) list \<Rightarrow> bool" where
  "in_window a w rs = list_all (\<lambda>(k, st, now). a \<le> now \<and> now \<le> a + w) rs"

lemma in_window_iff: "in_window a w rs \<longleftrightarrow> (\<forall>(k', st, now) \<in> set rs. a \<le> now \<and> now \<le> a + w)"
  by (simp add: in_window_def list_all_iff)

text \<open>C28: the two response trackers count exactly: over any sequence of responses of any clients within one window, a
  client is reported by the not-found tracker if and only if at least the threshold of its responses were 404, and by the
  penalty tracker if and only if at least the threshold of them were expensive.\<close>

theorem trackers_count_exactly:
  assumes "in_window a (ct_window (NewNotFoundTracker thr w)) rs" "a \<le> now" "now \<le> a + ct_window (NewNotFoundTracker thr w)"
  shows "(fst (NotFound_Exceeded (record_all NotFound_Record (NewNotFoundTracker thr w) rs) k now) \<longleftrightarrow>
            k \<noteq> [] \<and> int (length (filter (\<lambda>(k', st, _). k' = k \<and> st = 404) rs)) \<ge> ct_threshold (NewNotFoundTracker thr w)) \<and>
         (fst (Penalty_Exceeded (record_all Penalty_Record (NewPenaltyTracker thr w) rs) k now) \<longleftrightarrow>
            k \<noteq> [] \<and> int (length (filter (\<lambda>(k', st, _). k' = k \<and> ExpensiveStatus st \<noteq> 0) rs)) \<ge> ct_threshold (NewPenaltyTracker thr w))" (is "?N \<and> ?P")
proof
  have w: "ct_window (NewNotFoundTracker thr w) = ct_window (NewPenaltyTracker thr w)"
    by (simp add: NewNotFoundTracker_def NewPenaltyTracker_def)
  show ?N
    using notfound.exceeded_exact [OF new_tracker_laws(1-3) assms(1) [unfolded in_window_iff] assms(2,3)]
    by (simp add: record_all_def notfound.run_foldl notfound.hits_def)
  show ?P
    using penalty.exceeded_exact [OF new_tracker_laws(4-6) assms(1) [unfolded in_window_iff w] assms(2) assms(3) [unfolded w]]
    by (simp add: record_all_def penalty.run_foldl penalty.hits_def)
qed

theorem trackers_count_exactly_witness:
  "\<not> fst (NotFound_Exceeded (record_all NotFound_Record (NewNotFoundTracker 2 100) [(''a'', 404, 10), (''a'', 301, 20), (''b'', 404, 30)]) ''a'' 50)
   \<and> fst (Penalty_Exceeded (record_all Penalty_Record (NewPenaltyTracker 2 100) [(''a'', 404, 10), (''a'', 301, 20), (''b'', 404, 30)]) ''a'' 50)"
  using trackers_count_exactly [of 0 2 100 "[(''a'', 404, 10), (''a'', 301, 20), (''b'', 404, 30)]" 50 "''a''"]
  by (simp add: in_window_def NewNotFoundTracker_def NewPenaltyTracker_def ExpensiveStatus_def)

section \<open>Well-formed behaviour entries\<close>

definition wf_beh :: "behEntry \<Rightarrow> bool" where
  "wf_beh e \<longleftrightarrow> distinct (be_uas e) \<and> length (be_uas e) \<le> maxTrackedUAs \<and> distinct (be_paths e) \<and> [] \<notin> set (be_paths e)
     \<and> 0 \<le> be_strikes e
     \<and> int (length (be_paths e)) \<le> be_reqs e \<and> 0 \<le> be_seqHits e \<and> be_seqHits e \<le> be_reqs e
     \<and> 0 \<le> be_samePathWrite e \<and> be_samePathWrite e \<le> be_writes e \<and> be_writes e \<le> be_reqs e
     \<and> 0 \<le> be_forgeHits e \<and> be_forgeHits e \<le> be_reqs e"

lemma wf_beh_new: "wf_beh (new_behEntry now)"
  by (simp add: wf_beh_def new_behEntry_def)

lemma length_insert_le: "length (List.insert x xs) \<le> Suc (length xs)"
  by (simp add: List.insert_def)

lemma beh_update_fields:
  "be_reqs (beh_update cfg path rawQuery meth ua e) = be_reqs e + 1"
  "be_strikes (beh_update cfg path rawQuery meth ua e) = be_strikes e"
  "be_uas (beh_update cfg path rawQuery meth ua e) =
     (if ua \<noteq> [] \<and> length (be_uas e) < maxTrackedUAs then List.insert (strhash_String ua) (be_uas e) else be_uas e)"
  "be_paths (beh_update cfg path rawQuery meth ua e) = (if path \<noteq> [] then List.insert path (be_paths e) else be_paths e)"
  "be_seqHits (beh_update cfg path rawQuery meth ua e) =
     be_seqHits e + (if path \<noteq> [] \<and> sequentialPath (be_lastPath e) path then 1 else 0)"
  "be_writes (beh_update cfg path rawQuery meth ua e) = be_writes e + (if isWriteMethod meth then 1 else 0)"
  "be_samePathWrite (beh_update cfg path rawQuery meth ua e) =
     (if \<not> isWriteMethod meth then be_samePathWrite e
      else if \<not> forumWritePath path then 0
      else if path \<noteq> [] \<and> path = be_lastWritePath e then be_samePathWrite e + 1 else 1)"
  "be_forgeHits (beh_update cfg path rawQuery meth ua e) =
     be_forgeHits e + (if ClassifyRequest (bc_ForgeFlavor cfg) path rawQuery \<noteq> ForgeNone then 1 else 0)"
  by (simp_all add: beh_update_def Let_def)

lemma wf_beh_update: "wf_beh e \<Longrightarrow> wf_beh (beh_update cfg path rawQuery meth ua e)"
  using length_insert_le [of path "be_paths e"] length_insert_le [of "strhash_String ua" "be_uas e"]
  unfolding wf_beh_def beh_update_fields by (auto simp: List.insert_def)

inductive beh_reach :: "BehaviorConfig \<Rightarrow> BehaviorTracker \<Rightarrow> bool" for cfg where
  new: "beh_reach cfg (NewBehaviorTracker cfg)"
| rec: "beh_reach cfg t \<Longrightarrow> Behavior_Record (Some t) key path rawQuery meth ua now = Some t' \<Longrightarrow> beh_reach cfg t'"
| strike: "beh_reach cfg t \<Longrightarrow> Behavior_Strike (Some t) key now = Some t' \<Longrightarrow> beh_reach cfg t'"
| exceeded: "beh_reach cfg t \<Longrightarrow> StrikesExceeded (Some t) key now = (b, Some t') \<Longrightarrow> beh_reach cfg t'"
| score: "beh_reach cfg t \<Longrightarrow> Behavior_Score (Some t) key now = (res, Some t') \<Longrightarrow> beh_reach cfg t'"
| sweep: "beh_reach cfg t \<Longrightarrow> Behavior_Sweep (Some t) maxAge now = Some t' \<Longrightarrow> beh_reach cfg t'"

definition beh_inv :: "BehaviorTracker \<Rightarrow> bool" where
  "beh_inv t \<longleftrightarrow> shard_inv 64 (bt_ents t) \<and> (\<forall>key e. shard_get 64 (bt_ents t) key = Some e \<longrightarrow> wf_beh e)"

lemma beh_inv_put: "beh_inv t \<Longrightarrow> wf_beh e \<Longrightarrow> beh_inv (t\<lparr> bt_ents := shard_put 64 key e (bt_ents t) \<rparr>)"
  by (auto simp: beh_inv_def store64.get_put store64.invar_put)

lemma beh_inv_del: "beh_inv t \<Longrightarrow> beh_inv (t\<lparr> bt_ents := shard_del 64 key (bt_ents t) \<rparr>)"
  by (auto simp: beh_inv_def store64.get_del store64.invar_del)

lemma beh_inv_purge: "beh_inv t \<Longrightarrow> beh_inv (t\<lparr> bt_ents := shard_purge P (bt_ents t) \<rparr>)"
  by (auto simp: beh_inv_def store64.invar_purge dest: store64.get_purge_SomeD)

lemma beh_inv_entryLocked: "beh_inv t \<Longrightarrow> wf_beh (entryLocked t key now)"
  by (auto simp: entryLocked_def beh_inv_def wf_beh_new split: option.splits)

lemma wf_beh_strike: "wf_beh e \<Longrightarrow> wf_beh (e\<lparr> be_strikes := be_strikes e + 1 \<rparr>)"
  by (simp add: wf_beh_def)

lemmas beh_inv_intros = beh_inv_put beh_inv_del beh_inv_purge beh_inv_entryLocked wf_beh_update wf_beh_strike

lemma beh_reach_inv: "beh_reach cfg t \<Longrightarrow> beh_inv t"
proof (induction rule: beh_reach.induct)
  case new
  show ?case
    by (simp add: beh_inv_def NewBehaviorTracker_def Let_def store64.store_gets store64.store_invars)
next
  case (rec t key path rawQuery meth ua now t')
  then show ?case
    by (auto simp: Behavior_Record_def split: if_splits intro!: beh_inv_intros)
next
  case (strike t key now t')
  then show ?case
    by (auto simp: Behavior_Strike_def Let_def split: if_splits intro!: beh_inv_intros)
next
  case (exceeded t key now b t')
  then show ?case
    by (auto simp: StrikesExceeded_def split: if_splits option.splits intro!: beh_inv_intros)
next
  case (score t key now res t')
  then show ?case
    by (auto simp: Behavior_Score_def split: if_splits option.splits intro!: beh_inv_intros)
next
  case (sweep t maxAge now t')
  then show ?case
    by (auto simp: Behavior_Sweep_def intro!: beh_inv_intros)
qed

text \<open>Whatever requests, strikes, reads and sweeps happen in whatever order, every entry of the behaviour tracker is
  well formed: at most 64 distinct User-Agent hashes, distinct non-empty paths, at most as many paths, sequential hits, writes
  and forge hits as requests, and a same-path run no longer than the writes.\<close>

theorem behavior_entries_wf:
  "beh_reach cfg t \<Longrightarrow> shard_inv 64 (bt_ents t) \<and> list_all (\<lambda>(key, e). wf_beh e) (shard_entries (bt_ents t))"
  using beh_reach_inv [of cfg t]
  by (auto simp: beh_inv_def list_all_iff shard_entries_get [of 64])

definition beh_example :: BehaviorConfig where
  "beh_example = \<lparr> bc_Window = 60, bc_BurstLimit = 2, bc_BurstScore = 5, bc_PathFanout = 2, bc_PathFanoutScore = 4, bc_StrikeLimit = 3,
     bc_StrikeScore = 1, bc_WriteBurstLimit = 2, bc_WriteBurstScore = 1, bc_WriteRepeatLimit = 2, bc_WriteRepeatScore = 1,
     bc_ForgeBurstLimit = 2, bc_ForgeBurstScore = 1, bc_ForgeFlavor = ForgeGitea, bc_UAVarietyLimit = 2, bc_UAVarietyScore = 1 \<rparr>"

theorem behavior_entries_wf_witness:
  "let t = the (Behavior_Record (Some (NewBehaviorTracker beh_example)) ''k'' ''/p/1'' [] ''GET'' ''curl'' 5)
   in list_all (\<lambda>(key, e). wf_beh e) (shard_entries (bt_ents t)) \<and> shard_get 64 (bt_ents t) ''k'' \<noteq> None"
proof -
  let ?t = "NewBehaviorTracker beh_example"
  let ?t' = "the (Behavior_Record (Some ?t) ''k'' ''/p/1'' [] ''GET'' ''curl'' 5)"
  have "beh_reach beh_example ?t'"
    by (rule beh_reach.rec [OF beh_reach.new, of beh_example "''k''" "''/p/1''" "[]" "''GET''" "''curl''" 5])
       (simp add: Behavior_Record_def)
  moreover have "shard_get 64 (bt_ents ?t') ''k'' \<noteq> None"
    by (simp add: Behavior_Record_def store64.get_put NewBehaviorTracker_def Let_def store64.store_invars)
  ultimately show ?thesis
    unfolding Let_def using behavior_entries_wf [of beh_example ?t'] by blast
qed

text \<open>The cap on User-Agents is not matched by one on paths: a client that asks for \<open>n\<close> distinct paths in one window has all
  of them kept in its entry.\<close>

lemma beh_paths_kept:
  assumes "distinct ps" "[] \<notin> set ps" "set ps \<inter> set (be_paths e) = {}"
  shows "length (be_paths (fold (\<lambda>path. beh_update cfg path rawQuery meth ua) ps e)) = length (be_paths e) + length ps"
  using assms
proof (induction ps arbitrary: e)
  case (Cons p ps)
  then have "set ps \<inter> set (be_paths (beh_update cfg p rawQuery meth ua e)) = {}"
    by (auto simp: beh_update_fields)
  from Cons.IH [OF _ _ this] show ?case
    using Cons.prems by (auto simp: beh_update_fields)
qed simp

end
