(* ===== verification/Protect.thy ===== *)
theory Protect
  imports Sharding
begin

text \<open>
  \<open>internal/protect\<close>: request size limits, global and per-client concurrency caps, and the
  strike and ban table (64 shards).  A guard that is a nil pointer in Go is \<open>None\<close> where a
  method accepts one; every other method is given on a guard that exists.  Ban durations are
  multiplied in 64 bits (\<^const>\<open>int64\<close>), as \<open>time.Duration\<close> is.  Here each method is one atomic
  step; theory \<open>ProtectConc\<close> splits \<open>Acquire\<close>, \<open>Release\<close> and \<open>Sweep\<close> into the atomic
  operations the Go code performs and interleaves them.
\<close>

section \<open>Definitions\<close>

record Config =
  Enabled :: bool
  MaxBodyBytes :: int
  MaxHeaderBytes :: int
  MaxURLBytes :: int
  MaxConcurrentGlobal :: int
  MaxConcurrentClient :: int
  BanAfterStrikes :: int
  BanTTL :: duration
  BanEscalation :: int
  AttackBlock :: bool
  AttackScore :: int
  WriteMethodCost :: int

definition zero_Config :: Config where
  "zero_Config = \<lparr> Enabled = False, MaxBodyBytes = 0, MaxHeaderBytes = 0, MaxURLBytes = 0,
     MaxConcurrentGlobal = 0, MaxConcurrentClient = 0, BanAfterStrikes = 0, BanTTL = 0,
     BanEscalation = 0, AttackBlock = False, AttackScore = 0, WriteMethodCost = 0 \<rparr>"

record banEntry =
  bannedUntil :: gotime
  strikes :: int
  windowStart :: gotime
  bans :: int

record Guard =
  g_cfg :: "Config option"
  g_global :: int
  g_clients :: "(string, int) gomap"
  g_bans :: "banEntry shards"

definition pos_or :: "int \<Rightarrow> int \<Rightarrow> int" where
  "pos_or x dflt = (if x \<le> 0 then dflt else x)"

definition Guard_New :: "Config \<Rightarrow> Guard" where
  "Guard_New cfg =
     (let cfg = cfg\<lparr> MaxBodyBytes := pos_or (MaxBodyBytes cfg) (2 ^ 20),
                    MaxHeaderBytes := pos_or (MaxHeaderBytes cfg) (2 ^ 14),
                    MaxURLBytes := pos_or (MaxURLBytes cfg) 8192,
                    MaxConcurrentGlobal := pos_or (MaxConcurrentGlobal cfg) 2048,
                    MaxConcurrentClient := pos_or (MaxConcurrentClient cfg) 16,
                    BanAfterStrikes := pos_or (BanAfterStrikes cfg) 5,
                    BanTTL := pos_or (BanTTL cfg) (10 * minute),
                    BanEscalation := (if BanEscalation cfg < 0 then 0 else BanEscalation cfg),
                    WriteMethodCost := pos_or (WriteMethodCost cfg) 3,
                    AttackScore := pos_or (AttackScore cfg) 90 \<rparr>
      in \<lparr> g_cfg = Some cfg, g_global = 0, g_clients = [], g_bans = shard_new 64 \<rparr>)"

definition Guard_live :: "Guard \<Rightarrow> Config" where
  "Guard_live g = (case g_cfg g of Some c \<Rightarrow> c | None \<Rightarrow> zero_Config)"

definition Guard_Enabled :: "Guard option \<Rightarrow> bool" where
  "Guard_Enabled g = (case g of None \<Rightarrow> False | Some g \<Rightarrow> Enabled (Guard_live g))"

definition Guard_MaxBodyBytes :: "Guard option \<Rightarrow> int" where
  "Guard_MaxBodyBytes g = (case g of None \<Rightarrow> 2 ^ 20 | Some g \<Rightarrow> MaxBodyBytes (Guard_live g))"

definition Guard_MaxHeaderBytes :: "Guard option \<Rightarrow> int" where
  "Guard_MaxHeaderBytes g = (case g of None \<Rightarrow> 2 ^ 14 | Some g \<Rightarrow> MaxHeaderBytes (Guard_live g))"

definition Guard_WriteCost :: "Guard option \<Rightarrow> int" where
  "Guard_WriteCost g = (case g of None \<Rightarrow> 3 | Some g \<Rightarrow>
     (let c = WriteMethodCost (Guard_live g) in if c \<le> 0 then 3 else c))"

definition Guard_AttackBlock :: "Guard option \<Rightarrow> bool" where
  "Guard_AttackBlock g = (case g of None \<Rightarrow> False | Some g \<Rightarrow> AttackBlock (Guard_live g))"

definition Guard_AttackScore :: "Guard option \<Rightarrow> int" where
  "Guard_AttackScore g = (case g of None \<Rightarrow> 90 | Some g \<Rightarrow> AttackScore (Guard_live g))"

definition CheckRequestSize :: "Guard \<Rightarrow> string \<Rightarrow> string \<Rightarrow> int \<Rightarrow> string" where
  "CheckRequestSize g path rawQuery contentLength =
     (let cfg = Guard_live g in
      if \<not> Enabled cfg then []
      else let n = int (length path) + (if rawQuery \<noteq> [] then 1 + int (length rawQuery) else 0)
           in if n > MaxURLBytes cfg then ''url too large''
              else if contentLength > MaxBodyBytes cfg then ''body too large'' else [])"

text \<open>The limit \<open>LimitBody\<close> puts on the body reader, if it installs one.\<close>

definition LimitBody :: "Guard \<Rightarrow> bool \<Rightarrow> int option" where
  "LimitBody g hasBody =
     (let cfg = Guard_live g in if \<not> Enabled cfg \<or> \<not> hasBody then None else Some (MaxBodyBytes cfg))"

definition Guard_Acquire :: "Guard \<Rightarrow> string \<Rightarrow> bool \<times> Guard" where
  "Guard_Acquire g key =
     (let cfg = Guard_live g in
      if \<not> Enabled cfg then (True, g)
      else if g_global g \<ge> MaxConcurrentGlobal cfg then (False, g)
      else
        let g' = g\<lparr> g_global := g_global g + 1 \<rparr> in
        if key = [] then (True, g')
        else
          let old = (case map_of (g_clients g) key of None \<Rightarrow> 0 | Some n \<Rightarrow> n);
              n = old + 1
          in if n > MaxConcurrentClient cfg
             then (False, g\<lparr> g_clients := AList.update key old (g_clients g) \<rparr>)
             else (True, g'\<lparr> g_clients := AList.update key n (g_clients g) \<rparr>))"

definition Guard_Release :: "Guard \<Rightarrow> string \<Rightarrow> Guard" where
  "Guard_Release g key =
     (if \<not> Enabled (Guard_live g) then g
      else
        let g' = g\<lparr> g_global := g_global g - 1 \<rparr> in
        if key = [] then g'
        else case map_of (g_clients g) key of
               None \<Rightarrow> g'
             | Some n \<Rightarrow> g'\<lparr> g_clients := AList.update key (n - 1) (g_clients g) \<rparr>)"

definition Guard_Banned :: "Guard \<Rightarrow> string \<Rightarrow> gotime \<Rightarrow> bool \<times> Guard" where
  "Guard_Banned g key now =
     (if \<not> Enabled (Guard_live g) \<or> key = [] then (False, g)
      else case shard_get 64 (g_bans g) key of
             None \<Rightarrow> (False, g)
           | Some e \<Rightarrow>
               if bannedUntil e = 0 \<or> now > bannedUntil e then
                 (False, if bannedUntil e \<noteq> 0 \<and> now > bannedUntil e
                         then g\<lparr> g_bans := shard_put 64 key (e\<lparr> bannedUntil := 0, strikes := 0 \<rparr>) (g_bans g) \<rparr>
                         else g)
               else (True, g))"

definition banTTLWithEscalation :: "Config \<Rightarrow> int \<Rightarrow> duration" where
  "banTTLWithEscalation cfg bns =
     (if BanEscalation cfg \<le> 0 \<or> bns \<le> 1 then BanTTL cfg
      else let shift = min (bns - 1) (BanEscalation cfg);
               shift = (if shift > 30 then 30 else shift)
           in int64 (BanTTL cfg * 2 ^ nat shift))"

definition Guard_Strike :: "Guard \<Rightarrow> string \<Rightarrow> gotime \<Rightarrow> Guard" where
  "Guard_Strike g key now =
     (let cfg = Guard_live g in
      if \<not> Enabled cfg \<or> key = [] then g
      else
        let e = (case shard_get 64 (g_bans g) key of
                   None \<Rightarrow> \<lparr> bannedUntil = 0, strikes = 0, windowStart = now, bans = 0 \<rparr>
                 | Some e \<Rightarrow>
                     if now - windowStart e > BanTTL cfg
                     then e\<lparr> bannedUntil := 0, strikes := 0, windowStart := now \<rparr> else e);
            e = e\<lparr> strikes := strikes e + 1 \<rparr>;
            e = (if strikes e \<ge> BanAfterStrikes cfg
                 then e\<lparr> bans := bans e + 1,
                        bannedUntil := now + banTTLWithEscalation cfg (bans e + 1) \<rparr>
                 else e)
        in g\<lparr> g_bans := shard_put 64 key e (g_bans g) \<rparr>)"

definition Guard_BanUntil :: "Guard \<Rightarrow> string \<Rightarrow> gotime \<Rightarrow> gotime \<Rightarrow> Guard" where
  "Guard_BanUntil g key until now =
     (let cfg = Guard_live g in
      if \<not> Enabled cfg \<or> key = [] \<or> until = 0 then g
      else if until < now then g
      else let bns = (case shard_get 64 (g_bans g) key of None \<Rightarrow> 0 | Some old \<Rightarrow> bans old);
               e = \<lparr> bannedUntil = until, strikes = BanAfterStrikes cfg, windowStart = now, bans = bns + 1 \<rparr>
           in g\<lparr> g_bans := shard_put 64 key e (g_bans g) \<rparr>)"

definition Guard_BanNow :: "Guard \<Rightarrow> string \<Rightarrow> gotime \<Rightarrow> Guard" where
  "Guard_BanNow g key now =
     (let cfg = Guard_live g in
      if \<not> Enabled cfg \<or> key = [] then g else Guard_BanUntil g key (now + BanTTL cfg) now)"

definition ban_stale :: "gotime \<Rightarrow> banEntry \<Rightarrow> bool" where
  "ban_stale cutoff e \<longleftrightarrow>
     (bannedUntil e \<noteq> 0 \<and> bannedUntil e < cutoff) \<or> (bannedUntil e = 0 \<and> windowStart e < cutoff)"

definition Guard_Sweep :: "Guard \<Rightarrow> duration \<Rightarrow> gotime \<Rightarrow> Guard" where
  "Guard_Sweep g maxAge now =
     g\<lparr> g_bans := shard_purge (\<lambda>k e. ban_stale (now - maxAge) e) (g_bans g),
       g_clients := mpurge (\<lambda>k n. n = 0) (g_clients g) \<rparr>"

record BanInfo =
  bi_Key :: string
  bi_Strikes :: int
  bi_Bans :: int
  bi_BannedUntil :: gotime
  bi_WindowStart :: gotime
  bi_Active :: bool

definition ban_active :: "gotime \<Rightarrow> banEntry \<Rightarrow> bool" where
  "ban_active now e \<longleftrightarrow> bannedUntil e \<noteq> 0 \<and> now < bannedUntil e"

definition Guard_ListBans :: "Guard \<Rightarrow> gotime \<Rightarrow> BanInfo list" where
  "Guard_ListBans g now =
     concat (map (\<lambda>(k, e).
       if \<not> ban_active now e \<and> strikes e = 0 \<and> bans e = 0 then []
       else [\<lparr> bi_Key = k, bi_Strikes = strikes e, bi_Bans = bans e, bi_BannedUntil = bannedUntil e,
               bi_WindowStart = windowStart e, bi_Active = ban_active now e \<rparr>])
       (shard_entries (g_bans g)))"

definition Guard_Unban :: "Guard \<Rightarrow> string \<Rightarrow> bool \<times> Guard" where
  "Guard_Unban g key =
     (if key = [] then (False, g)
      else case shard_get 64 (g_bans g) key of
             None \<Rightarrow> (False, g)
           | Some e \<Rightarrow> (True, g\<lparr> g_bans := shard_del 64 key (g_bans g) \<rparr>))"

definition Guard_ClearStrikes :: "Guard \<Rightarrow> string \<Rightarrow> bool \<times> Guard" where
  "Guard_ClearStrikes g key = Guard_Unban g key"

definition Guard_BanCount :: "Guard \<Rightarrow> gotime \<Rightarrow> nat" where
  "Guard_BanCount g now = length (filter (\<lambda>(k, e). ban_active now e) (shard_entries (g_bans g)))"

definition Guard_Concurrency :: "Guard \<Rightarrow> int \<times> nat" where
  "Guard_Concurrency g = (g_global g, length (g_clients g))"

definition keep_pos :: "int \<Rightarrow> int \<Rightarrow> int" where
  "keep_pos new old = (if new > 0 then new else old)"

definition Guard_UpdateConfig :: "Guard \<Rightarrow> Config \<Rightarrow> Guard" where
  "Guard_UpdateConfig g cfg =
     (let cur = Guard_live g in
      g\<lparr> g_cfg := Some
          \<lparr> Enabled = Enabled cfg,
            MaxBodyBytes = keep_pos (MaxBodyBytes cfg) (MaxBodyBytes cur),
            MaxHeaderBytes = keep_pos (MaxHeaderBytes cfg) (MaxHeaderBytes cur),
            MaxURLBytes = keep_pos (MaxURLBytes cfg) (MaxURLBytes cur),
            MaxConcurrentGlobal = keep_pos (MaxConcurrentGlobal cfg) (MaxConcurrentGlobal cur),
            MaxConcurrentClient = keep_pos (MaxConcurrentClient cfg) (MaxConcurrentClient cur),
            BanAfterStrikes = keep_pos (BanAfterStrikes cfg) (BanAfterStrikes cur),
            BanTTL = keep_pos (BanTTL cfg) (BanTTL cur),
            BanEscalation = keep_pos (BanEscalation cfg) (BanEscalation cur),
            AttackBlock = AttackBlock cfg,
            AttackScore = keep_pos (AttackScore cfg) (AttackScore cur),
            WriteMethodCost = keep_pos (WriteMethodCost cfg) (WriteMethodCost cur) \<rparr> \<rparr>)"

definition MethodCost :: "string \<Rightarrow> int \<Rightarrow> int" where
  "MethodCost method writeCost =
     (if method \<in> {''POST'', ''PUT'', ''PATCH'', ''DELETE''}
      then (if writeCost \<le> 0 then 3 else writeCost) else 1)"

section \<open>The guard's well-formedness\<close>

definition guard_ok :: "Guard \<Rightarrow> bool" where
  "guard_ok g \<longleftrightarrow> shard_inv 64 (g_bans g) \<and> wf_map (g_clients g)"

abbreviation ban_of :: "Guard \<Rightarrow> string \<Rightarrow> banEntry option" where
  "ban_of g k \<equiv> shard_get 64 (g_bans g) k"

abbreviation banned :: "Guard \<Rightarrow> string \<Rightarrow> gotime \<Rightarrow> bool" where
  "banned g k t \<equiv> fst (Guard_Banned g k t)"

lemma guard_ok_New: "guard_ok (Guard_New cfg)"
  by (simp add: guard_ok_def Guard_New_def Let_def store64.invar_empty)

lemma guard_ok_Acquire: "guard_ok g \<Longrightarrow> guard_ok (snd (Guard_Acquire g k))"
  by (simp add: guard_ok_def Guard_Acquire_def Let_def)

lemma guard_ok_Release: "guard_ok g \<Longrightarrow> guard_ok (Guard_Release g k)"
  by (simp add: guard_ok_def Guard_Release_def Let_def split: option.splits)

lemma guard_ok_Banned: "guard_ok g \<Longrightarrow> guard_ok (snd (Guard_Banned g k t))"
  by (simp add: guard_ok_def Guard_Banned_def store64.invar_put split: option.splits)

lemma guard_ok_Strike: "guard_ok g \<Longrightarrow> guard_ok (Guard_Strike g k t)"
  by (simp add: guard_ok_def Guard_Strike_def Let_def store64.invar_put)

lemma guard_ok_BanUntil: "guard_ok g \<Longrightarrow> guard_ok (Guard_BanUntil g k u t)"
  by (simp add: guard_ok_def Guard_BanUntil_def Let_def store64.invar_put)

lemma guard_ok_BanNow: "guard_ok g \<Longrightarrow> guard_ok (Guard_BanNow g k t)"
  by (simp add: Guard_BanNow_def Let_def guard_ok_BanUntil)

lemma guard_ok_Sweep: "guard_ok g \<Longrightarrow> guard_ok (Guard_Sweep g d t)"
  by (simp add: guard_ok_def Guard_Sweep_def store64.invar_purge)

lemma guard_ok_Unban: "guard_ok g \<Longrightarrow> guard_ok (snd (Guard_Unban g k))"
  by (simp add: guard_ok_def Guard_Unban_def store64.invar_del split: option.splits)

lemmas guard_oks = guard_ok_New guard_ok_Acquire guard_ok_Release guard_ok_Banned guard_ok_Strike
  guard_ok_BanUntil guard_ok_BanNow guard_ok_Sweep guard_ok_Unban

lemma live_frame [simp]:
  "Guard_live (snd (Guard_Acquire g k)) = Guard_live g"
  "Guard_live (Guard_Release g k) = Guard_live g"
  "Guard_live (snd (Guard_Banned g k t)) = Guard_live g"
  "Guard_live (Guard_Strike g k t) = Guard_live g"
  "Guard_live (Guard_BanUntil g k u t) = Guard_live g"
  "Guard_live (Guard_BanNow g k t) = Guard_live g"
  "Guard_live (Guard_Sweep g d t) = Guard_live g"
  "Guard_live (snd (Guard_Unban g k)) = Guard_live g"
  by (auto simp: Guard_live_def Guard_Acquire_def Guard_Release_def Guard_Banned_def Guard_Strike_def
      Guard_BanUntil_def Guard_BanNow_def Guard_Sweep_def Guard_Unban_def Let_def split: option.splits)

section \<open>Bans\<close>

lemma banned_iff:
  "banned g k t \<longleftrightarrow>
     Enabled (Guard_live g) \<and> k \<noteq> [] \<and> (\<exists>e. ban_of g k = Some e \<and> bannedUntil e \<noteq> 0 \<and> t \<le> bannedUntil e)"
  by (auto simp: Guard_Banned_def split: option.splits)

lemma ban_of_BanUntil:
  assumes "guard_ok g" "Enabled (Guard_live g)" "k \<noteq> []" "u \<noteq> 0" "t \<le> u"
  shows "ban_of (Guard_BanUntil g k u t) k' =
    (if k' = k then Some \<lparr> bannedUntil = u, strikes = BanAfterStrikes (Guard_live g), windowStart = t,
                          bans = (case ban_of g k of None \<Rightarrow> 0 | Some e \<Rightarrow> bans e) + 1 \<rparr>
     else ban_of g k')"
  using assms by (auto simp: Guard_BanUntil_def Let_def guard_ok_def store64.get_put)

lemma banned_BanUntil:
  assumes "guard_ok g" "Enabled (Guard_live g)" "k \<noteq> []" "u \<noteq> 0" "t \<le> u"
  shows "banned (Guard_BanUntil g k u t) k' s \<longleftrightarrow> (if k' = k then s \<le> u else banned g k' s)"
  using assms by (auto simp: banned_iff ban_of_BanUntil)

lemma ban_of_Strike_other: "guard_ok g \<Longrightarrow> k' \<noteq> k \<Longrightarrow> ban_of (Guard_Strike g k t) k' = ban_of g k'"
  by (simp add: Guard_Strike_def Let_def guard_ok_def store64.get_put)

text \<open>The contract of a ban table that its clients (the pipeline and the fleet overlay) rely on.\<close>

locale ban_table =
  fixes ok :: "'g \<Rightarrow> bool"
    and is_banned :: "'g \<Rightarrow> string \<Rightarrow> gotime \<Rightarrow> bool"
    and ban_until :: "'g \<Rightarrow> string \<Rightarrow> gotime \<Rightarrow> gotime \<Rightarrow> 'g"
  assumes ok_ban: "ok g \<Longrightarrow> ok (ban_until g k u t)"
    and ban_hit: "ok g \<Longrightarrow> k \<noteq> [] \<Longrightarrow> u \<noteq> 0 \<Longrightarrow> t \<le> u \<Longrightarrow> is_banned (ban_until g k u t) k s \<longleftrightarrow> s \<le> u"
    and ban_other: "ok g \<Longrightarrow> k' \<noteq> k \<Longrightarrow> is_banned (ban_until g k u t) k' s \<longleftrightarrow> is_banned g k' s"
    and ban_expired: "ok g \<Longrightarrow> u = 0 \<or> u < t \<Longrightarrow> ban_until g k u t = g"
begin

fun ban_all :: "'g \<Rightarrow> (string \<times> gotime) list \<Rightarrow> gotime \<Rightarrow> 'g" where
  "ban_all g [] t = g"
| "ban_all g ((k, u) # es) t = ban_all (ban_until g k u t) es t"

lemma ok_ban_all: "ok g \<Longrightarrow> ok (ban_all g es t)"
  by (induction es arbitrary: g) (auto simp: ok_ban)

lemma ban_all_other: "ok g \<Longrightarrow> k \<notin> fst ` set es \<Longrightarrow> is_banned (ban_all g es t) k s \<longleftrightarrow> is_banned g k s"
  by (induction es arbitrary: g) (auto simp: ok_ban ban_other)

lemma ban_all_hit:
  assumes "ok g" "distinct (map fst es)" "(k, u) \<in> set es" "k \<noteq> []" "u \<noteq> 0" "t \<le> u"
  shows "is_banned (ban_all g es t) k s \<longleftrightarrow> s \<le> u"
  using assms
proof (induction es arbitrary: g)
  case (Cons e es)
  obtain k' u' where e: "e = (k', u')" by (cases e)
  show ?case
  proof (cases "k' = k")
    case True
    then have "k \<notin> fst ` set es" "u' = u" using Cons.prems e by force+
    then show ?thesis using Cons.prems e True by (simp add: ok_ban ban_all_other ban_hit)
  next
    case False
    then show ?thesis using Cons e by (auto simp: ok_ban)
  qed
qed simp

end

definition guard_on :: "Guard \<Rightarrow> bool" where
  "guard_on g \<longleftrightarrow> guard_ok g \<and> Enabled (Guard_live g)"

lemma BanUntil_expired: "u = 0 \<or> u < t \<Longrightarrow> Guard_BanUntil g k u t = g"
  by (auto simp: Guard_BanUntil_def Let_def)

lemma BanUntil_other:
  assumes "guard_on g" "k' \<noteq> k"
  shows "banned (Guard_BanUntil g k u t) k' s \<longleftrightarrow> banned g k' s"
proof (cases "k = [] \<or> u = 0 \<or> u < t")
  case True
  then have "Guard_BanUntil g k u t = g" by (auto simp: Guard_BanUntil_def Let_def)
  then show ?thesis by simp
next
  case False
  then show ?thesis using assms by (simp add: banned_BanUntil guard_on_def)
qed

interpretation guard_bans: ban_table guard_on banned Guard_BanUntil
  by unfold_locales
    (auto simp: guard_on_def guard_ok_BanUntil banned_BanUntil BanUntil_other BanUntil_expired)

section \<open>Strikes\<close>

definition strike_entry :: "Config \<Rightarrow> gotime \<Rightarrow> banEntry option \<Rightarrow> banEntry" where
  "strike_entry cfg now old =
     (let e = (case old of
                 None \<Rightarrow> \<lparr> bannedUntil = 0, strikes = 0, windowStart = now, bans = 0 \<rparr>
               | Some e \<Rightarrow> if now - windowStart e > BanTTL cfg
                          then e\<lparr> bannedUntil := 0, strikes := 0, windowStart := now \<rparr> else e);
          e = e\<lparr> strikes := strikes e + 1 \<rparr>
      in if strikes e \<ge> BanAfterStrikes cfg
         then e\<lparr> bans := bans e + 1, bannedUntil := now + banTTLWithEscalation cfg (bans e + 1) \<rparr> else e)"

lemma ban_of_Strike:
  assumes "guard_on g" "k \<noteq> []"
  shows "ban_of (Guard_Strike g k t) k = Some (strike_entry (Guard_live g) t (ban_of g k))"
  using assms
  by (simp add: guard_on_def Guard_Strike_def strike_entry_def Let_def guard_ok_def store64.get_put)

lemma guard_on_Strike: "guard_on g \<Longrightarrow> guard_on (Guard_Strike g k t)"
  by (simp add: guard_on_def guard_ok_Strike)

fun strike_all :: "Guard \<Rightarrow> string \<Rightarrow> gotime list \<Rightarrow> Guard" where
  "strike_all g k [] = g"
| "strike_all g k (t # ts) = strike_all (Guard_Strike g k t) k ts"

lemma guard_on_strike_all: "guard_on g \<Longrightarrow> guard_on (strike_all g k ts)"
  by (induction ts arbitrary: g) (auto simp: guard_on_Strike)

lemma live_strike_all [simp]: "Guard_live (strike_all g k ts) = Guard_live g"
  by (induction ts arbitrary: g) auto

lemma strike_all_snoc: "strike_all g k (ts @ [t]) = Guard_Strike (strike_all g k ts) k t"
  by (induction ts arbitrary: g) auto

text \<open>The entry after \<open>n\<close> strikes inside one window that started with the first of them.\<close>

definition window_entry :: "Config \<Rightarrow> gotime \<Rightarrow> int \<Rightarrow> gotime \<Rightarrow> banEntry" where
  "window_entry cfg t0 n t =
     (let b = max 0 (n - BanAfterStrikes cfg + 1)
      in \<lparr> bannedUntil = (if b > 0 then t + banTTLWithEscalation cfg b else 0),
           strikes = n, windowStart = t0, bans = b \<rparr>)"

lemma strike_window:
  assumes "guard_on g" "k \<noteq> []" "ban_of g k = None" "0 < BanAfterStrikes (Guard_live g)"
    and "0 < BanTTL (Guard_live g)" "\<forall>t \<in> set ts. t0 \<le> t \<and> t - t0 \<le> BanTTL (Guard_live g)"
  shows "ban_of (strike_all g k (t0 # ts)) k =
    Some (window_entry (Guard_live g) t0 (int (length (t0 # ts))) (last (t0 # ts)))"
  using assms(6)
proof (induction ts rule: rev_induct)
  case Nil
  then show ?case
    using assms(1-5)
    by (cases "BanAfterStrikes (Guard_live g) = 1")
      (auto simp: ban_of_Strike strike_entry_def window_entry_def Let_def)
next
  case (snoc t ts)
  let ?g = "strike_all g k (t0 # ts)"
  have on: "guard_on ?g" using assms(1) by (rule guard_on_strike_all)
  have "ban_of (Guard_Strike ?g k t) k = Some (strike_entry (Guard_live g) t (ban_of ?g k))"
    using ban_of_Strike [OF on assms(2)] by (simp only: live_strike_all)
  also have "strike_entry (Guard_live g) t (ban_of ?g k) =
      window_entry (Guard_live g) t0 (int (length (t0 # ts @ [t]))) t"
    using snoc assms(4,5) by (auto simp: strike_entry_def window_entry_def Let_def max_def)
  finally show ?case
    using strike_all_snoc [of g k "t0 # ts" t] by simp
qed

section \<open>Escalation\<close>

lemma escalation_no_overflow:
  assumes "0 < BanTTL cfg" "BanTTL cfg * 2 ^ nat (min (BanEscalation cfg) 30) < 2 ^ 63"
  shows "banTTLWithEscalation cfg b = BanTTL cfg * 2 ^ nat (min (b - 1) (min (BanEscalation cfg) 30))"
proof (cases "BanEscalation cfg \<le> 0 \<or> b \<le> 1")
  case True
  then have "nat (min (b - 1) (min (BanEscalation cfg) 30)) = 0" by auto
  then show ?thesis using True by (simp add: banTTLWithEscalation_def)
next
  case False
  let ?s = "min (b - 1) (min (BanEscalation cfg) 30)"
  have "(2::int) ^ nat ?s \<le> 2 ^ nat (min (BanEscalation cfg) 30)"
    by (rule power_increasing) auto
  then have "BanTTL cfg * 2 ^ nat ?s \<le> BanTTL cfg * 2 ^ nat (min (BanEscalation cfg) 30)"
    using assms(1) by (simp add: mult_left_mono)
  then have upper: "BanTTL cfg * 2 ^ nat ?s < 2 ^ 63" using assms(2) by linarith
  have "0 \<le> BanTTL cfg * 2 ^ nat ?s" using assms(1) by simp
  then have "int64 (BanTTL cfg * 2 ^ nat ?s) = BanTTL cfg * 2 ^ nat ?s"
    using upper by (intro int64_id) linarith+
  moreover have "(let shift = min (b - 1) (BanEscalation cfg) in if shift > 30 then 30 else shift) = ?s"
    by (auto simp: Let_def min_def)
  ultimately show ?thesis using False by (simp add: banTTLWithEscalation_def Let_def)
qed

section \<open>Concurrency slots\<close>

text \<open>
  Runs of a guard: \<open>conc_reach cfg g fl\<close> says that \<open>g\<close> is reachable from a fresh guard with
  exactly the requests of the keys \<open>fl\<close> in flight, each of which acquired a slot and has not
  released it.  Bans, strikes, unbans and sweeps happen in between.
\<close>

inductive conc_reach :: "Config \<Rightarrow> Guard \<Rightarrow> string list \<Rightarrow> bool" for cfg where
  start: "conc_reach cfg (Guard_New cfg) []"
| admit: "conc_reach cfg g fl \<Longrightarrow> Guard_Acquire g k = (True, g') \<Longrightarrow> conc_reach cfg g' (k # fl)"
| refuse: "conc_reach cfg g fl \<Longrightarrow> Guard_Acquire g k = (False, g') \<Longrightarrow> conc_reach cfg g' fl"
| release: "conc_reach cfg g fl \<Longrightarrow> k \<in> set fl \<Longrightarrow> conc_reach cfg (Guard_Release g k) (remove1 k fl)"
| sweep: "conc_reach cfg g fl \<Longrightarrow> conc_reach cfg (Guard_Sweep g d t) fl"
| check: "conc_reach cfg g fl \<Longrightarrow> conc_reach cfg (snd (Guard_Banned g k t)) fl"
| strike: "conc_reach cfg g fl \<Longrightarrow> conc_reach cfg (Guard_Strike g k t) fl"
| ban: "conc_reach cfg g fl \<Longrightarrow> conc_reach cfg (Guard_BanUntil g k u t) fl"
| unban: "conc_reach cfg g fl \<Longrightarrow> conc_reach cfg (snd (Guard_Unban g k)) fl"

definition slot_count :: "Guard \<Rightarrow> string \<Rightarrow> int" where
  "slot_count g k = (case map_of (g_clients g) k of None \<Rightarrow> 0 | Some n \<Rightarrow> n)"

definition conc_inv :: "Guard \<Rightarrow> string list \<Rightarrow> bool" where
  "conc_inv g fl \<longleftrightarrow>
     guard_ok g \<and>
     (Enabled (Guard_live g) \<longrightarrow>
        g_global g = int (length fl) \<and> g_global g \<le> MaxConcurrentGlobal (Guard_live g) \<and>
        0 < MaxConcurrentClient (Guard_live g) \<and>
        (\<forall>k. k \<noteq> [] \<longrightarrow> slot_count g k = int (count_list fl k) \<and>
                        slot_count g k \<le> MaxConcurrentClient (Guard_live g)))"

lemma clients_frame [simp]:
  "g_clients (snd (Guard_Banned g k t)) = g_clients g" "g_global (snd (Guard_Banned g k t)) = g_global g"
  "g_clients (Guard_Strike g k t) = g_clients g" "g_global (Guard_Strike g k t) = g_global g"
  "g_clients (Guard_BanUntil g k u t) = g_clients g" "g_global (Guard_BanUntil g k u t) = g_global g"
  "g_clients (snd (Guard_Unban g k)) = g_clients g" "g_global (snd (Guard_Unban g k)) = g_global g"
  by (auto simp: Guard_Banned_def Guard_Strike_def Guard_BanUntil_def Guard_Unban_def Let_def
      split: option.splits)

lemma conc_inv_frame:
  assumes "conc_inv g fl" "guard_ok g'" "Guard_live g' = Guard_live g" "g_global g' = g_global g"
    and "\<And>k. slot_count g' k = slot_count g k"
  shows "conc_inv g' fl"
  using assms unfolding conc_inv_def by metis

lemma slot_count_Sweep: "guard_ok g \<Longrightarrow> slot_count (Guard_Sweep g d t) k = slot_count g k"
  by (auto simp: slot_count_def Guard_Sweep_def guard_ok_def map_of_mpurge split: option.splits)

lemma conc_inv_admit:
  assumes "conc_inv g fl" "Guard_Acquire g k = (True, g')"
  shows "conc_inv g' (k # fl)"
proof -
  have ok: "guard_ok g'" and live: "Guard_live g' = Guard_live g"
    using assms guard_ok_Acquire [of g k] live_frame(1) [of g k] by (auto simp: conc_inv_def)
  show ?thesis
  proof (cases "Enabled (Guard_live g)")
    case False
    then show ?thesis using ok live by (simp add: conc_inv_def)
  next
    case True
    have inv: "g_global g = int (length fl)" "0 < MaxConcurrentClient (Guard_live g)"
      and each: "\<And>j. j \<noteq> [] \<Longrightarrow> slot_count g j = int (count_list fl j) \<and>
          slot_count g j \<le> MaxConcurrentClient (Guard_live g)"
      using assms(1) True unfolding conc_inv_def by blast+
    have glob: "g_global g' = g_global g + 1 \<and> g_global g < MaxConcurrentGlobal (Guard_live g)"
      using assms(2) True by (auto simp: Guard_Acquire_def Let_def split: if_splits)
    have slots: "slot_count g' j = slot_count g j + (if j = k \<and> k \<noteq> [] then 1 else 0) \<and>
        (j = k \<and> k \<noteq> [] \<longrightarrow> slot_count g j < MaxConcurrentClient (Guard_live g))" for j
      using assms(2) True
      by (auto simp: Guard_Acquire_def Let_def slot_count_def split: if_splits option.splits)
    have "slot_count g' j = int (count_list (k # fl) j) \<and> slot_count g' j \<le> MaxConcurrentClient (Guard_live g)"
      if "j \<noteq> []" for j
      using each [OF that] slots [of j] that by auto
    then show ?thesis using ok live inv glob True unfolding conc_inv_def by fastforce
  qed
qed

lemma conc_inv_refuse:
  assumes "conc_inv g fl" "Guard_Acquire g k = (False, g')"
  shows "conc_inv g' fl"
proof (rule conc_inv_frame [OF assms(1)])
  show "guard_ok g'" "Guard_live g' = Guard_live g"
    using assms guard_ok_Acquire [of g k] live_frame(1) [of g k] by (auto simp: conc_inv_def)
  show "g_global g' = g_global g" "\<And>j. slot_count g' j = slot_count g j"
    using assms(2)
    by (auto simp: Guard_Acquire_def Let_def slot_count_def split: if_splits option.splits)
qed

lemma conc_inv_release:
  assumes "conc_inv g fl" "k \<in> set fl"
  shows "conc_inv (Guard_Release g k) (remove1 k fl)"
proof (cases "Enabled (Guard_live g)")
  case False
  then show ?thesis using assms guard_ok_Release by (simp add: conc_inv_def)
next
  case True
  have len: "int (length (remove1 k fl)) = int (length fl) - 1"
    using assms(2) length_pos_if_in_set [OF assms(2)] unfolding length_remove1 by (simp add: int_ops(6))
  have cnt: "int (count_list (remove1 k fl) j) = int (count_list fl j) - (if j = k then 1 else 0)" for j
    using assms(2) by (induction fl) (auto simp: count_list_0_iff)
  have slots: "j \<noteq> [] \<Longrightarrow> slot_count (Guard_Release g k) j = slot_count g j - (if j = k then 1 else 0)" for j
  proof (cases "k = []")
    case False
    moreover have "slot_count g k > 0"
      using assms True False by (auto simp: conc_inv_def count_list_0_iff) (metis count_list_0_iff neq0_conv)
    ultimately show "j \<noteq> [] \<Longrightarrow> ?thesis"
      using True by (auto simp: Guard_Release_def Let_def slot_count_def split: option.splits)
  qed (use True in \<open>auto simp: Guard_Release_def Let_def slot_count_def\<close>)
  have glob: "g_global (Guard_Release g k) = g_global g - 1"
    using True by (simp add: Guard_Release_def Let_def split: option.splits)
  have inv: "guard_ok g" "g_global g = int (length fl)" "g_global g \<le> MaxConcurrentGlobal (Guard_live g)"
    "0 < MaxConcurrentClient (Guard_live g)"
    and each: "\<And>j. j \<noteq> [] \<Longrightarrow> slot_count g j = int (count_list fl j) \<and>
        slot_count g j \<le> MaxConcurrentClient (Guard_live g)"
    using assms(1) True unfolding conc_inv_def by blast+
  have "slot_count (Guard_Release g k) j = int (count_list (remove1 k fl) j) \<and>
      slot_count (Guard_Release g k) j \<le> MaxConcurrentClient (Guard_live g)" if "j \<noteq> []" for j
  proof
    show "slot_count (Guard_Release g k) j = int (count_list (remove1 k fl) j)"
      by (simp only: each [OF that] slots [OF that] cnt [of j])
    show "slot_count (Guard_Release g k) j \<le> MaxConcurrentClient (Guard_live g)"
      using each [OF that] slots [OF that] by (cases "j = k") auto
  qed
  then show ?thesis
    using inv glob len guard_ok_Release [OF inv(1), of k] unfolding conc_inv_def
    by (simp only: live_frame) fastforce
qed

lemma conc_inv_New: "conc_inv (Guard_New cfg) []"
proof -
  have "0 < MaxConcurrentClient (Guard_live (Guard_New cfg))"
    "0 < MaxConcurrentGlobal (Guard_live (Guard_New cfg))"
    by (simp_all add: Guard_New_def Guard_live_def Let_def pos_or_def)
  moreover have "g_global (Guard_New cfg) = 0" "\<And>k. slot_count (Guard_New cfg) k = 0"
    by (simp_all add: Guard_New_def Let_def slot_count_def)
  ultimately show ?thesis using guard_ok_New [of cfg] by (simp add: conc_inv_def)
qed

lemma conc_reach_inv: "conc_reach cfg g fl \<Longrightarrow> conc_inv g fl"
proof (induction rule: conc_reach.induct)
  case start
  show ?case by (rule conc_inv_New)
next
  case (admit g fl k g')
  then show ?case by (blast intro: conc_inv_admit)
next
  case (refuse g fl k g')
  then show ?case by (blast intro: conc_inv_refuse)
next
  case (release g fl k)
  then show ?case by (blast intro: conc_inv_release)
next
  case (sweep g fl d t)
  then have ok: "guard_ok g" by (simp add: conc_inv_def)
  show ?case
  proof (rule conc_inv_frame [OF sweep.IH])
    show "g_global (Guard_Sweep g d t) = g_global g" by (simp add: Guard_Sweep_def)
  qed (simp_all add: ok guard_ok_Sweep slot_count_Sweep)
next
  case (check g fl k t)
  then have "guard_ok g" by (simp add: conc_inv_def)
  with check.IH show ?case by (rule_tac conc_inv_frame) (simp_all add: guard_ok_Banned slot_count_def)
next
  case (strike g fl k t)
  then have "guard_ok g" by (simp add: conc_inv_def)
  with strike.IH show ?case by (rule_tac conc_inv_frame) (simp_all add: guard_ok_Strike slot_count_def)
next
  case (ban g fl k u t)
  then have "guard_ok g" by (simp add: conc_inv_def)
  with ban.IH show ?case by (rule_tac conc_inv_frame) (simp_all add: guard_ok_BanUntil slot_count_def)
next
  case (unban g fl k)
  then have "guard_ok g" by (simp add: conc_inv_def)
  with unban.IH show ?case by (rule_tac conc_inv_frame) (simp_all add: guard_ok_Unban slot_count_def)
qed

section \<open>Properties\<close>

definition demo_cfg :: Config where
  "demo_cfg = \<lparr> Enabled = True, MaxBodyBytes = 0, MaxHeaderBytes = 0, MaxURLBytes = 0,
     MaxConcurrentGlobal = 3, MaxConcurrentClient = 2, BanAfterStrikes = 2, BanTTL = minute,
     BanEscalation = 3, AttackBlock = True, AttackScore = 0, WriteMethodCost = 0 \<rparr>"

lemma demo_on: "guard_on (Guard_New demo_cfg)"
  by (simp add: guard_on_def guard_ok_New) (simp add: Guard_live_def Guard_New_def Let_def demo_cfg_def)

text \<open>In every run of the guard, the global counter is the number of requests in flight and never
  exceeds the global cap, and each client's counter is that client's number of requests in
  flight and never exceeds the per-client cap; sweeps, strikes and bans do not disturb this.\<close>

theorem concurrency_bounded:
  assumes "conc_reach cfg g fl" "Enabled (Guard_live g)"
  shows "g_global g = int (length fl) \<and> int (length fl) \<le> MaxConcurrentGlobal (Guard_live g) \<and>
    (\<forall>k. k \<noteq> [] \<longrightarrow> slot_count g k = int (count_list fl k) \<and>
       int (count_list fl k) \<le> MaxConcurrentClient (Guard_live g))"
proof -
  have "conc_inv g fl" using assms(1) by (rule conc_reach_inv)
  then show ?thesis using assms(2) unfolding conc_inv_def by metis
qed

lemma demo_reach: "conc_reach demo_cfg (snd (Guard_Acquire (Guard_New demo_cfg) ''a'')) [''a'']"
proof (rule conc_reach.admit [OF conc_reach.start])
  show "Guard_Acquire (Guard_New demo_cfg) ''a'' = (True, snd (Guard_Acquire (Guard_New demo_cfg) ''a''))"
    by (simp add: Guard_Acquire_def Guard_live_def Guard_New_def Let_def demo_cfg_def pos_or_def)
qed

theorem concurrency_bounded_witness:
  "conc_reach demo_cfg (snd (Guard_Acquire (Guard_New demo_cfg) ''a'')) [''a''] \<and>
   g_global (snd (Guard_Acquire (Guard_New demo_cfg) ''a'')) = 1"
  using concurrency_bounded [OF demo_reach] demo_on demo_reach by (simp add: guard_on_def)

text \<open>C15: For a client with no history, \<open>n\<close> strikes within one ban window ban it exactly when \<open>n\<close>
  reaches the configured number; the ban then lasts until the last strike plus the escalated
  duration of its ban count, and not longer.\<close>

theorem strikes_ban_exactly:
  assumes "guard_on g" "k \<noteq> []" "ban_of g k = None" "0 < BanAfterStrikes (Guard_live g)"
    and "0 < BanTTL (Guard_live g)" "\<forall>t \<in> set ts. t0 \<le> t \<and> t - t0 \<le> BanTTL (Guard_live g)"
    and "last (t0 # ts) + banTTLWithEscalation (Guard_live g)
           (int (length (t0 # ts)) - BanAfterStrikes (Guard_live g) + 1) \<noteq> 0"
  shows "banned (strike_all g k (t0 # ts)) k s \<longleftrightarrow>
    BanAfterStrikes (Guard_live g) \<le> int (length (t0 # ts)) \<and>
    s \<le> last (t0 # ts) + banTTLWithEscalation (Guard_live g)
           (int (length (t0 # ts)) - BanAfterStrikes (Guard_live g) + 1)"
proof -
  have "Enabled (Guard_live (strike_all g k (t0 # ts)))"
    using assms(1) unfolding live_strike_all guard_on_def by blast
  then show ?thesis
    unfolding banned_iff strike_window [OF assms(1-6)]
    using assms(2,7) by (auto simp: window_entry_def Let_def max_def split: if_splits)
qed

theorem strikes_ban_exactly_witness:
  "banned (strike_all (Guard_New demo_cfg) ''a'' (100 # [200])) ''a'' (200 + minute)"
proof -
  let ?g = "Guard_New demo_cfg"
  have live: "BanAfterStrikes (Guard_live ?g) = 2" "BanTTL (Guard_live ?g) = minute"
    "banTTLWithEscalation (Guard_live ?g) 1 = minute"
    by (simp_all add: Guard_live_def Guard_New_def Let_def demo_cfg_def pos_or_def minute_def
        banTTLWithEscalation_def)
  have none: "ban_of ?g ''a'' = None" by (simp add: Guard_New_def Let_def store64.get_empty)
  show ?thesis
    using strikes_ban_exactly [OF demo_on _ none, of "[200]" 100 "200 + minute"] live
    by (simp add: minute_def)
qed

text \<open>While the multiplication fits in 64 bits, the ban duration is the base duration doubled once
  per earlier ban up to the configured number of steps (30 at most): it never falls below the
  base, grows with the ban count and is capped.\<close>

theorem escalation_doubles:
  assumes "0 < BanTTL cfg" "BanTTL cfg * 2 ^ nat (min (BanEscalation cfg) 30) < 2 ^ 63" "1 \<le> b" "b \<le> b'"
  shows "banTTLWithEscalation cfg b = BanTTL cfg * 2 ^ nat (min (b - 1) (min (BanEscalation cfg) 30)) \<and>
    BanTTL cfg \<le> banTTLWithEscalation cfg b \<and>
    banTTLWithEscalation cfg b \<le> banTTLWithEscalation cfg b' \<and>
    banTTLWithEscalation cfg b \<le> BanTTL cfg * 2 ^ nat (min (BanEscalation cfg) 30)"
proof -
  have pow: "(2::int) ^ nat (min (b - 1) m) \<le> 2 ^ nat (min (b' - 1) m)"
    "(2::int) ^ nat (min (b - 1) m) \<le> 2 ^ nat m" for m
    using assms(4) by (intro power_increasing; auto)+
  have one: "(1::int) \<le> 2 ^ n" for n by simp
  show ?thesis
    using assms(1) pow [of "min (BanEscalation cfg) 30"] one
    by (simp add: escalation_no_overflow [OF assms(1,2)] mult_left_mono)
qed

theorem escalation_doubles_witness:
  "banTTLWithEscalation demo_cfg 3 = minute * 4 \<and> banTTLWithEscalation demo_cfg 3 \<le> banTTLWithEscalation demo_cfg 9"
  using escalation_doubles [of demo_cfg 3 9] by (simp add: demo_cfg_def minute_def)

text \<open>C18: The 30-step cap does not prevent the overflow it is meant to prevent: with the default base
  of ten minutes and 30 escalation steps, the 25th ban gets a negative duration, so the strike
  that imposes it leaves the client not banned at that very instant.\<close>

theorem escalation_overflow:
  "\<exists>cfg g k t. BanTTL cfg = 10 * minute \<and> BanEscalation cfg = 30 \<and>
     banTTLWithEscalation cfg 25 < 0 \<and>
     Guard_live g = cfg \<and> guard_on g \<and> (\<exists>e. ban_of g k = Some e \<and> bans e = 24) \<and>
     BanAfterStrikes cfg \<le> (\<lambda>e. strikes e) (the (ban_of (Guard_Strike g k t) k)) \<and>
     \<not> banned (Guard_Strike g k t) k t"
proof -
  define cfg where "cfg = demo_cfg\<lparr> BanTTL := 10 * minute, BanEscalation := 30 \<rparr>"
  define e where "e = \<lparr> bannedUntil = 0, strikes = 1, windowStart = 10, bans = 24 \<rparr>"
  define g where "g = (Guard_New cfg)\<lparr> g_cfg := Some cfg, g_bans := shard_put 64 ''a'' e (shard_new 64) \<rparr>"
  have live: "Guard_live g = cfg" by (simp add: g_def Guard_live_def)
  have on: "guard_on g"
    unfolding guard_on_def live
    by (simp add: g_def guard_ok_def store64.invar_put store64.invar_empty Guard_New_def Let_def
        cfg_def demo_cfg_def)
  have ban: "ban_of g ''a'' = Some e" by (simp add: g_def store64.get_put store64.invar_empty)
  have neg: "banTTLWithEscalation cfg 25 = - 8380414473709551616"
    by (simp add: banTTLWithEscalation_def cfg_def minute_def int64_def Let_def)
  have struck: "ban_of (Guard_Strike g ''a'' 20) ''a'' =
      Some \<lparr> bannedUntil = 20 - 8380414473709551616, strikes = 2, windowStart = 10, bans = 25 \<rparr>"
    using neg by (simp add: ban_of_Strike [OF on] live ban strike_entry_def e_def)
      (simp add: cfg_def demo_cfg_def minute_def)
  have "\<not> banned (Guard_Strike g ''a'' 20) ''a'' 20"
    by (simp add: banned_iff struck)
  moreover have "BanAfterStrikes cfg \<le> strikes (the (ban_of (Guard_Strike g ''a'' 20) ''a''))"
    unfolding struck by (simp add: cfg_def demo_cfg_def)
  ultimately show ?thesis
    using live on ban neg by (intro exI [of _ cfg] exI [of _ g] exI [of _ "''a''"] exI [of _ 20])
      (simp add: cfg_def e_def)
qed

text \<open>C19: A strike can lift an active ban: when the base window has passed since the entry's window
  started while an escalated or absolute ban is still running, the next strike clears the
  ban unless a single strike is enough to ban.\<close>

theorem strike_lifts_ban:
  assumes "guard_on g" "k \<noteq> []" "banned g k t" "ban_of g k = Some e"
    and "t - windowStart e > BanTTL (Guard_live g)" "1 < BanAfterStrikes (Guard_live g)"
  shows "\<not> banned (Guard_Strike g k t) k s"
proof -
  have "ban_of (Guard_Strike g k t) k = Some (strike_entry (Guard_live g) t (Some e))"
    using ban_of_Strike [OF assms(1,2), of t] assms(4) by simp
  then show ?thesis
    using assms(5,6) by (simp add: banned_iff strike_entry_def)
qed

theorem strike_lifts_ban_witness:
  "\<not> banned (Guard_Strike (Guard_BanUntil (Guard_New demo_cfg) ''a'' (10 * minute) 1) ''a'' (2 * minute)) ''a'' (2 * minute)"
proof -
  let ?g = "Guard_BanUntil (Guard_New demo_cfg) ''a'' (10 * minute) 1"
  have en: "Enabled (Guard_live (Guard_New demo_cfg))" using demo_on by (simp add: guard_on_def)
  have on: "guard_on ?g" by (rule guard_bans.ok_ban [OF demo_on])
  have b: "banned ?g ''a'' (2 * minute)"
    using guard_bans.ban_hit [OF demo_on, of "''a''" "10 * minute" 1 "2 * minute"] by (simp add: minute_def)
  have e: "ban_of ?g ''a'' = Some \<lparr> bannedUntil = 10 * minute, strikes = 2, windowStart = 1, bans = 1 \<rparr>"
    using ban_of_BanUntil [OF guard_ok_New en, of "''a''" "10 * minute" 1 "''a''"]
    by (simp add: Guard_New_def Let_def store64.get_empty minute_def)
      (simp add: Guard_live_def demo_cfg_def pos_or_def)
  have live: "BanTTL (Guard_live (Guard_New demo_cfg)) = minute"
    "BanAfterStrikes (Guard_live (Guard_New demo_cfg)) = 2"
    by (simp_all add: Guard_live_def Guard_New_def Let_def demo_cfg_def pos_or_def minute_def)
  show ?thesis
    by (rule strike_lifts_ban [OF on _ b e]) (simp_all add: live minute_def)
qed

text \<open>A sweep with a non-negative age never changes whether a client is banned, now or later, and
  the number of active bans reported equals the number of listed bans marked active.\<close>

theorem sweep_keeps_bans:
  assumes "guard_ok g" "0 \<le> maxAge" "now \<le> s"
  shows "banned (Guard_Sweep g maxAge now) k s = banned g k s \<and>
    Guard_BanCount g now = length (filter bi_Active (Guard_ListBans g now))"
proof
  have get: "ban_of (Guard_Sweep g maxAge now) k =
      (case ban_of g k of None \<Rightarrow> None | Some e \<Rightarrow> if ban_stale (now - maxAge) e then None else Some e)"
    using assms(1) by (simp add: Guard_Sweep_def guard_ok_def store64.get_purge)
  show "banned (Guard_Sweep g maxAge now) k s = banned g k s"
    unfolding banned_iff get using assms(2,3) by (auto simp: ban_stale_def split: option.splits)
  show "Guard_BanCount g now = length (filter bi_Active (Guard_ListBans g now))"
  proof -
    have "length (filter (\<lambda>(k, e). ban_active now e) es) =
        length (filter bi_Active (concat (map (\<lambda>(k, e).
          if \<not> ban_active now e \<and> strikes e = 0 \<and> bans e = 0 then []
          else [\<lparr> bi_Key = k, bi_Strikes = strikes e, bi_Bans = bans e, bi_BannedUntil = bannedUntil e,
                  bi_WindowStart = windowStart e, bi_Active = ban_active now e \<rparr>]) es)))" for es
      by (induction es) auto
    then show ?thesis by (simp add: Guard_BanCount_def Guard_ListBans_def)
  qed
qed

theorem sweep_keeps_bans_witness:
  "banned (Guard_Sweep (Guard_New demo_cfg) 0 5) ''a'' 6 = banned (Guard_New demo_cfg) ''a'' 6"
  using sweep_keeps_bans [OF guard_ok_New, of 0 5 6 demo_cfg "''a''"] by simp

text \<open>A disabled guard admits every request without counting it and bans nobody; switching the
  guard off while a request holds a slot makes its release a no-op, so the slot is never
  given back.\<close>

theorem disabled_guard_leaks:
  assumes "Enabled (Guard_live g)" "Guard_Acquire g k = (True, g')" "\<not> Enabled off"
  shows "Guard_Release (Guard_UpdateConfig g' off) k = Guard_UpdateConfig g' off \<and>
    g_global (Guard_Release (Guard_UpdateConfig g' off) k) = g_global g + 1 \<and>
    (\<forall>j t. \<not> banned (Guard_UpdateConfig g' off) j t \<and>
           Guard_Acquire (Guard_UpdateConfig g' off) j = (True, Guard_UpdateConfig g' off))"
proof -
  have dis: "\<not> Enabled (Guard_live (Guard_UpdateConfig g' off))"
    using assms(3) by (simp add: Guard_UpdateConfig_def Guard_live_def Let_def)
  moreover have "g_global g' = g_global g + 1"
    using assms(1,2) by (auto simp: Guard_Acquire_def Let_def split: if_splits)
  moreover have "g_global (Guard_UpdateConfig g' off) = g_global g'"
    by (simp add: Guard_UpdateConfig_def Let_def)
  ultimately show ?thesis
    by (simp add: Guard_Release_def banned_iff Guard_Acquire_def Let_def)
qed

theorem disabled_guard_leaks_witness:
  "g_global (Guard_Release (Guard_UpdateConfig (snd (Guard_Acquire (Guard_New demo_cfg) ''a'')) zero_Config) ''a'') = 1"
proof -
  have acq: "Guard_Acquire (Guard_New demo_cfg) ''a'' = (True, snd (Guard_Acquire (Guard_New demo_cfg) ''a''))"
    by (simp add: Guard_Acquire_def Guard_live_def Guard_New_def Let_def demo_cfg_def pos_or_def)
  have "Enabled (Guard_live (Guard_New demo_cfg))" using demo_on by (simp add: guard_on_def)
  moreover have "\<not> Enabled zero_Config" by (simp add: zero_Config_def)
  moreover have "g_global (Guard_New demo_cfg) = 0" by (simp add: Guard_New_def Let_def)
  ultimately show ?thesis using disabled_guard_leaks [OF _ acq, of zero_Config] by (metis add_0)
qed

end
