(* ===== verification/ProtectConc.thy ===== *)
theory ProtectConc
  imports Protect
begin

text \<open>
  \<open>internal/protect\<close> under concurrency: \<open>Acquire\<close>, \<open>Release\<close> and the client pass of
  \<open>Sweep\<close> split into the atomic operations the Go code performs on \<open>g.global\<close> (an
  \<open>atomic.Int64\<close>), on \<open>g.clients\<close> (a \<open>sync.Map\<close> from keys to counter pointers) and on the
  counters, interleaved arbitrarily.  A thread is a program counter with its local variables;
  counters live in a heap and are compared by address, as pointers are.  The limits stay fixed
  during a run and the guard stays enabled.
\<close>

section \<open>Definitions\<close>

datatype pc =
    Idle
  | GLoad string              \<comment> \<open>\<open>cur := g.global.Load()\<close>\<close>
  | GCas string int           \<comment> \<open>\<open>g.global.CompareAndSwap(cur, cur+1)\<close>\<close>
  | CLoadOrStore string       \<comment> \<open>\<open>g.clients.LoadOrStore(key, ...)\<close>\<close>
  | CAdd string nat           \<comment> \<open>\<open>n := c.n.Add(1)\<close>\<close>
  | CTest string nat int      \<comment> \<open>\<open>int(n) > cfg.MaxConcurrentClient\<close>\<close>
  | CUndo string nat          \<comment> \<open>\<open>c.n.Add(-1)\<close>\<close>
  | GUndo string              \<comment> \<open>\<open>g.global.Add(-1)\<close>\<close>
  | CReload string nat        \<comment> \<open>\<open>g.clients.Load(key)\<close>\<close>
  | CStore string nat         \<comment> \<open>\<open>g.clients.Store(key, c)\<close>\<close>
  | Held string               \<comment> \<open>\<open>Acquire\<close> returned true\<close>
  | RGlob string              \<comment> \<open>\<open>Release\<close>: \<open>g.global.Add(-1)\<close>\<close>
  | RLoad string              \<comment> \<open>\<open>Release\<close>: \<open>g.clients.Load(key)\<close>\<close>
  | RAdd string nat           \<comment> \<open>\<open>Release\<close>: \<open>n.Add(-1)\<close>\<close>
  | SLoad string nat          \<comment> \<open>\<open>Sweep\<close>: \<open>c.n.Load()\<close>\<close>
  | SDel string nat           \<comment> \<open>\<open>Sweep\<close>: \<open>CompareAndDelete(key, value)\<close>\<close>

datatype action = DoAcquire string | DoRelease | DoSweep string | Step

record limits =
  lim_global :: int
  lim_client :: int

record cstate =
  cs_glob :: int
  cs_heap :: "int list"
  cs_clients :: "(string, nat) gomap"
  cs_pcs :: "pc list"

definition goto :: "nat \<Rightarrow> pc \<Rightarrow> cstate \<Rightarrow> cstate" where
  "goto i p st = st\<lparr> cs_pcs := (cs_pcs st)[i := p] \<rparr>"

fun pc_step :: "limits \<Rightarrow> nat \<Rightarrow> pc \<Rightarrow> cstate \<Rightarrow> cstate option" where
  "pc_step L i (GLoad k) st =
     Some (if cs_glob st \<ge> lim_global L then goto i Idle st else goto i (GCas k (cs_glob st)) st)"
| "pc_step L i (GCas k cur) st =
     Some (if cs_glob st = cur
           then goto i (if k = [] then Held k else CLoadOrStore k) (st\<lparr> cs_glob := cur + 1 \<rparr>)
           else goto i (GLoad k) st)"
| "pc_step L i (CLoadOrStore k) st =
     Some (case map_of (cs_clients st) k of
             Some a \<Rightarrow> goto i (CAdd k a) st
           | None \<Rightarrow> goto i (CAdd k (length (cs_heap st)))
               (st\<lparr> cs_heap := cs_heap st @ [0],
                    cs_clients := AList.update k (length (cs_heap st)) (cs_clients st) \<rparr>))"
| "pc_step L i (CAdd k a) st =
     Some (goto i (CTest k a (cs_heap st ! a + 1)) (st\<lparr> cs_heap := (cs_heap st)[a := cs_heap st ! a + 1] \<rparr>))"
| "pc_step L i (CTest k a n) st = Some (goto i (if n > lim_client L then CUndo k a else CReload k a) st)"
| "pc_step L i (CUndo k a) st =
     Some (goto i (GUndo k) (st\<lparr> cs_heap := (cs_heap st)[a := cs_heap st ! a - 1] \<rparr>))"
| "pc_step L i (GUndo k) st = Some (goto i Idle (st\<lparr> cs_glob := cs_glob st - 1 \<rparr>))"
| "pc_step L i (CReload k a) st =
     Some (goto i (if map_of (cs_clients st) k = Some a then Held k else CStore k a) st)"
| "pc_step L i (CStore k a) st = Some (goto i (Held k) (st\<lparr> cs_clients := AList.update k a (cs_clients st) \<rparr>))"
| "pc_step L i (RGlob k) st =
     Some (goto i (if k = [] then Idle else RLoad k) (st\<lparr> cs_glob := cs_glob st - 1 \<rparr>))"
| "pc_step L i (RLoad k) st =
     Some (goto i (case map_of (cs_clients st) k of Some a \<Rightarrow> RAdd k a | None \<Rightarrow> Idle) st)"
| "pc_step L i (RAdd k a) st = Some (goto i Idle (st\<lparr> cs_heap := (cs_heap st)[a := cs_heap st ! a - 1] \<rparr>))"
| "pc_step L i (SLoad k a) st = Some (goto i (if cs_heap st ! a \<noteq> 0 then Idle else SDel k a) st)"
| "pc_step L i (SDel k a) st =
     Some (goto i Idle (if map_of (cs_clients st) k = Some a
                        then st\<lparr> cs_clients := AList.delete k (cs_clients st) \<rparr> else st))"
| "pc_step L i p st = None"

text \<open>One move of thread \<open>i\<close>: an idle thread may call \<open>Acquire\<close> or visit one entry of the
  map as \<open>Sweep\<close>'s \<open>Range\<close> does, a thread that was admitted may call \<open>Release\<close>, and a thread
  inside a call performs its next atomic operation.\<close>

definition move :: "limits \<Rightarrow> nat \<Rightarrow> action \<Rightarrow> cstate \<Rightarrow> cstate option" where
  "move L i act st =
     (if length (cs_pcs st) \<le> i then None
      else case (act, cs_pcs st ! i) of
        (DoAcquire k, Idle) \<Rightarrow> Some (goto i (GLoad k) st)
      | (DoRelease, Held k) \<Rightarrow> Some (goto i (RGlob k) st)
      | (DoSweep k, Idle) \<Rightarrow> map_option (\<lambda>a. goto i (SLoad k a) st) (map_of (cs_clients st) k)
      | (Step, p) \<Rightarrow> pc_step L i p st
      | _ \<Rightarrow> None)"

fun moves :: "limits \<Rightarrow> (nat \<times> action) list \<Rightarrow> cstate \<Rightarrow> cstate option" where
  "moves L [] st = Some st"
| "moves L ((i, act) # rest) st = (case move L i act st of None \<Rightarrow> None | Some st' \<Rightarrow> moves L rest st')"

definition cs_init :: "nat \<Rightarrow> cstate" where
  "cs_init n = \<lparr> cs_glob = 0, cs_heap = [], cs_clients = [], cs_pcs = replicate n Idle \<rparr>"

inductive reach :: "limits \<Rightarrow> nat \<Rightarrow> cstate \<Rightarrow> bool" for L n where
  init: "reach L n (cs_init n)"
| step: "reach L n st \<Longrightarrow> move L i act st = Some st' \<Longrightarrow> reach L n st'"

text \<open>The same without sweeps.\<close>

inductive reach_ns :: "limits \<Rightarrow> nat \<Rightarrow> cstate \<Rightarrow> bool" for L n where
  ns_init: "reach_ns L n (cs_init n)"
| ns_step: "reach_ns L n st \<Longrightarrow> move L i act st = Some st' \<Longrightarrow> (\<forall>k. act \<noteq> DoSweep k) \<Longrightarrow> reach_ns L n st'"

definition cnt :: "('a \<Rightarrow> bool) \<Rightarrow> 'a list \<Rightarrow> int" where
  "cnt P xs = int (length (filter P xs))"

text \<open>The threads that hold a unit of \<open>g.global\<close>.\<close>

fun in_global :: "pc \<Rightarrow> bool" where
  "in_global (CLoadOrStore k) = True"
| "in_global (CAdd k a) = True"
| "in_global (CTest k a n) = True"
| "in_global (CUndo k a) = True"
| "in_global (GUndo k) = True"
| "in_global (CReload k a) = True"
| "in_global (CStore k a) = True"
| "in_global (Held k) = True"
| "in_global (RGlob k) = True"
| "in_global p = False"

text \<open>The threads that hold a unit of the counter of client \<open>k\<close>.\<close>

fun in_client :: "string \<Rightarrow> pc \<Rightarrow> bool" where
  "in_client k (CTest j a n) = (j = k)"
| "in_client k (CUndo j a) = (j = k)"
| "in_client k (CReload j a) = (j = k)"
| "in_client k (CStore j a) = (j = k)"
| "in_client k (Held j) = (j = k)"
| "in_client k (RGlob j) = (j = k)"
| "in_client k (RLoad j) = (j = k)"
| "in_client k (RAdd j a) = (j = k)"
| "in_client k p = False"

text \<open>The threads of client \<open>k\<close> that were admitted or will be.\<close>

fun admitted :: "limits \<Rightarrow> string \<Rightarrow> pc \<Rightarrow> bool" where
  "admitted L k (CTest j a n) = (j = k \<and> n \<le> lim_client L)"
| "admitted L k (CReload j a) = (j = k)"
| "admitted L k (CStore j a) = (j = k)"
| "admitted L k (Held j) = (j = k)"
| "admitted L k (RGlob j) = (j = k)"
| "admitted L k p = False"

fun uses_addr :: "pc \<Rightarrow> (string \<times> nat) option" where
  "uses_addr (CAdd k a) = Some (k, a)"
| "uses_addr (CTest k a n) = Some (k, a)"
| "uses_addr (CUndo k a) = Some (k, a)"
| "uses_addr (CReload k a) = Some (k, a)"
| "uses_addr (CStore k a) = Some (k, a)"
| "uses_addr (RAdd k a) = Some (k, a)"
| "uses_addr p = None"

section \<open>Counting threads\<close>

lemma cnt_update: "i < length xs \<Longrightarrow> cnt P (xs[i := v]) = cnt P xs - of_bool (P (xs ! i)) + of_bool (P v)"
proof (induction xs arbitrary: i)
  case (Cons x xs)
  then show ?case by (cases i) (auto simp: cnt_def)
qed simp

lemma cnt_nonneg: "0 \<le> cnt P xs" by (simp add: cnt_def)

lemma cnt_mono: "(\<And>x. x \<in> set xs \<Longrightarrow> P x \<Longrightarrow> Q x) \<Longrightarrow> cnt P xs \<le> cnt Q xs"
  by (induction xs) (auto simp: cnt_def)

lemma cnt_replicate: "\<not> P x \<Longrightarrow> cnt P (replicate n x) = 0" by (simp add: cnt_def)

section \<open>The global limit\<close>

definition glob_inv :: "limits \<Rightarrow> cstate \<Rightarrow> bool" where
  "glob_inv L st \<longleftrightarrow> cs_glob st = cnt in_global (cs_pcs st) \<and> cs_glob st \<le> lim_global L \<and>
     (\<forall>k cur. GCas k cur \<in> set (cs_pcs st) \<longrightarrow> cur < lim_global L)"

lemma goto_fields [simp]:
  "cs_glob (goto i p st) = cs_glob st" "cs_heap (goto i p st) = cs_heap st"
  "cs_clients (goto i p st) = cs_clients st" "cs_pcs (goto i p st) = (cs_pcs st)[i := p]"
  by (simp_all add: goto_def)

lemma glob_inv_upd:
  assumes "glob_inv L st" "i < length (cs_pcs st)"
    and "cs_pcs st' = (cs_pcs st)[i := p]"
    and "cs_glob st' = cs_glob st - of_bool (in_global (cs_pcs st ! i)) + of_bool (in_global p)"
    and "cs_glob st' \<le> lim_global L" "\<And>k cur. p = GCas k cur \<Longrightarrow> cur < lim_global L"
  shows "glob_inv L st'"
  unfolding glob_inv_def
proof (intro conjI allI impI)
  show "cs_glob st' = cnt in_global (cs_pcs st')"
    using assms by (simp add: glob_inv_def cnt_update)
  show "cs_glob st' \<le> lim_global L" by (rule assms(5))
  fix k cur
  assume "GCas k cur \<in> set (cs_pcs st')"
  then have "GCas k cur = p \<or> GCas k cur \<in> set (cs_pcs st)"
    unfolding assms(3) using set_update_subset_insert by fast
  then show "cur < lim_global L" using assms(1,6) unfolding glob_inv_def by blast
qed

lemma glob_inv_pc_step:
  assumes "glob_inv L st" "i < length (cs_pcs st)" "pc_step L i (cs_pcs st ! i) st = Some st'"
  shows "glob_inv L st'"
proof -
  have le: "cs_glob st \<le> lim_global L" using assms(1) by (simp add: glob_inv_def)
  have cas: "cs_pcs st ! i = GCas k cur \<Longrightarrow> cur < lim_global L" for k cur
    using assms(1,2) nth_mem [OF assms(2)] unfolding glob_inv_def by metis
  show ?thesis
    using assms(3) le cas
    by (cases "cs_pcs st ! i")
      (auto intro!: glob_inv_upd [OF assms(1,2)] split: if_splits option.splits)
qed

lemma glob_inv_move:
  assumes "glob_inv L st" "move L i act st = Some st'"
  shows "glob_inv L st'"
proof -
  have i: "i < length (cs_pcs st)" and le: "cs_glob st \<le> lim_global L"
    using assms by (auto simp: move_def glob_inv_def split: if_splits)
  show ?thesis
    using assms(2) i le glob_inv_pc_step [OF assms(1) i]
    by (auto simp: move_def split: if_splits action.splits pc.splits intro!: glob_inv_upd [OF assms(1) i])
qed

lemma glob_inv_reach: "reach L n st \<Longrightarrow> 0 \<le> lim_global L \<Longrightarrow> glob_inv L st"
proof (induction rule: reach.induct)
  case init
  then show ?case by (auto simp: glob_inv_def cs_init_def cnt_replicate)
qed (use glob_inv_move in blast)

section \<open>The client limit when no sweep runs\<close>

text \<open>Every client has one counter, owned by no other client, whose value is the number of its
  threads between the increment and the decrement.\<close>

definition ctr :: "int list \<Rightarrow> (string, nat) gomap \<Rightarrow> string \<Rightarrow> int" where
  "ctr h m k = (case map_of m k of None \<Rightarrow> 0 | Some a \<Rightarrow> h ! a)"

definition client_inv :: "limits \<Rightarrow> cstate \<Rightarrow> bool" where
  "client_inv L st \<longleftrightarrow>
     (\<forall>k a. map_of (cs_clients st) k = Some a \<longrightarrow> a < length (cs_heap st)) \<and>
     (\<forall>j k a. map_of (cs_clients st) j = Some a \<longrightarrow> map_of (cs_clients st) k = Some a \<longrightarrow> j = k) \<and>
     (\<forall>p k a. p \<in> set (cs_pcs st) \<longrightarrow> uses_addr p = Some (k, a) \<longrightarrow>
         k \<noteq> [] \<and> map_of (cs_clients st) k = Some a) \<and>
     (\<forall>k. CLoadOrStore k \<in> set (cs_pcs st) \<or> RLoad k \<in> set (cs_pcs st) \<longrightarrow> k \<noteq> []) \<and>
     (\<forall>k a. SLoad k a \<notin> set (cs_pcs st) \<and> SDel k a \<notin> set (cs_pcs st)) \<and>
     (\<forall>k. k \<noteq> [] \<longrightarrow>
        ctr (cs_heap st) (cs_clients st) k = cnt (in_client k) (cs_pcs st)) \<and>
     (\<forall>k. k \<noteq> [] \<longrightarrow> cnt (admitted L k) (cs_pcs st) \<le> lim_client L)"

lemma in_set_update: "p \<in> set (xs[i := q]) \<Longrightarrow> p = q \<or> p \<in> set xs"
  using set_update_subset_insert by fastforce

lemma admitted_in_client: "admitted L k p \<Longrightarrow> in_client k p"
  by (cases p) auto

abbreviation counter_of :: "cstate \<Rightarrow> string \<Rightarrow> int" where
  "counter_of st k \<equiv> ctr (cs_heap st) (cs_clients st) k"

lemma client_inv_upd:
  assumes "client_inv L st" "i < length (cs_pcs st)"
    and "cs_pcs st' = (cs_pcs st)[i := p]"
    and "cs_clients st' = cs_clients st" "length (cs_heap st') = length (cs_heap st)"
    and "\<And>k a. uses_addr p = Some (k, a) \<Longrightarrow> k \<noteq> [] \<and> map_of (cs_clients st) k = Some a"
    and "\<And>k. p = CLoadOrStore k \<or> p = RLoad k \<Longrightarrow> k \<noteq> []" "\<And>k a. p \<noteq> SLoad k a \<and> p \<noteq> SDel k a"
    and "\<And>k. k \<noteq> [] \<Longrightarrow> counter_of st' k =
      counter_of st k - of_bool (in_client k (cs_pcs st ! i)) + of_bool (in_client k p)"
    and "\<And>k. k \<noteq> [] \<Longrightarrow> admitted L k p \<Longrightarrow>
      admitted L k (cs_pcs st ! i) \<or> counter_of st' k \<le> lim_client L"
  shows "client_inv L st'"
  unfolding client_inv_def
proof (intro conjI)
  have cnt': "k \<noteq> [] \<Longrightarrow> counter_of st' k = cnt (in_client k) (cs_pcs st')" for k
    using assms(1,2,9) unfolding assms(3) client_inv_def by (simp add: cnt_update)
  then show "\<forall>k. k \<noteq> [] \<longrightarrow> counter_of st' k = cnt (in_client k) (cs_pcs st')" by blast
  show "\<forall>k. k \<noteq> [] \<longrightarrow> cnt (admitted L k) (cs_pcs st') \<le> lim_client L"
  proof (intro allI impI)
    fix k :: string assume k: "k \<noteq> []"
    show "cnt (admitted L k) (cs_pcs st') \<le> lim_client L"
    proof (cases "admitted L k p \<and> \<not> admitted L k (cs_pcs st ! i)")
      case True
      then have "counter_of st' k \<le> lim_client L" using assms(10) k by blast
      then show ?thesis
        using cnt' [OF k] cnt_mono [of "cs_pcs st'" "admitted L k" "in_client k"] admitted_in_client
        by fastforce
    next
      case False
      have "cnt (admitted L k) (cs_pcs st) \<le> lim_client L" using assms(1) k by (simp add: client_inv_def)
      then show ?thesis
        using False assms(2) unfolding assms(3) by (auto simp: cnt_update)
    qed
  qed
  show "\<forall>p k a. p \<in> set (cs_pcs st') \<longrightarrow> uses_addr p = Some (k, a) \<longrightarrow>
      k \<noteq> [] \<and> map_of (cs_clients st') k = Some a"
    using assms(1,6) unfolding assms(3,4) client_inv_def by (metis in_set_update)
  show "\<forall>k. CLoadOrStore k \<in> set (cs_pcs st') \<or> RLoad k \<in> set (cs_pcs st') \<longrightarrow> k \<noteq> []"
    using assms(1,7) unfolding assms(3,4) client_inv_def by (metis in_set_update)
  show "\<forall>k a. SLoad k a \<notin> set (cs_pcs st') \<and> SDel k a \<notin> set (cs_pcs st')"
    using assms(1,8) unfolding assms(3,4) client_inv_def by (metis in_set_update)
qed (use assms(1) in \<open>auto simp: client_inv_def assms(4,5)\<close>)

lemma client_inv_range: "client_inv L st \<Longrightarrow> map_of (cs_clients st) k = Some a \<Longrightarrow> a < length (cs_heap st)"
  unfolding client_inv_def by (elim conjE) metis

lemma client_inv_inj:
  "client_inv L st \<Longrightarrow> map_of (cs_clients st) j = Some a \<Longrightarrow> map_of (cs_clients st) k = Some a \<Longrightarrow> j = k"
  unfolding client_inv_def by (elim conjE) metis

lemma client_inv_cong:
  assumes "client_inv L st" "map_of (cs_clients st') = map_of (cs_clients st)"
    "cs_heap st' = cs_heap st" "cs_pcs st' = cs_pcs st"
  shows "client_inv L st'"
  using assms(1) unfolding client_inv_def ctr_def assms(2-4) by assumption

lemma counter_heap_update:
  assumes "client_inv L st" "map_of (cs_clients st) j = Some a"
  shows "counter_of (st\<lparr> cs_heap := (cs_heap st)[a := v] \<rparr>) k = (if k = j then v else counter_of st k)"
proof -
  have "a < length (cs_heap st)" and inj: "\<And>b. map_of (cs_clients st) k = Some b \<Longrightarrow> k \<noteq> j \<Longrightarrow> b \<noteq> a"
    using client_inv_range [OF assms] client_inv_inj [OF assms] by auto
  then show ?thesis using assms(2) by (cases "map_of (cs_clients st) k") (auto simp: ctr_def)
qed

lemma client_inv_alloc:
  assumes "client_inv L st" "map_of (cs_clients st) k = None" "k \<noteq> []"
  shows "client_inv L (st\<lparr> cs_heap := cs_heap st @ [0],
    cs_clients := AList.update k (length (cs_heap st)) (cs_clients st) \<rparr>)" (is "client_inv L ?st")
proof -
  note fresh = client_inv_range [OF assms(1)]
  have cnt: "counter_of ?st j = counter_of st j" for j
    using assms(2) fresh [of j] by (cases "map_of (cs_clients st) j") (auto simp: ctr_def nth_append)
  have 1: "\<forall>j a. map_of (cs_clients ?st) j = Some a \<longrightarrow> a < length (cs_heap ?st)"
    using fresh by (auto intro: less_SucI)
  note inj = client_inv_inj [OF assms(1)]
  have 2: "\<forall>i j a. map_of (cs_clients ?st) i = Some a \<longrightarrow> map_of (cs_clients ?st) j = Some a \<longrightarrow> i = j"
    using inj fresh [of _ "length (cs_heap st)"] by (auto split: if_splits)
  have old: "p \<in> set (cs_pcs st) \<Longrightarrow> uses_addr p = Some (j, a) \<Longrightarrow> j \<noteq> [] \<and> map_of (cs_clients st) j = Some a" for p j a
    using assms(1) unfolding client_inv_def by blast
  have 3: "\<forall>p j a. p \<in> set (cs_pcs st) \<longrightarrow> uses_addr p = Some (j, a) \<longrightarrow>
      j \<noteq> [] \<and> map_of (cs_clients ?st) j = Some a"
    using old assms(2) by fastforce
  have rest: "\<forall>k. CLoadOrStore k \<in> set (cs_pcs st) \<or> RLoad k \<in> set (cs_pcs st) \<longrightarrow> k \<noteq> []"
    "\<forall>k a. SLoad k a \<notin> set (cs_pcs st) \<and> SDel k a \<notin> set (cs_pcs st)"
    "\<forall>k. k \<noteq> [] \<longrightarrow> counter_of ?st k = cnt (in_client k) (cs_pcs st)"
    "\<forall>k. k \<noteq> [] \<longrightarrow> cnt (admitted L k) (cs_pcs st) \<le> lim_client L"
    using assms(1) unfolding client_inv_def cnt by blast+
  have pcs: "cs_pcs ?st = cs_pcs st" by simp
  show ?thesis
    unfolding client_inv_def pcs by (intro conjI 1 2 3 rest)
qed

lemma client_inv_pc_step:
  assumes inv: "client_inv L st" and i: "i < length (cs_pcs st)"
    and st: "pc_step L i (cs_pcs st ! i) st = Some st'"
  shows "client_inv L st'"
proof -
  note upd = client_inv_upd [OF inv i]
  have mem: "cs_pcs st ! i \<in> set (cs_pcs st)" using i by simp
  have addr: "uses_addr (cs_pcs st ! i) = Some (k, a) \<Longrightarrow> k \<noteq> [] \<and> map_of (cs_clients st) k = Some a" for k a
    using inv mem unfolding client_inv_def by blast
  have los: "cs_pcs st ! i = CLoadOrStore k \<Longrightarrow> k \<noteq> []" "cs_pcs st ! i = RLoad k \<Longrightarrow> k \<noteq> []" for k
    using inv mem unfolding client_inv_def by metis+
  have nosw: "cs_pcs st ! i \<noteq> SLoad k a" "cs_pcs st ! i \<noteq> SDel k a" for k a
    using inv mem unfolding client_inv_def by metis+
  have counter_at: "map_of (cs_clients st) k = Some a \<Longrightarrow> counter_of st k = cs_heap st ! a" for k a
    by (simp add: ctr_def)
  show ?thesis
  proof (cases "cs_pcs st ! i")
    case (CLoadOrStore k)
    show ?thesis
    proof (cases "map_of (cs_clients st) k")
      case None
      let ?st = "st\<lparr> cs_heap := cs_heap st @ [0],
        cs_clients := AList.update k (length (cs_heap st)) (cs_clients st) \<rparr>"
      have "st' = goto i (CAdd k (length (cs_heap st))) ?st"
        using st CLoadOrStore None by simp
      then show ?thesis
        using los(1) [OF CLoadOrStore] i CLoadOrStore
        by (auto intro!: client_inv_upd [OF client_inv_alloc [OF inv None los(1) [OF CLoadOrStore]], of i]
            simp: ctr_def)
    qed (use st CLoadOrStore los in \<open>auto intro!: upd\<close>)
  next
    case (CAdd k a)
    then show ?thesis
      using st addr [of k a] counter_heap_update [OF inv, of k a]
      by (auto intro!: upd simp: counter_at split: if_splits)
  next
    case (CUndo k a)
    then show ?thesis
      using st addr [of k a] counter_heap_update [OF inv, of k a]
      by (auto intro!: upd simp: counter_at split: if_splits)
  next
    case (RAdd k a)
    then show ?thesis
      using st addr [of k a] counter_heap_update [OF inv, of k a]
      by (auto intro!: upd simp: counter_at split: if_splits)
  next
    case (CReload k a)
    then show ?thesis using st addr [of k a] by (auto intro!: upd)
  next
    case (CStore k a)
    then have ka: "k \<noteq> []" "map_of (cs_clients st) k = Some a" using addr by auto
    define st1 where "st1 = st\<lparr> cs_clients := AList.update k a (cs_clients st) \<rparr>"
    have "client_inv L st1" by (rule client_inv_cong [OF inv]) (use ka in \<open>auto simp: st1_def\<close>)
    moreover have st1: "i < length (cs_pcs st1)" "cs_pcs st1 ! i = CStore k a" "st' = goto i (Held k) st1"
      using CStore st i by (auto simp: st1_def)
    ultimately show ?thesis
      unfolding st1(3) by (auto intro!: client_inv_upd [of L st1 i _ "Held k"])
  next
    case (RLoad k)
    then have k: "k \<noteq> []" using los(2) by blast
    have "cnt (in_client k) (cs_pcs st) > 0"
      using RLoad mem by (auto simp: cnt_def filter_empty_conv intro: bexI [of _ "RLoad k"])
    moreover have "counter_of st k = cnt (in_client k) (cs_pcs st)"
      using inv k unfolding client_inv_def by (elim conjE) metis
    ultimately have "map_of (cs_clients st) k \<noteq> None" by (auto simp: ctr_def split: option.splits)
    then show ?thesis using st RLoad k by (auto intro!: upd)
  qed (use st nosw addr in \<open>auto intro!: upd split: if_splits\<close>)
qed

lemma client_inv_move:
  assumes "client_inv L st" "move L i act st = Some st'" "\<forall>k. act \<noteq> DoSweep k"
  shows "client_inv L st'"
proof -
  have i: "i < length (cs_pcs st)" using assms by (auto simp: move_def split: if_splits)
  show ?thesis
    using assms(2,3) i client_inv_pc_step [OF assms(1) i]
    by (auto simp: move_def split: if_splits action.splits pc.splits intro!: client_inv_upd [OF assms(1) i])
qed

lemma client_inv_reach: "reach_ns L n st \<Longrightarrow> 0 \<le> lim_client L \<Longrightarrow> client_inv L st"
proof (induction rule: reach_ns.induct)
  case ns_init
  then show ?case by (auto simp: client_inv_def cs_init_def cnt_replicate ctr_def)
qed (use client_inv_move in blast)

lemma moves_reach: "reach L n st \<Longrightarrow> moves L acts st = Some st' \<Longrightarrow> reach L n st'"
proof (induction acts arbitrary: st)
  case (Cons x acts)
  then show ?case by (cases x) (auto split: option.splits intro: reach.step)
qed simp

section \<open>Properties\<close>

text \<open>C10: In every interleaving of \<open>Acquire\<close>, \<open>Release\<close> and \<open>Sweep\<close>, the global counter is exactly the
  number of threads between their successful compare-and-swap and their decrement (those that
  hold a slot, still check the client limit, or are about to give the slot back), it never
  exceeds the configured global limit, not even for a moment, and so no more than that many
  requests are admitted.\<close>

theorem global_limit_concurrent:
  assumes "reach L n st" "0 \<le> lim_global L"
  shows "cs_glob st = cnt in_global (cs_pcs st) \<and> cs_glob st \<le> lim_global L \<and>
    cnt (\<lambda>p. \<exists>k. p = Held k) (cs_pcs st) \<le> cs_glob st"
proof -
  have "glob_inv L st" using glob_inv_reach assms by blast
  moreover have "cnt (\<lambda>p. \<exists>k. p = Held k) (cs_pcs st) \<le> cnt in_global (cs_pcs st)"
    by (rule cnt_mono) auto
  ultimately show ?thesis by (simp add: glob_inv_def)
qed

definition demo_limits :: limits where
  "demo_limits = \<lparr> lim_global = 10, lim_client = 1 \<rparr>"

definition acquire_acts :: "nat \<Rightarrow> (nat \<times> action) list" where
  "acquire_acts i = (i, DoAcquire ''a'') # replicate 6 (i, Step)"

theorem global_limit_concurrent_witness:
  "moves demo_limits (acquire_acts 0) (cs_init 2) =
     Some \<lparr> cs_glob = 1, cs_heap = [1], cs_clients = [(''a'', 0)], cs_pcs = [Held ''a'', Idle] \<rparr> \<and>
   cnt (\<lambda>p. \<exists>k. p = Held k) [Held ''a'', Idle] \<le> 10"
proof
  show run: "moves demo_limits (acquire_acts 0) (cs_init 2) =
     Some \<lparr> cs_glob = 1, cs_heap = [1], cs_clients = [(''a'', 0)], cs_pcs = [Held ''a'', Idle] \<rparr>"
    by code_simp
  from global_limit_concurrent [OF moves_reach [OF reach.init run]]
  show "cnt (\<lambda>p. \<exists>k. p = Held k) [Held ''a'', Idle] \<le> 10"
    by (simp add: demo_limits_def)
qed

text \<open>As long as no sweep runs, no client ever has more requests admitted than the client limit,
  in every interleaving of \<open>Acquire\<close> and \<open>Release\<close>, and its counter is exactly the number of
  its threads between increment and decrement.\<close>

theorem client_limit_concurrent:
  assumes "reach_ns L n st" "0 \<le> lim_client L" "k \<noteq> []"
  shows "cnt (\<lambda>p. p = Held k) (cs_pcs st) \<le> lim_client L \<and>
    (\<forall>a. map_of (cs_clients st) k = Some a \<longrightarrow> cs_heap st ! a = cnt (in_client k) (cs_pcs st))"
proof
  have inv: "client_inv L st" using client_inv_reach assms by blast
  have "cnt (\<lambda>p. p = Held k) (cs_pcs st) \<le> cnt (admitted L k) (cs_pcs st)"
    by (rule cnt_mono) auto
  also have "\<dots> \<le> lim_client L" using inv assms(3) by (simp add: client_inv_def)
  finally show "cnt (\<lambda>p. p = Held k) (cs_pcs st) \<le> lim_client L" .
  have "counter_of st k = cnt (in_client k) (cs_pcs st)" using inv assms(3) by (simp add: client_inv_def)
  then show "\<forall>a. map_of (cs_clients st) k = Some a \<longrightarrow> cs_heap st ! a = cnt (in_client k) (cs_pcs st)"
    by (auto simp: ctr_def)
qed

theorem client_limit_concurrent_witness:
  "cnt (\<lambda>p. p = Held ''a'') (cs_pcs (cs_init 2)) \<le> 1"
  using client_limit_concurrent [OF reach_ns.ns_init [of demo_limits 2], of "''a''"]
  by (simp add: demo_limits_def)

text \<open>C17: A sweep can break the client limit: it reads a counter as zero, an \<open>Acquire\<close> then increments
  it, checks that it is still published and returns, and only then the sweep's
  \<open>CompareAndDelete\<close> removes it; the next \<open>Acquire\<close> of the same client starts a fresh counter, so
  two requests are admitted under a limit of one, and after both are released the published
  counter is negative for good.\<close>

theorem sweep_race_exceeds_client_limit:
  "\<exists>st st'. reach demo_limits 3 st \<and> cnt (\<lambda>p. p = Held ''a'') (cs_pcs st) = 2 \<and> lim_client demo_limits = 1 \<and>
    reach demo_limits 3 st' \<and> cs_pcs st' = [Idle, Idle, Idle] \<and> cs_glob st' = 0 \<and>
    (\<exists>a. map_of (cs_clients st') ''a'' = Some a \<and> cs_heap st' ! a = - 1)"
proof -
  define acts where "acts = [(0, DoAcquire ''a''), (0, Step), (0, Step), (0, Step),
    (2, DoSweep ''a''), (2, Step), (0, Step), (0, Step), (0, Step), (2, Step)] @ acquire_acts 1"
  define rel where "rel = (\<lambda>i::nat. [(i, DoRelease), (i, Step), (i, Step), (i, Step)])"
  have a: "moves demo_limits acts (cs_init 3) =
      Some \<lparr> cs_glob = 2, cs_heap = [1, 1], cs_clients = [(''a'', 1)], cs_pcs = [Held ''a'', Held ''a'', Idle] \<rparr>"
    unfolding acts_def by code_simp
  have b: "moves demo_limits (rel 0 @ rel 1)
      \<lparr> cs_glob = 2, cs_heap = [1, 1], cs_clients = [(''a'', 1)], cs_pcs = [Held ''a'', Held ''a'', Idle] \<rparr> =
      Some \<lparr> cs_glob = 0, cs_heap = [1, - 1], cs_clients = [(''a'', 1)], cs_pcs = [Idle, Idle, Idle] \<rparr>"
    unfolding rel_def by code_simp
  note ra = moves_reach [OF reach.init a]
  note rb = moves_reach [OF ra b]
  show ?thesis
    by (rule exI, rule exI, intro conjI, rule ra, simp add: cnt_def, simp add: demo_limits_def, rule rb)
      (simp_all add: exI [of _ 1])
qed

end

