(* ===== verification/Iputil.thy ===== *)
theory Iputil
  imports GoNet Faststr
begin

text \<open>
  \<open>internal/iputil\<close>: the client address of a request (behind trusted proxies), whether it
  arrived over HTTPS, the forwarding headers set towards the backend, and subnet keys.
\<close>

section \<open>Definitions\<close>

definition containsByte :: "string \<Rightarrow> char \<Rightarrow> bool" where
  "containsByte s c = list_ex (\<lambda>x. x = c) s"

definition iputil_ParseIP :: "string \<Rightarrow> IP option" where
  "iputil_ParseIP s =
     (let s = fs_TrimSpace s in
      if s = [] then None
      else let s = (case SplitHostPort s of Some (host, _) \<Rightarrow> host | None \<Rightarrow> s);
               s = (if length s \<ge> 2 \<and> hd s = CHR ''['' \<and> last s = CHR '']''
                    then take (length s - 2) (drop 1 s) else s)
           in net_ParseIP s)"

definition isTrusted :: "IP \<Rightarrow> IPNet list \<Rightarrow> bool" where
  "isTrusted ip nets = list_ex (\<lambda>n. IPNet_Contains n ip) nets"

definition ContainsIP :: "IPNet list \<Rightarrow> IP \<Rightarrow> bool" where
  "ContainsIP nets ip = isTrusted ip nets"

text \<open>The walk over a forwarding header from its right end; \<open>i\<close> is the end of the part not looked
  at yet.\<close>

function xff_walk :: "IPNet list \<Rightarrow> IP \<Rightarrow> string \<Rightarrow> nat \<Rightarrow> IP" where
  "xff_walk trusted remote raw i =
     (if i = 0 then remote
      else
        let (part, i') = (case LastIndexByte (take i raw) (CHR '','') of
                            None \<Rightarrow> (fs_TrimSpace (take i raw), 0)
                          | Some j \<Rightarrow> (fs_TrimSpace (drop (Suc j) (take i raw)), j))
        in if part = [] then xff_walk trusted remote raw i'
           else case iputil_ParseIP part of
                  None \<Rightarrow> xff_walk trusted remote raw i'
                | Some ip \<Rightarrow> if isTrusted ip trusted then xff_walk trusted remote raw i' else ip)"
  by auto
termination
  by (relation "measure (\<lambda>(t, r, raw, i). i)") (auto split: option.splits dest: LastIndexByte_Some(1))

declare xff_walk.simps [simp del]

definition ClientIP :: "Request \<Rightarrow> IPNet list \<Rightarrow> string \<Rightarrow> IP option" where
  "ClientIP r trusted header =
     (case iputil_ParseIP (req_RemoteAddr r) of
        None \<Rightarrow> None
      | Some remote \<Rightarrow>
          if \<not> isTrusted remote trusted \<or> header = [] then Some remote
          else let raw = Header_Get (req_Header r) header in
               if raw = [] then Some remote
               else if \<not> equalFoldASCII header ''X-Forwarded-For'' \<and> \<not> containsByte raw (CHR '','') then
                 (case iputil_ParseIP raw of Some ip \<Rightarrow> Some ip | None \<Rightarrow> Some remote)
               else Some (xff_walk trusted remote raw (length raw)))"

definition RequestHTTPS :: "Request option \<Rightarrow> string \<Rightarrow> bool" where
  "RequestHTTPS r protoHeader =
     (case r of None \<Rightarrow> False | Some r \<Rightarrow>
       if req_TLS r then True
       else
         let p = fs_TrimSpace (Header_Get (req_Header r) protoHeader);
             fwd = Header_Get (req_Header r) ''Forwarded'';
             by_fwd = (if fwd \<noteq> [] then
                         (if ContainsFold fwd ''proto=https'' then True
                          else if ContainsFold fwd ''proto=http'' then False else False)
                       else False)
         in if protoHeader \<noteq> [] then
              (if equalFoldASCII p ''https'' then True
               else if equalFoldASCII p ''http'' then False else by_fwd)
            else by_fwd)"

definition SetClientForwardHeadersIP :: "Request \<Rightarrow> string \<Rightarrow> string \<Rightarrow> Request" where
  "SetClientForwardHeadersIP r ip proto =
     (if ip = [] then r
      else let h = Header_Set (Header_Set (req_Header r) ''X-Real-IP'' ip) ''X-Forwarded-For'' ip;
               h = (if proto \<noteq> [] then Header_Set h ''X-Forwarded-Proto'' proto else h)
           in r\<lparr> req_Header := h \<rparr>)"

definition SetClientForwardHeaders :: "Request \<Rightarrow> IP option \<Rightarrow> string \<Rightarrow> Request" where
  "SetClientForwardHeaders r clientIP proto =
     (case clientIP of None \<Rightarrow> r | Some ip \<Rightarrow> SetClientForwardHeadersIP r (IP_String ip) proto)"

text \<open>\<open>CIDRMask\<close> is nil when the number of ones is negative or above the width.\<close>

definition SubnetKey :: "IP option \<Rightarrow> int \<Rightarrow> int \<Rightarrow> string" where
  "SubnetKey ip v4 v6 =
     (case ip of
        None \<Rightarrow> []
      | Some (V4 w) \<Rightarrow>
          if v4 < 0 \<or> v4 > 32 then IP_String (V4 w)
          else IPNet_String (Net4 (mask_word (nat v4) w) (nat v4))
      | Some (V6 w) \<Rightarrow>
          if v6 < 0 \<or> v6 > 128 then IP_String (V6 w)
          else IPNet_String (Net6 (mask_word (nat v6) w) (nat v6)))"

definition single_net :: "IP \<Rightarrow> IPNet" where
  "single_net ip = (case ip of V4 w \<Rightarrow> Net4 w 32 | V6 w \<Rightarrow> Net6 w 128)"

fun ParseCIDRs :: "string list \<Rightarrow> string + IPNet list" where
  "ParseCIDRs [] = Inr []"
| "ParseCIDRs (x # rest) =
     (let s = fs_TrimSpace x in
      if s = [] then ParseCIDRs rest
      else if \<not> containsByte s (CHR ''/'') then
        (case net_ParseIP s of
           None \<Rightarrow> Inl s
         | Some ip \<Rightarrow> (case ParseCIDRs rest of Inl e \<Rightarrow> Inl e | Inr ns \<Rightarrow> Inr (single_net ip # ns)))
      else
        (case ParseCIDR s of
           None \<Rightarrow> Inl s
         | Some n \<Rightarrow> (case ParseCIDRs rest of Inl e \<Rightarrow> Inl e | Inr ns \<Rightarrow> Inr (n # ns))))"

section \<open>The forwarding chain\<close>

lemma fs_TrimSpace_idem [simp]: "fs_TrimSpace (fs_TrimSpace s) = fs_TrimSpace s"
proof -
  let ?t = "TrimFunc fs_space s"
  have "dropWhile fs_space (rev (dropWhile fs_space s)) = [] \<or>
      \<not> fs_space (hd (dropWhile fs_space (rev (dropWhile fs_space s))))"
    by (metis hd_dropWhile)
  moreover have "?t = [] \<or> \<not> fs_space (hd ?t)"
  proof (cases "?t = []")
    case False
    have "dropWhile fs_space s = ?t @ rev (takeWhile fs_space (rev (dropWhile fs_space s)))"
      unfolding TrimFunc_def by (metis rev_append rev_rev_ident takeWhile_dropWhile_id)
    then have "hd ?t = hd (dropWhile fs_space s)" "dropWhile fs_space s \<noteq> []"
      using False by (metis hd_append2, metis append_is_Nil_conv)
    then show ?thesis by (metis hd_dropWhile)
  qed simp
  ultimately show ?thesis
    unfolding fs_TrimSpace_eq by (intro TrimFunc_id) (auto simp: TrimFunc_def last_rev)
qed

lemma ParseIP_trim [simp]: "iputil_ParseIP (fs_TrimSpace s) = iputil_ParseIP s"
  by (simp add: iputil_ParseIP_def)

lemma ParseIP_blank: "fs_TrimSpace s = [] \<Longrightarrow> iputil_ParseIP s = None"
  by (simp add: iputil_ParseIP_def)

text \<open>The first untrusted address of a list of parts.\<close>

definition first_untrusted :: "IPNet list \<Rightarrow> IP \<Rightarrow> string list \<Rightarrow> IP" where
  "first_untrusted trusted remote parts =
     (case List.find (\<lambda>ip. \<not> isTrusted ip trusted) (List.map_filter iputil_ParseIP parts) of
        None \<Rightarrow> remote | Some ip \<Rightarrow> ip)"

lemma first_untrusted_simps [simp]:
  "first_untrusted trusted remote [] = remote"
  "first_untrusted trusted remote (p # ps) =
     (case iputil_ParseIP p of
        None \<Rightarrow> first_untrusted trusted remote ps
      | Some ip \<Rightarrow> if isTrusted ip trusted then first_untrusted trusted remote ps else ip)"
  by (auto simp: first_untrusted_def List.map_filter_def split: option.splits)

lemma xff_walk_eq:
  "i \<le> length raw \<Longrightarrow> xff_walk trusted remote raw i = first_untrusted trusted remote (rev (Split (CHR '','') (take i raw)))"
proof (induction i rule: less_induct)
  case (less i)
  show ?case
  proof (cases "i = 0")
    case True
    then show ?thesis by (subst xff_walk.simps) (simp add: iputil_ParseIP_def fs_TrimSpace_eq TrimFunc_def)
  next
    case False
    have zero: "xff_walk trusted remote raw 0 = remote" by (subst xff_walk.simps) simp
    show ?thesis
    proof (cases "LastIndexByte (take i raw) (CHR '','')")
      case None
      then have "Split (CHR '','') (take i raw) = [take i raw]" by (simp add: LastIndexByte_None Split_no_sep)
      then show ?thesis
        using False less.prems None
        by (subst xff_walk.simps) (auto simp: zero ParseIP_blank split: option.splits)
    next
      case (Some j)
      note j = LastIndexByte_Some [OF Some]
      have ji: "j < i" using j(1) by simp
      then have tk: "take j (take i raw) = take j raw" by (simp add: min_def)
      have "Split (CHR '','') (take i raw) = Split (CHR '','') (take j raw) @ [drop (Suc j) (take i raw)]"
        by (subst j(2), subst Split_snoc) (use j(3) tk in auto)
      then show ?thesis
        using False less.prems Some ji less.IH [OF ji]
        by (subst xff_walk.simps) (auto simp: ParseIP_blank min_def split: option.splits)
    qed
  qed
qed

section \<open>Printing and parsing of IPv4 addresses\<close>

lemma be_digits_4: "be_digits b 4 n = [nat (n div b ^ 3 mod b), nat (n div b ^ 2 mod b), nat (n div b mod b), nat (n mod b)]"
  by (simp add: be_digits_def upt_rec)

lemma octet_nat_dec: "n \<le> 255 \<Longrightarrow> octet (nat_dec n) = Some n"
proof -
  assume n: "n \<le> 255"
  have "\<not> (length (nat_dec n) > 1 \<and> hd (nat_dec n) = CHR ''0'')"
  proof (cases "n < 10")
    case True
    then show ?thesis by (subst nat_dec.simps, simp)
  next
    case False
    have nz: "hd (nat_dec m) \<noteq> CHR ''0''" if "0 < m" for m
      using that
    proof (induction m rule: nat_dec.induct)
      case (1 m)
      show ?case
      proof (cases "m < 10")
        case True
        then have "byte_of (digit_char m) \<noteq> byte_of (CHR ''0'')"
          using 1 by (simp add: byte_digit_char)
        then show ?thesis using True by (subst nat_dec.simps) auto
      next
        case False
        then have "hd (nat_dec (m div 10)) \<noteq> CHR ''0''" using 1 by (simp add: div_greater_zero_iff)
        then show ?thesis using False by (subst nat_dec.simps) (simp add: hd_append)
      qed
    qed
    then show ?thesis using False by simp
  qed
  then show ?thesis using n by (simp add: octet_def)
qed

lemma dot_not_digit: "CHR ''.'' \<notin> set (nat_dec n)"
proof
  assume "CHR ''.'' \<in> set (nat_dec n)"
  then have "is_digit (CHR ''.'')" using nat_dec_digits by blast
  then show False by (simp add: is_digit_def)
qed

lemma parseIPv4_string: "parseIPv4 (ipv4_string w) = Some (be_digits 256 4 (uint w))"
proof -
  have oct: "octet (nat_dec (nat (x mod 256))) = Some (nat (x mod 256))" for x :: int
  proof (rule octet_nat_dec)
    have "x mod 256 < 256" by simp
    then show "nat (x mod 256) \<le> 255" by linarith
  qed
  have "Split (CHR ''.'') (ipv4_string w) = map nat_dec (be_digits 256 4 (uint w))"
    unfolding ipv4_string_def be_digits_4
    by (simp add: Split_append Split_no_sep dot_not_digit)
  then show ?thesis
    unfolding parseIPv4_def be_digits_4 by (simp add: oct)
qed

lemma horner4: "((d3 * 256 + m2) * 256 + m1) * 256 + m0 = n"
  if "n = m0 + 256 * d1" "d1 = m1 + 256 * d2" "d2 = m2 + 256 * d3" for n :: int
  using that by simp

lemma drop_bit_eq_bits: "drop_bit k a = drop_bit k b \<Longrightarrow> k \<le> i \<Longrightarrow> bit a i = bit b i" for a b :: "'a::len word"
  by (metis bit_drop_bit_eq comp_apply le_add_diff_inverse)

lemma be_int_digits: "0 \<le> n \<Longrightarrow> n < 2 ^ 32 \<Longrightarrow> be_int 256 (be_digits 256 4 n) = n"
proof -
  assume n: "0 \<le> n" "n < 2 ^ 32"
  have q: "n div 256 ^ 3 mod 256 = n div 256 ^ 3" 
  proof (rule mod_pos_pos_trivial)
    show "0 \<le> n div 256 ^ 3" using n(1) by (simp add: pos_imp_zdiv_nonneg_iff)
    have "n div 16777216 < 256" using n(2) by simp
    then show "n div 256 ^ 3 < 256" by simp
  qed
  have e: "n = n mod 256 + 256 * (n div 256)" "n div 256 = n div 256 mod 256 + 256 * (n div 256 ^ 2)"
    "n div 256 ^ 2 = n div 256 ^ 2 mod 256 + 256 * (n div 256 ^ 3)"
    using mod_mult_div_eq [of n 256] mod_mult_div_eq [of "n div 256" 256] mod_mult_div_eq [of "n div 256 ^ 2" 256]
    by (simp_all add: zdiv_zmult2_eq [symmetric])
  have pos: "int (nat (x mod 256)) = x mod 256" for x :: int by simp
  have "be_int 256 (be_digits 256 4 n) =
      ((n div 256 ^ 3 mod 256 * 256 + n div 256 ^ 2 mod 256) * 256 + n div 256 mod 256) * 256 + n mod 256"
    unfolding be_digits_4 be_int_def by (simp only: foldl_Cons foldl_Nil pos) simp
  also have "\<dots> = n" unfolding q by (rule horner4 [OF e])
  finally show ?thesis .
qed

lemma parse_print_v4: "net_ParseIP (IP_String (V4 w)) = Some (V4 w)"
proof -
  let ?s = "ipv4_string w"
  have pre: "\<exists>rest. ?s = nat_dec (nat (uint w div 256 ^ 3 mod 256)) @ CHR ''.'' # rest"
    unfolding ipv4_string_def be_digits_4 by simp
  then obtain rest where s: "?s = nat_dec (nat (uint w div 256 ^ 3 mod 256)) @ CHR ''.'' # rest" by blast
  have dig: "c \<noteq> CHR ''.'' \<and> c \<noteq> CHR '':'' \<and> c \<noteq> CHR ''%''" if "is_digit c" for c
    using that by (auto simp: is_digit_def)
  have "dropWhile (\<lambda>c. c \<noteq> CHR ''.'' \<and> c \<noteq> CHR '':'' \<and> c \<noteq> CHR ''%'') ?s = CHR ''.'' # rest"
    unfolding s using nat_dec_digits dig by (subst dropWhile_append2) auto
  then have "ParseAddr ?s = Some (A4 (word_of_int (be_int 256 (be_digits 256 4 (uint w)))))"
    by (simp add: ParseAddr_def parseIPv4_string)
  also have "be_int 256 (be_digits 256 4 (uint w)) = uint w"
    using uint_bounded [of w] by (intro be_int_digits) auto
  finally show ?thesis by (simp add: net_ParseIP_def IP_String_def canon_ip_def)
qed

lemma ipv4_string_inj: "ipv4_string a = ipv4_string b \<Longrightarrow> a = b"
  by (metis IP.case(1) IP.inject(1) IP_String_def option.inject parse_print_v4)

lemma slash_not_in_v4: "CHR ''/'' \<notin> set (ipv4_string w)"
proof -
  have "CHR ''/'' \<notin> set (nat_dec n)" for n
  proof
    assume "CHR ''/'' \<in> set (nat_dec n)"
    then have "is_digit (CHR ''/'')" using nat_dec_digits by blast
    then show False by (simp add: is_digit_def)
  qed
  then show ?thesis unfolding ipv4_string_def be_digits_4 by simp
qed

lemma net4_string_inj: "IPNet_String (Net4 a m) = IPNet_String (Net4 b n) \<longleftrightarrow> a = b \<and> m = n"
proof
  assume "IPNet_String (Net4 a m) = IPNet_String (Net4 b n)"
  then have "Cut (ipv4_string a @ CHR ''/'' # nat_dec m) (CHR ''/'') = Cut (ipv4_string b @ CHR ''/'' # nat_dec n) (CHR ''/'')"
    by (simp add: IPNet_String_def)
  then have "ipv4_string a = ipv4_string b" "nat_dec m = nat_dec n"
    by (simp_all add: Cut_append slash_not_in_v4)
  then show "a = b \<and> m = n" using ipv4_string_inj nat_dec_inj by blast
qed simp

lemma ClientIP_xff:
  assumes "iputil_ParseIP (req_RemoteAddr r) = Some remote" "isTrusted remote trusted" "header \<noteq> []"
    and "Header_Get (req_Header r) header = raw" "raw \<noteq> []"
    and "equalFoldASCII header ''X-Forwarded-For'' \<or> CHR '','' \<in> set raw"
  shows "ClientIP r trusted header = Some (first_untrusted trusted remote (rev (Split (CHR '','') raw)))"
  using assms xff_walk_eq [of "length raw" raw trusted remote]
  by (auto simp: ClientIP_def Let_def containsByte_def list_ex_iff)

section \<open>Properties\<close>

text \<open>C5: The client address cannot be spoofed through the forwarding header.  A request whose peer is
  not a trusted proxy is attributed to the peer whatever its headers say; and behind trusted
  proxies, once the address the outermost trusted hop saw is appended to a comma-separated
  chain, everything to its left (all a client can choose) and any trusted hops appended to its
  right are irrelevant: the request is attributed to that address.\<close>

theorem client_ip_unspoofable:
  assumes "iputil_ParseIP (req_RemoteAddr r) = Some remote"
  shows "(\<not> isTrusted remote trusted \<longrightarrow> ClientIP r trusted header = Some remote) \<and>
    (isTrusted remote trusted \<and> header \<noteq> [] \<and>
      Header_Get (req_Header r) header = join (CHR '','') (spoofed @ seen # hops) \<and>
      (\<forall>p \<in> set (spoofed @ seen # hops). CHR '','' \<notin> set p) \<and>
      equalFoldASCII header ''X-Forwarded-For'' \<and>
      iputil_ParseIP seen = Some ip \<and> \<not> isTrusted ip trusted \<and>
      (\<forall>p \<in> set hops. \<forall>a. iputil_ParseIP p = Some a \<longrightarrow> isTrusted a trusted) \<longrightarrow>
      ClientIP r trusted header = Some ip)"
proof (intro conjI impI; (elim conjE)?)
  show "ClientIP r trusted header = Some remote" if "\<not> isTrusted remote trusted"
    using assms that by (simp add: ClientIP_def)
  assume tr: "isTrusted remote trusted" "header \<noteq> []"
    and raw: "Header_Get (req_Header r) header = join (CHR '','') (spoofed @ seen # hops)"
    and parts: "\<forall>p \<in> set (spoofed @ seen # hops). CHR '','' \<notin> set p"
    and xff: "equalFoldASCII header ''X-Forwarded-For''"
    and sn: "iputil_ParseIP seen = Some ip" "\<not> isTrusted ip trusted"
    and hops: "\<forall>p \<in> set hops. \<forall>a. iputil_ParseIP p = Some a \<longrightarrow> isTrusted a trusted"
  have split: "Split (CHR '','') (join (CHR '','') ps) = ps" if "\<forall>p \<in> set ps. CHR '','' \<notin> set p" "ps \<noteq> []" for ps
    using that by (induction "CHR '',''" ps rule: join.induct) (auto simp: Split_no_sep Split_append)
  have "seen \<noteq> []" using sn(1) by (auto simp: iputil_ParseIP_def fs_TrimSpace_eq TrimFunc_def)
  then have "join (CHR '','') (spoofed @ seen # hops) \<noteq> []"
    using split [OF parts] by (metis Nil_is_append_conv Split.simps(1) append_eq_Cons_conv list.distinct(1) list.inject)
  then have "ClientIP r trusted header =
      Some (first_untrusted trusted remote (rev (Split (CHR '','') (join (CHR '','') (spoofed @ seen # hops)))))"
    using ClientIP_xff [OF assms tr raw] xff by blast
  also have "Split (CHR '','') (join (CHR '','') (spoofed @ seen # hops)) = spoofed @ seen # hops"
    using split [OF parts] by simp
  also have "first_untrusted trusted remote (rev (spoofed @ seen # hops)) = ip"
  proof -
    have "first_untrusted trusted remote (qs @ seen # rest) = ip"
      if "\<forall>p \<in> set qs. \<forall>a. iputil_ParseIP p = Some a \<longrightarrow> isTrusted a trusted" for qs rest
      using that sn by (induction qs) (auto split: option.splits)
    then show ?thesis using hops by simp
  qed
  finally show "ClientIP r trusted header = Some ip" .
qed

definition demo_request :: Request where
  "demo_request = \<lparr> req_Method = ''GET'', req_Host = ''example.org'', req_Path = ''/'', req_RawQuery = [],
     req_RemoteAddr = ''10.0.0.2:4321'', req_Header = [(''X-Forwarded-For'', [''8.8.8.8,203.0.113.9,10.0.0.7''])],
     req_TLS = False, req_ContentLength = 0, req_Body = [], req_HasBody = False,
     req_RawPath = [], req_ProtoMajor = 1, req_ProtoMinor = 1, req_ServerName = [] \<rparr>"

theorem client_ip_unspoofable_witness:
  "ClientIP demo_request [Net4 0x0A000000 8] ''X-Forwarded-For'' = Some (V4 0xCB007109)"
proof -
  have remote: "iputil_ParseIP (req_RemoteAddr demo_request) = Some (V4 0x0A000002)" by code_simp
  have hop: "iputil_ParseIP ''10.0.0.7'' = Some (V4 0x0A000007)" "isTrusted (V4 0x0A000007) [Net4 0x0A000000 8]"
    by code_simp+
  show ?thesis
  proof (rule client_ip_unspoofable [where spoofed = "[''8.8.8.8'']" and seen = "''203.0.113.9''"
        and hops = "[''10.0.0.7'']", OF remote, THEN conjunct2, THEN mp], intro conjI)
    show "isTrusted (V4 0x0A000002) [Net4 0x0A000000 8]" by code_simp
    show "''X-Forwarded-For'' \<noteq> []" by simp
    show "Header_Get (req_Header demo_request) ''X-Forwarded-For'' =
        join (CHR '','') ([''8.8.8.8''] @ ''203.0.113.9'' # [''10.0.0.7''])" by code_simp
    show "\<forall>p \<in> set ([''8.8.8.8''] @ ''203.0.113.9'' # [''10.0.0.7'']). CHR '','' \<notin> set p" by code_simp
    show "equalFoldASCII ''X-Forwarded-For'' ''X-Forwarded-For''" by code_simp
    show "iputil_ParseIP ''203.0.113.9'' = Some (V4 0xCB007109)" by code_simp
    show "\<not> isTrusted (V4 0xCB007109) [Net4 0x0A000000 8]" by code_simp
    show "\<forall>p \<in> set [''10.0.0.7'']. \<forall>a. iputil_ParseIP p = Some a \<longrightarrow> isTrusted a [Net4 0x0A000000 8]"
      using hop by simp
  qed
qed

text \<open>Subnet keys identify exactly the subnet: two IPv4 clients get the same key exactly when their
  addresses agree on the configured number of leading bits, so rate limits and bans keyed by
  subnet are shared by that subnet and by nobody else.\<close>

theorem subnet_key_exact:
  assumes "0 \<le> v4" "v4 \<le> 32"
  shows "SubnetKey (Some (V4 a)) v4 v6 = SubnetKey (Some (V4 b)) v4 v6 \<longleftrightarrow>
    (\<forall>i < 32. 32 - nat v4 \<le> i \<longrightarrow> bit a i = bit b i)"
proof -
  have "SubnetKey (Some (V4 a)) v4 v6 = SubnetKey (Some (V4 b)) v4 v6 \<longleftrightarrow>
      mask_word (nat v4) a = mask_word (nat v4) b"
    using assms by (simp add: SubnetKey_def net4_string_inj)
  also have "\<dots> \<longleftrightarrow> IPNet_Contains (Net4 a (nat v4)) (V4 b)" by (simp add: IPNet_Contains_def)
  also have "\<dots> \<longleftrightarrow> (\<forall>i < 32. 32 - nat v4 \<le> i \<longrightarrow> bit a i = bit b i)"
    using assms by (intro Contains_prefix_bits) simp
  finally show ?thesis .
qed

theorem subnet_key_exact_witness:
  "SubnetKey (Some (V4 0x0A000001)) 24 64 = SubnetKey (Some (V4 0x0A0000FE)) 24 64"
proof -
  have d: "drop_bit 8 (0x0A000001 :: 32 word) = drop_bit 8 0x0A0000FE" by code_simp
  have k: "32 - nat 24 = 8" by simp
  show ?thesis
  proof (rule subnet_key_exact [THEN iffD2])
    show "0 \<le> (24 :: int)" "24 \<le> (32 :: int)" by simp_all
    show "\<forall>i < 32. 32 - nat 24 \<le> i \<longrightarrow> bit (0x0A000001 :: 32 word) i = bit (0x0A0000FE :: 32 word) i"
      unfolding k using drop_bit_eq_bits [OF d] by (intro allI impI) assumption
  qed
qed

end
