(* ===== verification/Blocklist.thy ===== *)
theory Blocklist
  imports Iputil "HOL-Library.List_Lexorder" "HOL-Library.Char_ord"
begin

text \<open>
  \<open>internal/blocklist\<close>: the IP, DNS and User-Agent block lists, their files, the admin
  overlay and the lookups.  The file system is a map from paths to contents; opening a path
  that is not in it fails.  A list file is read line by line as \<open>bufio.Scanner\<close> does, with its
  one megabyte limit on a line.  Paths are taken as already cleaned, and the write errors of
  the operating system other than a missing file are not modelled.
\<close>

section \<open>Definitions\<close>

type_synonym fs = "(string, string) gomap"

abbreviation NL :: char where "NL \<equiv> CHR 0x0A"

text \<open>The tokens of a line scanner: a final line without a newline counts if it is not empty.\<close>

definition scan_lines :: "string \<Rightarrow> string list" where
  "scan_lines content =
     (let ls = Split NL content in if last ls = [] then butlast ls else ls)"

definition clean_line :: "string \<Rightarrow> string option" where
  "clean_line raw =
     (let line = TrimSpace raw in
      if line = [] \<or> HasPrefix line ''#'' then None
      else let line = (case IndexByte line (CHR ''#'') of Some i \<Rightarrow> TrimSpace (take i line) | None \<Rightarrow> line)
           in if line = [] then None else Some line)"

definition readLines :: "fs \<Rightarrow> string \<Rightarrow> string + string list" where
  "readLines d path =
     (case map_of d path of
        None \<Rightarrow> Inl ''no such file''
      | Some content \<Rightarrow>
          if list_ex (\<lambda>l. int (length l) \<ge> 1024 * 1024) (scan_lines content) then Inl ''token too long''
          else Inr (List.map_filter clean_line (scan_lines content)))"

fun read_all :: "fs \<Rightarrow> string list \<Rightarrow> string + string list" where
  "read_all d [] = Inr []"
| "read_all d (f # fs) =
     (case readLines d f of
        Inl e \<Rightarrow> Inl e
      | Inr ls \<Rightarrow> (case read_all d fs of Inl e \<Rightarrow> Inl e | Inr rest \<Rightarrow> Inr (ls @ rest)))"

definition parseIPOrCIDR :: "string \<Rightarrow> IPNet option" where
  "parseIPOrCIDR s =
     (let s = TrimSpace s in
      if Contains s ''/'' then ParseCIDR s
      else case net_ParseIP s of
             None \<Rightarrow> None
           | Some ip \<Rightarrow> Some (case To4 ip of Some w \<Rightarrow> Net4 w 32 | None \<Rightarrow> single_net ip))"

definition ParseIPOrCIDR :: "string \<Rightarrow> IPNet option" where
  "ParseIPOrCIDR s = parseIPOrCIDR s"

function strip_wild :: "string \<Rightarrow> string" where
  "strip_wild h =
     (let h = TrimFunc (\<lambda>c. c = CHR ''.'') h in if \<not> HasPrefix h ''*.'' then h else strip_wild (drop 2 h))"
  by auto
termination
proof (relation "measure length")
  fix h x :: string
  assume x: "x = TrimFunc (\<lambda>c. c = CHR ''.'') h" and p: "\<not> \<not> HasPrefix x ''*.''"
  have "length x \<le> length h"
    unfolding x TrimFunc_def using length_dropWhile_le order_trans by (metis length_rev)
  moreover have "length x \<ge> 2" using p by (auto simp: HasPrefix_def) (metis length_Cons length_take list.size(3) min.cobounded1 numeral_2_eq_2)
  ultimately show "(drop 2 x, h) \<in> measure length" by auto
qed simp

declare strip_wild.simps [simp del]

definition normalizeHost :: "string \<Rightarrow> string" where
  "normalizeHost h =
     (let h = TrimSpace h;
          h = ToLower h;
          h = filter (\<lambda>c. \<not> is_space c) h;
          h = (case IndexByte h (CHR ''/'') of Some i \<Rightarrow> take i h | None \<Rightarrow> h);
          h = (case IndexByte h (CHR '':'') of
                 Some i \<Rightarrow> if \<not> Contains h '']'' then (if net_ParseIP h = None then take i h else h) else h
               | None \<Rightarrow> h)
      in strip_wild h)"

definition NormalizeHost :: "string \<Rightarrow> string" where
  "NormalizeHost h = normalizeHost h"

definition loadIPFiles :: "fs \<Rightarrow> string list \<Rightarrow> string + IPNet list" where
  "loadIPFiles d files =
     (case read_all d files of Inl e \<Rightarrow> Inl e | Inr ls \<Rightarrow> Inr (List.map_filter parseIPOrCIDR ls))"

definition loadStringFiles :: "fs \<Rightarrow> string list \<Rightarrow> bool \<Rightarrow> string + string list" where
  "loadStringFiles d files asHost =
     (case read_all d files of
        Inl e \<Rightarrow> Inl e
      | Inr ls \<Rightarrow> Inr (remdups (filter (\<lambda>l. l \<noteq> []) (map (\<lambda>l. if asHost then normalizeHost l else l) ls))))"

definition loadStringList :: "fs \<Rightarrow> string list \<Rightarrow> string + string list" where
  "loadStringList d files =
     (case read_all d files of
        Inl e \<Rightarrow> Inl e
      | Inr ls \<Rightarrow> Inr (filter (\<lambda>l. l \<noteq> []) (map (\<lambda>l. ToLower (TrimSpace l)) ls)))"

record Sets =
  bs_ips :: "IPNet list"
  bs_dns :: "string list"
  bs_uas :: "string list"
  bs_uaMatcher :: "Matcher option"
  bs_lastReload :: gotime
  bs_ipFiles :: "string list"
  bs_dnsFiles :: "string list"
  bs_uaFiles :: "string list"
  bs_overlayDir :: string

definition Sets_New :: Sets where
  "Sets_New = \<lparr> bs_ips = [], bs_dns = [], bs_uas = [], bs_uaMatcher = Some (NewMatcher []), bs_lastReload = 0,
     bs_ipFiles = [], bs_dnsFiles = [], bs_uaFiles = [], bs_overlayDir = [] \<rparr>"

definition path_join :: "string \<Rightarrow> string \<Rightarrow> string" where
  "path_join dir name = dir @ ''/'' @ name"

definition prependUnique :: "string list \<Rightarrow> string \<Rightarrow> string list" where
  "prependUnique files path = (if path \<in> set files then files else path # files)"

definition attachOverlayFiles :: "Sets \<Rightarrow> Sets" where
  "attachOverlayFiles s =
     (if bs_overlayDir s = [] then s
      else s\<lparr> bs_ipFiles := prependUnique (bs_ipFiles s) (path_join (bs_overlayDir s) ''ips.txt''),
              bs_dnsFiles := prependUnique (bs_dnsFiles s) (path_join (bs_overlayDir s) ''dns.txt''),
              bs_uaFiles := prependUnique (bs_uaFiles s) (path_join (bs_overlayDir s) ''ua.txt'') \<rparr>)"

definition Sets_Load :: "fs \<Rightarrow> gotime \<Rightarrow> Sets \<Rightarrow> string list \<Rightarrow> string list \<Rightarrow> string list \<Rightarrow> string option \<times> Sets" where
  "Sets_Load d now s ipFiles dnsFiles uaFiles =
     (case loadIPFiles d ipFiles of
        Inl e \<Rightarrow> (Some e, s)
      | Inr ips \<Rightarrow>
          (case loadStringFiles d dnsFiles True of
             Inl e \<Rightarrow> (Some e, s)
           | Inr dns \<Rightarrow>
               (case loadStringList d uaFiles of
                  Inl e \<Rightarrow> (Some e, s)
                | Inr uas \<Rightarrow>
                    (None, (attachOverlayFiles
                       (s\<lparr> bs_ips := ips, bs_dns := dns, bs_uas := uas, bs_uaMatcher := Some (NewMatcher uas),
                           bs_ipFiles := ipFiles, bs_dnsFiles := dnsFiles, bs_uaFiles := uaFiles \<rparr>))
                       \<lparr> bs_lastReload := now \<rparr>))))"

definition Sets_ReloadNow :: "fs \<Rightarrow> gotime \<Rightarrow> Sets \<Rightarrow> string option \<times> Sets" where
  "Sets_ReloadNow d now s =
     (let s = attachOverlayFiles s in Sets_Load d now s (bs_ipFiles s) (bs_dnsFiles s) (bs_uaFiles s))"

text \<open>What \<open>StartReload\<close> does before it starts its ticker; each tick is a \<open>Sets_Load\<close> of the
  recorded files with its error ignored.\<close>

definition Sets_StartReload :: "Sets \<Rightarrow> string list \<Rightarrow> string list \<Rightarrow> string list \<Rightarrow> duration \<Rightarrow> Sets" where
  "Sets_StartReload s ipFiles dnsFiles uaFiles every =
     (if every \<le> 0 then s
      else attachOverlayFiles (s\<lparr> bs_ipFiles := ipFiles, bs_dnsFiles := dnsFiles, bs_uaFiles := uaFiles \<rparr>))"

definition Sets_tick :: "fs \<Rightarrow> gotime \<Rightarrow> Sets \<Rightarrow> Sets" where
  "Sets_tick d now s = snd (Sets_Load d now s (bs_ipFiles s) (bs_dnsFiles s) (bs_uaFiles s))"

record Stats =
  st_IPCount :: nat
  st_DNSCount :: nat
  st_UACount :: nat
  st_LastReload :: gotime

definition Sets_Stats :: "Sets option \<Rightarrow> Stats" where
  "Sets_Stats s =
     (case s of
        None \<Rightarrow> \<lparr> st_IPCount = 0, st_DNSCount = 0, st_UACount = 0, st_LastReload = 0 \<rparr>
      | Some s \<Rightarrow> \<lparr> st_IPCount = length (bs_ips s), st_DNSCount = length (bs_dns s), st_UACount = length (bs_uas s),
                    st_LastReload = bs_lastReload s \<rparr>)"

definition Sets_IPBlocked :: "Sets \<Rightarrow> IP option \<Rightarrow> bool" where
  "Sets_IPBlocked s ip =
     (case ip of None \<Rightarrow> False | Some ip \<Rightarrow> list_ex (\<lambda>n. IPNet_Contains n ip) (bs_ips s))"

function dns_walk :: "string list \<Rightarrow> string \<Rightarrow> bool" where
  "dns_walk m h =
     (case IndexByte h (CHR ''.'') of
        None \<Rightarrow> False
      | Some i \<Rightarrow> if drop (Suc i) h \<in> set m then True else dns_walk m (drop (Suc i) h))"
  by auto
termination by (relation "measure (\<lambda>(m, h). length h)") (auto dest: IndexByte_SomeD)

declare dns_walk.simps [simp del]

definition Sets_DNSBlocked :: "Sets \<Rightarrow> string \<Rightarrow> bool" where
  "Sets_DNSBlocked s host =
     (let host = normalizeHost host in
      if host = [] then False
      else if host \<in> set (bs_dns s) then True else dns_walk (bs_dns s) host)"

definition Sets_UABlocked :: "Sets \<Rightarrow> string \<Rightarrow> bool" where
  "Sets_UABlocked s ua =
     (if bs_uaMatcher s = None \<or> ua = [] then False
      else Matcher_Contains (bs_uaMatcher s) (AppendLowerASCII [] ua))"

subsection \<open>The admin overlay\<close>

definition KindIP :: string where "KindIP = ''ip''"
definition KindDNS :: string where "KindDNS = ''dns''"
definition KindUA :: string where "KindUA = ''ua''"

definition overlay_header :: string where
  "overlay_header = ''# RavenGuard admin overlay'' @ [NL]"

definition ensure_file :: "string \<Rightarrow> fs \<Rightarrow> fs" where
  "ensure_file p d = (case map_of d p of None \<Rightarrow> AList.update p overlay_header d | Some _ \<Rightarrow> d)"

definition SetOverlayDir :: "fs \<Rightarrow> gotime \<Rightarrow> Sets \<Rightarrow> string \<Rightarrow> fs \<times> string option \<times> Sets" where
  "SetOverlayDir d now s dir =
     (if TrimSpace dir = [] then (d, None, s)
      else let d = fold (\<lambda>name. ensure_file (path_join dir name)) [''ips.txt'', ''dns.txt'', ''ua.txt''] d;
               s = attachOverlayFiles (s\<lparr> bs_overlayDir := dir \<rparr>)
           in (d, Sets_ReloadNow d now s))"

definition OverlayDir :: "Sets option \<Rightarrow> string" where
  "OverlayDir s = (case s of None \<Rightarrow> [] | Some s \<Rightarrow> bs_overlayDir s)"

definition Sets_Files :: "Sets option \<Rightarrow> string list \<times> string list \<times> string list" where
  "Sets_Files s = (case s of None \<Rightarrow> ([], [], []) | Some s \<Rightarrow> (bs_ipFiles s, bs_dnsFiles s, bs_uaFiles s))"

definition ListEntries :: "Sets \<Rightarrow> string \<Rightarrow> string list" where
  "ListEntries s kind =
     (if kind = KindIP then sort (map IPNet_String (bs_ips s))
      else if kind = KindDNS then sort (bs_dns s)
      else if kind = KindUA then sort (bs_uas s)
      else [])"

definition overlayPath :: "Sets \<Rightarrow> string \<Rightarrow> string + string" where
  "overlayPath s kind =
     (if bs_overlayDir s = [] then Inl ''blocklist overlay not configured''
      else if kind = KindIP then Inr (path_join (bs_overlayDir s) ''ips.txt'')
      else if kind = KindDNS then Inr (path_join (bs_overlayDir s) ''dns.txt'')
      else if kind = KindUA then Inr (path_join (bs_overlayDir s) ''ua.txt'')
      else Inl ''unknown kind'')"

text \<open>The value as \<open>AddEntry\<close> stores it, or why it is refused.\<close>

definition entry_value :: "string \<Rightarrow> string \<Rightarrow> string + string" where
  "entry_value kind value =
     (if kind = KindIP then (if parseIPOrCIDR value = None then Inl ''invalid ip/cidr'' else Inr value)
      else if kind = KindDNS then
        (let v = normalizeHost value in if v = [] then Inl ''invalid domain'' else Inr v)
      else if kind = KindUA then Inr (ToLower value)
      else Inl ''unknown kind'')"

definition AddEntry :: "fs \<Rightarrow> gotime \<Rightarrow> Sets \<Rightarrow> string \<Rightarrow> string \<Rightarrow> fs \<times> string option \<times> Sets" where
  "AddEntry d now s kind value0 =
     (let value = TrimSpace value0 in
      if value = [] then (d, Some ''empty entry'', s)
      else case overlayPath s kind of
             Inl e \<Rightarrow> (d, Some e, s)
           | Inr path \<Rightarrow>
               (case entry_value kind value of
                  Inl e \<Rightarrow> (d, Some e, s)
                | Inr v \<Rightarrow>
                    if list_ex (\<lambda>e. EqualFold e v) (ListEntries s kind) then (d, None, s)
                    else (case map_of d path of
                            None \<Rightarrow> (d, Some ''no such file'', s)
                          | Some content \<Rightarrow>
                              let d = AList.update path (content @ v @ [NL]) d
                              in (d, Sets_ReloadNow d now s))))"

definition overlay_cmp :: "string \<Rightarrow> string \<Rightarrow> string" where
  "overlay_cmp kind line =
     (if kind = KindDNS then normalizeHost line
      else if kind = KindUA then ToLower (TrimSpace line) else line)"

definition source_cmp :: "string \<Rightarrow> string \<Rightarrow> string" where
  "source_cmp kind line =
     (if kind = KindDNS then normalizeHost line
      else if kind = KindUA then ToLower (TrimSpace line)
      else if kind = KindIP then
        (case parseIPOrCIDR line of Some n \<Rightarrow> IPNet_String n | None \<Rightarrow> line)
      else line)"

definition sourceFiles :: "Sets \<Rightarrow> string \<Rightarrow> string list" where
  "sourceFiles s kind =
     (if kind = KindIP then bs_ipFiles s
      else if kind = KindDNS then bs_dnsFiles s
      else if kind = KindUA then bs_uaFiles s else [])"

definition write_lines :: "string list \<Rightarrow> string" where
  "write_lines ls = concat (map (\<lambda>l. l @ [NL]) ls)"

fun remove_sources :: "Sets \<Rightarrow> string \<Rightarrow> string \<Rightarrow> string list \<Rightarrow> bool \<Rightarrow> fs \<Rightarrow> bool \<times> fs" where
  "remove_sources s kind value [] changed d = (changed, d)"
| "remove_sources s kind value (path # rest) changed d =
     (if bs_overlayDir s \<noteq> [] \<and> HasPrefix path (bs_overlayDir s) then remove_sources s kind value rest changed d
      else case readLines d path of
             Inl e \<Rightarrow> remove_sources s kind value rest changed d
           | Inr lines \<Rightarrow>
               let kept = filter (\<lambda>l. \<not> EqualFold (source_cmp kind l) value) lines in
               if length kept = length lines then remove_sources s kind value rest changed d
               else remove_sources s kind value rest True (AList.update path (write_lines kept) d))"

definition removeFromSources :: "fs \<Rightarrow> gotime \<Rightarrow> Sets \<Rightarrow> string \<Rightarrow> string \<Rightarrow> fs \<times> string option \<times> Sets" where
  "removeFromSources d now s kind value =
     (let (changed, d) = remove_sources s kind value (sourceFiles s kind) False d in
      if \<not> changed then (d, Some ''entry not found in writable lists'', s) else (d, Sets_ReloadNow d now s))"

definition RemoveEntry :: "fs \<Rightarrow> gotime \<Rightarrow> Sets \<Rightarrow> string \<Rightarrow> string \<Rightarrow> fs \<times> string option \<times> Sets" where
  "RemoveEntry d now s kind value0 =
     (let value = TrimSpace value0 in
      case overlayPath s kind of
        Inl e \<Rightarrow> (d, Some e, s)
      | Inr path \<Rightarrow>
          let value = (if kind = KindDNS then normalizeHost value else value);
              value = (if kind = KindUA then ToLower value else value)
          in (case readLines d path of
                Inl e \<Rightarrow> (d, Some e, s)
              | Inr lines \<Rightarrow>
                  let kept = filter (\<lambda>l. \<not> EqualFold (overlay_cmp kind l) value) lines in
                  if length kept = length lines then removeFromSources d now s kind value
                  else let d = AList.update path (overlay_header @ write_lines kept) d
                       in (d, Sets_ReloadNow d now s)))"

section \<open>Reading lists\<close>

lemma map_filter_append: "List.map_filter f (a @ b) = List.map_filter f a @ List.map_filter f b"
  by (simp add: List.map_filter_def)

lemma map_filter_Cons: "List.map_filter f (x # xs) = (case f x of None \<Rightarrow> List.map_filter f xs | Some y \<Rightarrow> y # List.map_filter f xs)"
  by (simp add: List.map_filter_def split: option.splits)

text \<open>Appending one line to a file that is empty or ends in a newline.\<close>

lemma scan_lines_append:
  assumes "c = [] \<or> last c = NL" "NL \<notin> set v"
  shows "scan_lines (c @ v @ [NL]) = scan_lines c @ [v]"
proof (cases "c = []")
  case True
  have "Split NL (v @ [NL]) = [v, []]" using Split_snoc [of NL "[]" v] assms(2) by (simp add: Split_no_sep)
  then show ?thesis using True by (simp add: scan_lines_def Let_def)
next
  case False
  then obtain a where c: "c = a @ [NL]" using assms(1) by (metis append_butlast_last_id)
  have 1: "Split NL c = Split NL a @ [[]]" unfolding c by (simp add: Split_snoc)
  have "Split NL ((a @ NL # v) @ NL # []) = Split NL (a @ NL # v) @ [[]]" by (rule Split_snoc) simp
  then have 2: "Split NL (c @ v @ [NL]) = Split NL a @ [v] @ [[]]"
    by (simp add: c Split_snoc [OF assms(2)])
  show ?thesis unfolding scan_lines_def Let_def 1 2 by (simp add: butlast_append)
qed

lemma clean_line_plain:
  assumes "TrimSpace v = v" "v \<noteq> []" "CHR ''#'' \<notin> set v"
  shows "clean_line v = Some v"
proof -
  have "\<not> HasPrefix v ''#''" using assms by (cases v) (auto simp: HasPrefix_def)
  moreover have "IndexByte v (CHR ''#'') = None" using assms(3) by simp
  ultimately show ?thesis using assms(1,2) by (simp add: clean_line_def Let_def del: IndexByte_None_iff)
qed

lemma read_all_mem:
  "read_all d files = Inr ls \<Longrightarrow> f \<in> set files \<Longrightarrow> \<exists>xs. readLines d f = Inr xs \<and> set xs \<subseteq> set ls"
  by (induction files arbitrary: ls) (auto split: sum.splits, blast)

lemma read_all_ok: "(\<forall>f \<in> set files. \<exists>xs. readLines d f = Inr xs) \<Longrightarrow> \<exists>ls. read_all d files = Inr ls"
  by (induction files) (auto split: sum.splits)

lemma read_all_error: "f \<in> set files \<Longrightarrow> readLines d f = Inl e \<Longrightarrow> \<exists>e'. read_all d files = Inl e'"
  by (induction files) (auto split: sum.splits)

section \<open>Lookups\<close>

definition dns_suffix :: "string \<Rightarrow> string \<Rightarrow> bool" where
  "dns_suffix dn host \<longleftrightarrow> dn = host \<or> (\<exists>sub. host = sub @ CHR ''.'' # dn)"

lemma dns_walk_iff: "dns_walk m h \<longleftrightarrow> (\<exists>dn \<in> set m. \<exists>sub. h = sub @ CHR ''.'' # dn)"
proof (induction m h rule: dns_walk.induct)
  case (1 m h)
  show ?case
  proof (cases "IndexByte h (CHR ''.'')")
    case None
    then have "CHR ''.'' \<notin> set h" by simp
    moreover have "\<not> dns_walk m h" by (subst dns_walk.simps) (simp only: None option.case simp_thms)
    ultimately show ?thesis by auto
  next
    case (Some i)
    note i = IndexByte_SomeD [OF Some]
    have h: "h = take i h @ CHR ''.'' # drop (Suc i) h" using i by (metis id_take_nth_drop)
    have split: "(\<exists>sub. h = sub @ CHR ''.'' # dn) \<longleftrightarrow>
        dn = drop (Suc i) h \<or> (\<exists>sub. drop (Suc i) h = sub @ CHR ''.'' # dn)" for dn
    proof
      assume "\<exists>sub. h = sub @ CHR ''.'' # dn"
      then obtain sub where "take i h @ CHR ''.'' # drop (Suc i) h = sub @ CHR ''.'' # dn" using h by metis
      then show "dn = drop (Suc i) h \<or> (\<exists>sub. drop (Suc i) h = sub @ CHR ''.'' # dn)"
        using i by (auto simp: append_eq_append_conv2 append_eq_Cons_conv Cons_eq_append_conv)
    next
      assume "dn = drop (Suc i) h \<or> (\<exists>sub. drop (Suc i) h = sub @ CHR ''.'' # dn)"
      then show "\<exists>sub. h = sub @ CHR ''.'' # dn" using h by (metis append_Cons append_assoc)
    qed
    show ?thesis
      using "1.IH" [OF Some] unfolding split by (subst dns_walk.simps) (auto simp: Some)
  qed
qed

lemma DNSBlocked_iff:
  "Sets_DNSBlocked s host \<longleftrightarrow>
     normalizeHost host \<noteq> [] \<and> (\<exists>dn \<in> set (bs_dns s). dns_suffix dn (normalizeHost host))"
  by (auto simp: Sets_DNSBlocked_def Let_def dns_walk_iff dns_suffix_def)

lemma UABlocked_iff:
  assumes "bs_uaMatcher s = Some (NewMatcher (bs_uas s))" "\<forall>p \<in> set (bs_uas s). p \<noteq> [] \<and> (\<forall>c \<in> set p. is_ascii c)"
  shows "Sets_UABlocked s ua \<longleftrightarrow> (\<exists>p \<in> set (bs_uas s). Contains (ToLower ua) p)"
proof -
  have "\<forall>p \<in> set (bs_uas s). p \<noteq> [] \<longrightarrow> filter is_ascii p \<noteq> []" using assms(2) by (auto simp: filter_empty_conv)
  note m = matcher_iff [OF this, of "ToLower ua"]
  have f: "p \<in> set (bs_uas s) \<Longrightarrow> filter is_ascii p = p" for p using assms(2) by simp
  have "Sets_UABlocked s ua \<longleftrightarrow> ua \<noteq> [] \<and> (\<exists>p \<in> set (bs_uas s). p \<noteq> [] \<and> Contains (ToLower ua) p)"
    using m f assms(1) by (auto simp: Sets_UABlocked_def AppendLowerASCII_eq)
  moreover have "Contains [] p \<longleftrightarrow> p = []" for p by simp
  ultimately show ?thesis using assms(2) by (cases "ua = []") (auto simp: ToLower_def)
qed

section \<open>Loading\<close>

definition sets_ok :: "Sets \<Rightarrow> bool" where
  "sets_ok s \<longleftrightarrow> bs_uaMatcher s = Some (NewMatcher (bs_uas s)) \<and>
     (\<forall>p \<in> set (bs_uas s). p \<noteq> [] \<and> ToLower p = p) \<and> (\<forall>h \<in> set (bs_dns s). h \<noteq> []) \<and> distinct (bs_dns s)"

lemma attach_fields [simp]:
  "bs_ips (attachOverlayFiles s) = bs_ips s" "bs_dns (attachOverlayFiles s) = bs_dns s"
  "bs_uas (attachOverlayFiles s) = bs_uas s" "bs_uaMatcher (attachOverlayFiles s) = bs_uaMatcher s"
  "bs_overlayDir (attachOverlayFiles s) = bs_overlayDir s"
  by (simp_all add: attachOverlayFiles_def)

lemma sets_ok_New: "sets_ok Sets_New"
  by (simp add: sets_ok_def Sets_New_def)

lemma sets_ok_Load: "sets_ok s \<Longrightarrow> sets_ok (snd (Sets_Load d now s a b c))"
  by (auto simp: Sets_Load_def sets_ok_def loadStringList_def loadStringFiles_def split: sum.splits)

lemma Load_error_frame: "fst (Sets_Load d now s a b c) \<noteq> None \<Longrightarrow> snd (Sets_Load d now s a b c) = s"
  by (auto simp: Sets_Load_def split: sum.splits)

lemma Load_ok:
  assumes "Sets_Load d now s ipf dnsf uaf = (None, s')"
  shows "\<exists>a b c. read_all d ipf = Inr a \<and> read_all d dnsf = Inr b \<and> read_all d uaf = Inr c \<and>
    bs_ips s' = List.map_filter parseIPOrCIDR a \<and>
    set (bs_dns s') = {h. h \<noteq> [] \<and> h \<in> normalizeHost ` set b} \<and>
    bs_uas s' = filter (\<lambda>l. l \<noteq> []) (map (\<lambda>l. ToLower (TrimSpace l)) c) \<and>
    bs_uaMatcher s' = Some (NewMatcher (bs_uas s'))"
  using assms
  by (auto simp: Sets_Load_def loadIPFiles_def loadStringFiles_def loadStringList_def split: sum.splits)

lemma attach_idem: "attachOverlayFiles (attachOverlayFiles s) = attachOverlayFiles s"
  by (simp add: attachOverlayFiles_def prependUnique_def)

text \<open>The result of a reload when every file can be read.\<close>

lemma Reload_eq:
  assumes "read_all d (bs_ipFiles (attachOverlayFiles s)) = Inr a"
    "read_all d (bs_dnsFiles (attachOverlayFiles s)) = Inr b" "read_all d (bs_uaFiles (attachOverlayFiles s)) = Inr c"
  shows "fst (Sets_ReloadNow d now s) = None"
    "bs_ips (snd (Sets_ReloadNow d now s)) = List.map_filter parseIPOrCIDR a"
    "bs_dns (snd (Sets_ReloadNow d now s)) = remdups (filter (\<lambda>l. l \<noteq> []) (map normalizeHost b))"
    "bs_uas (snd (Sets_ReloadNow d now s)) = filter (\<lambda>l. l \<noteq> []) (map (\<lambda>l. ToLower (TrimSpace l)) c)"
    "bs_overlayDir (snd (Sets_ReloadNow d now s)) = bs_overlayDir s"
    "bs_ipFiles (snd (Sets_ReloadNow d now s)) = bs_ipFiles (attachOverlayFiles s)"
proof -
  let ?s = "attachOverlayFiles s"
  let ?l = "?s\<lparr> bs_ips := List.map_filter parseIPOrCIDR a,
      bs_dns := remdups (filter (\<lambda>l. l \<noteq> []) (map normalizeHost b)),
      bs_uas := filter (\<lambda>l. l \<noteq> []) (map (\<lambda>l. ToLower (TrimSpace l)) c),
      bs_uaMatcher := Some (NewMatcher (filter (\<lambda>l. l \<noteq> []) (map (\<lambda>l. ToLower (TrimSpace l)) c))) \<rparr>"
  have eq: "Sets_ReloadNow d now s = (None, (attachOverlayFiles ?l)\<lparr> bs_lastReload := now \<rparr>)"
    using assms by (simp add: Sets_ReloadNow_def Sets_Load_def loadIPFiles_def loadStringFiles_def
        loadStringList_def Let_def)
  have files: "bs_ipFiles (attachOverlayFiles ?l) = bs_ipFiles ?s"
    by (simp add: attachOverlayFiles_def prependUnique_def)
  show "fst (Sets_ReloadNow d now s) = None"
    "bs_ips (snd (Sets_ReloadNow d now s)) = List.map_filter parseIPOrCIDR a"
    "bs_dns (snd (Sets_ReloadNow d now s)) = remdups (filter (\<lambda>l. l \<noteq> []) (map normalizeHost b))"
    "bs_uas (snd (Sets_ReloadNow d now s)) = filter (\<lambda>l. l \<noteq> []) (map (\<lambda>l. ToLower (TrimSpace l)) c)"
    "bs_overlayDir (snd (Sets_ReloadNow d now s)) = bs_overlayDir s"
    "bs_ipFiles (snd (Sets_ReloadNow d now s)) = bs_ipFiles ?s"
    unfolding eq using files by simp_all
qed

lemma AddEntry_IP_eq:
  assumes "TrimSpace value = v" "v \<noteq> []" "bs_overlayDir s \<noteq> []" "parseIPOrCIDR v \<noteq> None"
    "\<not> list_ex (\<lambda>e. EqualFold e v) (ListEntries s KindIP)"
    "map_of d (path_join (bs_overlayDir s) ''ips.txt'') = Some c"
    "d' = AList.update (path_join (bs_overlayDir s) ''ips.txt'') (c @ v @ [NL]) d"
  shows "AddEntry d now s KindIP value = (d', Sets_ReloadNow d' now s)"
  using assms by (auto simp: AddEntry_def overlayPath_def entry_value_def Let_def)

lemma Load_fails_iff:
  "fst (Sets_Load d now s ipf dnsf uaf) = None \<longleftrightarrow> (\<forall>f \<in> set ipf \<union> set dnsf \<union> set uaf. \<exists>ls. readLines d f = Inr ls)"
proof -
  have ra: "(\<exists>ls. read_all d fs = Inr ls) \<longleftrightarrow> (\<forall>f \<in> set fs. \<exists>ls. readLines d f = Inr ls)" for fs
    using read_all_ok read_all_mem by blast
  have "fst (Sets_Load d now s ipf dnsf uaf) = None \<longleftrightarrow>
      (\<exists>ls. read_all d ipf = Inr ls) \<and> (\<exists>ls. read_all d dnsf = Inr ls) \<and> (\<exists>ls. read_all d uaf = Inr ls)"
    by (auto simp: Sets_Load_def loadIPFiles_def loadStringFiles_def loadStringList_def split: sum.splits)
  then show ?thesis unfolding ra by blast
qed

text \<open>The contract of a configuration that is reloaded from files in the background: a failed load keeps
  the running state.  It holds for the block lists here and for the allow lists.\<close>

locale reloadable =
  fixes ok :: "'s \<Rightarrow> bool" and load :: "fs \<Rightarrow> gotime \<Rightarrow> 's \<Rightarrow> string option \<times> 's"
  assumes load_ok: "ok s \<Longrightarrow> ok (snd (load d t s))"
    and load_error: "fst (load d t s) \<noteq> None \<Longrightarrow> snd (load d t s) = s"
begin

definition ticks :: "(fs \<times> gotime) list \<Rightarrow> 's \<Rightarrow> 's" where
  "ticks evs s = fold (\<lambda>(d, t) s. snd (load d t s)) evs s"

lemma ticks_ok: "ok s \<Longrightarrow> ok (ticks evs s)"
  unfolding ticks_def by (induction evs arbitrary: s) (auto simp: load_ok)

lemma ticks_Nil [simp]: "ticks [] s = s"
  by (simp add: ticks_def)

lemma ticks_snoc: "ticks (evs @ [(d, t)]) s = (case load d t (ticks evs s) of (None, s') \<Rightarrow> s' | (Some e, _) \<Rightarrow> ticks evs s)"
  using load_error [of d t "ticks evs s"] by (auto simp: ticks_def split: prod.splits option.splits)

end

interpretation blocklist_reload: reloadable sets_ok
  "\<lambda>d t s. Sets_Load d t s (bs_ipFiles s) (bs_dnsFiles s) (bs_uaFiles s)"
  by unfold_locales (rule sets_ok_Load, assumption, rule Load_error_frame)

text \<open>A line appended to a file that is read by a reload ends up in the loaded list.\<close>

lemma readLines_append:
  assumes "map_of d path = Some c" "c = [] \<or> last c = NL" "NL \<notin> set v" "clean_line v = Some v"
    and "readLines (AList.update path (c @ v @ [NL]) d) path = Inr ls"
  shows "v \<in> set ls"
proof -
  have "ls = List.map_filter clean_line (scan_lines (c @ v @ [NL]))"
    using assms(5) by (auto simp: readLines_def split: if_splits)
  then show ?thesis
    unfolding scan_lines_append [OF assms(2,3)] using assms(4)
    by (simp add: map_filter_append List.map_filter_def)
qed

lemma overlay_attached:
  "bs_overlayDir s \<noteq> [] \<Longrightarrow> path_join (bs_overlayDir s) ''ips.txt'' \<in> set (bs_ipFiles (attachOverlayFiles s))"
  by (simp add: attachOverlayFiles_def prependUnique_def)

section \<open>Properties\<close>

text \<open>C20: A host is blocked exactly when it, or a parent domain of it at a label boundary, is listed; and a
  User-Agent is blocked exactly when its lowercased text contains a listed pattern, for
  lists of ASCII patterns: the one-pass automaton gives the answer of trying every pattern.\<close>

theorem lookups_exact:
  assumes "sets_ok s" "\<forall>p \<in> set (bs_uas s). \<forall>c \<in> set p. is_ascii c"
  shows "Sets_DNSBlocked s host =
      (normalizeHost host \<noteq> [] \<and> (\<exists>dn \<in> set (bs_dns s). dns_suffix dn (normalizeHost host))) \<and>
    Sets_UABlocked s ua = (\<exists>p \<in> set (bs_uas s). Contains (ToLower ua) p)"
proof
  show "Sets_DNSBlocked s host =
      (normalizeHost host \<noteq> [] \<and> (\<exists>dn \<in> set (bs_dns s). dns_suffix dn (normalizeHost host)))"
    by (rule DNSBlocked_iff)
  show "Sets_UABlocked s ua = (\<exists>p \<in> set (bs_uas s). Contains (ToLower ua) p)"
    using assms by (intro UABlocked_iff) (auto simp: sets_ok_def)
qed

definition demo_fs :: fs where
  "demo_fs = [(''o/ips.txt'', overlay_header), (''o/dns.txt'', ''evil.test'' @ [NL]), (''o/ua.txt'', ''BadBot'' @ [NL])]"

definition demo_sets :: Sets where
  "demo_sets = Sets_New\<lparr> bs_overlayDir := ''o'' \<rparr>"

lemma demo_reload:
  assumes "read_all d [''o/ips.txt''] = Inr a" "read_all d [''o/dns.txt''] = Inr b" "read_all d [''o/ua.txt''] = Inr c"
  shows "fst (Sets_ReloadNow d now demo_sets) = None"
    "bs_ips (snd (Sets_ReloadNow d now demo_sets)) = List.map_filter parseIPOrCIDR a"
    "bs_dns (snd (Sets_ReloadNow d now demo_sets)) = remdups (filter (\<lambda>l. l \<noteq> []) (map normalizeHost b))"
    "bs_uas (snd (Sets_ReloadNow d now demo_sets)) = filter (\<lambda>l. l \<noteq> []) (map (\<lambda>l. ToLower (TrimSpace l)) c)"
    "bs_overlayDir (snd (Sets_ReloadNow d now demo_sets)) = ''o''"
    "bs_ipFiles (snd (Sets_ReloadNow d now demo_sets)) = [''o/ips.txt'']"
proof -
  have f: "bs_ipFiles (attachOverlayFiles demo_sets) = [''o/ips.txt'']"
    "bs_dnsFiles (attachOverlayFiles demo_sets) = [''o/dns.txt'']"
    "bs_uaFiles (attachOverlayFiles demo_sets) = [''o/ua.txt'']" "bs_overlayDir demo_sets = ''o''"
    by (simp_all add: attachOverlayFiles_def demo_sets_def Sets_New_def prependUnique_def path_join_def)
  note r = Reload_eq [of d demo_sets a b c now, unfolded f, OF assms]
  show "fst (Sets_ReloadNow d now demo_sets) = None"
    "bs_ips (snd (Sets_ReloadNow d now demo_sets)) = List.map_filter parseIPOrCIDR a"
    "bs_dns (snd (Sets_ReloadNow d now demo_sets)) = remdups (filter (\<lambda>l. l \<noteq> []) (map normalizeHost b))"
    "bs_uas (snd (Sets_ReloadNow d now demo_sets)) = filter (\<lambda>l. l \<noteq> []) (map (\<lambda>l. ToLower (TrimSpace l)) c)"
    "bs_overlayDir (snd (Sets_ReloadNow d now demo_sets)) = ''o''"
    "bs_ipFiles (snd (Sets_ReloadNow d now demo_sets)) = [''o/ips.txt'']"
    by (rule r)+
qed

theorem lookups_exact_witness:
  "Sets_DNSBlocked (snd (Sets_ReloadNow demo_fs 5 demo_sets)) ''WWW.Evil.test:443''"
proof -
  let ?s = "snd (Sets_ReloadNow demo_fs 5 demo_sets)"
  have ok: "sets_ok ?s"
    unfolding Sets_ReloadNow_def Let_def
    by (rule sets_ok_Load) (simp add: sets_ok_def demo_sets_def Sets_New_def)
  have rd: "read_all demo_fs [''o/ips.txt''] = Inr []" "read_all demo_fs [''o/dns.txt''] = Inr [''evil.test'']"
    "read_all demo_fs [''o/ua.txt''] = Inr [''BadBot'']" by code_simp+
  have n: "normalizeHost ''evil.test'' = ''evil.test''" "normalizeHost ''WWW.Evil.test:443'' = ''www.evil.test''"
    "ToLower (TrimSpace ''BadBot'') = ''badbot''" by code_simp+
  have uas: "bs_uas ?s = [''badbot'']" and dns: "bs_dns ?s = [''evil.test'']"
    using demo_reload(3,4) [OF rd, of 5] by (simp_all add: n)
  have asc: "\<forall>p \<in> set (bs_uas ?s). \<forall>c \<in> set p. is_ascii c" unfolding uas by code_simp
  have "dns_suffix ''evil.test'' ''www.evil.test''"
    unfolding dns_suffix_def by (intro disjI2 exI [of _ "''www''"]) simp
  then show ?thesis using lookups_exact [OF ok asc] dns n by simp
qed

text \<open>Loading is all or nothing: it fails exactly when some list file cannot be read, and then nothing
  of the running configuration changes; when it succeeds, the matcher is the one of the loaded
  patterns and the state is consistent.\<close>

theorem load_all_or_nothing:
  assumes "sets_ok s"
  shows "sets_ok (snd (Sets_Load d now s ipf dnsf uaf)) \<and>
    (fst (Sets_Load d now s ipf dnsf uaf) = None \<longleftrightarrow>
       (\<forall>f \<in> set ipf \<union> set dnsf \<union> set uaf. \<exists>ls. readLines d f = Inr ls)) \<and>
    (fst (Sets_Load d now s ipf dnsf uaf) \<noteq> None \<longrightarrow> snd (Sets_Load d now s ipf dnsf uaf) = s)"
  using sets_ok_Load [OF assms] Load_error_frame Load_fails_iff by blast

theorem load_all_or_nothing_witness:
  "snd (Sets_Load demo_fs 5 Sets_New [''o/ips.txt''] [''missing''] []) = Sets_New \<and>
   fst (Sets_Load demo_fs 5 Sets_New [''o/ips.txt''] [''missing''] []) \<noteq> None"
proof -
  have "read_all demo_fs [''missing''] = Inl ''no such file''" by code_simp
  moreover have "\<exists>a. read_all demo_fs [''o/ips.txt''] = Inr a" by (rule exI [of _ "[]"]) code_simp
  ultimately have e: "fst (Sets_Load demo_fs 5 Sets_New [''o/ips.txt''] [''missing''] []) \<noteq> None"
    by (auto simp: Sets_Load_def loadIPFiles_def loadStringFiles_def)
  then show ?thesis
    using load_all_or_nothing [OF sets_ok_New, of demo_fs 5 "[''o/ips.txt'']" "[''missing'']" "[]"] by blast
qed

text \<open>An address or network that the admin adds is enforced as soon as the call returns without an
  error: every address in it is blocked from then on (for a value not listed already, and an
  overlay file whose last line is complete).\<close>

theorem add_entry_enforced:
  assumes "AddEntry d now s KindIP value = (d', None, s')"
    and "v = TrimSpace value" "NL \<notin> set v" "CHR ''#'' \<notin> set v" "TrimSpace v = v"
    and "\<not> list_ex (\<lambda>e. EqualFold e v) (ListEntries s KindIP)"
    and "\<And>c. map_of d (path_join (bs_overlayDir s) ''ips.txt'') = Some c \<Longrightarrow> c = [] \<or> last c = NL"
  shows "\<exists>n. parseIPOrCIDR v = Some n \<and> (\<forall>ip. IPNet_Contains n ip \<longrightarrow> Sets_IPBlocked s' (Some ip))"
proof -
  let ?path = "path_join (bs_overlayDir s) ''ips.txt''"
  have v: "v \<noteq> []" and od: "bs_overlayDir s \<noteq> []" and pn: "parseIPOrCIDR v \<noteq> None"
    using assms(1,2) by (auto simp: AddEntry_def overlayPath_def entry_value_def Let_def split: if_splits)
  then obtain c where c: "map_of d ?path = Some c" "d' = AList.update ?path (c @ v @ [NL]) d"
      "Sets_ReloadNow d' now s = (None, s')"
    using assms(1,2,6)
    by (auto simp: AddEntry_def overlayPath_def entry_value_def Let_def split: if_splits option.splits)
  from Load_ok [OF c(3) [unfolded Sets_ReloadNow_def Let_def]] obtain a where
    a: "read_all d' (bs_ipFiles (attachOverlayFiles s)) = Inr a" "bs_ips s' = List.map_filter parseIPOrCIDR a" by blast
  obtain ls where ls: "readLines d' ?path = Inr ls" "set ls \<subseteq> set a"
    using read_all_mem [OF a(1) overlay_attached [OF od]] by blast
  have "v \<in> set ls"
    using readLines_append [OF c(1) assms(7) [OF c(1)] assms(3) clean_line_plain [OF assms(5) v assms(4)]] ls(1) c(2)
    by simp
  then have "the (parseIPOrCIDR v) \<in> set (bs_ips s')" using ls(2) pn by (auto simp: a(2) List.map_filter_def)
  then show ?thesis
    using pn by (auto simp: Sets_IPBlocked_def list_ex_iff)
qed

definition demo_fs_with :: "string \<Rightarrow> fs" where
  "demo_fs_with v = AList.update ''o/ips.txt'' (overlay_header @ v @ [NL]) demo_fs"

lemma demo_add:
  assumes "TrimSpace value = v" "v \<noteq> []" "parseIPOrCIDR v \<noteq> None"
  shows "AddEntry demo_fs 5 demo_sets KindIP value = (demo_fs_with v, Sets_ReloadNow (demo_fs_with v) 5 demo_sets)"
  using assms by (intro AddEntry_IP_eq)
    (simp_all add: demo_sets_def Sets_New_def ListEntries_def path_join_def demo_fs_def demo_fs_with_def KindIP_def)

theorem add_entry_enforced_witness:
  "Sets_IPBlocked (snd (snd (AddEntry demo_fs 5 demo_sets KindIP '' 10.1.0.0/16 ''))) (Some (V4 0x0A01FFFF))"
proof -
  let ?r = "AddEntry demo_fs 5 demo_sets KindIP '' 10.1.0.0/16 ''"
  have v: "''10.1.0.0/16'' = TrimSpace '' 10.1.0.0/16 ''" "NL \<notin> set ''10.1.0.0/16''" "CHR ''#'' \<notin> set ''10.1.0.0/16''"
    "TrimSpace ''10.1.0.0/16'' = ''10.1.0.0/16''" by code_simp+
  have n: "parseIPOrCIDR ''10.1.0.0/16'' = Some (Net4 0x0A010000 16)" by code_simp
  have rd: "read_all (demo_fs_with ''10.1.0.0/16'') [''o/ips.txt''] = Inr [''10.1.0.0/16'']"
    "read_all (demo_fs_with ''10.1.0.0/16'') [''o/dns.txt''] = Inr [''evil.test'']"
    "read_all (demo_fs_with ''10.1.0.0/16'') [''o/ua.txt''] = Inr [''BadBot'']" by code_simp+
  have "fst (snd ?r) = None"
    using demo_reload(1) [OF rd] demo_add [OF v(1) [symmetric]] n by simp
  then have r: "?r = (fst ?r, None, snd (snd ?r))" by (metis prod.collapse)
  have l: "\<not> list_ex (\<lambda>e. EqualFold e ''10.1.0.0/16'') (ListEntries demo_sets KindIP)"
    by (simp add: ListEntries_def demo_sets_def Sets_New_def)
  have f: "c = [] \<or> last c = NL" if "map_of demo_fs (path_join (bs_overlayDir demo_sets) ''ips.txt'') = Some c" for c
    using that by (simp add: demo_fs_def demo_sets_def path_join_def overlay_header_def) auto
  have "IPNet_Contains (Net4 0x0A010000 16) (V4 0x0A01FFFF)" by code_simp
  then show ?thesis using add_entry_enforced [OF r v l f] n by auto
qed

text \<open>Removing an address by the name under which the list shows it fails: an address added without a
  prefix length is listed with one, but the overlay compares the text of the line, so the
  listed name is not found there and the entry stays in force.\<close>

theorem remove_listed_entry_fails:
  "\<exists>d s. AddEntry demo_fs 5 demo_sets KindIP ''10.1.2.3'' = (d, None, s) \<and>
    ListEntries s KindIP = [''10.1.2.3/32''] \<and>
    RemoveEntry d 6 s KindIP ''10.1.2.3/32'' = (d, Some ''entry not found in writable lists'', s) \<and>
    Sets_IPBlocked s (Some (V4 0x0A010203))"
proof -
  let ?d = "demo_fs_with ''10.1.2.3''"
  let ?s = "snd (Sets_ReloadNow ?d 5 demo_sets)"
  have n: "TrimSpace ''10.1.2.3'' = ''10.1.2.3''" "parseIPOrCIDR ''10.1.2.3'' = Some (Net4 0x0A010203 32)"
    "TrimSpace ''10.1.2.3/32'' = ''10.1.2.3/32''" "IPNet_String (Net4 0x0A010203 32) = ''10.1.2.3/32''"
    "\<not> EqualFold ''10.1.2.3'' ''10.1.2.3/32''" "IPNet_Contains (Net4 0x0A010203 32) (V4 0x0A010203)"
    "HasPrefix ''o/ips.txt'' ''o''" "readLines ?d ''o/ips.txt'' = Inr [''10.1.2.3'']" by code_simp+
  have rd: "read_all ?d [''o/ips.txt''] = Inr [''10.1.2.3'']"
    "read_all ?d [''o/dns.txt''] = Inr [''evil.test'']" "read_all ?d [''o/ua.txt''] = Inr [''BadBot'']" by code_simp+
  note r = demo_reload [OF rd, of 5]
  have 1: "AddEntry demo_fs 5 demo_sets KindIP ''10.1.2.3'' = (?d, None, ?s)"
    using demo_add [OF n(1)] n(2) r(1) by (simp, metis prod.collapse)
  have ips: "bs_ips ?s = [Net4 0x0A010203 32]" using r(2) by (simp add: map_filter_Cons List.map_filter_def n(2))
  have 2: "ListEntries ?s KindIP = [''10.1.2.3/32'']" by (simp add: ListEntries_def ips n(4))
  have k: "KindIP \<noteq> KindDNS" "KindIP \<noteq> KindUA" by (simp_all add: KindIP_def KindDNS_def KindUA_def)
  have 3: "RemoveEntry ?d 6 ?s KindIP ''10.1.2.3/32'' = (?d, Some ''entry not found in writable lists'', ?s)"
    using n(3,5,7,8) r(5,6) k
    by (simp add: RemoveEntry_def Let_def overlayPath_def overlay_cmp_def path_join_def
        removeFromSources_def sourceFiles_def)
  have 4: "Sets_IPBlocked ?s (Some (V4 0x0A010203))" by (simp add: Sets_IPBlocked_def ips n(6))
  show ?thesis using 1 2 3 4 by blast
qed

end
