(* ===== verification/Allowlist.thy ===== *)
theory Allowlist
  imports Blocklist
begin

text \<open>
  \<open>internal/allowlist\<close>: clients that skip detection and challenges, by address, User-Agent
  substring or header value.  Files are read as in \<open>Blocklist\<close> (the Go code has its own copy of
  the same \<open>readLines\<close>).
\<close>

section \<open>Definitions\<close>

record headerRule =
  hr_name :: string
  hr_value :: string

record AllowSets =
  al_ips :: "IPNet list"
  al_uas :: "string list"
  al_headers :: "headerRule list"
  al_lastReload :: gotime
  al_ipFiles :: "string list"
  al_uaFiles :: "string list"
  al_headerFiles :: "string list"

definition Allow_New :: AllowSets where
  "Allow_New = \<lparr> al_ips = [], al_uas = [], al_headers = [], al_lastReload = 0,
     al_ipFiles = [], al_uaFiles = [], al_headerFiles = [] \<rparr>"

definition allow_readLines :: "fs \<Rightarrow> string \<Rightarrow> string + string list" where
  "allow_readLines d path =
     (case map_of d path of
        None \<Rightarrow> Inl ''no such file''
      | Some content \<Rightarrow>
          if list_ex (\<lambda>l. int (length l) \<ge> 1024 * 1024) (scan_lines content) then Inl ''token too long''
          else Inr (List.map_filter
            (\<lambda>raw. let line = TrimSpace raw in
                   if line = [] \<or> HasPrefix line ''#'' then None
                   else let line = (case IndexByte line (CHR ''#'') of Some i \<Rightarrow> TrimSpace (take i line) | None \<Rightarrow> line)
                        in if line = [] then None else Some line)
            (scan_lines content)))"

fun allow_read_all :: "fs \<Rightarrow> string list \<Rightarrow> string + string list" where
  "allow_read_all d [] = Inr []"
| "allow_read_all d (f # fs) =
     (case allow_readLines d f of
        Inl e \<Rightarrow> Inl e
      | Inr ls \<Rightarrow> (case allow_read_all d fs of Inl e \<Rightarrow> Inl e | Inr rest \<Rightarrow> Inr (ls @ rest)))"

definition parseHeaderLine :: "string \<Rightarrow> (string \<times> string) option" where
  "parseHeaderLine line0 =
     (let line = TrimSpace line0 in
      if line = [] then None
      else case IndexByte line (CHR '':'') of
             None \<Rightarrow> None
           | Some i \<Rightarrow>
               if i = 0 then None
               else let name = TrimSpace (take i line); value = TrimSpace (drop (Suc i) line)
                    in if name = [] then None else Some (name, value))"

definition allow_loadIPFiles :: "fs \<Rightarrow> string list \<Rightarrow> string + IPNet list" where
  "allow_loadIPFiles d files =
     (case allow_read_all d files of Inl e \<Rightarrow> Inl e | Inr ls \<Rightarrow> Inr (List.map_filter ParseIPOrCIDR ls))"

definition allow_loadUAFiles :: "fs \<Rightarrow> string list \<Rightarrow> string + string list" where
  "allow_loadUAFiles d files =
     (case allow_read_all d files of
        Inl e \<Rightarrow> Inl e
      | Inr ls \<Rightarrow> Inr (filter (\<lambda>l. l \<noteq> []) (map (\<lambda>l. ToLower (TrimSpace l)) ls)))"

definition loadHeaderFiles :: "fs \<Rightarrow> string list \<Rightarrow> string + headerRule list" where
  "loadHeaderFiles d files =
     (case allow_read_all d files of
        Inl e \<Rightarrow> Inl e
      | Inr ls \<Rightarrow> Inr (map (\<lambda>(n, v). \<lparr> hr_name = n, hr_value = v \<rparr>) (List.map_filter parseHeaderLine ls)))"

definition Allow_Load :: "fs \<Rightarrow> gotime \<Rightarrow> AllowSets \<Rightarrow> string list \<Rightarrow> string list \<Rightarrow> string list \<Rightarrow> string option \<times> AllowSets" where
  "Allow_Load d now s ipFiles uaFiles headerFiles =
     (case allow_loadIPFiles d ipFiles of
        Inl e \<Rightarrow> (Some e, s)
      | Inr ips \<Rightarrow>
          (case allow_loadUAFiles d uaFiles of
             Inl e \<Rightarrow> (Some e, s)
           | Inr uas \<Rightarrow>
               (case loadHeaderFiles d headerFiles of
                  Inl e \<Rightarrow> (Some e, s)
                | Inr hdrs \<Rightarrow>
                    (None, s\<lparr> al_ips := ips, al_uas := uas, al_headers := hdrs, al_ipFiles := ipFiles,
                             al_uaFiles := uaFiles, al_headerFiles := headerFiles, al_lastReload := now \<rparr>))))"

definition Allow_StartReload :: "AllowSets \<Rightarrow> string list \<Rightarrow> string list \<Rightarrow> string list \<Rightarrow> duration \<Rightarrow> AllowSets" where
  "Allow_StartReload s ipFiles uaFiles headerFiles every =
     (if every \<le> 0 then s
      else s\<lparr> al_ipFiles := ipFiles, al_uaFiles := uaFiles, al_headerFiles := headerFiles \<rparr>)"

definition Allow_ReloadNow :: "fs \<Rightarrow> gotime \<Rightarrow> AllowSets \<Rightarrow> string option \<times> AllowSets" where
  "Allow_ReloadNow d now s = Allow_Load d now s (al_ipFiles s) (al_uaFiles s) (al_headerFiles s)"

record AllowStats =
  as_IPCount :: nat
  as_UACount :: nat
  as_HeaderCount :: nat
  as_LastReload :: gotime

definition Allow_Stats :: "AllowSets option \<Rightarrow> AllowStats" where
  "Allow_Stats s =
     (case s of
        None \<Rightarrow> \<lparr> as_IPCount = 0, as_UACount = 0, as_HeaderCount = 0, as_LastReload = 0 \<rparr>
      | Some s \<Rightarrow> \<lparr> as_IPCount = length (al_ips s), as_UACount = length (al_uas s),
                    as_HeaderCount = length (al_headers s), as_LastReload = al_lastReload s \<rparr>)"

definition Allow_Empty :: "AllowSets option \<Rightarrow> bool" where
  "Allow_Empty s =
     (case s of None \<Rightarrow> True
      | Some _ \<Rightarrow> as_IPCount (Allow_Stats s) = 0 \<and> as_UACount (Allow_Stats s) = 0 \<and> as_HeaderCount (Allow_Stats s) = 0)"

definition matchIP :: "AllowSets \<Rightarrow> IP option \<Rightarrow> bool" where
  "matchIP s ip = (case ip of None \<Rightarrow> False | Some ip \<Rightarrow> list_ex (\<lambda>n. IPNet_Contains n ip) (al_ips s))"

definition matchUA :: "AllowSets \<Rightarrow> string \<Rightarrow> bool" where
  "matchUA s ua = list_ex (\<lambda>p. p \<noteq> [] \<and> ContainsFold ua p) (al_uas s)"

definition matchHeaders :: "AllowSets \<Rightarrow> Header option \<Rightarrow> bool" where
  "matchHeaders s hdr =
     (case hdr of None \<Rightarrow> False
      | Some h \<Rightarrow> list_ex (\<lambda>r. hr_name r \<noteq> [] \<and> Header_Get h (hr_name r) = hr_value r) (al_headers s))"

definition Allow_Match :: "AllowSets option \<Rightarrow> IP option \<Rightarrow> string \<Rightarrow> Header option \<Rightarrow> bool" where
  "Allow_Match s ip ua hdr =
     (case s of None \<Rightarrow> False
      | Some s \<Rightarrow> if matchIP s ip then True else if matchUA s ua then True else matchHeaders s hdr)"

section \<open>Loading and matching\<close>

lemma allow_readLines_eq: "allow_readLines d p = readLines d p"
proof -
  have "(\<lambda>raw. let line = TrimSpace raw in
      if line = [] \<or> HasPrefix line ''#'' then None
      else let line = (case IndexByte line (CHR ''#'') of Some i \<Rightarrow> TrimSpace (take i line) | None \<Rightarrow> line)
           in if line = [] then None else Some line) = clean_line"
    by (rule ext) (simp only: clean_line_def)
  then show ?thesis by (simp only: allow_readLines_def readLines_def)
qed

definition allow_ok :: "AllowSets \<Rightarrow> bool" where
  "allow_ok s \<longleftrightarrow> (\<forall>p \<in> set (al_uas s). p \<noteq> [] \<and> ToLower p = p) \<and> (\<forall>r \<in> set (al_headers s). hr_name r \<noteq> [])"

lemma parseHeaderLine_name: "parseHeaderLine l = Some (n, v) \<Longrightarrow> n \<noteq> []"
  by (auto simp: parseHeaderLine_def Let_def split: if_splits option.splits)

lemma allow_ok_Load: "allow_ok s \<Longrightarrow> allow_ok (snd (Allow_Load d now s a b c))"
  by (auto simp: Allow_Load_def allow_ok_def allow_loadUAFiles_def loadHeaderFiles_def List.map_filter_def
      parseHeaderLine_name split: sum.splits)

lemma Allow_Load_error: "fst (Allow_Load d now s a b c) \<noteq> None \<Longrightarrow> snd (Allow_Load d now s a b c) = s"
  by (auto simp: Allow_Load_def split: sum.splits)

interpretation allowlist_reload: reloadable allow_ok Allow_ReloadNow
  by unfold_locales (simp_all add: Allow_ReloadNow_def allow_ok_Load Allow_Load_error)

lemma matchUA_iff: "allow_ok s \<Longrightarrow> matchUA s ua \<longleftrightarrow> (\<exists>p \<in> set (al_uas s). Contains (ToLower ua) p)"
  by (auto simp: matchUA_def list_ex_iff allow_ok_def ContainsFold_iff)

text \<open>The lines of a group of files, and what the lines of the three groups allow.\<close>

definition readable :: "fs \<Rightarrow> string list \<Rightarrow> bool" where
  "readable d files \<longleftrightarrow> (\<forall>f \<in> set files. \<exists>ls. allow_readLines d f = Inr ls)"

definition lines_of :: "fs \<Rightarrow> string list \<Rightarrow> string list" where
  "lines_of d files = concat (map (\<lambda>f. case allow_readLines d f of Inr ls \<Rightarrow> ls | Inl _ \<Rightarrow> []) files)"

definition listed :: "fs \<Rightarrow> AllowSets \<Rightarrow> IP option \<Rightarrow> string \<Rightarrow> Header option \<Rightarrow> bool" where
  "listed d s ip ua hdr \<longleftrightarrow>
     (\<exists>a. ip = Some a \<and> (\<exists>l \<in> set (lines_of d (al_ipFiles s)). \<exists>n. ParseIPOrCIDR l = Some n \<and> IPNet_Contains n a)) \<or>
     (\<exists>l \<in> set (lines_of d (al_uaFiles s)). TrimSpace l \<noteq> [] \<and> Contains (ToLower ua) (ToLower (TrimSpace l))) \<or>
     (\<exists>h. hdr = Some h \<and> (\<exists>l \<in> set (lines_of d (al_headerFiles s)). \<exists>n v. parseHeaderLine l = Some (n, v) \<and> Header_Get h n = v))"

definition all_readable :: "fs \<Rightarrow> AllowSets \<Rightarrow> bool" where
  "all_readable d s \<longleftrightarrow> readable d (al_ipFiles s) \<and> readable d (al_uaFiles s) \<and> readable d (al_headerFiles s)"

lemma read_all_readable: "readable d files \<Longrightarrow> allow_read_all d files = Inr (lines_of d files)"
  by (induction files) (auto simp: readable_def lines_of_def)

lemma read_all_unreadable: "\<not> readable d files \<Longrightarrow> \<exists>e. allow_read_all d files = Inl e"
proof (induction files)
  case (Cons f files)
  then show ?case by (cases "allow_readLines d f"; cases "readable d files") (auto simp: readable_def)
qed (simp add: readable_def)

lemma reload_unreadable: "\<not> all_readable d s \<Longrightarrow> fst (Allow_ReloadNow d t s) \<noteq> None"
  using read_all_unreadable
  by (fastforce simp: all_readable_def Allow_ReloadNow_def Allow_Load_def allow_loadIPFiles_def allow_loadUAFiles_def
      loadHeaderFiles_def split: sum.splits)

lemma reload_readable:
  assumes "all_readable d s"
  shows "\<exists>s'. Allow_ReloadNow d t s = (None, s') \<and> Allow_Match (Some s') ip ua hdr = listed d s ip ua hdr \<and>
    al_ipFiles s' = al_ipFiles s \<and> al_uaFiles s' = al_uaFiles s \<and> al_headerFiles s' = al_headerFiles s"
proof -
  have low: "ToLower (ToLower x) = ToLower x" "(ToLower x = []) = (x = [])" for x by (simp_all add: ToLower_idem ToLower_Nil_iff)
  note r = assms [unfolded all_readable_def] 
  have "Allow_ReloadNow d t s = (None, s\<lparr> al_ips := List.map_filter ParseIPOrCIDR (lines_of d (al_ipFiles s)),
      al_uas := filter (\<lambda>l. l \<noteq> []) (map (\<lambda>l. ToLower (TrimSpace l)) (lines_of d (al_uaFiles s))),
      al_headers := map (\<lambda>(n, v). \<lparr> hr_name = n, hr_value = v \<rparr>) (List.map_filter parseHeaderLine (lines_of d (al_headerFiles s))),
      al_lastReload := t \<rparr>)"
    using r by (simp add: Allow_ReloadNow_def Allow_Load_def allow_loadIPFiles_def allow_loadUAFiles_def loadHeaderFiles_def read_all_readable)
  then show ?thesis
    by (auto simp: Allow_Match_def matchIP_def matchUA_def matchHeaders_def listed_def list_ex_iff List.map_filter_def ContainsFold_iff
        low parseHeaderLine_name split: option.splits)
qed

section \<open>Properties\<close>

text \<open>C21: The allow list follows its files.  After any sequence of reloads, each with the files as they are then, a request
  is allowed exactly when the files of the last reload that could read all of them list it: a line of the address files is
  a network that contains its address, a line of the User-Agent files is a part of its User-Agent in any case, or a line
  of the header files names a header with exactly that value.  A reload that cannot read some file changes nothing, and
  before the first complete one the lists stay what they were.\<close>

theorem allow_follows_files:
  "Allow_Match (Some (fold (\<lambda>(d, t) s. snd (Allow_ReloadNow d t s)) evs s)) ip ua hdr =
     (case find (\<lambda>(d, t). all_readable d s) (rev evs) of
        None \<Rightarrow> Allow_Match (Some s) ip ua hdr
      | Some (d, t) \<Rightarrow> listed d s ip ua hdr)"
proof -
  let ?s = "\<lambda>evs. allowlist_reload.ticks evs s"
  let ?m = "\<lambda>evs. case find (\<lambda>(d, t). all_readable d s) (rev evs) of
        None \<Rightarrow> Allow_Match (Some s) ip ua hdr | Some (d, t) \<Rightarrow> listed d s ip ua hdr"
  have "Allow_Match (Some (?s evs)) ip ua hdr = ?m evs \<and> al_ipFiles (?s evs) = al_ipFiles s \<and>
      al_uaFiles (?s evs) = al_uaFiles s \<and> al_headerFiles (?s evs) = al_headerFiles s"
  proof (induction evs rule: rev_induct)
    case (snoc ev evs)
    obtain d t where ev: "ev = (d, t)" by (cases ev)
    have same: "all_readable d (?s evs) = all_readable d s" "listed d (?s evs) ip ua hdr = listed d s ip ua hdr"
      using snoc by (simp_all add: all_readable_def listed_def)
    show ?case
    proof (cases "all_readable d s")
      case True
      with reload_readable [of d "?s evs" t ip ua hdr] same obtain s' where
        "Allow_ReloadNow d t (?s evs) = (None, s')" "Allow_Match (Some s') ip ua hdr = listed d s ip ua hdr"
        "al_ipFiles s' = al_ipFiles (?s evs)" "al_uaFiles s' = al_uaFiles (?s evs)" "al_headerFiles s' = al_headerFiles (?s evs)" by blast
      then show ?thesis using True snoc by (simp add: ev allowlist_reload.ticks_snoc)
    next
      case False
      then have "?s (evs @ [ev]) = ?s evs"
        using reload_unreadable [of d "?s evs" t] same by (auto simp: ev allowlist_reload.ticks_snoc split: prod.splits option.splits)
      then show ?thesis using False snoc by (simp add: ev)
    qed
  qed simp
  then show ?thesis by (simp add: allowlist_reload.ticks_def)
qed

text \<open>A header rule with an empty value allows every request that does not carry the header: a line
  such as \<open>X-Internal-Probe:\<close> is accepted, and a missing header compares equal to its empty value.\<close>

theorem empty_value_rule_allows_all:
  "\<exists>s. Allow_Load [(''h'', ''X-Internal-Probe:'')] now Allow_New [] [] [''h''] = (None, s) \<and>
    (\<forall>ip ua h. Header_Get h ''X-Internal-Probe'' = [] \<longrightarrow> Allow_Match (Some s) ip ua (Some h))"
proof -
  have "loadHeaderFiles [(''h'', ''X-Internal-Probe:'')] [''h''] =
      Inr [\<lparr> hr_name = ''X-Internal-Probe'', hr_value = [] \<rparr>]" by code_simp
  then have "Allow_Load [(''h'', ''X-Internal-Probe:'')] now Allow_New [] [] [''h''] =
      (None, Allow_New\<lparr> al_headers := [\<lparr> hr_name = ''X-Internal-Probe'', hr_value = [] \<rparr>],
                        al_headerFiles := [''h''], al_lastReload := now \<rparr>)"
    by (simp add: Allow_Load_def allow_loadIPFiles_def allow_loadUAFiles_def List.map_filter_def Allow_New_def)
  then show ?thesis
    by (intro exI conjI, assumption) (simp add: Allow_Match_def matchHeaders_def)
qed

theorem empty_value_rule_allows_all_witness:
  "\<exists>s. Allow_Match (Some s) None ''anything'' (Some [(''Accept'', [''text/html''])]) \<and> al_ips s = [] \<and> al_uas s = []"
proof -
  from empty_value_rule_allows_all [of 5] obtain s where
    s: "Allow_Load [(''h'', ''X-Internal-Probe:'')] 5 Allow_New [] [] [''h''] = (None, s)"
      "\<forall>ip ua h. Header_Get h ''X-Internal-Probe'' = [] \<longrightarrow> Allow_Match (Some s) ip ua (Some h)" by blast
  have "Header_Get [(''Accept'', [''text/html''])] ''X-Internal-Probe'' = []" by code_simp
  moreover have "al_ips s = []" "al_uas s = []"
    using s(1) by (auto simp: Allow_Load_def allow_loadIPFiles_def allow_loadUAFiles_def List.map_filter_def Allow_New_def
        split: sum.splits)
  ultimately show ?thesis using s(2) by blast
qed

end
