(* ===== verification/Threatshare.thy ===== *)
theory Threatshare
  imports Protect GoNet
begin

text \<open>
  \<open>internal/threatshare\<close>: threat entries from the fleet ledger, applied to the local ban table and
  to an overlay of expiring User-Agent, address, JA4 and DNS blocks.  The overlay's maps are
  guarded by one lock in Go, so every operation is one step.
\<close>

section \<open>Definitions\<close>

definition ThreatKeyBind :: string where "ThreatKeyBind = ''bind''"
definition ThreatKeyUA :: string where "ThreatKeyUA = ''ua''"
definition ThreatKeyIP :: string where "ThreatKeyIP = ''ip''"
definition ThreatKeyIPHash :: string where "ThreatKeyIPHash = ''ip_hash''"
definition ThreatKeyJA4 :: string where "ThreatKeyJA4 = ''ja4''"
definition ThreatKeyDNS :: string where "ThreatKeyDNS = ''dns''"

lemmas threat_keys = ThreatKeyBind_def ThreatKeyUA_def ThreatKeyIP_def ThreatKeyIPHash_def
  ThreatKeyJA4_def ThreatKeyDNS_def

record ThreatEntry =
  te_ID :: string
  te_KeyType :: string
  te_Key :: string
  te_TTLSeconds :: int
  te_Reason :: string
  te_SourceProxyID :: string
  te_CreatedAtUnix :: int
  te_ExpiresAtUnix :: int
  te_Revision :: int

record Overlay =
  ov_ua :: "(string, gotime) gomap"
  ov_ip :: "(string, gotime) gomap"
  ov_ja4 :: "(string, gotime) gomap"
  ov_dns :: "(string, gotime) gomap"
  ov_seen :: "(string, unit) gomap"
  ov_maxEnts :: int

definition NewOverlay :: "int \<Rightarrow> Overlay" where
  "NewOverlay maxEntries =
     \<lparr> ov_ua = [], ov_ip = [], ov_ja4 = [], ov_dns = [], ov_seen = [],
       ov_maxEnts = (if maxEntries \<le> 0 then 50000 else maxEntries) \<rparr>"

text \<open>\<open>time.Unix\<close>: seconds since 1970 as an instant counted from Go's zero time.\<close>

definition time_Unix :: "int \<Rightarrow> gotime" where
  "time_Unix s = (s + 62135596800) * second"

definition threat_expiry :: "ThreatEntry \<Rightarrow> gotime \<Rightarrow> gotime" where
  "threat_expiry e now =
     (if te_ExpiresAtUnix e > 0 then time_Unix (te_ExpiresAtUnix e)
      else let ttl = (if te_TTLSeconds e \<le> 0 then 600 else te_TTLSeconds e) in now + int64 (ttl * second))"

definition putUA :: "Overlay \<Rightarrow> string \<Rightarrow> gotime \<Rightarrow> Overlay" where
  "putUA ov key ex = ov\<lparr> ov_ua := AList.update (ToLower key) ex (ov_ua ov) \<rparr>"

definition putIP :: "Overlay \<Rightarrow> string \<Rightarrow> gotime \<Rightarrow> Overlay" where
  "putIP ov key ex = ov\<lparr> ov_ip := AList.update key ex (ov_ip ov) \<rparr>"

definition putJA4 :: "Overlay \<Rightarrow> string \<Rightarrow> gotime \<Rightarrow> Overlay" where
  "putJA4 ov key ex = ov\<lparr> ov_ja4 := AList.update (ToLower key) ex (ov_ja4 ov) \<rparr>"

definition putDNS :: "Overlay \<Rightarrow> string \<Rightarrow> gotime \<Rightarrow> Overlay" where
  "putDNS ov key ex = ov\<lparr> ov_dns := AList.update (ToLower (TrimSuffix key ''.'')) ex (ov_dns ov) \<rparr>"

definition apply_key :: "Guard option \<times> Overlay option \<Rightarrow> string \<Rightarrow> string \<Rightarrow> gotime \<Rightarrow> gotime
    \<Rightarrow> bool \<times> Guard option \<times> Overlay option" where
  "apply_key st kt key ex now = (case st of (prot, ov) \<Rightarrow>
     if kt = ThreatKeyBind \<or> kt = ThreatKeyIPHash then
       (case prot of None \<Rightarrow> (False, st) | Some g \<Rightarrow> (True, Some (Guard_BanUntil g key ex now), ov))
     else if kt = ThreatKeyUA then
       (case ov of None \<Rightarrow> (False, st) | Some v \<Rightarrow> (True, prot, Some (putUA v key ex)))
     else if kt = ThreatKeyIP then
       (case ov of None \<Rightarrow> (False, st)
        | Some v \<Rightarrow> if net_ParseIP key = None then (False, st) else (True, prot, Some (putIP v key ex)))
     else if kt = ThreatKeyJA4 then
       (case ov of None \<Rightarrow> (False, st) | Some v \<Rightarrow> (True, prot, Some (putJA4 v key ex)))
     else if kt = ThreatKeyDNS then
       (case ov of None \<Rightarrow> (False, st) | Some v \<Rightarrow> (True, prot, Some (putDNS v key ex)))
     else (False, st))"

definition ApplyOne :: "Guard option \<times> Overlay option \<Rightarrow> ThreatEntry \<Rightarrow> gotime
    \<Rightarrow> bool \<times> Guard option \<times> Overlay option" where
  "ApplyOne st e now =
     (let kt = ToLower (TrimSpace (te_KeyType e)); key = TrimSpace (te_Key e); reason = TrimSpace (te_Reason e) in
      if key = [] \<or> kt = [] then (False, st)
      else if length key > 256 \<or> length reason > 128 then (False, st)
      else
        let ex = threat_expiry e now in
        if \<not> ex > now then (False, st)
        else
          case snd st of
            Some v \<Rightarrow>
              if te_ID e \<noteq> [] then
                (if map_of (ov_seen v) (te_ID e) \<noteq> None then (False, st)
                 else if int (length (ov_seen v)) \<ge> ov_maxEnts v then (False, st)
                 else apply_key (fst st, Some (v\<lparr> ov_seen := AList.update (te_ID e) () (ov_seen v) \<rparr>)) kt key ex now)
              else apply_key st kt key ex now
          | None \<Rightarrow> apply_key st kt key ex now)"

fun Apply :: "Guard option \<times> Overlay option \<Rightarrow> ThreatEntry list \<Rightarrow> gotime \<Rightarrow> nat \<times> Guard option \<times> Overlay option" where
  "Apply st [] now = (0, st)"
| "Apply st (e # es) now =
     (let (ok, st') = ApplyOne st e now; (n, st'') = Apply st' es now in ((if ok then n + 1 else n), st''))"

definition Overlay_UABlocked :: "Overlay option \<Rightarrow> string \<Rightarrow> gotime \<Rightarrow> bool" where
  "Overlay_UABlocked ov ua now =
     (case ov of None \<Rightarrow> False
      | Some v \<Rightarrow> if ua = [] then False
                  else list_ex (\<lambda>(needle, ex). \<not> now > ex \<and> Contains (ToLower ua) needle) (ov_ua v))"

definition Overlay_IPBlocked :: "Overlay option \<Rightarrow> IP option \<Rightarrow> gotime \<Rightarrow> bool" where
  "Overlay_IPBlocked ov ip now =
     (case (ov, ip) of
        (Some v, Some a) \<Rightarrow> (case map_of (ov_ip v) (IP_String a) of None \<Rightarrow> False | Some ex \<Rightarrow> now < ex)
      | _ \<Rightarrow> False)"

definition Overlay_JA4Blocked :: "Overlay option \<Rightarrow> string \<Rightarrow> gotime \<Rightarrow> bool" where
  "Overlay_JA4Blocked ov ja4 now =
     (case ov of None \<Rightarrow> False
      | Some v \<Rightarrow> if ja4 = [] then False
                  else (case map_of (ov_ja4 v) (ToLower ja4) of None \<Rightarrow> False | Some ex \<Rightarrow> now < ex))"

function ov_dns_walk :: "(string, gotime) gomap \<Rightarrow> string \<Rightarrow> gotime \<Rightarrow> bool" where
  "ov_dns_walk m h now =
     (if (case map_of m h of None \<Rightarrow> False | Some ex \<Rightarrow> now < ex) then True
      else case IndexByte h (CHR ''.'') of None \<Rightarrow> False | Some i \<Rightarrow> ov_dns_walk m (drop (Suc i) h) now)"
  by auto
termination by (relation "measure (\<lambda>(m, h, t). length h)") (auto dest: IndexByte_SomeD)

declare ov_dns_walk.simps [simp del]

definition Overlay_DNSBlocked :: "Overlay option \<Rightarrow> string \<Rightarrow> gotime \<Rightarrow> bool" where
  "Overlay_DNSBlocked ov host now =
     (case ov of None \<Rightarrow> False
      | Some v \<Rightarrow> if host = [] then False
                  else ov_dns_walk (ov_dns v) (ToLower (TrimSuffix (TrimSpace host) ''.'')) now)"

definition Overlay_Sweep :: "Overlay \<Rightarrow> gotime \<Rightarrow> Overlay" where
  "Overlay_Sweep v now =
     v\<lparr> ov_ua := mpurge (\<lambda>k ex. now > ex) (ov_ua v), ov_ip := mpurge (\<lambda>k ex. now > ex) (ov_ip v),
        ov_ja4 := mpurge (\<lambda>k ex. now > ex) (ov_ja4 v), ov_dns := mpurge (\<lambda>k ex. now > ex) (ov_dns v),
        ov_seen := (if int (length (ov_seen v)) > ov_maxEnts v div 2 then [] else ov_seen v) \<rparr>"

definition Overlay_Stats :: "Overlay option \<Rightarrow> (string, nat) gomap" where
  "Overlay_Stats ov =
     (case ov of None \<Rightarrow> []
      | Some v \<Rightarrow> [(''ua'', length (ov_ua v)), (''ip'', length (ov_ip v)), (''ja4'', length (ov_ja4 v)),
                    (''dns'', length (ov_dns v)), (''seen'', length (ov_seen v))])"

definition ShardKey :: "string \<Rightarrow> 32 word" where
  "ShardKey key = strhash_String key"

section \<open>Invariant\<close>

definition overlay_ok :: "Overlay \<Rightarrow> bool" where
  "overlay_ok v \<longleftrightarrow> wf_map (ov_ua v) \<and> wf_map (ov_ip v) \<and> wf_map (ov_ja4 v) \<and> wf_map (ov_dns v) \<and>
     wf_map (ov_seen v) \<and> 0 < ov_maxEnts v \<and> int (length (ov_seen v)) \<le> ov_maxEnts v"

lemma overlay_ok_New: "overlay_ok (NewOverlay n)"
  by (simp add: overlay_ok_def NewOverlay_def)

lemma overlay_ok_put:
  "overlay_ok v \<Longrightarrow> overlay_ok (putUA v k x)" "overlay_ok v \<Longrightarrow> overlay_ok (putIP v k x)"
  "overlay_ok v \<Longrightarrow> overlay_ok (putJA4 v k x)" "overlay_ok v \<Longrightarrow> overlay_ok (putDNS v k x)"
  by (simp_all add: overlay_ok_def putUA_def putIP_def putJA4_def putDNS_def)

lemma overlay_ok_apply_key:
  "(\<forall>v. snd st = Some v \<longrightarrow> overlay_ok v) \<Longrightarrow> apply_key st kt key ex now = (b, g', Some v') \<Longrightarrow> overlay_ok v'"
  by (cases st) (auto simp: apply_key_def overlay_ok_put split: if_splits option.splits)

lemma overlay_ok_seen:
  "overlay_ok v \<Longrightarrow> int (length (ov_seen v)) < ov_maxEnts v \<Longrightarrow>
   overlay_ok (v\<lparr> ov_seen := AList.update i () (ov_seen v) \<rparr>)"
  by (auto simp: overlay_ok_def length_update)

lemma overlay_ok_ApplyOne:
  "(\<forall>v. snd st = Some v \<longrightarrow> overlay_ok v) \<Longrightarrow> ApplyOne st e now = (b, g', Some v') \<Longrightarrow> overlay_ok v'"
  unfolding ApplyOne_def Let_def
  by (auto split: if_splits option.splits simp: overlay_ok_seen elim!: overlay_ok_apply_key [rotated])

lemma overlay_ok_Apply:
  "(\<forall>v. snd st = Some v \<longrightarrow> overlay_ok v) \<Longrightarrow> Apply st es now = (n, g', Some v') \<Longrightarrow> overlay_ok v'"
proof (induction es arbitrary: st n)
  case (Cons e es)
  obtain ok g1 o1 where one: "ApplyOne st e now = (ok, g1, o1)" by (cases "ApplyOne st e now") auto
  obtain m st2 where rest: "Apply (g1, o1) es now = (m, st2)" by (cases "Apply (g1, o1) es now") auto
  have "\<forall>v. snd (g1, o1) = Some v \<longrightarrow> overlay_ok v" using overlay_ok_ApplyOne [OF Cons.prems(1)] one by auto
  then show ?case using Cons.IH [of "(g1, o1)" m] Cons.prems(2) one rest by (auto simp: Let_def)
qed auto

lemma overlay_ok_Sweep: "overlay_ok v \<Longrightarrow> overlay_ok (Overlay_Sweep v t)"
  by (auto simp: overlay_ok_def Overlay_Sweep_def)

section \<open>Sweeping\<close>

lemma map_of_sweep:
  "wf_map m \<Longrightarrow> t \<le> s \<Longrightarrow>
   (case map_of (mpurge (\<lambda>k ex. t > ex) m) k of None \<Rightarrow> False | Some ex \<Rightarrow> s < ex) =
   (case map_of m k of None \<Rightarrow> False | Some ex \<Rightarrow> s < (ex :: gotime))"
  by (auto simp: map_of_mpurge split: option.splits)

lemma dns_walk_sweep:
  "wf_map m \<Longrightarrow> t \<le> s \<Longrightarrow> ov_dns_walk (mpurge (\<lambda>k ex. t > ex) m) h s = ov_dns_walk m h s"
proof (induction m h s rule: ov_dns_walk.induct)
  case (1 m h s)
  show ?case
  proof (cases "IndexByte h (CHR ''.'')")
    case None
    show ?thesis
      by (subst (1 2) ov_dns_walk.simps) (simp only: map_of_sweep [OF "1.prems"] None option.case)
  next
    case (Some i)
    show ?thesis
    proof (cases "case map_of m h of None \<Rightarrow> False | Some ex \<Rightarrow> s < ex")
      case True
      then show ?thesis by (subst (1 2) ov_dns_walk.simps) (simp only: map_of_sweep [OF "1.prems"] if_True)
    next
      case False
      then have "ov_dns_walk (mpurge (\<lambda>k ex. t > ex) m) (drop (Suc i) h) s = ov_dns_walk m (drop (Suc i) h) s"
        using "1.IH" [OF False Some "1.prems"] by simp
      then show ?thesis
        by (subst (1 2) ov_dns_walk.simps) (simp only: map_of_sweep [OF "1.prems"] Some option.case)
    qed
  qed
qed

lemma overlay_sweep_transparent:
  assumes "overlay_ok v" "t \<le> s"
  shows "Overlay_UABlocked (Some (Overlay_Sweep v t)) ua s = Overlay_UABlocked (Some v) ua s"
    "Overlay_IPBlocked (Some (Overlay_Sweep v t)) ip s = Overlay_IPBlocked (Some v) ip s"
    "Overlay_JA4Blocked (Some (Overlay_Sweep v t)) ja4 s = Overlay_JA4Blocked (Some v) ja4 s"
    "Overlay_DNSBlocked (Some (Overlay_Sweep v t)) host s = Overlay_DNSBlocked (Some v) host s"
proof -
  have wf: "wf_map (ov_ip v)" "wf_map (ov_ja4 v)" "wf_map (ov_dns v)" using assms(1) by (auto simp: overlay_ok_def)
  show "Overlay_UABlocked (Some (Overlay_Sweep v t)) ua s = Overlay_UABlocked (Some v) ua s"
    using assms(2) by (fastforce simp: Overlay_UABlocked_def Overlay_Sweep_def mpurge_def list_ex_iff)
  show "Overlay_IPBlocked (Some (Overlay_Sweep v t)) ip s = Overlay_IPBlocked (Some v) ip s"
    using map_of_sweep [OF wf(1) assms(2)]
    by (simp add: Overlay_IPBlocked_def Overlay_Sweep_def split: option.splits)
  show "Overlay_JA4Blocked (Some (Overlay_Sweep v t)) ja4 s = Overlay_JA4Blocked (Some v) ja4 s"
    using map_of_sweep [OF wf(2) assms(2), of "ToLower ja4"]
    by (simp add: Overlay_JA4Blocked_def Overlay_Sweep_def)
  show "Overlay_DNSBlocked (Some (Overlay_Sweep v t)) host s = Overlay_DNSBlocked (Some v) host s"
    using dns_walk_sweep [OF wf(3) assms(2)] by (simp add: Overlay_DNSBlocked_def Overlay_Sweep_def)
qed

section \<open>Properties\<close>

text \<open>A ban shared by the fleet is enforced: when an entry for a client key is accepted, that client is
  banned locally exactly until the entry's expiry and no other client's ban changes; the
  same entry identifier is not accepted a second time; and sweeping the overlay never changes
  what it blocks, now or later.\<close>

theorem shared_ban_enforced:
  assumes "guard_on g" "overlay_ok v"
    and "ApplyOne (Some g, Some v) e now = (True, Some g', Some v')"
    and "ToLower (TrimSpace (te_KeyType e)) = ThreatKeyBind" "0 < now"
  shows "banned g' (TrimSpace (te_Key e)) s = (s \<le> threat_expiry e now) \<and>
    (k \<noteq> TrimSpace (te_Key e) \<longrightarrow> banned g' k s = banned g k s) \<and>
    (te_ID e \<noteq> [] \<longrightarrow> \<not> fst (ApplyOne (Some g', Some v') e now)) \<and>
    (now \<le> s \<longrightarrow> Overlay_UABlocked (Some (Overlay_Sweep v now)) ua s = Overlay_UABlocked (Some v) ua s \<and>
       Overlay_DNSBlocked (Some (Overlay_Sweep v now)) host s = Overlay_DNSBlocked (Some v) host s)"
proof -
  let ?k = "TrimSpace (te_Key e)" and ?x = "threat_expiry e now"
  have k: "?k \<noteq> []" and x: "now < ?x" and g': "g' = Guard_BanUntil g ?k ?x now"
    and seen: "te_ID e \<noteq> [] \<longrightarrow> map_of (ov_seen v') (te_ID e) = Some ()"
    using assms(3,4) unfolding ApplyOne_def Let_def
    by (auto simp: apply_key_def threat_keys split: if_splits)
  have "banned g' ?k s \<longleftrightarrow> s \<le> ?x"
    unfolding g' using x assms(5) k by (intro guard_bans.ban_hit [OF assms(1)]) auto
  moreover have "k \<noteq> ?k \<longrightarrow> banned g' k s = banned g k s"
    unfolding g' using guard_bans.ban_other [OF assms(1)] by blast
  moreover have "te_ID e \<noteq> [] \<longrightarrow> \<not> fst (ApplyOne (Some g', Some v') e now)"
    using seen by (auto simp: ApplyOne_def Let_def)
  ultimately show ?thesis using overlay_sweep_transparent(1,4) [OF assms(2)] by blast
qed

definition demo_entry :: "string \<Rightarrow> string \<Rightarrow> ThreatEntry" where
  "demo_entry kt key = \<lparr> te_ID = ''e1'', te_KeyType = kt, te_Key = key, te_TTLSeconds = 60, te_Reason = [],
     te_SourceProxyID = [], te_CreatedAtUnix = 0, te_ExpiresAtUnix = 0, te_Revision = 0 \<rparr>"

lemma demo_entry_simps:
  "TrimSpace (te_KeyType (demo_entry ''bind'' ''c1'')) = ''bind''" "ToLower ''bind'' = ''bind''"
  "TrimSpace (te_Key (demo_entry ''bind'' ''c1'')) = ''c1''" "TrimSpace (te_Reason (demo_entry ''bind'' ''c1'')) = []"
  "threat_expiry (demo_entry ''bind'' ''c1'') 5 = 5 + 60 * second"
  by code_simp+

theorem shared_ban_enforced_witness:
  "\<exists>g' v'. ApplyOne (Some (Guard_New demo_cfg), Some (NewOverlay 10)) (demo_entry ''bind'' ''c1'') 5 =
      (True, Some g', Some v') \<and> banned g' ''c1'' (60 * second)"
proof -
  let ?e = "demo_entry ''bind'' ''c1''"
  have ap: "ApplyOne (Some (Guard_New demo_cfg), Some (NewOverlay 10)) ?e 5 =
      (True, Some (Guard_BanUntil (Guard_New demo_cfg) ''c1'' (5 + 60 * second) 5),
       Some ((NewOverlay 10)\<lparr> ov_seen := [(''e1'', ())] \<rparr>))"
    unfolding ApplyOne_def Let_def demo_entry_simps
    by (simp add: demo_entry_def NewOverlay_def apply_key_def threat_keys second_def)
  have kt: "ToLower (TrimSpace (te_KeyType ?e)) = ThreatKeyBind"
    unfolding demo_entry_simps by (simp add: threat_keys)
  show ?thesis
  proof (intro exI conjI)
    show "ApplyOne (Some (Guard_New demo_cfg), Some (NewOverlay 10)) ?e 5 =
      (True, Some (Guard_BanUntil (Guard_New demo_cfg) ''c1'' (5 + 60 * second) 5),
       Some ((NewOverlay 10)\<lparr> ov_seen := [(''e1'', ())] \<rparr>))" by (rule ap)
    show "banned (Guard_BanUntil (Guard_New demo_cfg) ''c1'' (5 + 60 * second) 5) ''c1'' (60 * second)"
      by (rule shared_ban_enforced [OF demo_on overlay_ok_New ap kt zero_less_numeral, THEN conjunct1,
            unfolded demo_entry_simps, THEN iffD2]) simp
  qed
qed

text \<open>A shared address block is enforced only when its text is canonical: an entry whose address is
  written differently from how Go prints it (here with an uppercase digit) is accepted and
  counted as applied, but the address it names is never blocked by it.\<close>

theorem shared_ip_not_enforced:
  "\<exists>g' v'. ApplyOne (None, Some (NewOverlay 10)) (demo_entry ''ip'' ''::A'') 5 = (True, g', Some v') \<and>
    net_ParseIP ''::A'' = Some (V6 0xA) \<and>
    (\<forall>t. \<not> Overlay_IPBlocked (Some v') (Some (V6 0xA)) t)"
proof -
  let ?e = "demo_entry ''ip'' ''::A''" and ?a = "V6 0xA"
  have s: "TrimSpace (te_KeyType ?e) = ''ip''" "ToLower ''ip'' = ''ip''" "TrimSpace (te_Key ?e) = ''::A''"
    "TrimSpace (te_Reason ?e) = []" "threat_expiry ?e 5 = 5 + 60 * second"
    "net_ParseIP ''::A'' = Some ?a" "IP_String ?a = ''::a''" by code_simp+
  let ?v = "putIP ((NewOverlay 10)\<lparr> ov_seen := [(''e1'', ())] \<rparr>) ''::A'' (5 + 60 * second)"
  have ap: "ApplyOne (None, Some (NewOverlay 10)) ?e 5 = (True, None, Some ?v)"
    unfolding ApplyOne_def Let_def s
    by (simp add: demo_entry_def NewOverlay_def apply_key_def threat_keys second_def s)
  have "\<not> Overlay_IPBlocked (Some ?v) (Some ?a) t" for t
    by (simp add: Overlay_IPBlocked_def putIP_def NewOverlay_def s)
  then show ?thesis using ap s(6) by blast
qed

end
