(* ===== verification/Access.thy ===== *)
theory Access
  imports GoHttp Iputil
begin

text \<open>
  \<open>internal/access\<close>: access policies for routes (password, PIN, address, header and User-Agent rules), the
  secrets' argon2id encoding and the signed clearance cookie.  HMAC-SHA256 is a parameter \<open>hm\<close> (key and
  message to digest), \<open>golang.org/x/crypto/argon2\<close> a parameter \<open>argon\<close> whose \<open>None\<close> is its
  panic, and the random salts are inputs; the clock is the argument \<open>now\<close> in nanoseconds.
\<close>

section \<open>Secrets\<close>

type_synonym argon2 = "string \<Rightarrow> string \<Rightarrow> nat \<Rightarrow> nat \<Rightarrow> nat \<Rightarrow> nat \<Rightarrow> string option"

definition argonTime :: nat where "argonTime = 3"
definition argonMemory :: nat where "argonMemory = 64 * 1024"
definition argonThreads :: nat where "argonThreads = 1"
definition argonKeyLen :: nat where "argonKeyLen = 32"
definition argonSaltLen :: nat where "argonSaltLen = 16"
definition argonVersion :: nat where "argonVersion = 19"
definition MinPINLen :: int where "MinPINLen = 4"
definition MinPasswordLen :: int where "MinPasswordLen = 8"
definition MaxSecretLen :: int where "MaxSecretLen = 128"

datatype secret_error = ErrInvalidHash | ErrSecretMismatch | ErrSecretTooShort | ErrSecretTooLong | ErrRand | ArgonPanic

definition ValidateSecret :: "string \<Rightarrow> int \<Rightarrow> secret_error option" where
  "ValidateSecret secret minLen =
     (let minLen = (if minLen < 1 then MinPINLen else minLen) in
      if int (length secret) < minLen then Some ErrSecretTooShort
      else if int (length secret) > MaxSecretLen then Some ErrSecretTooLong
      else None)"

text \<open>\<open>salt\<close> is what \<open>rand.Read\<close> gave, \<open>None\<close> its error.\<close>

definition HashSecret :: "argon2 \<Rightarrow> string option \<Rightarrow> string \<Rightarrow> int \<Rightarrow> secret_error + string" where
  "HashSecret argon salt secret minLen =
     (case ValidateSecret secret minLen of
        Some e \<Rightarrow> Inl e
      | None \<Rightarrow>
          (case salt of
             None \<Rightarrow> Inl ErrRand
           | Some sl \<Rightarrow>
               (case argon secret sl argonTime argonMemory argonThreads argonKeyLen of
                  None \<Rightarrow> Inl ArgonPanic
                | Some hash \<Rightarrow>
                    Inr (''$argon2id$v='' @ FormatUint argonVersion @ ''$m='' @ FormatUint argonMemory @ '',t='' @ FormatUint argonTime @
                         '',p='' @ FormatUint argonThreads @ ''$'' @ RawEncodeToString b64_std sl @ ''$'' @ RawEncodeToString b64_std hash))))"

text \<open>\<open>fmt.Sscanf\<close> with \<open>v=%d\<close> into an \<open>int\<close>, whose value is not used.\<close>

definition scan_version :: "string \<Rightarrow> bool" where
  "scan_version s =
     (case scan_lit ''v='' s of
        None \<Rightarrow> False
      | Some t \<Rightarrow> (case scan_uint (2 ^ 63) t of
                    Some _ \<Rightarrow> True
                  | None \<Rightarrow> (let u = dropWhile is_space t in
                             u \<noteq> [] \<and> CHR 0x0A \<notin> set (takeWhile is_space t) \<and>
                             ((hd u = CHR ''-'' \<and> (case dec_nat (takeWhile is_digit (tl u)) of Some n \<Rightarrow> n \<le> 2 ^ 63 | None \<Rightarrow> False)) \<or>
                              (hd u = CHR ''+'' \<and> (case dec_nat (takeWhile is_digit (tl u)) of Some n \<Rightarrow> n < 2 ^ 63 | None \<Rightarrow> False))))))"

definition scan_params :: "string \<Rightarrow> (nat \<times> nat \<times> nat) option" where
  "scan_params s =
     Option.bind (scan_lit ''m='' s) (\<lambda>s. Option.bind (scan_uint (2 ^ 32) s) (\<lambda>(m, s).
     Option.bind (scan_lit '',t='' s) (\<lambda>s. Option.bind (scan_uint (2 ^ 32) s) (\<lambda>(t, s).
     Option.bind (scan_lit '',p='' s) (\<lambda>s. Option.bind (scan_uint (2 ^ 8) s) (\<lambda>(p, s). Some (m, t, p)))))))"

definition VerifySecret :: "argon2 \<Rightarrow> string \<Rightarrow> string \<Rightarrow> secret_error option" where
  "VerifySecret argon encoded secret =
     (let parts = Split (CHR ''$'') encoded in
      if length parts \<noteq> 6 \<or> parts ! 1 \<noteq> ''argon2id'' then Some ErrInvalidHash
      else if \<not> scan_version (parts ! 2) then Some ErrInvalidHash
      else case scan_params (parts ! 3) of
        None \<Rightarrow> Some ErrInvalidHash
      | Some (memory, timeCost, threads) \<Rightarrow>
          (case RawDecodeString b64_std (parts ! 4) of
             None \<Rightarrow> Some ErrInvalidHash
           | Some sl \<Rightarrow>
               (case RawDecodeString b64_std (parts ! 5) of
                  None \<Rightarrow> Some ErrInvalidHash
                | Some want \<Rightarrow>
                    if length want = 0 \<or> length want > 64 then Some ErrInvalidHash
                    else (case argon secret sl timeCost memory threads (length want) of
                            None \<Rightarrow> Some ArgonPanic
                          | Some got \<Rightarrow> if got \<noteq> want then Some ErrSecretMismatch else None))))"

section \<open>Policies\<close>

definition RulePassword :: string where "RulePassword = ''password''"
definition RulePIN :: string where "RulePIN = ''pin''"
definition RuleIPAllowlist :: string where "RuleIPAllowlist = ''ip_allowlist''"
definition RuleHeader :: string where "RuleHeader = ''header''"
definition RuleUserAgent :: string where "RuleUserAgent = ''user_agent''"
definition ModeAll :: string where "ModeAll = ''all''"
definition ModeAny :: string where "ModeAny = ''any''"
definition AccessCookieName :: string where "AccessCookieName = ''rg_access''"
definition defaultCookieTTL :: duration where "defaultCookieTTL = 24 * hour"

record Rule =
  rl_Type :: string
  rl_Secret :: string
  rl_SecretHash :: string
  rl_HeaderName :: string
  rl_HeaderValue :: string
  rl_CIDRs :: "string list"
  rl_UserAgents :: "string list"

record Policy =
  po_ID :: string
  po_Name :: string
  po_Mode :: string
  po_Rules :: "Rule list"
  po_CookieTTL :: duration

record compiledRule =
  cr_Rule :: Rule
  cr_nets :: "IPNet list"

record compiledPolicy =
  cp_Policy :: Policy
  cp_rules :: "compiledRule list"

record AccessManager =
  am_Secret :: string
  am_Brand :: string
  am_CookieName :: string
  am_policies :: "(string, compiledPolicy) gomap"

definition NewManager :: "string \<Rightarrow> AccessManager" where
  "NewManager secret = \<lparr> am_Secret = secret, am_Brand = ''RavenGuard'', am_CookieName = AccessCookieName, am_policies = [] \<rparr>"

definition am_cookieName :: "AccessManager option \<Rightarrow> string" where
  "am_cookieName m = (case m of Some m \<Rightarrow> if am_CookieName m \<noteq> [] then am_CookieName m else AccessCookieName | None \<Rightarrow> AccessCookieName)"

definition normalizeMode :: "string \<Rightarrow> string" where
  "normalizeMode mode = (if mode = ModeAny then ModeAny else ModeAll)"

definition compileRule :: "argon2 \<Rightarrow> string option \<Rightarrow> Rule \<Rightarrow> compiledRule" where
  "compileRule argon salt r =
     (if rl_Type r = RulePassword \<or> rl_Type r = RulePIN then
        let minLen = (if rl_Type r = RulePIN then MinPINLen else MinPasswordLen) in
        if rl_Secret r \<noteq> [] then
          \<lparr> cr_Rule = (case HashSecret argon salt (rl_Secret r) minLen of
                          Inr h \<Rightarrow> r\<lparr> rl_SecretHash := h, rl_Secret := [] \<rparr>
                        | Inl _ \<Rightarrow> r\<lparr> rl_Secret := [] \<rparr>), cr_nets = [] \<rparr>
        else \<lparr> cr_Rule = r, cr_nets = [] \<rparr>
      else if rl_Type r = RuleIPAllowlist then
        \<lparr> cr_Rule = r, cr_nets = (case ParseCIDRs (rl_CIDRs r) of Inr nets \<Rightarrow> nets | Inl _ \<Rightarrow> []) \<rparr>
      else \<lparr> cr_Rule = r, cr_nets = [] \<rparr>)"

definition compilePolicy :: "argon2 \<Rightarrow> (nat \<Rightarrow> string option) \<Rightarrow> Policy \<Rightarrow> compiledPolicy" where
  "compilePolicy argon rnd p =
     (let rules = map (\<lambda>(i, r). compileRule argon (rnd i) r) (enumerate 0 (po_Rules p))
      in \<lparr> cp_Policy = \<lparr> po_ID = po_ID p, po_Name = po_Name p, po_Mode = normalizeMode (po_Mode p), po_Rules = map cr_Rule rules,
                          po_CookieTTL = (if po_CookieTTL p \<le> 0 then defaultCookieTTL else po_CookieTTL p) \<rparr>,
           cp_rules = rules \<rparr>)"

text \<open>\<open>rnd i j\<close> is the salt read for rule \<open>j\<close> of the policy at position \<open>i\<close>.\<close>

definition access_Replace :: "argon2 \<Rightarrow> (nat \<Rightarrow> nat \<Rightarrow> string option) \<Rightarrow> AccessManager \<Rightarrow> Policy list \<Rightarrow> AccessManager" where
  "access_Replace argon rnd m ps =
     m\<lparr> am_policies := fold (\<lambda>(i, p) next. if po_ID p = [] then next else AList.update (po_ID p) (compilePolicy argon (rnd i) p) next)
                          (enumerate 0 ps) [] \<rparr>"

definition getCompiled :: "AccessManager \<Rightarrow> string \<Rightarrow> compiledPolicy option" where
  "getCompiled m i = map_of (am_policies m) i"

definition access_Get :: "AccessManager \<Rightarrow> string \<Rightarrow> Policy option" where
  "access_Get m i = map_option cp_Policy (map_of (am_policies m) i)"

definition policy_ttl :: "Policy \<Rightarrow> duration" where
  "policy_ttl p = (if po_CookieTTL p > 0 then po_CookieTTL p else defaultCookieTTL)"

section \<open>Clearance cookie\<close>

definition access_mac :: "(string \<Rightarrow> string \<Rightarrow> string) \<Rightarrow> AccessManager \<Rightarrow> string \<Rightarrow> string" where
  "access_mac hm m payload = hex_encode (hm (am_Secret m) payload)"

record HttpCookie =
  ck_Name :: string
  ck_Value :: string
  ck_Path :: string
  ck_Expires :: gotime
  ck_MaxAge :: int
  ck_HttpOnly :: bool
  ck_Secure :: bool
  ck_SameSiteLax :: bool

definition unix_sec :: "gotime \<Rightarrow> int" where
  "unix_sec t = t div second"

definition duration_seconds :: "duration \<Rightarrow> int" where
  "duration_seconds d = (if d < 0 then - (- d div second) else d div second)"

definition IssueCookie :: "(string \<Rightarrow> string \<Rightarrow> string) \<Rightarrow> AccessManager \<Rightarrow> string \<Rightarrow> string \<Rightarrow> bool \<Rightarrow> gotime \<Rightarrow> HttpCookie" where
  "IssueCookie hm m policyID bindID secure now =
     (let ttl = (case access_Get m policyID of Some p \<Rightarrow> policy_ttl p | None \<Rightarrow> defaultCookieTTL);
          expi = now + ttl;
          bindMAC = access_mac hm m bindID;
          payload = policyID @ ''|'' @ FormatInt (unix_sec expi) @ ''|'' @ bindMAC;
          mac = access_mac hm m payload
      in \<lparr> ck_Name = am_cookieName (Some m), ck_Value = payload @ ''|'' @ mac, ck_Path = ''/'', ck_Expires = expi,
           ck_MaxAge = duration_seconds ttl, ck_HttpOnly = True, ck_Secure = secure, ck_SameSiteLax = True \<rparr>)"

definition access_validateCookie :: "(string \<Rightarrow> string \<Rightarrow> string) \<Rightarrow> AccessManager \<Rightarrow> string \<Rightarrow> string \<Rightarrow> string \<Rightarrow> gotime \<Rightarrow> bool" where
  "access_validateCookie hm m val policyID bindID now =
     (let parts = Split (CHR ''|'') val in
      if length parts \<noteq> 4 then False
      else if parts ! 0 \<noteq> policyID then False
      else case ParseInt (parts ! 1) of
             None \<Rightarrow> False
           | Some expi \<Rightarrow>
               if unix_sec now > expi then False
               else if access_mac hm m bindID \<noteq> parts ! 2 then False
               else access_mac hm m (parts ! 0 @ ''|'' @ parts ! 1 @ ''|'' @ parts ! 2) = parts ! 3)"

definition VerifyCookie :: "(string \<Rightarrow> string \<Rightarrow> string) \<Rightarrow> AccessManager \<Rightarrow> Request \<Rightarrow> string \<Rightarrow> string \<Rightarrow> gotime \<Rightarrow> bool" where
  "VerifyCookie hm m r policyID bindID now =
     (case Request_Cookie r (am_cookieName (Some m)) of
        None \<Rightarrow> False
      | Some v \<Rightarrow> if v = [] then False else access_validateCookie hm m v policyID bindID now)"

section \<open>Checking a request\<close>

record Result =
  rs_OK :: bool
  rs_NeedForm :: bool
  rs_Status :: int
  rs_Reason :: string

definition allow :: Result where
  "allow = \<lparr> rs_OK = True, rs_NeedForm = False, rs_Status = 200, rs_Reason = [] \<rparr>"

definition needForm :: "string \<Rightarrow> Result" where
  "needForm reason = \<lparr> rs_OK = False, rs_NeedForm = True, rs_Status = 401, rs_Reason = reason \<rparr>"

definition deny :: "string \<Rightarrow> Result" where
  "deny reason = \<lparr> rs_OK = False, rs_NeedForm = False, rs_Status = 403, rs_Reason = reason \<rparr>"

definition access_matchIP :: "IPNet list \<Rightarrow> IP option \<Rightarrow> bool" where
  "access_matchIP nets ip = (case ip of None \<Rightarrow> False | Some i \<Rightarrow> if nets = [] then False else ContainsIP nets i)"

definition matchHeader :: "Request \<Rightarrow> string \<Rightarrow> string \<Rightarrow> bool" where
  "matchHeader r name want = (if name = [] then False else Header_Get (req_Header r) name = want)"

fun ua_loop :: "string \<Rightarrow> string list \<Rightarrow> bool" where
  "ua_loop ua [] = False"
| "ua_loop ua (sub # subs) = (if sub = [] then ua_loop ua subs else if Contains ua sub then True else ua_loop ua subs)"

definition matchUserAgent :: "Request \<Rightarrow> string list \<Rightarrow> bool" where
  "matchUserAgent r uas =
     (if uas = [] then False
      else let ua = Header_Get (req_Header r) ''User-Agent'' in if ua = [] then False else ua_loop ua uas)"

fun checkAll_loop :: "Request \<Rightarrow> IP option \<Rightarrow> bool \<Rightarrow> compiledRule list \<Rightarrow> Result" where
  "checkAll_loop r ip needAuth [] = (if needAuth then needForm ''authentication required'' else allow)"
| "checkAll_loop r ip needAuth (rule # rules) =
     (let t = rl_Type (cr_Rule rule) in
      if t = RulePassword \<or> t = RulePIN then checkAll_loop r ip True rules
      else if t = RuleIPAllowlist then
        (if \<not> access_matchIP (cr_nets rule) ip then deny ''ip not allowed'' else checkAll_loop r ip needAuth rules)
      else if t = RuleHeader then
        (if \<not> matchHeader r (rl_HeaderName (cr_Rule rule)) (rl_HeaderValue (cr_Rule rule)) then deny ''header mismatch''
         else checkAll_loop r ip needAuth rules)
      else if t = RuleUserAgent then
        (if \<not> matchUserAgent r (rl_UserAgents (cr_Rule rule)) then deny ''user agent not allowed''
         else checkAll_loop r ip needAuth rules)
      else deny ''unknown rule type'')"

definition checkAll :: "Request \<Rightarrow> compiledPolicy \<Rightarrow> IP option \<Rightarrow> Result" where
  "checkAll r cp ip = checkAll_loop r ip False (cp_rules cp)"

fun checkAny_loop :: "Request \<Rightarrow> IP option \<Rightarrow> bool \<Rightarrow> compiledRule list \<Rightarrow> Result" where
  "checkAny_loop r ip hasAuth [] = (if hasAuth then needForm ''authentication required'' else deny ''access denied'')"
| "checkAny_loop r ip hasAuth (rule # rules) =
     (let t = rl_Type (cr_Rule rule) in
      if t = RulePassword \<or> t = RulePIN then checkAny_loop r ip True rules
      else if t = RuleIPAllowlist \<and> access_matchIP (cr_nets rule) ip then allow
      else if t = RuleHeader \<and> matchHeader r (rl_HeaderName (cr_Rule rule)) (rl_HeaderValue (cr_Rule rule)) then allow
      else if t = RuleUserAgent \<and> matchUserAgent r (rl_UserAgents (cr_Rule rule)) then allow
      else checkAny_loop r ip hasAuth rules)"

definition checkAny :: "Request \<Rightarrow> compiledPolicy \<Rightarrow> IP option \<Rightarrow> Result" where
  "checkAny r cp ip = checkAny_loop r ip False (cp_rules cp)"

definition access_Check :: "(string \<Rightarrow> string \<Rightarrow> string) \<Rightarrow> AccessManager \<Rightarrow> Request \<Rightarrow> string \<Rightarrow> string \<Rightarrow> IP option \<Rightarrow> gotime \<Rightarrow> Result" where
  "access_Check hm m r policyID bindID clientIP now =
     (if policyID = [] then allow
      else case getCompiled m policyID of
             None \<Rightarrow> deny ''unknown access policy''
           | Some cp \<Rightarrow>
               if VerifyCookie hm m r policyID bindID now then allow
               else if length (cp_rules cp) = 0 then allow
               else if po_Mode (cp_Policy cp) = ModeAny then checkAny r cp clientIP
               else checkAll r cp clientIP)"

fun form_loop :: "argon2 \<Rightarrow> string \<Rightarrow> nat \<times> nat \<Rightarrow> compiledRule list \<Rightarrow> nat \<times> nat" where
  "form_loop argon secret acc [] = acc"
| "form_loop argon secret (matched, needed) (rule # rules) =
     (let t = rl_Type (cr_Rule rule); h = rl_SecretHash (cr_Rule rule) in
      if t \<noteq> RulePassword \<and> t \<noteq> RulePIN then form_loop argon secret (matched, needed) rules
      else if h = [] then form_loop argon secret (matched, needed + 1) rules
      else if VerifySecret argon h secret = None then form_loop argon secret (matched + 1, needed + 1) rules
      else form_loop argon secret (matched, needed + 1) rules)"

definition VerifyForm :: "argon2 \<Rightarrow> AccessManager \<Rightarrow> string \<Rightarrow> string \<Rightarrow> bool" where
  "VerifyForm argon m policyID secret =
     (case getCompiled m policyID of
        None \<Rightarrow> False
      | Some cp \<Rightarrow>
          if secret = [] then False
          else let (matched, needed) = form_loop argon secret (0, 0) (cp_rules cp) in
            if needed = 0 then False
            else if po_Mode (cp_Policy cp) = ModeAny then matched > 0
            else matched = needed)"

section \<open>The form\<close>

definition html_escape :: "char \<Rightarrow> string" where
  "html_escape c =
     (if c = CHR ''<'' then ''&lt;'' else if c = CHR ''>'' then ''&gt;'' else if c = CHR ''&'' then ''&amp;''
      else if byte_of c = 39 then ''&#39;'' else if byte_of c = 34 then ''&#34;'' else [c])"

definition EscapeString :: "string \<Rightarrow> string" where
  "EscapeString s = concat (map html_escape s)"

definition nl :: string where "nl = [CHR 0x0A]"

record Response =
  resp_Status :: int
  resp_Header :: Header
  resp_Body :: string

definition WriteForm :: "string \<Rightarrow> string \<Rightarrow> string \<Rightarrow> Response" where
  \<open>WriteForm brand kind action =
     (let brand = (if brand = [] then ''RavenGuard'' else brand);
          inputType = ''password'';
          label = (if kind = RulePIN then ''PIN'' else ''Password'');
          autocomplete = (if kind = RulePIN then ''one-time-code'' else ''current-password'');
          name = (if kind = RulePIN then ''pin'' else ''password'');
          title = EscapeString brand @ '' Access'';
          safeBrand = EscapeString brand;
          safeLabel = EscapeString label;
          safeAction = EscapeString action
      in \<lparr> resp_Status = 401,
           resp_Header = Header_Set (Header_Set [] ''Content-Type'' ''text/html; charset=utf-8'') ''Cache-Control'' ''no-store'',
           resp_Body = concat [
           ''<!DOCTYPE html>'' @ nl @ ''<html lang="en">'' @ nl @ ''<head>'' @ nl,
           ''<meta charset="utf-8">'' @ nl,
           ''<meta name="viewport" content="width=device-width, initial-scale=1">'' @ nl,
           ''<meta name="robots" content="noindex,nofollow">'' @ nl,
           ''<title>'',
           title,
           ''</title>'' @ nl @ ''<style>'' @ nl,
           '':root{--bg:#0f1419;--fg:#e7ecf1;--muted:#9aa7b5;--accent:#3d8bfd;--card:#1a222c;--border:#2a3542;}'',
           ''*{box-sizing:border-box;}body{margin:0;min-height:100vh;display:flex;align-items:center;justify-content:center;'',
           ''font-family:ui-sans-serif,system-ui,sans-serif;background:radial-gradient(1200px 600px at 20% -10%,#1b2a3d,var(--bg));color:var(--fg);}'',
           ''.wrap{width:min(100%,22rem);padding:1.5rem;}'',
           ''h1{margin:0 0 .35rem;font-size:1.35rem;letter-spacing:.02em;}'',
           ''p{margin:0 0 1.25rem;color:var(--muted);font-size:.95rem;}'',
           ''form{background:var(--card);border:1px solid var(--border);padding:1.25rem;}'',
           ''label{display:block;font-size:.85rem;margin-bottom:.4rem;color:var(--muted);}'',
           ''input{width:100%;padding:.65rem .7rem;border:1px solid var(--border);background:#121820;color:var(--fg);font-size:1rem;}'',
           ''button{margin-top:1rem;width:100%;padding:.7rem;border:0;background:var(--accent);color:#fff;font-weight:600;cursor:pointer;}'',
           ''button:hover{filter:brightness(1.08);}'',
           ''</style>'' @ nl @ ''</head>'' @ nl @ ''<body>'' @ nl @ ''<div class="wrap">'' @ nl,
           ''<h1>'',
           safeBrand,
           ''</h1>'' @ nl @ ''<p>Enter the '',
           ToLower safeLabel,
           '' to continue.</p>'' @ nl,
           ''<form method="post" action="'',
           safeAction,
           ''">'' @ nl,
           ''<label for="secret">'',
           safeLabel,
           ''</label>'' @ nl,
           ''<input id="secret" name="'',
           EscapeString name,
           ''" type="'',
           inputType,
           ''" autocomplete="'',
           autocomplete,
           ''" required autofocus>'' @ nl,
           ''<button type="submit">Continue</button>'' @ nl,
           ''</form>'' @ nl @ ''</div>'' @ nl @ ''</body>'' @ nl @ ''</html>'' @ nl] \<rparr>)\<close>

fun form_kind :: "string \<Rightarrow> Rule list \<Rightarrow> string" where
  "form_kind kind [] = kind"
| "form_kind kind (r # rs) =
     (if rl_Type r = RulePIN then RulePIN
      else if rl_Type r = RulePassword then form_kind RulePassword rs
      else form_kind kind rs)"

definition WriteFormForPolicy :: "AccessManager \<Rightarrow> string \<Rightarrow> string \<Rightarrow> Response" where
  "WriteFormForPolicy m policyID action =
     (let brand = (if am_Brand m = [] then ''RavenGuard'' else am_Brand m);
          kind = (case access_Get m policyID of Some p \<Rightarrow> form_kind RulePassword (po_Rules p) | None \<Rightarrow> RulePassword)
      in WriteForm brand kind action)"

section \<open>Lemmas\<close>

lemma bar_not_hex_mac [simp]: "CHR ''|'' \<notin> set (access_mac hm m p)"
  by (simp add: access_mac_def)

lemma Split_bar4:
  "CHR ''|'' \<notin> set a \<Longrightarrow> CHR ''|'' \<notin> set b \<Longrightarrow> CHR ''|'' \<notin> set c \<Longrightarrow> CHR ''|'' \<notin> set d \<Longrightarrow>
   Split (CHR ''|'') (a @ CHR ''|'' # b @ CHR ''|'' # c @ CHR ''|'' # d) = [a, b, c, d]"
  by (simp add: Split_append Split_no_sep)

definition cookie_expiry :: "AccessManager \<Rightarrow> string \<Rightarrow> gotime \<Rightarrow> int" where
  "cookie_expiry m policyID t = unix_sec (t + (case access_Get m policyID of Some p \<Rightarrow> policy_ttl p | None \<Rightarrow> defaultCookieTTL))"

lemma IssueCookie_value:
  "ck_Value (IssueCookie hm m policyID bindID sec t) =
     policyID @ CHR ''|'' # FormatInt (cookie_expiry m policyID t) @ CHR ''|'' # access_mac hm m bindID @ CHR ''|'' #
     access_mac hm m (policyID @ ''|'' @ FormatInt (cookie_expiry m policyID t) @ ''|'' @ access_mac hm m bindID)"
  by (simp add: IssueCookie_def Let_def cookie_expiry_def)

lemma validate_issued:
  assumes "CHR ''|'' \<notin> set policyID" "- (2 ^ 63) \<le> cookie_expiry m policyID t" "cookie_expiry m policyID t < 2 ^ 63"
  shows "access_validateCookie hm m (ck_Value (IssueCookie hm m policyID bindID sec t)) policyID' bindID' now \<longleftrightarrow>
     policyID' = policyID \<and> access_mac hm m bindID' = access_mac hm m bindID \<and> unix_sec now \<le> cookie_expiry m policyID t"
proof -
  have "Split (CHR ''|'') (ck_Value (IssueCookie hm m policyID bindID sec t)) =
      [policyID, FormatInt (cookie_expiry m policyID t), access_mac hm m bindID,
       access_mac hm m (policyID @ ''|'' @ FormatInt (cookie_expiry m policyID t) @ ''|'' @ access_mac hm m bindID)]"
    unfolding IssueCookie_value by (rule Split_bar4) (use assms in simp_all)
  moreover have "ParseInt (FormatInt (cookie_expiry m policyID t)) = Some (cookie_expiry m policyID t)"
    using assms(2,3) by (rule ParseInt_FormatInt)
  ultimately show ?thesis
    by (auto simp: access_validateCookie_def Let_def)
qed

definition cookie_safe :: "string \<Rightarrow> bool" where
  "cookie_safe s \<longleftrightarrow> (\<forall>c \<in> set s. validCookieValueByte c \<and> c \<noteq> CHR '' '')"

lemma cookie_safe_simps [simp]: "cookie_safe []" "cookie_safe (c # s) \<longleftrightarrow> validCookieValueByte c \<and> c \<noteq> CHR '' '' \<and> cookie_safe s"
  "cookie_safe (s @ t) \<longleftrightarrow> cookie_safe s \<and> cookie_safe t"
  by (auto simp: cookie_safe_def)

lemma cookie_safe_hex [simp]: "cookie_safe (hex_encode s)"
  by (auto simp: cookie_safe_def validCookieValueByte_def is_digit_def is_lower_def dest!: hex_chars)

lemma cookie_safe_number [simp]: "cookie_safe (FormatInt n)"
  by (auto simp: cookie_safe_def validCookieValueByte_def is_digit_def dest!: FormatInt_chars)

lemma cookie_bytes: "validCookieValueByte (CHR ''|'')" "validCookieValueByte (CHR ''.'')"
  by (simp_all add: validCookieValueByte_def)

lemma VerifyCookie_issued:
  assumes "isToken (am_cookieName (Some m))" "cookie_safe policyID"
    "CHR ''|'' \<notin> set policyID" "- (2 ^ 63) \<le> cookie_expiry m policyID t" "cookie_expiry m policyID t < 2 ^ 63"
  shows "VerifyCookie hm m (with_cookie r (am_cookieName (Some m)) (ck_Value (IssueCookie hm m policyID bindID sec t))) policyID' bindID' now \<longleftrightarrow>
     policyID' = policyID \<and> access_mac hm m bindID' = access_mac hm m bindID \<and> unix_sec now \<le> cookie_expiry m policyID t"
proof -
  let ?v = "ck_Value (IssueCookie hm m policyID bindID sec t)"
  have "cookie_safe ?v"
    unfolding IssueCookie_value using assms(2) by (simp add: cookie_bytes access_mac_def)
  moreover have "?v \<noteq> []"
    by (simp add: IssueCookie_value)
  ultimately have "Request_Cookie (with_cookie r (am_cookieName (Some m)) ?v) (am_cookieName (Some m)) = Some ?v"
    by (intro Cookie_with_cookie assms(1)) (auto simp: cookie_safe_def)
  then show ?thesis
    using validate_issued [OF assms(3-5)] \<open>?v \<noteq> []\<close> by (simp add: VerifyCookie_def)
qed

subsection \<open>Rules\<close>

definition is_secret_rule :: "compiledRule \<Rightarrow> bool" where
  "is_secret_rule rule \<longleftrightarrow> rl_Type (cr_Rule rule) = RulePassword \<or> rl_Type (cr_Rule rule) = RulePIN"

text \<open>A condition on the request itself that holds.\<close>

definition rule_holds :: "Request \<Rightarrow> IP option \<Rightarrow> compiledRule \<Rightarrow> bool" where
  "rule_holds r ip rule \<longleftrightarrow>
     rl_Type (cr_Rule rule) = RuleIPAllowlist \<and> (\<exists>i. ip = Some i \<and> (\<exists>n \<in> set (cr_nets rule). IPNet_Contains n i)) \<or>
     rl_Type (cr_Rule rule) = RuleHeader \<and> rl_HeaderName (cr_Rule rule) \<noteq> [] \<and>
       Header_Get (req_Header r) (rl_HeaderName (cr_Rule rule)) = rl_HeaderValue (cr_Rule rule) \<or>
     rl_Type (cr_Rule rule) = RuleUserAgent \<and>
       (\<exists>sub \<in> set (rl_UserAgents (cr_Rule rule)). sub \<noteq> [] \<and> Contains (Header_Get (req_Header r) ''User-Agent'') sub)"

lemma ua_loop_iff: "ua_loop ua subs \<longleftrightarrow> (\<exists>sub \<in> set subs. sub \<noteq> [] \<and> Contains ua sub)"
  by (induction subs) auto

lemma Contains_Nil_iff: "Contains [] sub \<longleftrightarrow> sub = []"
  by simp

lemma matchUserAgent_iff:
  "matchUserAgent r uas \<longleftrightarrow> (\<exists>sub \<in> set uas. sub \<noteq> [] \<and> Contains (Header_Get (req_Header r) ''User-Agent'') sub)"
  by (auto simp: matchUserAgent_def Let_def ua_loop_iff)

lemma access_matchIP_iff: "access_matchIP nets ip \<longleftrightarrow> (\<exists>i. ip = Some i \<and> (\<exists>n \<in> set nets. IPNet_Contains n i))"
  by (auto simp: access_matchIP_def ContainsIP_def isTrusted_def list_ex_iff split: option.splits)

lemmas rule_types = RulePassword_def RulePIN_def RuleIPAllowlist_def RuleHeader_def RuleUserAgent_def

lemma rule_holds_cases:
  "rl_Type (cr_Rule rule) = RuleIPAllowlist \<Longrightarrow> rule_holds r ip rule = access_matchIP (cr_nets rule) ip"
  "rl_Type (cr_Rule rule) = RuleHeader \<Longrightarrow> rule_holds r ip rule = matchHeader r (rl_HeaderName (cr_Rule rule)) (rl_HeaderValue (cr_Rule rule))"
  "rl_Type (cr_Rule rule) = RuleUserAgent \<Longrightarrow> rule_holds r ip rule = matchUserAgent r (rl_UserAgents (cr_Rule rule))"
  "rl_Type (cr_Rule rule) \<notin> {RuleIPAllowlist, RuleHeader, RuleUserAgent} \<Longrightarrow> \<not> rule_holds r ip rule"
  by (auto simp: rule_holds_def access_matchIP_iff matchUserAgent_iff matchHeader_def rule_types)

lemma rule_types_distinct [simp]:
  "RulePassword \<noteq> RulePIN" "RulePassword \<noteq> RuleIPAllowlist" "RulePassword \<noteq> RuleHeader" "RulePassword \<noteq> RuleUserAgent"
  "RulePIN \<noteq> RulePassword" "RulePIN \<noteq> RuleIPAllowlist" "RulePIN \<noteq> RuleHeader" "RulePIN \<noteq> RuleUserAgent"
  "RuleIPAllowlist \<noteq> RulePassword" "RuleIPAllowlist \<noteq> RulePIN" "RuleIPAllowlist \<noteq> RuleHeader" "RuleIPAllowlist \<noteq> RuleUserAgent"
  "RuleHeader \<noteq> RulePassword" "RuleHeader \<noteq> RulePIN" "RuleHeader \<noteq> RuleIPAllowlist" "RuleHeader \<noteq> RuleUserAgent"
  "RuleUserAgent \<noteq> RulePassword" "RuleUserAgent \<noteq> RulePIN" "RuleUserAgent \<noteq> RuleIPAllowlist" "RuleUserAgent \<noteq> RuleHeader"
  by (simp_all add: rule_types)

lemma rule_kinds:
  obtains "is_secret_rule rule" "\<not> rule_holds r ip rule" "rl_Type (cr_Rule rule) = RulePassword \<or> rl_Type (cr_Rule rule) = RulePIN"
  | "rl_Type (cr_Rule rule) = RuleIPAllowlist" | "rl_Type (cr_Rule rule) = RuleHeader" | "rl_Type (cr_Rule rule) = RuleUserAgent"
  | "rl_Type (cr_Rule rule) \<notin> {RulePassword, RulePIN, RuleIPAllowlist, RuleHeader, RuleUserAgent}" "\<not> rule_holds r ip rule" "\<not> is_secret_rule rule"
proof -
  have "rl_Type (cr_Rule rule) = RulePassword \<or> rl_Type (cr_Rule rule) = RulePIN \<Longrightarrow> \<not> rule_holds r ip rule"
    by (rule rule_holds_cases(4)) auto
  moreover have "rl_Type (cr_Rule rule) \<notin> {RulePassword, RulePIN, RuleIPAllowlist, RuleHeader, RuleUserAgent} \<Longrightarrow> \<not> rule_holds r ip rule"
    by (rule rule_holds_cases(4)) auto
  ultimately show thesis
    using that unfolding is_secret_rule_def by blast
qed

lemma checkAll_loop_step:
  "checkAll_loop r ip na (rule # rules) =
     (if is_secret_rule rule then checkAll_loop r ip True rules
      else if rule_holds r ip rule then checkAll_loop r ip na rules
      else deny (if rl_Type (cr_Rule rule) = RuleIPAllowlist then ''ip not allowed''
                 else if rl_Type (cr_Rule rule) = RuleHeader then ''header mismatch''
                 else if rl_Type (cr_Rule rule) = RuleUserAgent then ''user agent not allowed'' else ''unknown rule type''))"
  by (cases rule rule: rule_kinds [of _ r ip]) (auto simp: Let_def is_secret_rule_def rule_holds_cases)

lemma checkAny_loop_step:
  "checkAny_loop r ip ha (rule # rules) =
     (if is_secret_rule rule then checkAny_loop r ip True rules
      else if rule_holds r ip rule then allow else checkAny_loop r ip ha rules)"
  by (cases rule rule: rule_kinds [of _ r ip]) (auto simp: Let_def is_secret_rule_def rule_holds_cases)

lemma secret_not_holds: "is_secret_rule rule \<Longrightarrow> \<not> rule_holds r ip rule"
  by (cases rule rule: rule_kinds [of _ r ip]) (auto simp: is_secret_rule_def)

declare checkAll_loop.simps(2) [simp del] checkAny_loop.simps(2) [simp del]

lemma checkAll_loop_passes:
  "\<forall>rule \<in> set rules. is_secret_rule rule \<or> rule_holds r ip rule \<Longrightarrow>
   checkAll_loop r ip na rules = (if na \<or> (\<exists>rule \<in> set rules. is_secret_rule rule) then needForm ''authentication required'' else allow)"
  by (induction rules arbitrary: na) (auto simp: checkAll_loop_step)

lemma checkAll_loop_denies:
  "\<exists>rule \<in> set rules. \<not> is_secret_rule rule \<and> \<not> rule_holds r ip rule \<Longrightarrow> \<exists>reason. checkAll_loop r ip na rules = deny reason"
  by (induction rules arbitrary: na) (auto simp: checkAll_loop_step)

lemma checkAny_loop_eq:
  "checkAny_loop r ip ha rules =
     (if \<exists>rule \<in> set rules. rule_holds r ip rule then allow
      else if ha \<or> (\<exists>rule \<in> set rules. is_secret_rule rule) then needForm ''authentication required'' else deny ''access denied'')"
  by (induction rules arbitrary: ha) (auto simp: checkAny_loop_step dest: secret_not_holds)

subsection \<open>Secrets\<close>

lemma dollar_free: "CHR ''$'' \<notin> set (RawEncodeToString b64_std s)" "CHR ''$'' \<notin> set (nat_dec n)"
proof -
  show "CHR ''$'' \<notin> set (RawEncodeToString b64_std s)"
    using RawEncode_chars [OF alphabets(2)] alphabets(6) by blast
  show "CHR ''$'' \<notin> set (nat_dec n)"
    using nat_dec_digits [of n] by (auto simp: is_digit_def)
qed

lemma scan_version_dec: "n < 2 ^ 63 \<Longrightarrow> scan_version (''v='' @ nat_dec n)"
  using scan_uint_dec [of n "2 ^ 63" "[]"] by (simp add: scan_version_def del: append.simps)

lemma scan_params_dec:
  assumes "m < 2 ^ 32" "t < 2 ^ 32" "p < 2 ^ 8"
  shows "scan_params (''m='' @ nat_dec m @ '',t='' @ nat_dec t @ '',p='' @ nat_dec p) = Some (m, t, p)"
proof -
  have c: "\<not> is_digit (CHR '','')"
    by (simp add: is_digit_def)
  have "scan_uint (2 ^ 32) (nat_dec m @ '',t='' @ nat_dec t @ '',p='' @ nat_dec p) = Some (m, '',t='' @ nat_dec t @ '',p='' @ nat_dec p)"
    using assms(1) c by (intro scan_uint_dec) simp_all
  moreover have "scan_uint (2 ^ 32) (nat_dec t @ '',p='' @ nat_dec p) = Some (t, '',p='' @ nat_dec p)"
    using assms(2) c by (intro scan_uint_dec) simp_all
  moreover have "scan_uint (2 ^ 8) (nat_dec p) = Some (p, [])"
    using scan_uint_dec [of p "2 ^ 8" "[]"] assms(3) by simp
  ultimately show ?thesis
    by (simp add: scan_params_def del: append.simps)
qed

definition encode_secret :: "nat \<Rightarrow> nat \<Rightarrow> nat \<Rightarrow> nat \<Rightarrow> string \<Rightarrow> string \<Rightarrow> string" where
  "encode_secret v m t p sl hash = join (CHR ''$'')
     [[], ''argon2id'', ''v='' @ nat_dec v, ''m='' @ nat_dec m @ '',t='' @ nat_dec t @ '',p='' @ nat_dec p,
      RawEncodeToString b64_std sl, RawEncodeToString b64_std hash]"

lemma Split_encode_secret:
  "Split (CHR ''$'') (encode_secret v m t p sl hash) =
     [[], ''argon2id'', ''v='' @ nat_dec v, ''m='' @ nat_dec m @ '',t='' @ nat_dec t @ '',p='' @ nat_dec p,
      RawEncodeToString b64_std sl, RawEncodeToString b64_std hash]"
  unfolding encode_secret_def by (rule Split_join) (simp_all add: dollar_free)

lemma VerifySecret_encode:
  assumes "v < 2 ^ 63" "m < 2 ^ 32" "t < 2 ^ 32" "p < 2 ^ 8" "hash \<noteq> []" "length hash \<le> 64"
  shows "VerifySecret argon (encode_secret v m t p sl hash) secret =
     (case argon secret sl t m p (length hash) of None \<Rightarrow> Some ArgonPanic | Some got \<Rightarrow> if got \<noteq> hash then Some ErrSecretMismatch else None)"
  using assms scan_version_dec [of v] scan_params_dec [of m t p]
  by (simp add: VerifySecret_def Split_encode_secret Let_def del: append.simps)

lemma HashSecret_encode:
  "HashSecret argon salt secret minLen = Inr enc \<longleftrightarrow>
     ValidateSecret secret minLen = None \<and>
     (\<exists>sl hash. salt = Some sl \<and> argon secret sl argonTime argonMemory argonThreads argonKeyLen = Some hash \<and>
        enc = encode_secret argonVersion argonMemory argonTime argonThreads sl hash)"
  by (auto simp: HashSecret_def encode_secret_def FormatUint_def split: option.splits)

section \<open>Properties\<close>

text \<open>A stored secret verifies: the encoding of an accepted secret is read back with the parameters it was
  made with, the secret itself passes, and another secret passes exactly if argon2id gives the same key.\<close>

theorem secret_roundtrip:
  assumes hash: "HashSecret argon salt secret minLen = Inr enc"
    and len: "\<And>pw sl t m p k key. argon pw sl t m p k = Some key \<Longrightarrow> length key = k"
    and total: "\<And>pw sl t m p k. t \<ge> 1 \<Longrightarrow> p \<ge> 1 \<Longrightarrow> argon pw sl t m p k \<noteq> None"
  shows "VerifySecret argon enc other =
     (if \<exists>sl. salt = Some sl \<and> argon other sl argonTime argonMemory argonThreads argonKeyLen = argon secret sl argonTime argonMemory argonThreads argonKeyLen
      then None else Some ErrSecretMismatch)"
proof -
  obtain sl key where sl: "salt = Some sl" and key: "argon secret sl argonTime argonMemory argonThreads argonKeyLen = Some key"
    and enc: "enc = encode_secret argonVersion argonMemory argonTime argonThreads sl key"
    using hash HashSecret_encode by blast
  have k: "length key = argonKeyLen"
    using len [OF key] .
  obtain got where got: "argon other sl argonTime argonMemory argonThreads argonKeyLen = Some got"
    using total [of argonTime argonThreads other sl argonMemory argonKeyLen] by (auto simp: argonTime_def argonThreads_def)
  have "VerifySecret argon enc other = (if got \<noteq> key then Some ErrSecretMismatch else None)"
    unfolding enc using k got by (subst VerifySecret_encode)
      (auto simp: argonVersion_def argonMemory_def argonTime_def argonThreads_def argonKeyLen_def)
  then show ?thesis
    using sl key got by auto
qed

definition demo_argon :: argon2 where
  "demo_argon pw sl t m p k = (if t \<ge> 1 \<and> p \<ge> 1 then Some (take k (pw @ replicate k (CHR '' ''))) else None)"

lemma demo_argon_laws:
  "demo_argon pw sl t m p k = Some key \<Longrightarrow> length key = k" "t \<ge> 1 \<Longrightarrow> p \<ge> 1 \<Longrightarrow> demo_argon pw sl t m p k \<noteq> None"
  by (auto simp: demo_argon_def split: if_splits)

lemma demo_argon_differs: "demo_argon ''other'' sl argonTime argonMemory argonThreads argonKeyLen \<noteq> demo_argon ''correct horse'' sl argonTime argonMemory argonThreads argonKeyLen"
  by (simp add: demo_argon_def argonTime_def argonThreads_def argonKeyLen_def)

theorem secret_roundtrip_witness:
  "\<exists>enc. HashSecret demo_argon (Some ''0123456789abcdef'') ''correct horse'' 8 = Inr enc \<and>
     VerifySecret demo_argon enc ''correct horse'' = None \<and> VerifySecret demo_argon enc ''other'' = Some ErrSecretMismatch"
proof -
  have "ValidateSecret ''correct horse'' 8 = None"
    by code_simp
  moreover obtain key where "demo_argon ''correct horse'' ''0123456789abcdef'' argonTime argonMemory argonThreads argonKeyLen = Some key"
    by (auto simp: demo_argon_def argonTime_def argonThreads_def)
  ultimately obtain enc where enc: "HashSecret demo_argon (Some ''0123456789abcdef'') ''correct horse'' 8 = Inr enc"
    using HashSecret_encode by blast
  show ?thesis
    using enc secret_roundtrip [OF enc demo_argon_laws] demo_argon_differs by auto
qed

text \<open>C13: The clearance cookie a client gets is accepted, when sent back, for exactly the policy it was issued
  for, for exactly the clients with the same bind digest, and up to its expiry second.\<close>

theorem access_cookie_exact:
  assumes "isToken (am_cookieName (Some m))" "cookie_safe policyID" "CHR ''|'' \<notin> set policyID"
    "- (2 ^ 63) \<le> cookie_expiry m policyID t" "cookie_expiry m policyID t < 2 ^ 63"
  shows "VerifyCookie hm m (with_cookie r (am_cookieName (Some m)) (ck_Value (IssueCookie hm m policyID bindID sec t))) policyID' bindID' now \<longleftrightarrow>
     policyID' = policyID \<and> hm (am_Secret m) bindID' = hm (am_Secret m) bindID \<and> unix_sec now \<le> cookie_expiry m policyID t"
  unfolding VerifyCookie_issued [OF assms] by (auto simp: access_mac_def dest: hex_encode_inj)

definition demo_http :: Request where
  "demo_http = \<lparr> req_Method = ''GET'', req_Host = ''a'', req_Path = ''/'', req_RawQuery = [], req_RemoteAddr = [],
     req_Header = [], req_TLS = True, req_ContentLength = 0, req_Body = [], req_HasBody = False,
     req_RawPath = [], req_ProtoMajor = 1, req_ProtoMinor = 1, req_ServerName = [] \<rparr>"

theorem access_cookie_exact_witness:
  "VerifyCookie (\<lambda>k msg. k @ msg) (NewManager ''k'')
     (with_cookie demo_http (am_cookieName (Some (NewManager ''k'')))
       (ck_Value (IssueCookie (\<lambda>k msg. k @ msg) (NewManager ''k'') ''p1'' ''10.0.0.1'' True 0))) ''p1'' ''10.0.0.1'' second \<and>
   \<not> VerifyCookie (\<lambda>k msg. k @ msg) (NewManager ''k'')
     (with_cookie demo_http (am_cookieName (Some (NewManager ''k'')))
       (ck_Value (IssueCookie (\<lambda>k msg. k @ msg) (NewManager ''k'') ''p1'' ''10.0.0.1'' True 0))) ''p1'' ''10.0.0.2'' second"
proof -
  have n: "isToken (am_cookieName (Some (NewManager ''k'')))"
    by code_simp
  have s: "cookie_safe ''p1''" "CHR ''|'' \<notin> set ''p1''"
    by code_simp+
  have e: "cookie_expiry (NewManager ''k'') ''p1'' 0 = 24 * 3600"
    by (simp add: cookie_expiry_def access_Get_def NewManager_def defaultCookieTTL_def unix_sec_def duration_defs)
  have "unix_sec second = 1"
    by (simp add: unix_sec_def duration_defs)
  then show ?thesis
    using access_cookie_exact [OF n s, of 0] e by simp
qed

text \<open>C11: Without a valid cookie a policy admits a request exactly as its mode says: in mode \<open>any\<close> if some
  condition on the request holds, otherwise if all of them hold and no secret is asked for; and the form is shown exactly
  when a secret is what is missing.\<close>

theorem access_check_exact:
  assumes "policyID \<noteq> []" "getCompiled m policyID = Some cp" "cp_rules cp \<noteq> []" "\<not> VerifyCookie hm m r policyID bindID now"
  shows "(rs_OK (access_Check hm m r policyID bindID ip now) \<longleftrightarrow>
      (if po_Mode (cp_Policy cp) = ModeAny then \<exists>rule \<in> set (cp_rules cp). rule_holds r ip rule
       else \<forall>rule \<in> set (cp_rules cp). rule_holds r ip rule)) \<and>
    (rs_NeedForm (access_Check hm m r policyID bindID ip now) \<longleftrightarrow>
      (\<exists>rule \<in> set (cp_rules cp). is_secret_rule rule) \<and>
      (if po_Mode (cp_Policy cp) = ModeAny then \<forall>rule \<in> set (cp_rules cp). \<not> rule_holds r ip rule
       else \<forall>rule \<in> set (cp_rules cp). is_secret_rule rule \<or> rule_holds r ip rule))"
proof (cases "po_Mode (cp_Policy cp) = ModeAny")
  case True
  then show ?thesis
    using assms by (auto simp: access_Check_def checkAny_def checkAny_loop_eq allow_def needForm_def deny_def)
next
  case mode: False
  show ?thesis
  proof (cases "\<forall>rule \<in> set (cp_rules cp). is_secret_rule rule \<or> rule_holds r ip rule")
    case True
    then show ?thesis
      using assms mode secret_not_holds [of _ r ip]
      by (auto simp: access_Check_def checkAll_def checkAll_loop_passes allow_def needForm_def)
  next
    case False
    then obtain reason where "checkAll_loop r ip False (cp_rules cp) = deny reason"
      using checkAll_loop_denies by blast
    then show ?thesis
      using assms mode False by (auto simp: access_Check_def checkAll_def deny_def)
  qed
qed

definition demo_rule :: "string \<Rightarrow> Rule" where
  "demo_rule t = \<lparr> rl_Type = t, rl_Secret = [], rl_SecretHash = [], rl_HeaderName = [], rl_HeaderValue = [],
     rl_CIDRs = [''10.0.0.0/8''], rl_UserAgents = [] \<rparr>"

definition demo_policy :: Policy where
  "demo_policy = \<lparr> po_ID = ''p1'', po_Name = [], po_Mode = [], po_Rules = [demo_rule RulePassword, demo_rule RuleIPAllowlist], po_CookieTTL = 0 \<rparr>"

definition demo_manager :: AccessManager where
  "demo_manager = access_Replace demo_argon (\<lambda>_ _. None) (NewManager ''k'') [demo_policy]"

definition demo_compiled :: compiledPolicy where
  "demo_compiled = compilePolicy demo_argon (\<lambda>_. None) demo_policy"

lemma demo_get: "getCompiled demo_manager ''p1'' = Some demo_compiled"
  by (simp add: demo_manager_def access_Replace_def getCompiled_def demo_policy_def demo_compiled_def)

lemma demo_rules: "cp_rules demo_compiled =
    [\<lparr> cr_Rule = demo_rule RulePassword, cr_nets = [] \<rparr>, \<lparr> cr_Rule = demo_rule RuleIPAllowlist, cr_nets = [Net4 0x0A000000 8] \<rparr>]"
proof -
  have "ParseCIDRs [''10.0.0.0/8''] = Inr [Net4 0x0A000000 8]"
    by code_simp
  then show ?thesis
    by (simp add: demo_compiled_def compilePolicy_def demo_policy_def compileRule_def demo_rule_def enumerate_eq_zip)
qed

theorem access_check_exact_witness:
  "rs_NeedForm (access_Check (\<lambda>k msg. k @ msg) demo_manager demo_http ''p1'' ''b'' (Some (V4 0x0A000001)) 0) \<and>
   \<not> rs_NeedForm (access_Check (\<lambda>k msg. k @ msg) demo_manager demo_http ''p1'' ''b'' (Some (V4 0x0B000001)) 0)"
proof -
  have mode: "po_Mode (cp_Policy demo_compiled) \<noteq> ModeAny"
    by (simp add: demo_compiled_def compilePolicy_def demo_policy_def normalizeMode_def ModeAny_def ModeAll_def Let_def)
  have nc: "\<not> VerifyCookie (\<lambda>k msg. k @ msg) demo_manager demo_http ''p1'' ''b'' 0"
    by (simp add: VerifyCookie_def Request_Cookie_def demo_http_def)
  have ip: "IPNet_Contains (Net4 0x0A000000 8) (V4 0x0A000001)" "\<not> IPNet_Contains (Net4 0x0A000000 8) (V4 0x0B000001)"
    by code_simp+
  note main = access_check_exact [OF _ demo_get _ nc]
  show ?thesis
    using main [of "Some (V4 0x0A000001)"] main [of "Some (V4 0x0B000001)"] mode ip
    by (simp add: demo_rules is_secret_rule_def rule_holds_def demo_rule_def)
qed

end
