(* ===== verification/Proxy.thy ===== *)
theory Proxy
  imports GoNet
begin

text \<open>
  \<open>internal/proxy\<close> and \<open>internal/health\<close>: the reverse proxy to one upstream and the health
  checker beside it.  Modelled are the rewriting of a request towards the upstream, the choice of
  the protocol and of the transport for each request, the cache of the background h2c and QUIC
  probes, and when a failed speculative attempt may be retried on another transport.  The
  transports themselves (\<open>http.Transport\<close>, \<open>http3.Transport\<close>), the dialers and the probes'
  network exchanges are outside: their outcome is an argument of the step that uses it.
  \<open>url.Parse\<close> is the parameter \<open>parse\<close> of \<open>ParseUpstreamURL\<close>; loading certificates is not modelled.
\<close>

section \<open>Definitions\<close>

record URL =
  u_Scheme :: string
  u_Host :: string
  u_Path :: string
  u_Opaque :: string
  u_RawQuery :: string

definition zero_URL :: URL where
  "zero_URL = \<lparr> u_Scheme = [], u_Host = [], u_Path = [], u_Opaque = [], u_RawQuery = [] \<rparr>"

datatype Protocol = ProtocolAuto | ProtocolH2 | ProtocolH3 | ProtocolHTTP1

record ProxyConfig =
  pc_Target :: "URL option"
  pc_ConnectTimeout :: duration
  pc_ResponseHeaderTimeout :: duration
  pc_IdleConnTimeout :: duration
  pc_MaxIdleConns :: int
  pc_MaxIdleConnsPerHost :: int
  pc_MaxConnsPerHost :: int
  pc_FlushInterval :: duration
  pc_SetHeaders :: "(string, string) gomap"
  pc_StripPrefix :: string
  pc_CustomDial :: bool
  pc_Protocol :: string
  pc_AllowHTTP1 :: bool

definition normalizeProtocol :: "string \<Rightarrow> Protocol" where
  "normalizeProtocol s =
     (let p = ToLower (TrimSpace s) in
      if p \<in> {''h3'', ''http3'', ''quic''} then ProtocolH3
      else if p \<in> {''http1.1'', ''http1'', ''http/1.1'', ''http/1'', ''h1''} then ProtocolHTTP1
      else if p = ''auto'' then ProtocolAuto
      else ProtocolH2)"

definition IsUnix :: "URL option \<Rightarrow> bool" where
  "IsUnix u = (case u of None \<Rightarrow> False
     | Some u \<Rightarrow> u_Scheme u = ''unix'' \<or> HasPrefix (u_Path u) ''/'' \<and> u_Host u = [] \<and> u_Scheme u = [])"

definition IsH3Scheme :: "URL option \<Rightarrow> bool" where
  "IsH3Scheme u = (case u of None \<Rightarrow> False
     | Some u \<Rightarrow> ToLower (u_Scheme u) \<in> {''h3'', ''http3'', ''quic''})"

definition UnixPath :: "URL option \<Rightarrow> string" where
  "UnixPath u = (case u of None \<Rightarrow> []
     | Some u \<Rightarrow> if u_Scheme u = ''unix'' then (if u_Path u \<noteq> [] then u_Path u else u_Opaque u) else u_Path u)"

text \<open>Where \<open>DialFunc\<close> connects: the network and the address it passes to the dialer.\<close>

definition DialFunc :: "URL option \<Rightarrow> string \<Rightarrow> string \<Rightarrow> string \<times> string" where
  "DialFunc target network addr =
     (case target of
        Some t \<Rightarrow> if u_Scheme t = ''unix'' then (''unix'', UnixPath target) else (network, addr)
      | None \<Rightarrow> (network, addr))"

definition NormalizeTarget :: "URL option \<Rightarrow> URL" where
  "NormalizeTarget u =
     (case u of
        None \<Rightarrow> zero_URL\<lparr> u_Scheme := ''http'', u_Host := ''127.0.0.1'' \<rparr>
      | Some u \<Rightarrow>
          let s = ToLower (u_Scheme u) in
          if s = ''unix'' then u\<lparr> u_Scheme := ''http'', u_Host := ''localhost'', u_Path := [], u_Opaque := [] \<rparr>
          else if s = ''ws'' then u\<lparr> u_Scheme := ''http'' \<rparr>
          else if s = ''wss'' then u\<lparr> u_Scheme := ''https'' \<rparr>
          else if s \<in> {''h3'', ''http3'', ''quic''} then u\<lparr> u_Scheme := ''https'' \<rparr>
          else u)"

fun ParseSetHeaders :: "string list \<Rightarrow> (string, string) gomap \<Rightarrow> (string, string) gomap" where
  "ParseSetHeaders [] out = out"
| "ParseSetHeaders (s # rest) out =
     (case Cut s (CHR '':'') of
        None \<Rightarrow> ParseSetHeaders rest out
      | Some (k, v) \<Rightarrow> ParseSetHeaders rest (AList.update (TrimSpace k) (TrimSpace v) out))"

definition ParseUpstreamURL :: "(string \<Rightarrow> URL option) \<Rightarrow> string \<Rightarrow> URL option" where
  "ParseUpstreamURL parse raw =
     (if HasPrefix raw ''unix://'' then Some (zero_URL\<lparr> u_Scheme := ''unix'', u_Path := drop 7 raw \<rparr>)
      else if HasPrefix raw ''unix:'' then Some (zero_URL\<lparr> u_Scheme := ''unix'', u_Path := drop 5 raw \<rparr>)
      else if HasPrefix raw ''h3://'' then Some (zero_URL\<lparr> u_Scheme := ''h3'', u_Host := drop 5 raw \<rparr>)
      else parse raw)"

datatype transport_kind = H3Only | H3Auto | TCPOnly

record Proxy =
  px_cfg :: ProxyConfig
  px_proto :: Protocol
  px_transport :: transport_kind
  px_target :: URL
  px_strip :: string
  px_flush :: duration

definition or_default :: "int \<Rightarrow> int \<Rightarrow> int" where
  "or_default x d = (if x \<le> 0 then d else x)"

definition Proxy_New :: "ProxyConfig \<Rightarrow> Proxy" where
  "Proxy_New cfg0 =
     (let maxIdle = or_default (pc_MaxIdleConns cfg0) 256;
          perHost = or_default (pc_MaxIdleConnsPerHost cfg0) maxIdle;
          maxConns = or_default (pc_MaxConnsPerHost cfg0) 256;
          cfg = cfg0\<lparr> pc_MaxIdleConns := maxIdle, pc_MaxIdleConnsPerHost := perHost, pc_MaxConnsPerHost := maxConns \<rparr>;
          flush = (if pc_FlushInterval cfg = 0 then - 1 else pc_FlushInterval cfg);
          proto = normalizeProtocol (pc_Protocol cfg);
          proto = (if pc_CustomDial cfg \<or> IsUnix (pc_Target cfg)
                   then (if proto = ProtocolH3 \<or> proto = ProtocolAuto then ProtocolH2 else proto) else proto);
          proto = (if proto = ProtocolAuto \<and> IsH3Scheme (pc_Target cfg) then ProtocolH3 else proto)
      in \<lparr> px_cfg = cfg, px_proto = proto,
           px_transport = (case proto of ProtocolH3 \<Rightarrow> H3Only | ProtocolAuto \<Rightarrow> H3Auto | _ \<Rightarrow> TCPOnly),
           px_target = NormalizeTarget (pc_Target cfg),
           px_strip = TrimSuffix (pc_StripPrefix cfg) ''/'', px_flush = flush \<rparr>)"

text \<open>The outgoing request of \<open>httputil.ReverseProxy\<close>: with a \<open>Rewrite\<close> hook it is a copy of the
  incoming one without the forwarding headers.\<close>

record OutReq =
  out_Header :: Header
  out_Scheme :: string
  out_URLHost :: string
  out_Path :: string
  out_Host :: string

definition reverse_out :: "Request \<Rightarrow> OutReq" where
  "reverse_out r =
     \<lparr> out_Header = Header_Del (Header_Del (Header_Del (Header_Del (req_Header r) ''Forwarded'')
           ''X-Forwarded-For'') ''X-Forwarded-Host'') ''X-Forwarded-Proto'',
       out_Scheme = [], out_URLHost = [], out_Path = req_Path r, out_Host = req_Host r \<rparr>"

definition restore_header :: "Request \<Rightarrow> string \<Rightarrow> Header \<Rightarrow> Header" where
  "restore_header r k h = (let v = Header_Get (req_Header r) k in if v \<noteq> [] then Header_Set h k v else h)"

definition strip_path :: "string \<Rightarrow> string \<Rightarrow> string" where
  "strip_path strip p =
     (if strip \<noteq> [] then
        (if p = strip then ''/''
         else if HasPrefix p (strip @ ''/'') then
           (let q = drop (length strip) p in if q = [] then ''/'' else q)
         else p)
      else p)"

definition Rewrite :: "Proxy \<Rightarrow> Request \<Rightarrow> OutReq \<Rightarrow> OutReq" where
  "Rewrite px r out =
     (let h = restore_header r ''X-Real-IP'' (out_Header out);
          h = restore_header r ''X-Forwarded-For'' h;
          h = restore_header r ''X-Forwarded-Proto'' h;
          h = (if req_Host r \<noteq> [] then Header_Set h ''X-Forwarded-Host'' (req_Host r) else h);
          unix = IsUnix (pc_Target (px_cfg px));
          scheme = (if unix then ''http'' else u_Scheme (px_target px));
          uhost = (if unix then ''localhost'' else u_Host (px_target px));
          scheme = (if px_proto px = ProtocolH3 \<and> scheme = ''http'' then ''https'' else scheme)
      in \<lparr> out_Header = fold (\<lambda>(k, v) h. Header_Set h k v) (pc_SetHeaders (px_cfg px)) h,
           out_Scheme = scheme, out_URLHost = uhost, out_Path = strip_path (px_strip px) (out_Path out),
           out_Host = uhost \<rparr>)"

definition isWebSocket :: "Request \<Rightarrow> bool" where
  "isWebSocket r \<longleftrightarrow> req_Method r = ''GET'' \<and> EqualFold (Header_Get (req_Header r) ''Upgrade'') ''websocket''"

subsection \<open>Retrying on another transport\<close>

text \<open>What is known of a request body: none, one that \<open>GetBody\<close> can produce again (whether the first
  and the second call succeed), or a stream.\<close>

datatype body = NoBody | GetBody bool bool | BodyStream

text \<open>The outcome of one attempt: whether it failed, whether the request's context had ended, and how
  many bytes of the body it consumed.\<close>

record attempt =
  att_failed :: bool
  att_ctxErr :: bool
  att_read :: nat

definition fallbackAttempt :: "body \<Rightarrow> attempt \<Rightarrow> bool" where
  "fallbackAttempt b a =
     (case b of
        NoBody \<Rightarrow> True
      | GetBody True again \<Rightarrow> again
      | GetBody False _ \<Rightarrow> att_read a = 0
      | BodyStream \<Rightarrow> att_read a = 0)"

record h2cProbeEntry =
  pe_h2c :: bool
  pe_expires :: gotime

record h2cProber =
  pr_cache :: "(string, h2cProbeEntry) gomap"
  pr_pending :: "string list"

definition useH2C :: "h2cProber \<Rightarrow> string \<Rightarrow> gotime \<Rightarrow> bool \<times> h2cProber" where
  "useH2C p a now =
     (case map_of (pr_cache p) a of
        Some e \<Rightarrow>
          if now < pe_expires e then (pe_h2c e, p)
          else if a \<in> set (pr_pending p) then (False, p)
          else (False, p\<lparr> pr_pending := a # pr_pending p \<rparr>)
      | None \<Rightarrow>
          if a \<in> set (pr_pending p) then (False, p)
          else (False, p\<lparr> pr_pending := a # pr_pending p \<rparr>))"


definition demote :: "h2cProber \<Rightarrow> string \<Rightarrow> gotime \<Rightarrow> h2cProber" where
  "demote p a now = p\<lparr> pr_cache := AList.update a \<lparr> pe_h2c = False, pe_expires = now + 5 * minute \<rparr> (pr_cache p) \<rparr>"

text \<open>The verdict of \<open>probeH2C\<close> on the first nine bytes a server answers.\<close>

definition probeH2C :: "nat list option \<Rightarrow> bool" where
  "probeH2C answer =
     (case answer of
        None \<Rightarrow> False
      | Some hdr \<Rightarrow>
          if length hdr < 9 then False
          else if take 5 hdr = [72, 84, 84, 80, 47] then False
          else hdr ! 3 = 4 \<and>
            ((hdr ! 5 * 256 + hdr ! 6) * 256 + hdr ! 7) * 256 + hdr ! 8 \<in> {0, 2 ^ 31})"

datatype via = ViaH1 | ViaH2 | ViaH2C | ViaH3

record switchingTransport =
  sw_h2c :: bool
  sw_prober :: h2cProber

text \<open>The transports a request goes through in turn and whether the last one's answer is returned as a
  success; \<open>a\<close> is the outcome of the speculative h2c attempt, if it is made.\<close>

definition switch_RoundTrip :: "switchingTransport \<Rightarrow> Request \<Rightarrow> string \<Rightarrow> string \<Rightarrow> body \<Rightarrow> attempt \<Rightarrow> gotime
    \<Rightarrow> via list \<times> switchingTransport" where
  "switch_RoundTrip s r scheme hst b a now =
     (if isWebSocket r then ([ViaH1], s)
      else if sw_h2c s \<and> scheme = ''http'' then
        (case useH2C (sw_prober s) hst now of
           (False, p) \<Rightarrow> ([ViaH1], s\<lparr> sw_prober := p \<rparr>)
         | (True, p) \<Rightarrow>
             if \<not> att_failed a then ([ViaH2C], s\<lparr> sw_prober := p \<rparr>)
             else let p = (if \<not> att_ctxErr a then demote p hst now else p)
                  in (if fallbackAttempt b a then [ViaH2C, ViaH1] else [ViaH2C], s\<lparr> sw_prober := p \<rparr>))
      else ([ViaH2], s))"

record protoCacheEntry =
  ce_proto :: string
  ce_expires :: gotime

record h3AutoTransport =
  ha_fallback :: switchingTransport
  ha_cache :: "(string, protoCacheEntry) gomap"
  ha_pending :: "string list"

definition ha_cached :: "h3AutoTransport \<Rightarrow> string \<Rightarrow> gotime \<Rightarrow> string" where
  "ha_cached t hst now =
     (case map_of (ha_cache t) hst of
        Some e \<Rightarrow> if now < ce_expires e then ce_proto e else []
      | None \<Rightarrow> [])"

definition ha_setCache :: "h3AutoTransport \<Rightarrow> string \<Rightarrow> string \<Rightarrow> gotime \<Rightarrow> h3AutoTransport" where
  "ha_setCache t hst proto ex = t\<lparr> ha_cache := AList.update hst \<lparr> ce_proto = proto, ce_expires = ex \<rparr> (ha_cache t) \<rparr>"

definition probeAsync :: "h3AutoTransport \<Rightarrow> string \<Rightarrow> h3AutoTransport" where
  "probeAsync t hst = (if hst \<in> set (ha_pending t) then t else t\<lparr> ha_pending := hst # ha_pending t \<rparr>)"

definition h3_probe_done :: "h3AutoTransport \<Rightarrow> string \<Rightarrow> bool \<Rightarrow> gotime \<Rightarrow> h3AutoTransport" where
  "h3_probe_done t hst ok now =
     (ha_setCache t hst (if ok then ''h3'' else ''h2'') (now + (if ok then hour else 5 * minute)))
       \<lparr> ha_pending := filter (\<lambda>x. x \<noteq> hst) (ha_pending t) \<rparr>"

definition fallback_rt :: "h3AutoTransport \<Rightarrow> Request \<Rightarrow> string \<Rightarrow> string \<Rightarrow> body \<Rightarrow> attempt \<Rightarrow> gotime
    \<Rightarrow> via list \<times> h3AutoTransport" where
  "fallback_rt t r scheme hst b a now =
     (let (vs, f) = switch_RoundTrip (ha_fallback t) r scheme hst b a now in (vs, t\<lparr> ha_fallback := f \<rparr>))"

definition auto_RoundTrip :: "h3AutoTransport \<Rightarrow> Request \<Rightarrow> string \<Rightarrow> string \<Rightarrow> body \<Rightarrow> attempt \<Rightarrow> attempt \<Rightarrow> gotime
    \<Rightarrow> via list \<times> h3AutoTransport" where
  "auto_RoundTrip t r scheme uhost b a3 a now =
     (if scheme \<noteq> ''https'' then fallback_rt t r scheme uhost b a now
      else
        let hst = (if uhost = [] then req_Host r else uhost); c = ha_cached t hst now in
        if c = ''h3'' then
          (if \<not> att_failed a3 then ([ViaH3], t)
           else let t = (if \<not> att_ctxErr a3 then ha_setCache t hst ''h2'' (now + 5 * minute) else t)
                in if fallbackAttempt b a3
                   then (let (vs, t) = fallback_rt t r scheme uhost b a now in (ViaH3 # vs, t)) else ([ViaH3], t))
        else if c = ''h2'' then fallback_rt t r scheme uhost b a now
        else fallback_rt (probeAsync t hst) r scheme uhost b a now)"

subsection \<open>The health checker\<close>

record Checker =
  hk_probeURL :: URL
  hk_interval :: duration
  hk_timeout :: duration
  hk_healthy :: bool
  hk_successCodes :: "int list"
  hk_stopped :: bool

definition Checker_New :: "URL option \<Rightarrow> string \<Rightarrow> duration \<Rightarrow> duration \<Rightarrow> int list \<Rightarrow> Checker" where
  "Checker_New url path interval timeout codes =
     (let path = (if path = [] then ''/healthz'' else path);
          local = zero_URL\<lparr> u_Scheme := ''http'', u_Host := ''localhost'', u_Path := path \<rparr>;
          probe = (case url of
                     None \<Rightarrow> local
                   | Some u \<Rightarrow>
                       if u_Scheme u = ''unix'' then local
                       else u\<lparr> u_Scheme := (if u_Scheme u = ''ws'' then ''http''
                                            else if u_Scheme u = ''wss'' then ''https'' else u_Scheme u),
                              u_Path := path, u_RawQuery := [] \<rparr>)
      in \<lparr> hk_probeURL = probe, hk_interval = (if interval \<le> 0 then 10 * second else interval),
           hk_timeout = (if timeout \<le> 0 then 3 * second else timeout), hk_healthy = True,
           hk_successCodes = codes, hk_stopped = False \<rparr>)"

definition healthyStatus :: "Checker \<Rightarrow> int \<Rightarrow> bool" where
  "healthyStatus c code =
     (if hk_successCodes c = [] then code \<ge> 200 \<and> code < 300 else code \<in> set (hk_successCodes c))"

text \<open>One probe; \<open>None\<close> is a request that could not be built or failed.\<close>

definition Checker_probe :: "Checker \<Rightarrow> int option \<Rightarrow> Checker" where
  "Checker_probe c resp =
     (case resp of
        None \<Rightarrow> c\<lparr> hk_healthy := False \<rparr>
      | Some code \<Rightarrow> c\<lparr> hk_healthy := healthyStatus c code \<rparr>)"

text \<open>\<open>Start\<close> probes once and then at each tick until the checker is stopped.\<close>

definition Checker_Start :: "Checker \<Rightarrow> int option \<Rightarrow> Checker" where
  "Checker_Start c resp = Checker_probe c resp"

definition Checker_tick :: "Checker \<Rightarrow> int option \<Rightarrow> Checker" where
  "Checker_tick c resp = (if hk_stopped c then c else Checker_probe c resp)"

definition Checker_Stop :: "Checker \<Rightarrow> Checker" where
  "Checker_Stop c = c\<lparr> hk_stopped := True \<rparr>"

definition Checker_Healthy :: "Checker \<Rightarrow> bool" where
  "Checker_Healthy c = hk_healthy c"

section \<open>Rewriting\<close>

lemma Get_fold_Set_other:
  "\<forall>(k, v) \<in> set hs. CanonicalHeaderKey k \<noteq> CanonicalHeaderKey k' \<Longrightarrow>
   Header_Get (fold (\<lambda>(k, v) h. Header_Set h k v) hs h) k' = Header_Get h k'"
proof (induction hs arbitrary: h)
  case (Cons kv hs)
  obtain k v where kv: "kv = (k, v)" by (cases kv)
  have "CanonicalHeaderKey k' \<noteq> CanonicalHeaderKey k" using Cons.prems kv by fastforce
  then show ?case using Cons kv by simp
qed simp

lemma forward_keys:
  "CanonicalHeaderKey ''X-Real-IP'' = ''X-Real-Ip''" "CanonicalHeaderKey ''X-Forwarded-For'' = ''X-Forwarded-For''"
  "CanonicalHeaderKey ''X-Forwarded-Proto'' = ''X-Forwarded-Proto''"
  "CanonicalHeaderKey ''X-Forwarded-Host'' = ''X-Forwarded-Host''" "CanonicalHeaderKey ''Forwarded'' = ''Forwarded''"
  by code_simp+

lemma Get_restore:
  "Header_Get (restore_header r k h) k' =
     (if CanonicalHeaderKey k' = CanonicalHeaderKey k \<and> Header_Get (req_Header r) k \<noteq> []
      then Header_Get (req_Header r) k else Header_Get h k')"
  by (simp add: restore_header_def Let_def)

definition not_overridden :: "Proxy \<Rightarrow> string \<Rightarrow> bool" where
  "not_overridden px k \<longleftrightarrow>
     (\<forall>(k', v) \<in> set (pc_SetHeaders (px_cfg px)). CanonicalHeaderKey k' \<noteq> CanonicalHeaderKey k)"

lemma Rewrite_headers:
  assumes "k \<in> {''X-Real-IP'', ''X-Forwarded-For'', ''X-Forwarded-Proto''}" "not_overridden px k"
  shows "Header_Get (out_Header (Rewrite px r (reverse_out r))) k = Header_Get (req_Header r) k"
proof -
  note over = Get_fold_Set_other [OF assms(2) [unfolded not_overridden_def]]
  show ?thesis
    using assms(1) unfolding Rewrite_def Let_def
    by (auto simp: over Get_restore forward_keys reverse_out_def)
qed

lemma Rewrite_host:
  "not_overridden px ''X-Forwarded-Host'' \<Longrightarrow>
   Header_Get (out_Header (Rewrite px r (reverse_out r))) ''X-Forwarded-Host'' = req_Host r"
  unfolding Rewrite_def Let_def not_overridden_def
  by (auto simp: Get_fold_Set_other Get_restore forward_keys reverse_out_def)

lemma Rewrite_forwarded:
  "not_overridden px ''Forwarded'' \<Longrightarrow>
   Header_Get (out_Header (Rewrite px r (reverse_out r))) ''Forwarded'' = []"
  unfolding Rewrite_def Let_def not_overridden_def
  by (auto simp: Get_fold_Set_other Get_restore forward_keys reverse_out_def)

lemma strip_path_slash: "HasPrefix p ''/'' \<Longrightarrow> HasPrefix (strip_path strip p) ''/''"
proof -
  assume p: "HasPrefix p ''/''"
  show ?thesis
  proof (cases "strip \<noteq> [] \<and> p \<noteq> strip \<and> HasPrefix p (strip @ ''/'')")
    case True
    then obtain q where "p = strip @ ''/'' @ q" by (auto simp: HasPrefix_iff prefix_def)
    then show ?thesis using True by (simp add: strip_path_def Let_def HasPrefix_def)
  qed (use p in \<open>auto simp: strip_path_def HasPrefix_def\<close>)
qed

lemma strip_path_under: "strip \<noteq> [] \<Longrightarrow> strip_path strip (strip @ CHR ''/'' # q) = CHR ''/'' # q"
  by (simp add: strip_path_def HasPrefix_def)

section \<open>The probe cache\<close>



definition prober_init :: h2cProber where
  "prober_init = \<lparr> pr_cache = [], pr_pending = [] \<rparr>"




lemma cache_useH2C [simp]: "pr_cache (snd (useH2C p a t)) = pr_cache p"
  by (auto simp: useH2C_def split: option.splits)



section \<open>Properties\<close>

text \<open>What \<open>Rewrite\<close> makes of the forwarding headers of the request it is given: it passes on the client address and
  protocol as they are, names the host, removes \<open>Forwarded\<close> and keeps the path absolute, as long as no configured header
  overrides them.  What those headers are is decided by the pipeline.\<close>

theorem rewrite_identity:
  assumes "\<forall>k \<in> {''X-Real-IP'', ''X-Forwarded-For'', ''X-Forwarded-Proto'', ''X-Forwarded-Host'', ''Forwarded''}.
      not_overridden px k"
  shows "(\<forall>k \<in> {''X-Real-IP'', ''X-Forwarded-For'', ''X-Forwarded-Proto''}.
      Header_Get (out_Header (Rewrite px r (reverse_out r))) k = Header_Get (req_Header r) k) \<and>
    Header_Get (out_Header (Rewrite px r (reverse_out r))) ''X-Forwarded-Host'' = req_Host r \<and>
    Header_Get (out_Header (Rewrite px r (reverse_out r))) ''Forwarded'' = [] \<and>
    (HasPrefix (req_Path r) ''/'' \<longrightarrow> HasPrefix (out_Path (Rewrite px r (reverse_out r))) ''/'') \<and>
    (\<forall>q. px_strip px \<noteq> [] \<and> req_Path r = px_strip px @ CHR ''/'' # q \<longrightarrow>
       out_Path (Rewrite px r (reverse_out r)) = CHR ''/'' # q)"
proof (intro conjI)
  have path: "out_Path (Rewrite px r (reverse_out r)) = strip_path (px_strip px) (req_Path r)"
    by (simp add: Rewrite_def Let_def reverse_out_def)
  show "HasPrefix (req_Path r) ''/'' \<longrightarrow> HasPrefix (out_Path (Rewrite px r (reverse_out r))) ''/''"
    unfolding path using strip_path_slash by blast
  show "\<forall>q. px_strip px \<noteq> [] \<and> req_Path r = px_strip px @ CHR ''/'' # q \<longrightarrow>
      out_Path (Rewrite px r (reverse_out r)) = CHR ''/'' # q"
    unfolding path by (auto simp: strip_path_under)
  show "\<forall>k \<in> {''X-Real-IP'', ''X-Forwarded-For'', ''X-Forwarded-Proto''}.
      Header_Get (out_Header (Rewrite px r (reverse_out r))) k = Header_Get (req_Header r) k"
  proof
    fix k assume k: "k \<in> {''X-Real-IP'', ''X-Forwarded-For'', ''X-Forwarded-Proto''}"
    have "not_overridden px k" by (rule bspec [OF assms]) (use k in fast)
    then show "Header_Get (out_Header (Rewrite px r (reverse_out r))) k = Header_Get (req_Header r) k"
      by (rule Rewrite_headers [OF k])
  qed
  show "Header_Get (out_Header (Rewrite px r (reverse_out r))) ''X-Forwarded-Host'' = req_Host r"
    by (rule Rewrite_host, rule bspec [OF assms]) simp
  show "Header_Get (out_Header (Rewrite px r (reverse_out r))) ''Forwarded'' = []"
    by (rule Rewrite_forwarded, rule bspec [OF assms]) simp
qed

definition demo_proxy :: Proxy where
  "demo_proxy = Proxy_New \<lparr> pc_Target = Some (zero_URL\<lparr> u_Scheme := ''http'', u_Host := ''app:8080'' \<rparr>),
     pc_ConnectTimeout = second, pc_ResponseHeaderTimeout = second, pc_IdleConnTimeout = second, pc_MaxIdleConns = 0,
     pc_MaxIdleConnsPerHost = 0, pc_MaxConnsPerHost = 0, pc_FlushInterval = 0,
     pc_SetHeaders = [(''X-Env'', ''prod'')], pc_StripPrefix = ''/api/'', pc_CustomDial = False,
     pc_Protocol = [], pc_AllowHTTP1 = False \<rparr>"

definition demo_in :: Request where
  "demo_in = \<lparr> req_Method = ''GET'', req_Host = ''example.org'', req_Path = ''/api/x'', req_RawQuery = [],
     req_RemoteAddr = [], req_Header = [(''X-Real-Ip'', [''1.2.3.4'']), (''Forwarded'', [''for=9.9.9.9''])],
     req_TLS = False, req_ContentLength = 0, req_Body = [], req_HasBody = False,
     req_RawPath = [], req_ProtoMajor = 1, req_ProtoMinor = 1, req_ServerName = [] \<rparr>"

theorem rewrite_identity_witness:
  "out_Path (Rewrite demo_proxy demo_in (reverse_out demo_in)) = ''/x'' \<and>
   Header_Get (out_Header (Rewrite demo_proxy demo_in (reverse_out demo_in))) ''Forwarded'' = [] \<and>
   Header_Get (out_Header (Rewrite demo_proxy demo_in (reverse_out demo_in))) ''X-Real-IP'' = ''1.2.3.4''"
proof -
  have sh: "pc_SetHeaders (px_cfg demo_proxy) = [(''X-Env'', ''prod'')]" and st: "px_strip demo_proxy = ''/api''"
    by code_simp+
  have "CanonicalHeaderKey ''X-Env'' = ''X-Env''" by code_simp
  then have "\<forall>k \<in> {''X-Real-IP'', ''X-Forwarded-For'', ''X-Forwarded-Proto'', ''X-Forwarded-Host'', ''Forwarded''}.
      not_overridden demo_proxy k"
    unfolding not_overridden_def sh by (simp add: forward_keys)
  note r = rewrite_identity [OF this, of demo_in]
  have "Header_Get (req_Header demo_in) ''X-Real-IP'' = ''1.2.3.4''" "req_Path demo_in = ''/api'' @ CHR ''/'' # ''x''"
    by code_simp+
  then show ?thesis using r st by simp
qed






definition demo_h3 :: h3AutoTransport where
  "demo_h3 = \<lparr> ha_fallback = \<lparr> sw_h2c = True, sw_prober = prober_init \<rparr>,
     ha_cache = [(''app'', \<lparr> ce_proto = ''h3'', ce_expires = 20 \<rparr>)], ha_pending = [] \<rparr>"


lemma h3_retry_sends_twice:
  "fst (auto_RoundTrip demo_h3 demo_in ''https'' ''app'' (GetBody True True) \<lparr> att_failed = True, att_ctxErr = False, att_read = 7 \<rparr>
     \<lparr> att_failed = False, att_ctxErr = False, att_read = 0 \<rparr> 9) = [ViaH3, ViaH2]"
  by code_simp

end
