(* ===== verification/Router.thy ===== *)
theory Router
  imports Proxy "HOL-Library.Product_Lexorder"
begin

text \<open>
  \<open>internal/router\<close>: the table from host and path prefix to upstream proxies.  \<open>Replace\<close> compiles
  and orders the enabled routes, \<open>Lookup\<close> and \<open>ServeHTTP\<close> use the first match.  What building a
  proxy takes from outside (\<open>url.Parse\<close>, \<open>time.ParseDuration\<close>, loading TLS files) and the
  answers of the first health probes are parameters, collected in \<open>build_env\<close>; nothing is assumed of them.
\<close>

section \<open>Definitions\<close>

record Upstream =
  up_ID :: string
  up_Name :: string
  up_URL :: string
  up_ConnectTimeout :: string
  up_ResponseHeader :: string
  up_IdleConnTimeout :: string
  up_MaxIdleConns :: int
  up_MaxIdleConnsPerHost :: int
  up_MaxConnsPerHost :: int
  up_FlushInterval :: string
  up_SetHeaders :: "string list"
  up_Protocol :: string
  up_AllowHTTP1 :: bool
  up_TLSCAFile :: string
  up_TLSClientCertFile :: string
  up_TLSClientKeyFile :: string
  up_InsecureSkipVerify :: bool
  up_HealthEnabled :: bool
  up_HealthPath :: string
  up_HealthInterval :: string
  up_HealthTimeout :: string
  up_HealthSuccessCodes :: "int list"

record Route =
  rt_ID :: string
  rt_Name :: string
  rt_Enabled :: bool
  rt_Hosts :: "string list"
  rt_PathPrefix :: string
  rt_UpstreamID :: string
  rt_StripPrefix :: bool
  rt_Priority :: int
  rt_AccessPolicyID :: string
  rt_OpenAPISchemaID :: string
  rt_SkipChallenge :: bool

record Match =
  m_Route :: Route
  m_Upstream :: Upstream

record compiled =
  c_route :: Route
  c_hosts :: "string list"
  c_prefix :: string
  c_upstream :: Upstream
  c_proxy :: Proxy
  c_health :: "Checker option"

record Table =
  tb_compiled :: "compiled list"
  tb_byID :: "(string, compiled) gomap"
  tb_fallback :: "Proxy option"
  tb_fallbackHealth :: "Checker option"

record build_env =
  be_parseURL :: "string \<Rightarrow> URL option"
  be_parseDuration :: "string \<Rightarrow> duration option"
  be_tls :: "Upstream \<Rightarrow> bool"
  be_firstProbe :: "Upstream \<Rightarrow> int option"

definition Table_New :: Table where
  "Table_New = \<lparr> tb_compiled = [], tb_byID = [], tb_fallback = None, tb_fallbackHealth = None \<rparr>"

definition SetFallback :: "Table \<Rightarrow> Proxy option \<Rightarrow> Checker option \<Rightarrow> Table" where
  "SetFallback t p hc = t\<lparr> tb_fallback := p, tb_fallbackHealth := hc \<rparr>"

definition parseDur :: "build_env \<Rightarrow> string \<Rightarrow> duration \<Rightarrow> duration" where
  "parseDur env s def =
     (let s = TrimSpace s in
      if s = [] then def else case be_parseDuration env s of Some d \<Rightarrow> d | None \<Rightarrow> def)"

definition buildProxy :: "build_env \<Rightarrow> Upstream \<Rightarrow> bool \<Rightarrow> string \<Rightarrow> (Proxy \<times> Checker option) option" where
  "buildProxy env up strip pfx =
     (case ParseUpstreamURL (be_parseURL env) (up_URL up) of
        None \<Rightarrow> None
      | Some target \<Rightarrow>
          if \<not> be_tls env up then None
          else
            let cfg = \<lparr> pc_Target = Some target,
                        pc_ConnectTimeout = parseDur env (up_ConnectTimeout up) (5 * second),
                        pc_ResponseHeaderTimeout = parseDur env (up_ResponseHeader up) (30 * second),
                        pc_IdleConnTimeout = parseDur env (up_IdleConnTimeout up) (90 * second),
                        pc_MaxIdleConns = up_MaxIdleConns up,
                        pc_MaxIdleConnsPerHost = up_MaxIdleConnsPerHost up,
                        pc_MaxConnsPerHost = up_MaxConnsPerHost up,
                        pc_FlushInterval = parseDur env (up_FlushInterval up) (- 1),
                        pc_SetHeaders = ParseSetHeaders (up_SetHeaders up) [],
                        pc_StripPrefix = (if strip \<and> pfx \<noteq> [] \<and> pfx \<noteq> ''/'' then TrimSuffix pfx ''/'' else []),
                        pc_CustomDial = False,
                        pc_Protocol = up_Protocol up,
                        pc_AllowHTTP1 = up_AllowHTTP1 up \<rparr>;
                hc = (if up_HealthEnabled up
                      then Some (Checker_New (Some target) (up_HealthPath up) (parseDur env (up_HealthInterval up) (10 * second))
                                   (parseDur env (up_HealthTimeout up) (3 * second)) (up_HealthSuccessCodes up))
                      else None)
            in Some (Proxy_New cfg, hc))"

definition route_prefix :: "Route \<Rightarrow> string" where
  "route_prefix rt =
     (let p = rt_PathPrefix rt; p = (if p = [] then ''/'' else p) in if \<not> HasPrefix p ''/'' then CHR ''/'' # p else p)"

definition route_hosts :: "Route \<Rightarrow> string list" where
  "route_hosts rt = remdups (filter (\<lambda>h. h \<noteq> []) (map (\<lambda>h. ToLower (TrimSpace h)) (rt_Hosts rt)))"

text \<open>The loop over the routes; \<open>None\<close> is the early return when a proxy cannot be built.\<close>

fun compile_routes :: "build_env \<Rightarrow> (string, Upstream) gomap \<Rightarrow> Route list \<Rightarrow> compiled list option" where
  "compile_routes env ups [] = Some []"
| "compile_routes env ups (rt # rts) =
     (if \<not> rt_Enabled rt then compile_routes env ups rts
      else case map_of ups (rt_UpstreamID rt) of
             None \<Rightarrow> compile_routes env ups rts
           | Some up \<Rightarrow>
               (case buildProxy env up (rt_StripPrefix rt) (route_prefix rt) of
                  None \<Rightarrow> None
                | Some (p, hc) \<Rightarrow>
                    map_option ((#) \<lparr> c_route = rt, c_hosts = route_hosts rt, c_prefix = route_prefix rt, c_upstream = up,
                                      c_proxy = p, c_health = hc \<rparr>) (compile_routes env ups rts)))"

text \<open>The exchange sort of \<open>Replace\<close>, by priority and then by prefix length, larger first.\<close>

definition swap_needed :: "compiled \<Rightarrow> compiled \<Rightarrow> bool" where
  "swap_needed a b =
     (if rt_Priority (c_route a) < rt_Priority (c_route b) then True
      else rt_Priority (c_route a) = rt_Priority (c_route b) \<and> length (c_prefix a) < length (c_prefix b))"

definition exch :: "nat \<Rightarrow> nat \<Rightarrow> compiled list \<Rightarrow> compiled list" where
  "exch i j xs = (if swap_needed (xs ! i) (xs ! j) then xs[i := xs ! j, j := xs ! i] else xs)"

definition sort_pass :: "nat \<Rightarrow> compiled list \<Rightarrow> compiled list" where
  "sort_pass i xs = fold (exch i) [Suc i..<length xs] xs"

definition sort_routes :: "compiled list \<Rightarrow> compiled list" where
  "sort_routes xs = fold sort_pass [0..<length xs] xs"

definition upstream_map :: "Upstream list \<Rightarrow> (string, Upstream) gomap" where
  "upstream_map us = fold (\<lambda>u m. AList.update (up_ID u) u m) us []"

definition Replace :: "build_env \<Rightarrow> Table \<Rightarrow> Upstream list \<Rightarrow> Route list \<Rightarrow> bool \<times> Table" where
  "Replace env t upstreams routes =
     (case compile_routes env (upstream_map upstreams) routes of
        None \<Rightarrow> (False, t)
      | Some cs \<Rightarrow>
          let built = sort_routes cs;
              started = map (\<lambda>c. c\<lparr> c_health := map_option (\<lambda>h. Checker_Start h (be_firstProbe env (c_upstream c))) (c_health c) \<rparr>) built;
              byID = fold (\<lambda>c m. AList.update (rt_ID (c_route c)) c m) started []
          in (True, t\<lparr> tb_compiled := started, tb_byID := byID \<rparr>))"

definition matchPrefix :: "string \<Rightarrow> string \<Rightarrow> bool" where
  "matchPrefix path pfx =
     (if pfx = [] \<or> pfx = ''/'' then True
      else if path = pfx then True
      else let trimmed = TrimSuffix pfx ''/'' in path = trimmed \<or> HasPrefix path (trimmed @ ''/''))"

definition stripPort :: "string \<Rightarrow> string" where
  "stripPort h =
     (let host = TrimSpace (ToLower h) in
      if host = [] then host
      else if hd host = CHR ''['' then
        (case IndexByte host (CHR '']'') of
           Some e \<Rightarrow> if e > 0 then take (e - 1) (drop 1 host) else host
         | None \<Rightarrow> host)
      else case LastIndexByte host (CHR '':'') of
             Some i \<Rightarrow> if CountByte host (CHR '':'') = 1 then take i host else host
           | None \<Rightarrow> host)"

definition route_matches :: "string \<Rightarrow> string \<Rightarrow> compiled \<Rightarrow> bool" where
  "route_matches host path c \<longleftrightarrow> (c_hosts c \<noteq> [] \<longrightarrow> host \<in> set (c_hosts c)) \<and> matchPrefix path (c_prefix c)"

definition matchLocked :: "Table \<Rightarrow> Request \<Rightarrow> compiled option" where
  "matchLocked t r =
     (let host = stripPort (req_Host r); path = (if req_Path r = [] then ''/'' else req_Path r)
      in List.find (route_matches host path) (tb_compiled t))"

definition Lookup :: "Table \<Rightarrow> Request \<Rightarrow> Match option" where
  "Lookup t r = map_option (\<lambda>c. \<lparr> m_Route = c_route c, m_Upstream = c_upstream c \<rparr>) (matchLocked t r)"

datatype served = Proxied OutReq | NotFound | Unhealthy

definition serve_with :: "Proxy option \<Rightarrow> Checker option \<Rightarrow> Request \<Rightarrow> served" where
  "serve_with handler hc r =
     (case handler of
        None \<Rightarrow> NotFound
      | Some p \<Rightarrow>
          if (case hc of None \<Rightarrow> False | Some c \<Rightarrow> \<not> Checker_Healthy c) then Unhealthy
          else Proxied (Rewrite p r (reverse_out r)))"

definition Table_ServeHTTP :: "Table \<Rightarrow> Request \<Rightarrow> served" where
  "Table_ServeHTTP t r =
     (case matchLocked t r of
        Some c \<Rightarrow> serve_with (Some (c_proxy c)) (c_health c) r
      | None \<Rightarrow> serve_with (tb_fallback t) (tb_fallbackHealth t) r)"

definition Table_Healthy :: "Table \<Rightarrow> Request \<Rightarrow> bool" where
  "Table_Healthy t r =
     (case matchLocked t r of
        Some c \<Rightarrow> (case c_health c of None \<Rightarrow> True | Some h \<Rightarrow> Checker_Healthy h)
      | None \<Rightarrow>
          (case tb_fallback t of
             Some _ \<Rightarrow> (case tb_fallbackHealth t of None \<Rightarrow> True | Some h \<Rightarrow> Checker_Healthy h)
           | None \<Rightarrow> True))"

definition HasRoutes :: "Table \<Rightarrow> bool" where
  "HasRoutes t \<longleftrightarrow> length (tb_compiled t) > 0"

fun upstream_health :: "compiled list \<Rightarrow> (string, bool) gomap \<Rightarrow> (string, bool) gomap" where
  "upstream_health [] out = out"
| "upstream_health (c # cs) out =
     (if map_of out (up_ID (c_upstream c)) \<noteq> None then upstream_health cs out
      else upstream_health cs
        (AList.update (up_ID (c_upstream c)) (case c_health c of None \<Rightarrow> True | Some h \<Rightarrow> Checker_Healthy h) out))"

definition UpstreamHealth :: "Table \<Rightarrow> (string, bool) gomap" where
  "UpstreamHealth t =
     (let out = upstream_health (tb_compiled t) [] in
      case tb_fallbackHealth t of None \<Rightarrow> out | Some h \<Rightarrow> AList.update ''default'' (Checker_Healthy h) out)"

definition Table_Close :: "Table \<Rightarrow> Table" where
  "Table_Close t =
     t\<lparr> tb_compiled := map (\<lambda>c. c\<lparr> c_health := map_option Checker_Stop (c_health c) \<rparr>) (tb_compiled t),
        tb_fallbackHealth := map_option Checker_Stop (tb_fallbackHealth t) \<rparr>"

section \<open>Sorting\<close>

definition rank :: "compiled \<Rightarrow> int \<times> nat" where
  "rank c = (rt_Priority (c_route c), length (c_prefix c))"

lemma swap_needed_iff: "swap_needed a b \<longleftrightarrow> rank a < rank b"
  by (auto simp: swap_needed_def rank_def less_prod_simp)

lemma length_exch [simp]: "length (exch i j xs) = length xs"
  by (simp add: exch_def)

lemma mset_exch: "i < length xs \<Longrightarrow> j < length xs \<Longrightarrow> mset (exch i j xs) = mset xs"
  by (simp add: exch_def mset_swap)

text \<open>The inner loop up to position \<open>m\<close>.\<close>

definition pass_inv :: "nat \<Rightarrow> compiled list \<Rightarrow> nat \<Rightarrow> compiled list \<Rightarrow> bool" where
  "pass_inv i xs m ys \<longleftrightarrow> length ys = length xs \<and> mset (drop i ys) = mset (drop i xs) \<and> take i ys = take i xs \<and>
     (\<forall>k. i < k \<and> k < m \<longrightarrow> rank (ys ! k) \<le> rank (ys ! i))"

lemma exch_take: "i \<le> j \<Longrightarrow> take i (exch i j xs) = take i xs"
  by (simp add: exch_def take_update_cancel)

lemma mset_drop_cong:
  assumes "mset ys = mset xs" "take i ys = take i xs"
  shows "mset (drop i ys) = mset (drop i xs)"
proof -
  have "mset (take i ys) + mset (drop i ys) = mset (take i xs) + mset (drop i xs)"
    using assms(1) by (simp flip: mset_append)
  then show ?thesis
    using assms(2) by simp
qed

lemma pass_inv_step:
  assumes "pass_inv i xs m ys" "i < m" "m < length xs"
  shows "pass_inv i xs (Suc m) (exch i m ys)"
proof -
  have len: "length ys = length xs" and ms: "mset (drop i ys) = mset (drop i xs)" and tk: "take i ys = take i xs"
    and mx: "\<And>k. i < k \<Longrightarrow> k < m \<Longrightarrow> rank (ys ! k) \<le> rank (ys ! i)"
    using assms(1) by (simp_all add: pass_inv_def)
  have "mset (drop i (exch i m ys)) = mset (drop i ys)"
    using assms(2,3) len by (intro mset_drop_cong mset_exch exch_take) simp_all
  moreover have "rank (exch i m ys ! k) \<le> rank (exch i m ys ! i)" if "i < k" "k < Suc m" for k
    using mx [of k] that assms(2,3) len
    by (cases "k = m") (auto simp: exch_def swap_needed_iff nth_list_update intro: order.trans less_imp_le)
  ultimately show ?thesis
    using len ms tk assms(2) exch_take [of i m ys] by (simp add: pass_inv_def)
qed

lemma pass_inv_fold:
  "i < m \<Longrightarrow> m \<le> length xs \<Longrightarrow> pass_inv i xs m (fold (exch i) [Suc i..<m] xs)"
proof (induction m)
  case (Suc m)
  show ?case
  proof (cases "i < m")
    case True
    then show ?thesis
      using Suc by (simp add: pass_inv_step)
  next
    case False
    with Suc.prems show ?thesis
      by (auto simp: pass_inv_def less_Suc_eq)
  qed
qed simp

lemma sort_pass_inv: "i < length xs \<Longrightarrow> pass_inv i xs (length xs) (sort_pass i xs)"
  by (simp add: sort_pass_def pass_inv_fold)

definition ranked_upto :: "nat \<Rightarrow> compiled list \<Rightarrow> bool" where
  "ranked_upto i xs \<longleftrightarrow> sorted_wrt (\<lambda>a b. rank b \<le> rank a) (take i xs) \<and> (\<forall>a \<in> set (take i xs). \<forall>b \<in> set (drop i xs). rank b \<le> rank a)"

lemma ranked_pass:
  assumes "ranked_upto i xs" "i < length xs"
  shows "ranked_upto (Suc i) (sort_pass i xs)"
proof -
  let ?ys = "sort_pass i xs"
  have len: "length ?ys = length xs" and ms: "mset (drop i ?ys) = mset (drop i xs)" and tk: "take i ?ys = take i xs"
    and mx: "\<And>k. i < k \<Longrightarrow> k < length xs \<Longrightarrow> rank (?ys ! k) \<le> rank (?ys ! i)"
    using sort_pass_inv [OF assms(2)] by (simp_all add: pass_inv_def)
  have st: "set (drop i ?ys) = set (drop i xs)"
    using ms by (metis set_mset_mset)
  have dr: "drop i ?ys = ?ys ! i # drop (Suc i) ?ys"
    using assms(2) len by (simp add: Cons_nth_drop_Suc)
  have top: "rank b \<le> rank (?ys ! i)" if b: "b \<in> set (drop (Suc i) ?ys)" for b
  proof -
    obtain k where "k < length ?ys - Suc i" "b = ?ys ! (Suc i + k)"
      using b by (auto simp: in_set_conv_nth)
    then show ?thesis
      using mx [of "Suc i + k"] len by simp
  qed
  have "\<forall>a \<in> set (take i ?ys). \<forall>b \<in> set (drop i ?ys). rank b \<le> rank a" "sorted_wrt (\<lambda>a b. rank b \<le> rank a) (take i ?ys)"
    using assms(1) unfolding st tk ranked_upto_def by blast+
  then show ?thesis
    using top assms(2) len by (simp add: ranked_upto_def dr take_Suc_conv_app_nth sorted_wrt_append)
qed

lemma sort_pass_mset: "i < length xs \<Longrightarrow> mset (sort_pass i xs) = mset xs"
proof -
  assume "i < length xs"
  then have "mset (drop i (sort_pass i xs)) = mset (drop i xs)" "take i (sort_pass i xs) = take i xs"
    using sort_pass_inv by (simp_all add: pass_inv_def)
  then show ?thesis
    by (metis append_take_drop_id mset_append)
qed

lemma sort_pass_length: "i < length xs \<Longrightarrow> length (sort_pass i xs) = length xs"
  by (metis sort_pass_mset size_mset)

lemma sort_upto: "m \<le> length xs \<Longrightarrow>
    ranked_upto m (fold sort_pass [0..<m] xs) \<and> mset (fold sort_pass [0..<m] xs) = mset xs \<and> length (fold sort_pass [0..<m] xs) = length xs"
proof (induction m)
  case 0
  show ?case
    by (simp add: ranked_upto_def)
next
  case (Suc m)
  then show ?case
    by (simp add: ranked_pass sort_pass_mset sort_pass_length)
qed

lemma sort_routes_mset: "mset (sort_routes xs) = mset xs"
  using sort_upto [of "length xs" xs] by (simp add: sort_routes_def)

lemma sort_routes_sorted: "sorted_wrt (\<lambda>a b. rank b \<le> rank a) (sort_routes xs)"
proof -
  have "ranked_upto (length xs) (sort_routes xs)" "length (sort_routes xs) = length xs"
    using sort_upto [of "length xs" xs] by (simp_all add: sort_routes_def)
  then show ?thesis
    by (simp add: ranked_upto_def)
qed

section \<open>Compilation and lookup\<close>

definition route_live :: "(string, Upstream) gomap \<Rightarrow> Route \<Rightarrow> bool" where
  "route_live ups rt \<longleftrightarrow> rt_Enabled rt \<and> map_of ups (rt_UpstreamID rt) \<noteq> None"

definition compiled_from :: "build_env \<Rightarrow> (string, Upstream) gomap \<Rightarrow> compiled \<Rightarrow> bool" where
  "compiled_from env ups c \<longleftrightarrow> rt_Enabled (c_route c) \<and> map_of ups (rt_UpstreamID (c_route c)) = Some (c_upstream c) \<and>
     c_hosts c = route_hosts (c_route c) \<and> c_prefix c = route_prefix (c_route c) \<and>
     map_option fst (buildProxy env (c_upstream c) (rt_StripPrefix (c_route c)) (c_prefix c)) = Some (c_proxy c)"

lemma compile_routes_from:
  "compile_routes env ups rts = Some cs \<Longrightarrow> \<forall>c \<in> set cs. compiled_from env ups c"
  by (induction rts arbitrary: cs) (auto simp: compiled_from_def split: if_splits option.splits)

lemma compile_routes_map:
  "compile_routes env ups rts = Some cs \<Longrightarrow> map c_route cs = filter (route_live ups) rts"
  by (induction rts arbitrary: cs) (auto simp: route_live_def split: if_splits option.splits)

lemma matchPrefix_iff:
  "matchPrefix path p \<longleftrightarrow> p = [] \<or> p = ''/'' \<or> path = TrimSuffix p ''/'' \<or> (\<exists>rest. path = TrimSuffix p ''/'' @ CHR ''/'' # rest)"
proof -
  have "p = TrimSuffix p ''/'' \<or> p = TrimSuffix p ''/'' @ CHR ''/'' # []"
    by (auto simp: TrimSuffix_def HasSuffix_iff suffix_def)
  then show ?thesis
    by (auto simp: matchPrefix_def Let_def HasPrefix_iff prefix_def)
qed

text \<open>When a route applies to a request, in terms of its own fields: its hosts, if it names any, include the
  request's, and the path is the prefix or lies below it at a segment boundary.\<close>

definition route_applies :: "Route \<Rightarrow> Request \<Rightarrow> bool" where
  "route_applies rt r \<longleftrightarrow>
     (let path = (if req_Path r = [] then ''/'' else req_Path r);
          base = TrimSuffix (route_prefix rt) ''/''
      in (route_hosts rt = [] \<or> stripPort (req_Host r) \<in> set (route_hosts rt)) \<and>
         (route_prefix rt = ''/'' \<or> path = base \<or> (\<exists>rest. path = base @ CHR ''/'' # rest)))"

lemma route_prefix_nonempty: "route_prefix rt \<noteq> []"
  by (simp add: route_prefix_def Let_def)

lemma route_matches_iff:
  "compiled_from env ups c \<Longrightarrow>
   route_matches (stripPort (req_Host r)) (if req_Path r = [] then ''/'' else req_Path r) c \<longleftrightarrow> route_applies (c_route c) r"
  by (auto simp: compiled_from_def route_matches_def matchPrefix_iff route_applies_def Let_def route_prefix_nonempty)

definition route_rank :: "Route \<Rightarrow> int \<times> nat" where
  "route_rank rt = (rt_Priority rt, length (route_prefix rt))"

lemma find_sorted:
  assumes "sorted_wrt R xs" "List.find P xs = Some x" "y \<in> set xs" "P y" "\<And>z. R z z"
  shows "R x y"
  using assms(1-4) by (induction xs) (auto split: if_splits intro: assms(5))

lemma Replace_ok:
  assumes "Replace env t upstreams routes = (True, t')"
  obtains cs where "compile_routes env (upstream_map upstreams) routes = Some cs"
    "tb_compiled t' = map (\<lambda>c. c\<lparr> c_health := map_option (\<lambda>h. Checker_Start h (be_firstProbe env (c_upstream c))) (c_health c) \<rparr>) (sort_routes cs)"
  using assms by (auto simp: Replace_def Let_def split: option.splits)

lemma compiled_from_health [simp]: "compiled_from env ups (c\<lparr> c_health := h \<rparr>) = compiled_from env ups c"
  by (simp add: compiled_from_def)

lemma rank_health [simp]: "rank (c\<lparr> c_health := h \<rparr>) = rank c"
  by (simp add: rank_def)

lemma Replace_table:
  assumes "Replace env t upstreams routes = (True, t')"
  shows "\<forall>c \<in> set (tb_compiled t'). compiled_from env (upstream_map upstreams) c"
    and "mset (map c_route (tb_compiled t')) = mset (filter (route_live (upstream_map upstreams)) routes)"
    and "sorted_wrt (\<lambda>a b. rank b \<le> rank a) (tb_compiled t')"
proof -
  obtain cs where cs: "compile_routes env (upstream_map upstreams) routes = Some cs"
    and t': "tb_compiled t' = map (\<lambda>c. c\<lparr> c_health := map_option (\<lambda>h. Checker_Start h (be_firstProbe env (c_upstream c))) (c_health c) \<rparr>) (sort_routes cs)"
    using assms by (rule Replace_ok)
  have st: "set (sort_routes cs) = set cs"
    using sort_routes_mset by (metis set_mset_mset)
  show "\<forall>c \<in> set (tb_compiled t'). compiled_from env (upstream_map upstreams) c"
    using compile_routes_from [OF cs] by (simp add: t' st)
  have "mset (map c_route (tb_compiled t')) = image_mset c_route (mset (sort_routes cs))"
    by (simp add: t' comp_def)
  also have "\<dots> = mset (map c_route cs)"
    by (simp add: sort_routes_mset)
  finally show "mset (map c_route (tb_compiled t')) = mset (filter (route_live (upstream_map upstreams)) routes)"
    using compile_routes_map [OF cs] by simp
  show "sorted_wrt (\<lambda>a b. rank b \<le> rank a) (tb_compiled t')"
    using sort_routes_sorted by (simp add: t' sorted_wrt_map)
qed

section \<open>Properties\<close>

text \<open>C6: After a route table has been installed, a lookup gives an enabled route of the configuration with
  a known upstream that applies to the request, and none that applies has a higher priority, nor the same
  priority and a longer prefix; it gives no route only if none applies.\<close>

theorem lookup_best:
  assumes "Replace env t upstreams routes = (True, t')"
  shows "case Lookup t' r of
      None \<Rightarrow> \<forall>rt \<in> set routes. route_live (upstream_map upstreams) rt \<longrightarrow> \<not> route_applies rt r
    | Some m \<Rightarrow> m_Route m \<in> set routes \<and> rt_Enabled (m_Route m) \<and>
        map_of (upstream_map upstreams) (rt_UpstreamID (m_Route m)) = Some (m_Upstream m) \<and> route_applies (m_Route m) r \<and>
        (\<forall>rt \<in> set routes. route_live (upstream_map upstreams) rt \<and> route_applies rt r \<longrightarrow> route_rank rt \<le> route_rank (m_Route m))"
proof -
  let ?P = "route_matches (stripPort (req_Host r)) (if req_Path r = [] then ''/'' else req_Path r)"
  note tab = Replace_table [OF assms]
  have rts: "c_route ` set (tb_compiled t') = {rt \<in> set routes. route_live (upstream_map upstreams) rt}"
    using arg_cong [OF tab(2), of set_mset] by simp
  have app: "?P c \<longleftrightarrow> route_applies (c_route c) r" if "c \<in> set (tb_compiled t')" for c
    using tab(1) that route_matches_iff by blast
  have rk: "rank c = route_rank (c_route c)" if "c \<in> set (tb_compiled t')" for c
    using bspec [OF tab(1) that] by (simp add: rank_def route_rank_def compiled_from_def)
  show ?thesis
  proof (cases "List.find ?P (tb_compiled t')")
    case None
    then have "\<not> ?P c" if "c \<in> set (tb_compiled t')" for c
      using that by (auto simp: find_None_iff)
    then have "\<not> route_applies rt r" if "rt \<in> c_route ` set (tb_compiled t')" for rt
      using that app by blast
    then show ?thesis
      using None rts by (simp add: Lookup_def matchLocked_def Let_def)
  next
    case (Some c)
    have c: "c \<in> set (tb_compiled t')" "?P c"
      using Some by (auto simp: find_Some_iff)
    have "rank d \<le> rank c" if "d \<in> set (tb_compiled t')" "?P d" for d
      using find_sorted [OF tab(3) Some that] by simp
    then have best: "route_rank rt \<le> route_rank (c_route c)" if "rt \<in> c_route ` set (tb_compiled t')" "route_applies rt r" for rt
      using that app c(1) rk by fastforce
    have "c_route c \<in> set routes" "route_applies (c_route c) r"
      using c app rts by blast+
    then show ?thesis
      using best bspec [OF tab(1) c(1)] rts Some
      by (simp add: Lookup_def matchLocked_def Let_def compiled_from_def)
  qed
qed

definition demo_env :: build_env where
  "demo_env = \<lparr> be_parseURL = (\<lambda>s. Some (zero_URL\<lparr> u_Scheme := ''http'', u_Host := s \<rparr>)), be_parseDuration = (\<lambda>_. None),
     be_tls = (\<lambda>_. True), be_firstProbe = (\<lambda>_. Some 200) \<rparr>"

definition demo_upstream :: "string \<Rightarrow> Upstream" where
  "demo_upstream n = \<lparr> up_ID = n, up_Name = n, up_URL = n, up_ConnectTimeout = [], up_ResponseHeader = [], up_IdleConnTimeout = [],
     up_MaxIdleConns = 0, up_MaxIdleConnsPerHost = 0, up_MaxConnsPerHost = 0, up_FlushInterval = [], up_SetHeaders = [],
     up_Protocol = [], up_AllowHTTP1 = False, up_TLSCAFile = [], up_TLSClientCertFile = [], up_TLSClientKeyFile = [],
     up_InsecureSkipVerify = False, up_HealthEnabled = True, up_HealthPath = [], up_HealthInterval = [], up_HealthTimeout = [],
     up_HealthSuccessCodes = [] \<rparr>"

definition demo_route :: "string \<Rightarrow> string \<Rightarrow> string \<Rightarrow> Route" where
  "demo_route i p u = \<lparr> rt_ID = i, rt_Name = i, rt_Enabled = True, rt_Hosts = [''Example.com''], rt_PathPrefix = p, rt_UpstreamID = u,
     rt_StripPrefix = False, rt_Priority = 1, rt_AccessPolicyID = [], rt_OpenAPISchemaID = [], rt_SkipChallenge = False \<rparr>"

definition demo_table :: "bool \<times> Table" where
  "demo_table = Replace demo_env Table_New [demo_upstream ''u'', demo_upstream ''v''] [demo_route ''web'' ''/'' ''u'', demo_route ''api'' ''api/'' ''v'']"

definition demo_request :: Request where
  "demo_request = \<lparr> req_Method = ''GET'', req_Host = ''EXAMPLE.com:443'', req_Path = ''/api'', req_RawQuery = [],
     req_RemoteAddr = [], req_Header = [], req_TLS = True, req_ContentLength = 0, req_Body = [], req_HasBody = False,
     req_RawPath = [], req_ProtoMajor = 1, req_ProtoMinor = 1, req_ServerName = [] \<rparr>"

lemma demo_table_ok: "fst demo_table"
  by code_simp

lemma demo_lookup: "map_option (rt_ID \<circ> m_Route) (Lookup (snd demo_table) demo_request) = Some ''api''"
  by code_simp

theorem lookup_best_witness:
  "\<exists>m. Lookup (snd demo_table) demo_request = Some m \<and> rt_ID (m_Route m) = ''api'' \<and>
       (route_applies (demo_route ''web'' ''/'' ''u'') demo_request \<longrightarrow>
        route_rank (demo_route ''web'' ''/'' ''u'') \<le> route_rank (m_Route m))"
proof -
  let ?ups = "[demo_upstream ''u'', demo_upstream ''v'']"
  let ?rts = "[demo_route ''web'' ''/'' ''u'', demo_route ''api'' ''api/'' ''v'']"
  have r: "Replace demo_env Table_New ?ups ?rts = (True, snd demo_table)"
    using demo_table_ok by (simp add: demo_table_def prod_eq_iff)
  have live: "route_live (upstream_map ?ups) (demo_route ''web'' ''/'' ''u'')"
    by code_simp
  obtain m where m: "Lookup (snd demo_table) demo_request = Some m" "rt_ID (m_Route m) = ''api''"
    using demo_lookup by auto
  show ?thesis
    using lookup_best [OF r, of demo_request] m live by simp
qed

end
