(* ===== verification/Privacy.thy ===== *)
theory Privacy
  imports GoEnc Faststr
begin

text \<open>
  \<open>internal/privacy\<close>: client addresses as keyed digests, for the limiter keys and the logs.  HMAC-SHA256 is the
  parameter \<open>hm\<close>; a nil guard is \<open>None\<close>.
\<close>

section \<open>Definitions\<close>

record PrivacyGuard =
  pg_secret :: string
  pg_logIP :: string

definition lowerASCII :: "string \<Rightarrow> string" where
  "lowerASCII s = (if \<not> list_ex is_upper s then s else map (\<lambda>c. if is_upper c then char_of (byte_of c + 32) else c) s)"

definition Privacy_New :: "string \<Rightarrow> string \<Rightarrow> PrivacyGuard" where
  "Privacy_New secret logip =
     (let mode = fs_TrimSpace logip
      in \<lparr> pg_secret = secret, pg_logIP = (if mode = [] then ''hash'' else lowerASCII mode) \<rparr>)"

definition pg_hash :: "(string \<Rightarrow> string \<Rightarrow> string) \<Rightarrow> PrivacyGuard \<Rightarrow> string \<Rightarrow> string" where
  "pg_hash hm g ip = hex_encode (take 16 (hm (pg_secret g) ip))"

definition ClientKey :: "(string \<Rightarrow> string \<Rightarrow> string) \<Rightarrow> PrivacyGuard option \<Rightarrow> string \<Rightarrow> string" where
  "ClientKey hm g ip0 =
     (let ip = fs_TrimSpace ip0 in
      if ip = [] then [] else case g of None \<Rightarrow> ip | Some g \<Rightarrow> pg_hash hm g ip)"

definition Privacy_LogIP :: "(string \<Rightarrow> string \<Rightarrow> string) \<Rightarrow> PrivacyGuard option \<Rightarrow> string \<Rightarrow> string" where
  "Privacy_LogIP hm g ip0 =
     (let ip = fs_TrimSpace ip0 in
      case g of
        None \<Rightarrow> ip
      | Some g \<Rightarrow> if pg_logIP g = ''off'' then [] else if ip = [] then [] else pg_hash hm g ip)"

section \<open>Lemmas\<close>

lemma lowerASCII_eq: "lowerASCII s = ToLower s"
proof -
  have "map lower_char s = s" if "\<not> list_ex is_upper s"
    using that by (induction s) simp_all
  then show ?thesis
    by (simp add: lowerASCII_def ToLower_def lower_char_def)
qed

lemma ClientKey_chars:
  "g \<noteq> None \<Longrightarrow> c \<in> set (ClientKey hm g ip) \<Longrightarrow> is_digit c \<or> is_lower c"
  by (auto simp: ClientKey_def Let_def pg_hash_def dest: hex_chars split: if_splits)

lemma ClientKey_length:
  "(\<And>k msg. length (hm k msg) = 32) \<Longrightarrow> length (ClientKey hm (Some g) ip) \<in> {0, 32}"
  by (auto simp: ClientKey_def Let_def pg_hash_def)

end
