(* ===== verification/AccessGate.thy ===== *)
theory AccessGate
  imports Access Router Privacy
begin

text \<open>
  The pipeline's use of access policies (\<open>checkAccess\<close> and \<open>handleAccessPOST\<close> of
  \<open>internal/pipeline/pipeline.go\<close>): the router names the policy of a request, the gate admits or refuses it,
  and the form's target exchanges a secret for a clearance cookie.  The parsed form is a function from field names to
  values; pages rendered by \<open>internal/ui\<close> are named by their arguments.
\<close>

section \<open>Definitions\<close>

definition route_policy :: "Table option \<Rightarrow> Request \<Rightarrow> string" where
  "route_policy routes r =
     (case routes of
        None \<Rightarrow> []
      | Some t \<Rightarrow> (case Lookup t r of None \<Rightarrow> [] | Some m \<Rightarrow> rt_AccessPolicyID (m_Route m)))"

text \<open>The event recorded on a refusal: its reason and the policy.\<close>

datatype gate =
    Admit
  | RefuseError string int string
  | PageAccessForm string string string
  | PlainForm Response string
  | PageBlock string string

definition checkAccess :: "(string \<Rightarrow> string \<Rightarrow> string) \<Rightarrow> AccessManager option \<Rightarrow> Table option \<Rightarrow> bool \<Rightarrow> string \<Rightarrow>
    Request \<Rightarrow> string \<Rightarrow> IP option \<Rightarrow> bool \<Rightarrow> gotime \<Rightarrow> gate" where
  "checkAccess hm am routes pages chalPrefix r bindID clientIP websocket now =
     (case am of
        None \<Rightarrow> Admit
      | Some am \<Rightarrow>
          let policyID = route_policy routes r in
          if policyID = [] then Admit
          else
            let res = access_Check hm am r policyID bindID clientIP now in
            if rs_OK res then Admit
            else if websocket then RefuseError (rs_Reason res) (rs_Status res) policyID
            else if rs_NeedForm res then
              (let action = chalPrefix @ ''/access'' in
               if pages then
                 PageAccessForm (case access_Get am policyID of Some p \<Rightarrow> form_kind RulePassword (po_Rules p) | None \<Rightarrow> RulePassword) action policyID
               else PlainForm (WriteFormForPolicy am policyID action) policyID)
            else PageBlock (rs_Reason res) policyID)"

datatype post_result = PostMethodNotAllowed | PostDisabled | PostUnauthorized | PostRedirect HttpCookie

definition form_secret :: "(string \<Rightarrow> string) \<Rightarrow> string" where
  "form_secret form =
     (let s = form ''secret''; s = (if s = [] then form ''password'' else s) in if s = [] then form ''pin'' else s)"

definition handleAccessPOST :: "(string \<Rightarrow> string \<Rightarrow> string) \<Rightarrow> argon2 \<Rightarrow> AccessManager option \<Rightarrow> Table option \<Rightarrow>
    (string \<Rightarrow> string) \<Rightarrow> Request \<Rightarrow> PrivacyGuard option \<Rightarrow> IP option \<Rightarrow> bool \<Rightarrow> gotime \<Rightarrow> post_result" where
  "handleAccessPOST hm argon am routes form r priv clientIP secure now =
     (if req_Method r \<noteq> ''POST'' then PostMethodNotAllowed
      else case am of
        None \<Rightarrow> PostDisabled
      | Some am \<Rightarrow>
          let secret = form_secret form;
              ipStr = (case clientIP of None \<Rightarrow> [] | Some ip \<Rightarrow> IP_String ip);
              bindID = (case priv of Some g \<Rightarrow> ClientKey hm (Some g) ipStr | None \<Rightarrow> ipStr);
              policyID = route_policy routes r;
              policyID = (if policyID = [] then form ''policy_id'' else policyID)
          in if \<not> VerifyForm argon am policyID secret then PostUnauthorized
             else PostRedirect (IssueCookie hm am policyID bindID secure now))"

section \<open>Lemmas\<close>

lemma Lookup_with_cookie: "Lookup t (with_cookie r n v) = Lookup t r"
  by (simp add: Lookup_def matchLocked_def with_cookie_def)

lemma route_policy_with_cookie [simp]: "route_policy routes (with_cookie r n v) = route_policy routes r"
  by (simp add: route_policy_def Lookup_with_cookie split: option.splits)

definition bind_of :: "(string \<Rightarrow> string \<Rightarrow> string) \<Rightarrow> PrivacyGuard option \<Rightarrow> IP option \<Rightarrow> string" where
  "bind_of hm priv ip =
     (let ipStr = (case ip of None \<Rightarrow> [] | Some ip \<Rightarrow> IP_String ip) in
      case priv of Some g \<Rightarrow> ClientKey hm (Some g) ipStr | None \<Rightarrow> ipStr)"

lemma post_redirect:
  assumes "handleAccessPOST hm argon (Some am) routes form r priv ip sec t = PostRedirect c" "route_policy routes r \<noteq> []"
  shows "VerifyForm argon am (route_policy routes r) (form_secret form)"
    and "c = IssueCookie hm am (route_policy routes r) (bind_of hm priv ip) sec t"
  using assms by (auto simp: handleAccessPOST_def Let_def bind_of_def split: if_splits)

lemma VerifyForm_known: "VerifyForm argon am pid s \<Longrightarrow> getCompiled am pid \<noteq> None"
  by (auto simp: VerifyForm_def split: option.splits)

section \<open>Properties\<close>

text \<open>C24: A client that has posted the secret of a policy passes the whole policy from then on until the cookie expires: the
  address, header and User-Agent rules are not looked at any more, in mode \<open>all\<close> either, and posting the secret does
  not look at them before.\<close>

theorem form_clears_every_rule:
  assumes post: "handleAccessPOST hm argon (Some am) routes form r priv ip sec t = PostRedirect c"
    and pol: "route_policy routes r = pid" "route_policy routes r' = pid" "pid \<noteq> []"
    and cookie: "isToken (am_cookieName (Some am))" "cookie_safe pid" "CHR ''|'' \<notin> set pid"
      "- (2 ^ 63) \<le> cookie_expiry am pid t" "cookie_expiry am pid t < 2 ^ 63" "unix_sec now \<le> cookie_expiry am pid t"
  shows "checkAccess hm (Some am) routes pages chalPrefix (with_cookie r' (am_cookieName (Some am)) (ck_Value c))
    (bind_of hm priv ip) ip' websocket now = Admit"
proof -
  have ok: "VerifyForm argon am pid (form_secret form)" and c: "c = IssueCookie hm am pid (bind_of hm priv ip) sec t"
    using post_redirect [OF post] pol by simp_all
  obtain cp where cp: "getCompiled am pid = Some cp"
    using VerifyForm_known [OF ok] by blast
  have "VerifyCookie hm am (with_cookie r' (am_cookieName (Some am)) (ck_Value c)) pid (bind_of hm priv ip) now"
    unfolding c using VerifyCookie_issued [OF cookie(1-5)] cookie(6) by simp
  then have "access_Check hm am (with_cookie r' (am_cookieName (Some am)) (ck_Value c)) pid (bind_of hm priv ip) ip' now = allow"
    using pol(3) cp by (simp add: access_Check_def)
  then show ?thesis
    using pol by (simp add: checkAccess_def allow_def)
qed

definition gate_route :: "string \<Rightarrow> string \<Rightarrow> Route" where
  "gate_route p pol = (demo_route ''r'' p ''u'')\<lparr> rt_Hosts := [], rt_AccessPolicyID := pol \<rparr>"

definition gate_table :: "string \<Rightarrow> Table" where
  "gate_table p = snd (Replace demo_env Table_New [demo_upstream ''u''] [gate_route p ''p1''])"

definition gate_hash :: string where
  "gate_hash = encode_secret 19 65536 3 1 ''salt'' (take 32 (''correct horse'' @ replicate 32 (CHR '' '')))"

definition gate_manager :: AccessManager where
  "gate_manager = access_Replace demo_argon (\<lambda>_ _. None) (NewManager ''k'')
     [demo_policy\<lparr> po_Rules := [(demo_rule RulePassword)\<lparr> rl_SecretHash := gate_hash \<rparr>, demo_rule RuleIPAllowlist] \<rparr>]"

definition gate_post :: Request where
  "gate_post = demo_http\<lparr> req_Method := ''POST'', req_Path := ''/_rg/access'' \<rparr>"

definition gate_form :: "string \<Rightarrow> string" where
  "gate_form f = (if f = ''password'' then ''correct horse'' else [])"

lemma gate_policies: "route_policy (Some (gate_table ''/'')) gate_post = ''p1''" "route_policy (Some (gate_table ''/'')) demo_http = ''p1''"
  by code_simp+

lemma gate_get: "getCompiled gate_manager ''p1'' = Some (compilePolicy demo_argon (\<lambda>_. None)
    (demo_policy\<lparr> po_Rules := [(demo_rule RulePassword)\<lparr> rl_SecretHash := gate_hash \<rparr>, demo_rule RuleIPAllowlist] \<rparr>))"
  by (simp add: gate_manager_def access_Replace_def getCompiled_def demo_policy_def)

lemma gate_nets: "ParseCIDRs [''10.0.0.0/8''] = Inr [Net4 0x0A000000 8]"
  by code_simp

lemma gate_verify: "VerifySecret demo_argon gate_hash ''correct horse'' = None"
  unfolding gate_hash_def by (subst VerifySecret_encode) (simp_all add: demo_argon_def)

lemma gate_form_ok: "VerifyForm demo_argon gate_manager ''p1'' ''correct horse''"
proof -
  have "gate_hash \<noteq> []"
    by (simp add: gate_hash_def encode_secret_def)
  then show ?thesis
    by (simp add: VerifyForm_def gate_get compilePolicy_def demo_policy_def compileRule_def demo_rule_def enumerate_eq_zip
        gate_verify normalizeMode_def ModeAny_def ModeAll_def Let_def)
qed

abbreviation gate_hm :: "string \<Rightarrow> string \<Rightarrow> string" where
  "gate_hm \<equiv> \<lambda>k msg. k @ msg"

definition gate_cookie :: HttpCookie where
  "gate_cookie = IssueCookie gate_hm gate_manager ''p1'' (bind_of gate_hm None (Some (V4 0x0B000001))) True 0"

lemma gate_posted:
  "handleAccessPOST gate_hm demo_argon (Some gate_manager) (Some (gate_table ''/'')) gate_form gate_post None (Some (V4 0x0B000001)) True 0 = PostRedirect gate_cookie"
proof -
  have "req_Method gate_post = ''POST''" "form_secret gate_form = ''correct horse''"
    by (simp_all add: gate_post_def form_secret_def gate_form_def)
  then show ?thesis
    using gate_form_ok by (simp add: handleAccessPOST_def gate_policies gate_cookie_def bind_of_def)
qed

lemma gate_refused_before:
  "checkAccess gate_hm (Some gate_manager) (Some (gate_table ''/'')) True ''/_rg'' demo_http bnd (Some (V4 0x0B000001)) False second =
     PageBlock ''ip not allowed'' ''p1''"
proof -
  have nc: "\<not> VerifyCookie gate_hm gate_manager demo_http ''p1'' bnd second"
    by (simp add: VerifyCookie_def Request_Cookie_def demo_http_def)
  have ip: "\<not> access_matchIP [Net4 0x0A000000 8] (Some (V4 0x0B000001))"
    by code_simp
  show ?thesis
    using nc ip
    by (simp add: checkAccess_def gate_policies access_Check_def gate_get compilePolicy_def demo_policy_def compileRule_def
        demo_rule_def enumerate_eq_zip gate_nets normalizeMode_def ModeAny_def ModeAll_def checkAll_def checkAll_loop.simps deny_def Let_def
        del: ParseCIDRs.simps)
qed

theorem form_clears_every_rule_witness:
  "checkAccess gate_hm (Some gate_manager) (Some (gate_table ''/'')) True ''/_rg'' demo_http
     (bind_of gate_hm None (Some (V4 0x0B000001))) (Some (V4 0x0B000001)) False second = PageBlock ''ip not allowed'' ''p1'' \<and>
   checkAccess gate_hm (Some gate_manager) (Some (gate_table ''/'')) True ''/_rg''
     (with_cookie demo_http (am_cookieName (Some gate_manager)) (ck_Value gate_cookie))
     (bind_of gate_hm None (Some (V4 0x0B000001))) (Some (V4 0x0B000001)) False second = Admit"
proof
  have "am_cookieName (Some gate_manager) = ''rg_access''"
    by (simp add: am_cookieName_def gate_manager_def access_Replace_def NewManager_def AccessCookieName_def)
  moreover have "isToken ''rg_access''" "cookie_safe ''p1''" "CHR ''|'' \<notin> set ''p1''"
    by code_simp+
  moreover have "cookie_expiry gate_manager ''p1'' 0 = 24 * 3600"
    using gate_get by (simp add: cookie_expiry_def access_Get_def getCompiled_def compilePolicy_def demo_policy_def policy_ttl_def
        defaultCookieTTL_def unix_sec_def duration_defs)
  moreover have "unix_sec second = 1"
    by (simp add: unix_sec_def duration_defs)
  ultimately show "checkAccess gate_hm (Some gate_manager) (Some (gate_table ''/'')) True ''/_rg''
     (with_cookie demo_http (am_cookieName (Some gate_manager)) (ck_Value gate_cookie))
     (bind_of gate_hm None (Some (V4 0x0B000001))) (Some (V4 0x0B000001)) False second = Admit"
    using form_clears_every_rule [OF gate_posted gate_policies, of second] by simp
qed (rule gate_refused_before)

text \<open>When the route that matches the form's own target names no policy, a form without a \<open>policy_id\<close> field, which no
  form of the program has, is refused whatever secret is posted: a policy on a path-prefixed route cannot be passed
  through its form.\<close>

theorem prefixed_policy_form_refused:
  assumes "route_policy routes r = []" "form ''policy_id'' = []" "req_Method r = ''POST''" "map_of (am_policies am) [] = None"
  shows "handleAccessPOST hm argon (Some am) routes form r priv ip sec t = PostUnauthorized"
  using assms by (simp add: handleAccessPOST_def VerifyForm_def getCompiled_def)

theorem prefixed_policy_form_refused_witness:
  "route_policy (Some (gate_table ''/admin'')) (demo_http\<lparr> req_Path := ''/admin'' \<rparr>) = ''p1'' \<and>
   handleAccessPOST gate_hm demo_argon (Some gate_manager) (Some (gate_table ''/admin'')) gate_form gate_post None None True 0 = PostUnauthorized"
proof
  show "route_policy (Some (gate_table ''/admin'')) (demo_http\<lparr> req_Path := ''/admin'' \<rparr>) = ''p1''"
    by code_simp
  have "route_policy (Some (gate_table ''/admin'')) gate_post = []"
    by code_simp
  moreover have "map_of (am_policies gate_manager) [] = None"
    by (simp add: gate_manager_def access_Replace_def demo_policy_def)
  ultimately show "handleAccessPOST gate_hm demo_argon (Some gate_manager) (Some (gate_table ''/admin'')) gate_form gate_post None None True 0 = PostUnauthorized"
    using prefixed_policy_form_refused by (simp add: gate_form_def gate_post_def)
qed

end
