(* ===== verification/Challenge.thy ===== *)
theory Challenge
  imports Access Sharding
begin

text \<open>
  \<open>internal/challenge\<close>: proof-of-work challenges.  Tokens and protocol v1 challenges are signed and carry no
  server state; a solved one is accepted once, through the store of used nonces; a cleared client carries a signed
  cookie.  The hash functions of Go's \<open>crypto\<close> packages are the fields of the parameter \<open>crypto\<close>,
  \<open>json.Unmarshal\<close> of a payload is the parameter \<open>unmarshal\<close>, random bytes are arguments and
  \<open>now\<close> is the clock (nanoseconds where the code uses a \<open>time.Time\<close>, seconds where it uses \<open>Unix()\<close>).
\<close>

section \<open>Definitions\<close>

record crypto =
  cy_hmac :: "string \<Rightarrow> string \<Rightarrow> string"
  cy_sha256 :: "string \<Rightarrow> string"
  cy_pbkdf2 :: "string \<Rightarrow> string \<Rightarrow> int \<Rightarrow> nat \<Rightarrow> string option"

datatype chal_error = ErrInvalidToken | ErrBadSolution | ErrExpired | ErrBadCookie | ErrCaptchaNeeded | ErrReplay
  | ErrBadPayload | ErrBadSignature | ErrBadAlgorithm | ErrBindMismatch | ErrCaptchaFailed

definition tokenTTL :: int where "tokenTTL = 300"
definition ProtocolVersion :: int where "ProtocolVersion = 1"
definition AlgoSHA256 :: string where "AlgoSHA256 = ''SHA-256''"
definition AlgoPBKDF2SHA256 :: string where "AlgoPBKDF2SHA256 = ''PBKDF2-SHA256''"
definition AlgoArgon2id :: string where "AlgoArgon2id = ''ARGON2ID''"
definition GateInvisible :: string where "GateInvisible = ''invisible''"
definition GateInteractive :: string where "GateInteractive = ''interactive''"

datatype RiskLevel = RiskLow | RiskElevated | RiskHigh

record liveSettings =
  ls_Difficulty :: int
  ls_Algorithm :: string
  ls_CookieName :: string
  ls_CookieTTL :: duration

record Token =
  tk_Nonce :: string
  tk_IssuedAt :: int
  tk_Difficulty :: int

record riskEntry =
  re_level :: RiskLevel
  re_gate :: string
  re_exp :: int

record Manager =
  mg_Secret :: string
  mg_Difficulty :: int
  mg_Algorithm :: string
  mg_CookieName :: string
  mg_CookieTTL :: duration
  mg_Secure :: bool
  mg_nonces :: "int shards"
  mg_risks :: "(string, riskEntry) gomap"
  mg_live :: "liveSettings option"

text \<open>\<open>settings\<close> publishes the startup values on its first use.\<close>

definition settings :: "Manager \<Rightarrow> liveSettings \<times> Manager" where
  "settings m =
     (case mg_live m of
        Some p \<Rightarrow> (p, m)
      | None \<Rightarrow>
          let ls = \<lparr> ls_Difficulty = mg_Difficulty m, ls_Algorithm = mg_Algorithm m, ls_CookieName = mg_CookieName m,
                     ls_CookieTTL = mg_CookieTTL m \<rparr>
          in (ls, m\<lparr> mg_live := Some ls \<rparr>))"

definition ApplyLive :: "Manager option \<Rightarrow> string \<Rightarrow> int \<Rightarrow> duration \<Rightarrow> string \<Rightarrow> Manager option" where
  "ApplyLive mo cookieName difficulty ttl algorithm =
     (case mo of
        None \<Rightarrow> None
      | Some m \<Rightarrow>
          let (ls, m) = settings m;
              ls = (if cookieName \<noteq> [] then ls\<lparr> ls_CookieName := cookieName \<rparr> else ls);
              ls = (if difficulty > 0 then ls\<lparr> ls_Difficulty := difficulty \<rparr> else ls);
              ls = (if ttl > 0 then ls\<lparr> ls_CookieTTL := ttl \<rparr> else ls);
              ls = (if algorithm \<noteq> [] then ls\<lparr> ls_Algorithm := algorithm \<rparr> else ls)
          in Some (m\<lparr> mg_live := Some ls \<rparr>))"

definition SecureDefault :: "Manager option \<Rightarrow> bool" where
  "SecureDefault mo = (case mo of None \<Rightarrow> False | Some m \<Rightarrow> mg_Secure m)"

subsection \<open>Proof of work\<close>

fun lz_byte :: "nat \<Rightarrow> nat \<Rightarrow> nat \<Rightarrow> nat \<times> bool" where
  "lz_byte c 0 n = (n, False)"
| "lz_byte c (Suc i) n = (if \<not> bit c i then lz_byte c i (n + 1) else (n, True))"

fun lz_bytes :: "string \<Rightarrow> nat \<Rightarrow> nat" where
  "lz_bytes [] n = n"
| "lz_bytes (c # b) n =
     (if byte_of c = 0 then lz_bytes b (n + 8)
      else let (n', stop) = lz_byte (byte_of c) 8 n in if stop then n' else lz_bytes b n')"

definition leadingZeroBits :: "string \<Rightarrow> nat" where
  "leadingZeroBits b = lz_bytes b 0"

definition be64 :: "nat \<Rightarrow> string" where
  "be64 n = map char_of (be_digits 256 8 (int n))"

definition pow_message :: "string \<Rightarrow> nat \<Rightarrow> string" where
  "pow_message nonce solution = nonce @ '':'' @ be64 solution"

definition checkPoW :: "crypto \<Rightarrow> string \<Rightarrow> nat \<Rightarrow> int \<Rightarrow> bool" where
  "checkPoW cy nonce solution difficulty = (int (leadingZeroBits (cy_sha256 cy (pow_message nonce solution))) \<ge> difficulty)"

definition HashSolutionSHA256 :: "crypto \<Rightarrow> string \<Rightarrow> nat \<Rightarrow> string" where
  "HashSolutionSHA256 cy nonce solution = cy_sha256 cy (pow_message nonce solution)"

text \<open>The search loops, with the number of remaining candidates.\<close>

fun solve_loop :: "(nat \<Rightarrow> bool) \<Rightarrow> nat \<Rightarrow> nat \<Rightarrow> nat option" where
  "solve_loop ok i 0 = None"
| "solve_loop ok i (Suc k) = (if ok i then Some i else solve_loop ok (Suc i) k)"

definition SolvePoW :: "crypto \<Rightarrow> string \<Rightarrow> int \<Rightarrow> chal_error + nat" where
  "SolvePoW cy nonce difficulty =
     (case solve_loop (\<lambda>i. checkPoW cy nonce i difficulty) 0 (2 ^ 32) of Some i \<Rightarrow> Inr i | None \<Rightarrow> Inl ErrBadSolution)"

subsection \<open>Tokens\<close>

definition chal_sign :: "crypto \<Rightarrow> Manager \<Rightarrow> string \<Rightarrow> int \<Rightarrow> int \<Rightarrow> string \<Rightarrow> string" where
  "chal_sign cy m nonce issued diff clientID =
     hex_encode (cy_hmac cy (mg_Secret m) (nonce @ ''.'' @ FormatInt issued @ ''.'' @ FormatInt diff @ ''.'' @ clientID))"

definition chal_mac :: "crypto \<Rightarrow> Manager \<Rightarrow> string \<Rightarrow> string" where
  "chal_mac cy m payload = hex_encode (cy_hmac cy (mg_Secret m) payload)"

definition Issue :: "crypto \<Rightarrow> Manager \<Rightarrow> string \<Rightarrow> string \<Rightarrow> int \<Rightarrow> (Token \<times> string) \<times> Manager" where
  "Issue cy m clientID nb now =
     (let (ls, m) = settings m;
          t = \<lparr> tk_Nonce = hex_encode nb, tk_IssuedAt = now, tk_Difficulty = ls_Difficulty ls \<rparr>;
          sig = chal_sign cy m (tk_Nonce t) (tk_IssuedAt t) (tk_Difficulty t) clientID;
          payload = tk_Nonce t @ ''.'' @ FormatInt (tk_IssuedAt t) @ ''.'' @ FormatInt (tk_Difficulty t) @ ''.'' @ sig
      in ((t, payload), m))"

definition ParseToken :: "crypto \<Rightarrow> Manager \<Rightarrow> string \<Rightarrow> string \<Rightarrow> int \<Rightarrow> chal_error + Token" where
  "ParseToken cy m raw clientID now =
     (let parts = Split (CHR ''.'') raw in
      if length parts \<noteq> 4 then Inl ErrInvalidToken
      else case ParseInt (parts ! 1) of
        None \<Rightarrow> Inl ErrInvalidToken
      | Some issued \<Rightarrow>
          (case ParseInt (parts ! 2) of
             None \<Rightarrow> Inl ErrInvalidToken
           | Some diff \<Rightarrow>
               if chal_sign cy m (parts ! 0) issued diff clientID \<noteq> parts ! 3 then Inl ErrInvalidToken
               else if int64 (now - issued) > tokenTTL then Inl ErrExpired
               else Inr \<lparr> tk_Nonce = parts ! 0, tk_IssuedAt = issued, tk_Difficulty = diff \<rparr>))"

definition VerifyPoW :: "crypto \<Rightarrow> Token \<Rightarrow> string \<Rightarrow> chal_error option" where
  "VerifyPoW cy token nonceSolution =
     (case ParseUint nonceSolution of
        None \<Rightarrow> Some ErrBadSolution
      | Some n \<Rightarrow> if \<not> checkPoW cy (tk_Nonce token) n (tk_Difficulty token) then Some ErrBadSolution else None)"

definition nonce_consume :: "int shards \<Rightarrow> string \<Rightarrow> int \<Rightarrow> bool \<times> int shards" where
  "nonce_consume s nonce expi =
     (case shard_get 256 s nonce of Some _ \<Rightarrow> (False, s) | None \<Rightarrow> (True, shard_put 256 nonce expi s))"

definition nonce_sweep :: "int shards \<Rightarrow> int \<Rightarrow> int shards" where
  "nonce_sweep s now = shard_purge (\<lambda>k expi. expi < now) s"

definition ConsumeNonce :: "Manager \<Rightarrow> Token \<Rightarrow> int \<Rightarrow> chal_error option \<times> Manager" where
  "ConsumeNonce m token now =
     (let expi = int64 (tk_IssuedAt token + tokenTTL) in
      if now > expi then (Some ErrExpired, m)
      else let (ok, ns) = nonce_consume (mg_nonces m) (tk_Nonce token) expi
           in if \<not> ok then (Some ErrReplay, m) else (None, m\<lparr> mg_nonces := ns \<rparr>))"

subsection \<open>Remembered risk\<close>

definition NormalizeGate :: "string \<Rightarrow> string" where
  "NormalizeGate gate = (if ToLower (TrimSpace gate) = GateInteractive then GateInteractive else GateInvisible)"

definition risk_put :: "(string, riskEntry) gomap \<Rightarrow> string \<Rightarrow> RiskLevel \<Rightarrow> string \<Rightarrow> int \<Rightarrow> (string, riskEntry) gomap" where
  "risk_put c i level gate now = AList.update i \<lparr> re_level = level, re_gate = NormalizeGate gate, re_exp = int64 (now + tokenTTL) \<rparr> c"

definition risk_get :: "(string, riskEntry) gomap \<Rightarrow> string \<Rightarrow> int \<Rightarrow> RiskLevel \<times> string" where
  "risk_get c i now =
     (case map_of c i of
        None \<Rightarrow> (RiskLow, [])
      | Some e \<Rightarrow> if re_exp e < now then (RiskLow, []) else (re_level e, NormalizeGate (re_gate e)))"

definition risk_sweep :: "(string, riskEntry) gomap \<Rightarrow> int \<Rightarrow> (string, riskEntry) gomap" where
  "risk_sweep c now = mpurge (\<lambda>k e. re_exp e < now) c"

definition SweepNonces :: "Manager \<Rightarrow> int \<Rightarrow> Manager" where
  "SweepNonces m now = m\<lparr> mg_nonces := nonce_sweep (mg_nonces m) now, mg_risks := risk_sweep (mg_risks m) now \<rparr>"

definition RememberChallenge :: "Manager option \<Rightarrow> string \<Rightarrow> RiskLevel \<Rightarrow> string \<Rightarrow> int \<Rightarrow> Manager option" where
  "RememberChallenge mo bindID risk gate now = map_option (\<lambda>m. m\<lparr> mg_risks := risk_put (mg_risks m) bindID risk gate now \<rparr>) mo"

definition RememberRisk :: "Manager option \<Rightarrow> string \<Rightarrow> RiskLevel \<Rightarrow> int \<Rightarrow> Manager option" where
  "RememberRisk mo bindID risk now = RememberChallenge mo bindID risk GateInvisible now"

definition TakeChallenge :: "Manager option \<Rightarrow> string \<Rightarrow> int \<Rightarrow> RiskLevel \<times> string" where
  "TakeChallenge mo bindID now = (case mo of None \<Rightarrow> (RiskLow, []) | Some m \<Rightarrow> risk_get (mg_risks m) bindID now)"

definition TakeRisk :: "Manager option \<Rightarrow> string \<Rightarrow> int \<Rightarrow> RiskLevel" where
  "TakeRisk mo bindID now = fst (TakeChallenge mo bindID now)"

subsection \<open>Clearance cookie\<close>

definition ClearanceCookie :: "crypto \<Rightarrow> Manager \<Rightarrow> string \<Rightarrow> string \<Rightarrow> bool \<Rightarrow> gotime \<Rightarrow> HttpCookie \<times> Manager" where
  "ClearanceCookie cy m bindID reqID secure now =
     (let (ls, m) = settings m;
          expi = now + ls_CookieTTL ls;
          payload = bindID @ ''|'' @ FormatInt (unix_sec expi) @ ''|'' @ reqID
      in (\<lparr> ck_Name = ls_CookieName ls, ck_Value = RawEncodeToString b64_url payload @ ''.'' @ chal_mac cy m payload, ck_Path = ''/'',
            ck_Expires = expi, ck_MaxAge = duration_seconds (ls_CookieTTL ls), ck_HttpOnly = True, ck_Secure = secure,
            ck_SameSiteLax = True \<rparr>, m))"

definition chal_validateCookie :: "crypto \<Rightarrow> Manager \<Rightarrow> string \<Rightarrow> string \<Rightarrow> gotime \<Rightarrow> chal_error option" where
  "chal_validateCookie cy m val bindID now =
     (let parts = Split (CHR ''.'') val in
      if length parts \<noteq> 2 then Some ErrBadCookie
      else case RawDecodeString b64_url (parts ! 0) of
        None \<Rightarrow> Some ErrBadCookie
      | Some raw \<Rightarrow>
          if chal_mac cy m raw \<noteq> parts ! 1 then Some ErrBadCookie
          else let fields = Split (CHR ''|'') raw in
            if length fields \<noteq> 3 then Some ErrBadCookie
            else if fields ! 0 \<noteq> bindID then Some ErrBadCookie
            else case ParseInt (fields ! 1) of
                   None \<Rightarrow> Some ErrExpired
                 | Some expi \<Rightarrow> if unix_sec now > expi then Some ErrExpired else None)"

definition HasClearance :: "crypto \<Rightarrow> Manager \<Rightarrow> Request \<Rightarrow> string \<Rightarrow> gotime \<Rightarrow> bool \<times> Manager" where
  "HasClearance cy m r bindID now =
     (let (ls, m) = settings m in
      (case Request_Cookie r (ls_CookieName ls) of
         None \<Rightarrow> False
       | Some v \<Rightarrow> if v = [] then False else chal_validateCookie cy m v bindID now = None, m))"

subsection \<open>Environment report\<close>

record EnvReport =
  er_Webdriver :: bool
  er_Playwright :: bool
  er_Selenium :: bool
  er_Headless :: bool
  er_NoPlugins :: bool
  er_ZeroViewport :: bool
  er_SoftWebGL :: bool
  er_WDDeleted :: bool
  er_PermMismatch :: bool
  er_Interacted :: bool
  er_SolveMs :: int

record EnvVerdict =
  ev_Refuse :: bool
  ev_Reasons :: "string list"

definition softRefuseThreshold :: nat where "softRefuseThreshold = 2"

definition minSolveMs :: "int \<Rightarrow> int" where
  "minSolveMs difficulty = (if difficulty \<le> 8 then 1 else if difficulty \<le> 12 then 20 else if difficulty \<le> 16 then 40 else 80)"

definition env_flag :: "bool \<Rightarrow> string \<Rightarrow> EnvVerdict \<Rightarrow> EnvVerdict" where
  "env_flag b reason v = (if b then v\<lparr> ev_Refuse := True, ev_Reasons := ev_Reasons v @ [reason] \<rparr> else v)"

definition env_soft :: "EnvReport \<Rightarrow> string list" where
  "env_soft rep =
     (if er_NoPlugins rep then [''no_plugins''] else []) @ (if er_ZeroViewport rep then [''zero_viewport''] else []) @
     (if er_SoftWebGL rep then [''soft_webgl''] else []) @ (if er_WDDeleted rep then [''wd_deleted''] else []) @
     (if er_PermMismatch rep then [''perm_mismatch''] else [])"

definition EvaluateEnv :: "EnvReport \<Rightarrow> int \<Rightarrow> string \<Rightarrow> EnvVerdict" where
  "EvaluateEnv rep difficulty gate =
     (let v = \<lparr> ev_Refuse = False, ev_Reasons = [] \<rparr>;
          v = env_flag (er_Webdriver rep) ''webdriver'' v;
          v = env_flag (er_Playwright rep) ''playwright'' v;
          v = env_flag (er_Selenium rep) ''selenium'' v;
          v = env_flag (er_Headless rep) ''headless'' v;
          soft = env_soft rep;
          v = (if ev_Refuse v \<or> length soft \<ge> softRefuseThreshold
               then v\<lparr> ev_Refuse := True, ev_Reasons := ev_Reasons v @ soft \<rparr> else v);
          v = env_flag (NormalizeGate gate = GateInteractive \<and> \<not> er_Interacted rep) ''no_interaction'' v
      in env_flag (difficulty \<ge> 12 \<and> er_SolveMs rep > 0 \<and> er_SolveMs rep < minSolveMs difficulty) ''solve_too_fast'' v)"

definition FormatEnvReasons :: "string list \<Rightarrow> string" where
  "FormatEnvReasons reasons = (if length reasons = 0 then ''automation'' else ''automation: '' @ join (CHR '','') reasons)"

subsection \<open>Protocol v1\<close>

record Challenge =
  ch_V :: int
  ch_Algorithm :: string
  ch_Challenge :: string
  ch_Salt :: string
  ch_Difficulty :: int
  ch_MaxNumber :: nat
  ch_Expires :: int
  ch_Bind :: string
  ch_Gate :: string
  ch_Params :: "(string, int) gomap"
  ch_Signature :: string

record Payload =
  pl_V :: int
  pl_Algorithm :: string
  pl_Challenge :: string
  pl_Salt :: string
  pl_Difficulty :: int
  pl_MaxNumber :: nat
  pl_Expires :: int
  pl_Bind :: string
  pl_Gate :: string
  pl_Params :: "(string, int) gomap"
  pl_Signature :: string
  pl_Solution :: string
  pl_Env :: EnvReport

fun risk_num :: "RiskLevel \<Rightarrow> nat" where
  "risk_num RiskLow = 0" | "risk_num RiskElevated = 1" | "risk_num RiskHigh = 2"

definition SelectGate :: "string \<Rightarrow> RiskLevel \<Rightarrow> string" where
  "SelectGate mode risk =
     (if ToLower (TrimSpace mode) = ''attack'' then GateInteractive
      else if risk_num risk \<ge> risk_num RiskHigh then GateInteractive else GateInvisible)"

definition ResolveGate :: "string \<Rightarrow> RiskLevel \<Rightarrow> string \<Rightarrow> bool \<Rightarrow> string" where
  "ResolveGate mode risk prevGate captchaEnabled =
     (let gate = SelectGate mode risk;
          gate = (if prevGate = GateInteractive then GateInteractive else gate)
      in if captchaEnabled then GateInteractive else gate)"

definition FloorRiskForMode :: "string \<Rightarrow> RiskLevel \<Rightarrow> RiskLevel" where
  "FloorRiskForMode mode risk =
     (if EqualFold (TrimSpace mode) ''attack'' \<and> risk_num risk < risk_num RiskElevated then RiskElevated else risk)"

definition RiskFromScore :: "int \<Rightarrow> int \<Rightarrow> int \<Rightarrow> RiskLevel" where
  "RiskFromScore score challengeScore blockScore =
     (if blockScore > 0 \<and> score \<ge> blockScore then RiskHigh
      else if challengeScore > 0 \<and> score \<ge> challengeScore + 20 then RiskHigh
      else if challengeScore > 0 \<and> score \<ge> challengeScore then RiskElevated
      else if score \<ge> 20 then RiskElevated
      else RiskLow)"

definition ToToken :: "Challenge \<Rightarrow> Token" where
  "ToToken c = \<lparr> tk_Nonce = ch_Challenge c, tk_IssuedAt = int64 (ch_Expires c - tokenTTL), tk_Difficulty = ch_Difficulty c \<rparr>"

definition selectEffort :: "liveSettings \<Rightarrow> RiskLevel \<Rightarrow> string \<times> int \<times> (string, int) gomap" where
  "selectEffort ls risk =
     (let diff = (if ls_Difficulty ls \<le> 0 then 16 else ls_Difficulty ls);
          mode = ToLower (TrimSpace (ls_Algorithm ls))
      in if mode \<in> {''sha256'', ''sha-256''} then (AlgoSHA256, diff, [])
         else if mode \<in> {''pbkdf2'', ''pbkdf2-sha256''} then (AlgoPBKDF2SHA256, diff, [(''iterations'', 10000)])
         else if mode = ''argon2id'' then (AlgoArgon2id, diff, [(''memory'', 19456), (''iterations'', 2), (''parallelism'', 1)])
         else (case risk of
                 RiskHigh \<Rightarrow> if diff \<ge> 18 then (AlgoSHA256, 22, []) else (AlgoSHA256, diff + 4, [])
               | RiskElevated \<Rightarrow> if diff \<ge> 18 then (AlgoSHA256, 20, []) else (AlgoSHA256, diff + 2, [])
               | RiskLow \<Rightarrow> (AlgoSHA256, diff, [])))"

definition maxNumberFor :: "int \<Rightarrow> nat" where
  "maxNumberFor diff =
     (if diff \<le> 0 then 2 ^ 16 else if diff \<ge> 28 then 2 ^ 32 else 2 ^ nat (min (diff + 3) 32))"

text \<open>The exchange sort of the parameter names, on the byte order of Go strings.\<close>

fun str_less :: "string \<Rightarrow> string \<Rightarrow> bool" where
  "str_less _ [] = False"
| "str_less [] (_ # _) = True"
| "str_less (x # xs) (y # ys) = (byte_of x < byte_of y \<or> x = y \<and> str_less xs ys)"

definition key_exch :: "nat \<Rightarrow> nat \<Rightarrow> string list \<Rightarrow> string list" where
  "key_exch i j ks = (if str_less (ks ! j) (ks ! i) then ks[i := ks ! j, j := ks ! i] else ks)"

definition sort_keys :: "string list \<Rightarrow> string list" where
  "sort_keys ks = fold (\<lambda>i ks. fold (key_exch i) [Suc i..<length ks] ks) [0..<length ks] ks"

definition canonicalParams :: "(string, int) gomap \<Rightarrow> string" where
  "canonicalParams p =
     (if length p = 0 then []
      else join (CHR '','') (map (\<lambda>k. k @ ''='' @ FormatInt (case map_of p k of Some v \<Rightarrow> v | None \<Rightarrow> 0)) (sort_keys (map fst p))))"

definition canonicalChallenge :: "Challenge \<Rightarrow> string" where
  "canonicalChallenge c =
     FormatInt (ch_V c) @ ''|'' @ ch_Algorithm c @ ''|'' @ ch_Challenge c @ ''|'' @ ch_Salt c @ ''|'' @ FormatInt (ch_Difficulty c) @ ''|'' @
     FormatUint (ch_MaxNumber c) @ ''|'' @ FormatInt (ch_Expires c) @ ''|'' @ ch_Bind c @ ''|'' @ NormalizeGate (ch_Gate c) @ ''|'' @
     canonicalParams (ch_Params c)"

definition signChallenge :: "crypto \<Rightarrow> Manager \<Rightarrow> Challenge \<Rightarrow> string" where
  "signChallenge cy m c = hex_encode (cy_hmac cy (mg_Secret m) (canonicalChallenge c))"

definition verifyChallengeSignature :: "crypto \<Rightarrow> Manager \<Rightarrow> Challenge \<Rightarrow> chal_error option" where
  "verifyChallengeSignature cy m c = (if signChallenge cy m c \<noteq> ch_Signature c then Some ErrBadSignature else None)"

definition IssueChallenge :: "crypto \<Rightarrow> Manager \<Rightarrow> string \<Rightarrow> RiskLevel \<Rightarrow> string \<Rightarrow> string \<Rightarrow> string \<Rightarrow> int \<Rightarrow> Challenge \<times> Manager" where
  "IssueChallenge cy m bindID risk gate nb sb now =
     (let (ls, m) = settings m;
          (algo, diff, params) = selectEffort ls risk;
          c = \<lparr> ch_V = ProtocolVersion, ch_Algorithm = algo, ch_Challenge = hex_encode nb,
                ch_Salt = (if algo = AlgoPBKDF2SHA256 \<or> algo = AlgoArgon2id then hex_encode sb else []),
                ch_Difficulty = diff, ch_MaxNumber = maxNumberFor diff, ch_Expires = now + tokenTTL, ch_Bind = bindID,
                ch_Gate = NormalizeGate gate, ch_Params = params, ch_Signature = [] \<rparr>
      in (c\<lparr> ch_Signature := signChallenge cy m c \<rparr>, m))"

definition checkPBKDF2 :: "crypto \<Rightarrow> string \<Rightarrow> string \<Rightarrow> nat \<Rightarrow> int \<Rightarrow> int \<Rightarrow> bool" where
  "checkPBKDF2 cy chal saltHex sol difficulty iterations =
     (case hex_DecodeString saltHex of
        None \<Rightarrow> False
      | Some sl \<Rightarrow>
          if length sl = 0 then False
          else case cy_pbkdf2 cy (chal @ '':'' @ FormatUint sol) sl iterations 32 of
                 None \<Rightarrow> False
               | Some dk \<Rightarrow> int (leadingZeroBits dk) \<ge> difficulty)"

definition VerifySolution :: "crypto \<Rightarrow> Challenge \<Rightarrow> nat \<Rightarrow> chal_error option" where
  "VerifySolution cy c sol =
     (if ch_Algorithm c = AlgoSHA256 \<or> ch_Algorithm c = [] then
        (if \<not> checkPoW cy (ch_Challenge c) sol (ch_Difficulty c) then Some ErrBadSolution else None)
      else if ch_Algorithm c = AlgoPBKDF2SHA256 then
        (let iters = (case map_of (ch_Params c) ''iterations'' of Some v \<Rightarrow> if v > 0 then v else 10000 | None \<Rightarrow> 10000)
         in if \<not> checkPBKDF2 cy (ch_Challenge c) (ch_Salt c) sol (ch_Difficulty c) iters then Some ErrBadSolution else None)
      else Some ErrBadAlgorithm)"

definition SolveChallenge :: "crypto \<Rightarrow> Challenge \<Rightarrow> chal_error + nat" where
  "SolveChallenge cy c =
     (let bnd = (if ch_MaxNumber c = 0 then maxNumberFor (ch_Difficulty c) else ch_MaxNumber c)
      in case solve_loop (\<lambda>i. VerifySolution cy c i = None) 0 (Suc bnd) of Some i \<Rightarrow> Inr i | None \<Rightarrow> Inl ErrBadSolution)"

definition DecodePayload :: "(string \<Rightarrow> Payload option) \<Rightarrow> string \<Rightarrow> chal_error + Payload" where
  "DecodePayload unmarshal raw0 =
     (let raw = TrimSpace raw0 in
      if raw = [] then Inl ErrBadPayload
      else case (case RawDecodeString b64_url raw of Some b \<Rightarrow> Some b | None \<Rightarrow> PaddedDecodeString b64_url raw) of
             None \<Rightarrow> Inl ErrBadPayload
           | Some b \<Rightarrow>
               (case unmarshal b of
                  None \<Rightarrow> Inl ErrBadPayload
                | Some p \<Rightarrow> if pl_V p \<noteq> ProtocolVersion then Inl ErrBadPayload else Inr p))"

definition asChallenge :: "Payload \<Rightarrow> Challenge" where
  "asChallenge p =
     \<lparr> ch_V = pl_V p, ch_Algorithm = pl_Algorithm p, ch_Challenge = pl_Challenge p, ch_Salt = pl_Salt p,
       ch_Difficulty = pl_Difficulty p, ch_MaxNumber = pl_MaxNumber p, ch_Expires = pl_Expires p, ch_Bind = pl_Bind p,
       ch_Gate = pl_Gate p, ch_Params = pl_Params p, ch_Signature = pl_Signature p \<rparr>"

definition VerifyPayload :: "crypto \<Rightarrow> (string \<Rightarrow> Payload option) \<Rightarrow> Manager \<Rightarrow> string \<Rightarrow> string \<Rightarrow> int \<Rightarrow> (chal_error + Payload) \<times> Manager" where
  "VerifyPayload cy unmarshal m raw bindID now =
     (case DecodePayload unmarshal raw of
        Inl e \<Rightarrow> (Inl e, m)
      | Inr p \<Rightarrow>
          if bindID \<noteq> [] \<and> pl_Bind p \<noteq> [] \<and> pl_Bind p \<noteq> bindID then (Inl ErrBindMismatch, m)
          else if now > pl_Expires p then (Inl ErrExpired, m)
          else case verifyChallengeSignature cy m (asChallenge p) of
            Some e \<Rightarrow> (Inl e, m)
          | None \<Rightarrow>
              (case ParseUint (pl_Solution p) of
                 None \<Rightarrow> (Inl ErrBadSolution, m)
               | Some sol \<Rightarrow>
                   if pl_MaxNumber p > 0 \<and> sol > pl_MaxNumber p then (Inl ErrBadSolution, m)
                   else case VerifySolution cy (asChallenge p) sol of
                     Some e \<Rightarrow> (Inl e, m)
                   | None \<Rightarrow>
                       (case ConsumeNonce m \<lparr> tk_Nonce = pl_Challenge p, tk_IssuedAt = int64 (pl_Expires p - tokenTTL), tk_Difficulty = pl_Difficulty p \<rparr> now of
                          (Some e, m) \<Rightarrow> (Inl e, m)
                        | (None, m) \<Rightarrow> (Inr p, m))))"

subsection \<open>Captcha\<close>

datatype CaptchaVerifier = StubCaptcha string | RavenCaptcha bool

definition StubCaptcha_Verify :: "string \<Rightarrow> string \<Rightarrow> chal_error option" where
  "StubCaptcha_Verify want0 token =
     (let want = (if want0 = [] then ''ok'' else want0) in if TrimSpace token \<noteq> want then Some ErrCaptchaFailed else None)"

text \<open>\<open>None\<close> is a verifier without a manager.\<close>

definition RavenCaptcha_Verify :: "crypto \<Rightarrow> (string \<Rightarrow> Payload option) \<Rightarrow> Manager option \<Rightarrow> Request \<Rightarrow> string \<Rightarrow> int \<Rightarrow> chal_error option \<times> Manager option" where
  "RavenCaptcha_Verify cy unmarshal mo r token now =
     (case mo of
        None \<Rightarrow> (Some ErrCaptchaNeeded, None)
      | Some m \<Rightarrow>
          (case VerifyPayload cy unmarshal m token (Header_Get (req_Header r) ''X-RavenGuard-Bind'') now of
             (Inl _, m) \<Rightarrow> (Some ErrCaptchaFailed, Some m)
           | (Inr p, m) \<Rightarrow>
               if ev_Refuse (EvaluateEnv (pl_Env p) (pl_Difficulty p) (pl_Gate p)) then (Some ErrCaptchaFailed, Some m) else (None, Some m)))"

definition NewCaptcha :: "string \<Rightarrow> string \<Rightarrow> chal_error + CaptchaVerifier" where
  "NewCaptcha provider token =
     (let p = ToLower (TrimSpace provider) in
      if p = ''stub'' then Inr (StubCaptcha token) else if p = ''ravenguard'' then Inr (RavenCaptcha False) else Inl ErrCaptchaNeeded)"

section \<open>Leading zero bits\<close>

text \<open>A digest read as a big-endian number.\<close>

primrec be_value :: "string \<Rightarrow> nat" where
  "be_value [] = 0"
| "be_value (c # b) = byte_of c * 2 ^ (8 * length b) + be_value b"

lemma be_value_less: "be_value b < 2 ^ (8 * length b)"
proof (induction b)
  case (Cons c b)
  have "be_value (c # b) < (byte_of c + 1) * 2 ^ (8 * length b)"
    using Cons by simp
  also have "\<dots> \<le> 256 * 2 ^ (8 * length b)"
    using byte_of_less [of c] by (intro mult_right_mono) linarith+
  finally show ?case
    by (simp add: power_add)
qed simp

lemma bit_top: "(c :: nat) < 2 ^ Suc k \<Longrightarrow> bit c k \<longleftrightarrow> 2 ^ k \<le> c"
proof
  assume c: "c < 2 ^ Suc k"
  show "bit c k" if "2 ^ k \<le> c"
  proof -
    have "c div 2 ^ k = 1"
      using that c by (simp add: div_nat_eqI)
    then show ?thesis
      by (simp add: bit_iff_odd)
  qed
  show "2 ^ k \<le> c" if "bit c k"
    using that by (metis bit_iff_odd div_less even_zero not_le)
qed

lemma lz_byte_spec:
  assumes "c < 2 ^ k"
  shows "\<exists>z \<le> k. lz_byte c k n = (n + z, c \<noteq> 0) \<and> (\<forall>d \<le> k. d \<le> z \<longleftrightarrow> c < 2 ^ (k - d))"
  using assms
proof (induction k arbitrary: n)
  case 0
  then show ?case by simp
next
  case (Suc k)
  show ?case
  proof (cases "bit c k")
    case True
    then have top: "2 ^ k \<le> c"
      using bit_top [OF Suc.prems] by simp
    have "c < 2 ^ (Suc k - d) \<longleftrightarrow> d = 0" if "d \<le> Suc k" for d
    proof (cases d)
      case (Suc e)
      have "(2 :: nat) ^ (k - e) \<le> 2 ^ k"
        by (rule power_increasing) simp_all
      also note top
      finally show ?thesis
        using Suc by simp
    qed (use Suc.prems in simp)
    moreover have "c \<noteq> 0"
      using top by (metis le_zero_eq power_eq_0_iff zero_neq_numeral)
    ultimately show ?thesis
      using True by (intro exI [of _ 0]) auto
  next
    case False
    then have c: "c < 2 ^ k"
      using bit_top [OF Suc.prems] by simp
    obtain z where z: "z \<le> k" "lz_byte c k (n + 1) = (n + 1 + z, c \<noteq> 0)" "\<forall>d \<le> k. d \<le> z \<longleftrightarrow> c < 2 ^ (k - d)"
      using Suc.IH [OF c] by blast
    have "d \<le> Suc z \<longleftrightarrow> c < 2 ^ (Suc k - d)" if "d \<le> Suc k" for d
      using that z(3) Suc.prems by (cases d) auto
    then show ?thesis
      using False z by (intro exI [of _ "Suc z"]) auto
  qed
qed

lemma lz_bytes_acc: "lz_bytes b n = n + lz_bytes b 0"
proof (induction b arbitrary: n)
  case (Cons c b)
  obtain z where z: "\<And>n. lz_byte (byte_of c) 8 n = (n + z, byte_of c \<noteq> 0)"
  proof -
    have "\<exists>z. \<forall>n. lz_byte x k n = (n + z, x \<noteq> 0)" if "x < 2 ^ k" for x k
      using that
    proof (induction k)
      case (Suc k)
      show ?case
      proof (cases "bit x k")
        case True
        then have "x \<noteq> 0" by (intro notI) simp
        then show ?thesis using True by auto
      next
        case False
        then have "x < 2 ^ k" using bit_top [OF Suc.prems] by simp
        then obtain z where "\<forall>n. lz_byte x k n = (n + z, x \<noteq> 0)" using Suc.IH by blast
        then show ?thesis using False by (intro exI [of _ "Suc z"]) auto
      qed
    qed simp
    from this [of "byte_of c" 8] that show thesis
      using byte_of_less [of c] by auto
  qed
  show ?case
    using Cons.IH [of "n + 8"] Cons.IH [of "n + z"] Cons.IH [of 8] Cons.IH [of z] by (simp add: z)
qed simp

lemma scaled_less: "(v :: nat) < B \<Longrightarrow> c * B + v < K * B \<longleftrightarrow> c < K"
proof
  assume v: "v < B"
  show "c < K" if "c * B + v < K * B"
    using that by (metis add_leD1 mult_less_cancel2 not_le order.strict_trans1 le_add1)
  show "c * B + v < K * B" if "c < K"
  proof -
    have "c * B + v < (c + 1) * B"
      using v by simp
    also have "\<dots> \<le> K * B"
      using that by (intro mult_right_mono) simp_all
    finally show ?thesis .
  qed
qed

lemma lz_threshold: "d \<le> 8 * length b \<Longrightarrow> d \<le> lz_bytes b 0 \<longleftrightarrow> be_value b < 2 ^ (8 * length b - d)"
proof (induction b arbitrary: d)
  case (Cons c b)
  let ?B = "2 ^ (8 * length b) :: nat"
  have len: "8 * length (c # b) = 8 + 8 * length b"
    by simp
  show ?case
  proof (cases "byte_of c = 0")
    case True
    have lz: "lz_bytes (c # b) 0 = 8 + lz_bytes b 0"
      using True lz_bytes_acc [of b 8] by simp
    show ?thesis
    proof (cases "d \<le> 8")
      case True
      have "be_value b < ?B"
        by (rule be_value_less)
      also have "\<dots> \<le> 2 ^ (8 + 8 * length b - d)"
        using True by (simp add: power_increasing)
      finally show ?thesis
        using lz True \<open>byte_of c = 0\<close> by simp
    next
      case False
      then have "d - 8 \<le> lz_bytes b 0 \<longleftrightarrow> be_value b < 2 ^ (8 * length b - (d - 8))"
        using Cons.prems by (intro Cons.IH) simp
      then show ?thesis
        using lz False \<open>byte_of c = 0\<close> by (auto simp: add.commute)
    qed
  next
    case False
    obtain z where z: "z \<le> 8" "lz_byte (byte_of c) 8 0 = (z, True)" "\<forall>d \<le> 8. d \<le> z \<longleftrightarrow> byte_of c < 2 ^ (8 - d)"
      using lz_byte_spec [of "byte_of c" 8 0] byte_of_less [of c] False by auto
    have lz: "lz_bytes (c # b) 0 = z"
      using False z by simp
    show ?thesis
    proof (cases "d \<le> 8")
      case True
      then have e: "8 + 8 * length b - d = (8 - d) + 8 * length b"
        by simp
      have "be_value (c # b) < 2 ^ (8 * length (c # b) - d) \<longleftrightarrow> byte_of c * ?B + be_value b < 2 ^ (8 - d) * ?B"
        unfolding len e by (simp add: power_add)
      also have "\<dots> \<longleftrightarrow> byte_of c < 2 ^ (8 - d)"
        by (rule scaled_less) (rule be_value_less)
      finally show ?thesis
        using lz z(3) True by simp
    next
      case False
      have "(2 :: nat) ^ (8 + 8 * length b - d) \<le> ?B"
        using False by (intro power_increasing) simp_all
      also have "?B \<le> be_value (c # b)"
        using \<open>byte_of c \<noteq> 0\<close> by (simp add: trans_le_add1)
      finally have "\<not> be_value (c # b) < 2 ^ (8 * length (c # b) - d)"
        unfolding len by (simp only: not_less)
      moreover have "\<not> d \<le> lz_bytes (c # b) 0"
        unfolding lz using z(1) False by simp
      ultimately show ?thesis
        by blast
    qed
  qed
qed simp

lemma solve_loop_Some: "solve_loop ok i k = Some j \<longleftrightarrow> i \<le> j \<and> j < i + k \<and> ok j \<and> (\<forall>x. i \<le> x \<and> x < j \<longrightarrow> \<not> ok x)"
proof (induction k arbitrary: i)
  case (Suc k)
  show ?case
  proof (cases "ok i")
    case True
    then show ?thesis
      by (auto intro: le_antisym dest: not_less [THEN iffD1])
  next
    case False
    have from_i: "i \<le> x \<longleftrightarrow> i = x \<or> Suc i \<le> x" for x
      by auto
    show ?thesis
      using False Suc.IH [of "Suc i"] by (auto simp: from_i)
  qed
qed auto

lemma solve_loop_None: "solve_loop ok i k = None \<longleftrightarrow> (\<forall>x. i \<le> x \<and> x < i + k \<longrightarrow> \<not> ok x)"
proof (induction k arbitrary: i)
  case (Suc k)
  have from_i: "i \<le> x \<longleftrightarrow> i = x \<or> Suc i \<le> x" for x
    by auto
  show ?case
    using Suc.IH [of "Suc i"] by (auto simp: from_i)
qed auto

section \<open>Replay\<close>

text \<open>The server as a sequence of submissions and sweeps, each at a time in seconds; the trace holds, for each
  submission, the accepted payload or nothing.\<close>

datatype chal_event = Submit string string int | Sweep int

fun event_time :: "chal_event \<Rightarrow> int" where
  "event_time (Submit _ _ t) = t"
| "event_time (Sweep t) = t"

fun chal_step :: "crypto \<Rightarrow> (string \<Rightarrow> Payload option) \<Rightarrow> Manager \<Rightarrow> chal_event \<Rightarrow> Payload option \<times> Manager" where
  "chal_step cy unmarshal m (Submit raw bindID t) =
     (case VerifyPayload cy unmarshal m raw bindID t of (Inr p, m) \<Rightarrow> (Some p, m) | (Inl _, m) \<Rightarrow> (None, m))"
| "chal_step cy unmarshal m (Sweep t) = (None, SweepNonces m t)"

fun accepted :: "crypto \<Rightarrow> (string \<Rightarrow> Payload option) \<Rightarrow> Manager \<Rightarrow> chal_event list \<Rightarrow> Payload list" where
  "accepted cy unmarshal m [] = []"
| "accepted cy unmarshal m (e # es) =
     (case chal_step cy unmarshal m e of
        (Some p, m) \<Rightarrow> p # accepted cy unmarshal m es
      | (None, m) \<Rightarrow> accepted cy unmarshal m es)"

definition payload_exp :: "Payload \<Rightarrow> int" where
  "payload_exp p = int64 (int64 (pl_Expires p - tokenTTL) + tokenTTL)"

definition same_challenge :: "Payload \<Rightarrow> Payload \<Rightarrow> bool" where
  "same_challenge p q \<longleftrightarrow> pl_Challenge p = pl_Challenge q \<and> pl_Expires p = pl_Expires q"

lemma VerifyPayload_Inr:
  assumes "VerifyPayload cy unmarshal m raw bindID now = (Inr p, m')"
  shows "DecodePayload unmarshal raw = Inr p" "bindID = [] \<or> pl_Bind p = [] \<or> pl_Bind p = bindID" "now \<le> pl_Expires p"
    "signChallenge cy m (asChallenge p) = pl_Signature p"
    "\<exists>sol. ParseUint (pl_Solution p) = Some sol \<and> (pl_MaxNumber p > 0 \<longrightarrow> sol \<le> pl_MaxNumber p) \<and> VerifySolution cy (asChallenge p) sol = None"
    "now \<le> payload_exp p" "shard_get 256 (mg_nonces m) (pl_Challenge p) = None"
    "m' = m\<lparr> mg_nonces := shard_put 256 (pl_Challenge p) (payload_exp p) (mg_nonces m) \<rparr>"
  using assms
  by (auto simp: VerifyPayload_def verifyChallengeSignature_def asChallenge_def ConsumeNonce_def nonce_consume_def payload_exp_def
      Let_def not_less split: sum.splits if_splits option.splits prod.splits)

lemma VerifyPayload_Inl: "VerifyPayload cy unmarshal m raw bindID now = (Inl e, m') \<Longrightarrow> m' = m"
  by (auto simp: VerifyPayload_def ConsumeNonce_def nonce_consume_def Let_def split: sum.splits if_splits option.splits prod.splits)

definition nonces_ok :: "Manager \<Rightarrow> bool" where
  "nonces_ok m \<longleftrightarrow> shard_inv 256 (mg_nonces m)"

lemma SweepNonces_get:
  "nonces_ok m \<Longrightarrow> shard_get 256 (mg_nonces (SweepNonces m t)) k =
     (case shard_get 256 (mg_nonces m) k of None \<Rightarrow> None | Some e \<Rightarrow> if e < t then None else Some e)"
  by (simp add: nonces_ok_def SweepNonces_def nonce_sweep_def store256.get_purge)

lemma chal_step_ok: "nonces_ok m \<Longrightarrow> nonces_ok (snd (chal_step cy unmarshal m e))"
proof (cases e)
  case (Submit raw b t)
  assume m: "nonces_ok m"
  show ?thesis
  proof (cases "VerifyPayload cy unmarshal m raw b t")
    case (Pair res m')
    then show ?thesis
      using m Submit by (cases res) (auto dest: VerifyPayload_Inl VerifyPayload_Inr(8) simp: nonces_ok_def store256.invar_put)
  qed
qed (simp add: nonces_ok_def SweepNonces_def nonce_sweep_def store256.invar_purge)

text \<open>A spent challenge: its nonce is stored with its expiry, or it has expired.\<close>

definition spent :: "Manager \<Rightarrow> Payload \<Rightarrow> int \<Rightarrow> bool" where
  "spent m p t \<longleftrightarrow> payload_exp p < t \<or> shard_get 256 (mg_nonces m) (pl_Challenge p) = Some (payload_exp p)"

lemma payload_exp_same: "same_challenge p q \<Longrightarrow> payload_exp p = payload_exp q"
  by (simp add: same_challenge_def payload_exp_def)

lemma spent_step:
  assumes "nonces_ok m" "spent m p t" "t \<le> event_time e"
  shows "spent (snd (chal_step cy unmarshal m e)) p (event_time e)"
proof (cases e)
  case (Submit raw b t')
  obtain res m' where v: "VerifyPayload cy unmarshal m raw b t' = (res, m')"
    by fastforce
  show ?thesis
  proof (cases res)
    case (Inl err)
    then show ?thesis
      using VerifyPayload_Inl v assms Submit by (fastforce simp: spent_def)
  next
    case (Inr q)
    note q = VerifyPayload_Inr [OF v [unfolded Inr]]
    then have "shard_get 256 (mg_nonces m') (pl_Challenge p) = Some (payload_exp p)"
      if "shard_get 256 (mg_nonces m) (pl_Challenge p) = Some (payload_exp p)"
      using that assms(1) by (auto simp: nonces_ok_def store256.get_put)
    then show ?thesis
      using assms v Inr Submit by (auto simp: spent_def)
  qed
next
  case (Sweep t')
  then show ?thesis
    using assms by (auto simp: spent_def SweepNonces_get split: if_splits)
qed

lemma spent_rejects:
  assumes "spent m p t" "t \<le> event_time e" "chal_step cy unmarshal m e = (Some q, m')"
  shows "\<not> same_challenge p q"
proof (cases e)
  case (Submit raw b t')
  then have "VerifyPayload cy unmarshal m raw b t' = (Inr q, m')"
    using assms(3) by (auto split: prod.splits sum.splits)
  note q = VerifyPayload_Inr [OF this]
  show ?thesis
    using q(6,7) assms(1,2) Submit payload_exp_same [of p q] by (auto simp: spent_def same_challenge_def)
qed (use assms(3) in simp)

lemma step_spends:
  assumes "nonces_ok m" "chal_step cy unmarshal m e = (Some p, m')"
  shows "spent m' p (event_time e)"
proof (cases e)
  case (Submit raw b t')
  then have "VerifyPayload cy unmarshal m raw b t' = (Inr p, m')"
    using assms(2) by (auto split: prod.splits sum.splits)
  from VerifyPayload_Inr(8) [OF this] show ?thesis
    using assms(1) by (simp add: spent_def nonces_ok_def store256.get_put)
qed (use assms(2) in simp)

lemma spent_never_accepted:
  assumes "nonces_ok m" "spent m p t" "sorted (t # map event_time es)"
  shows "\<forall>q \<in> set (accepted cy unmarshal m es). \<not> same_challenge p q"
  using assms
proof (induction es arbitrary: m t)
  case (Cons e es)
  obtain res m' where s: "chal_step cy unmarshal m e = (res, m')"
    by fastforce
  have m': "nonces_ok m'" "spent m' p (event_time e)"
    using chal_step_ok [OF Cons.prems(1), of cy unmarshal e] spent_step [OF Cons.prems(1,2), of e cy unmarshal] Cons.prems(3) s by simp_all
  then have rest: "\<forall>q \<in> set (accepted cy unmarshal m' es). \<not> same_challenge p q"
    using Cons.prems(3) by (intro Cons.IH) auto
  show ?case
  proof (cases res)
    case None
    then show ?thesis using rest s by simp
  next
    case (Some q)
    then have "\<not> same_challenge p q"
      using spent_rejects [OF Cons.prems(2) _ s [unfolded Some]] Cons.prems(3) by simp
    then show ?thesis using rest s Some by simp
  qed
qed simp

lemma accepted_once:
  assumes "nonces_ok m" "sorted (map event_time es)"
  shows "sorted_wrt (\<lambda>p q. \<not> same_challenge p q) (accepted cy unmarshal m es)"
  using assms
proof (induction es arbitrary: m)
  case (Cons e es)
  obtain res m' where s: "chal_step cy unmarshal m e = (res, m')"
    by fastforce
  have m': "nonces_ok m'"
    using chal_step_ok [OF Cons.prems(1), of cy unmarshal e] s by simp
  have IH: "sorted_wrt (\<lambda>p q. \<not> same_challenge p q) (accepted cy unmarshal m' es)"
    using Cons.prems(2) m' by (intro Cons.IH) simp_all
  show ?case
  proof (cases res)
    case None
    then show ?thesis using IH s by simp
  next
    case (Some p)
    have "\<forall>q \<in> set (accepted cy unmarshal m' es). \<not> same_challenge p q"
      using step_spends [OF Cons.prems(1) s [unfolded Some]] Cons.prems(2) by (intro spent_never_accepted [OF m']) auto
    then show ?thesis using IH s Some by simp
  qed
qed simp

section \<open>What a signature covers\<close>

definition signed_fields :: "Challenge \<Rightarrow> string list" where
  "signed_fields c =
     [FormatInt (ch_V c), ch_Algorithm c, ch_Challenge c, ch_Salt c, FormatInt (ch_Difficulty c), FormatUint (ch_MaxNumber c),
      FormatInt (ch_Expires c), ch_Bind c, NormalizeGate (ch_Gate c), canonicalParams (ch_Params c)]"

lemma canonical_join: "canonicalChallenge c = join (CHR ''|'') (signed_fields c)"
  by (simp add: canonicalChallenge_def signed_fields_def)

definition bar_free :: "Challenge \<Rightarrow> bool" where
  "bar_free c \<longleftrightarrow> (\<forall>f \<in> set (signed_fields c). CHR ''|'' \<notin> set f)"

lemma length_signed_fields: "length (signed_fields c) = 10"
  by (simp add: signed_fields_def)

lemma canonical_inj:
  assumes "bar_free c" "canonicalChallenge c = canonicalChallenge c'"
  shows "signed_fields c = signed_fields c'"
proof (rule join_inj)
  show "join (CHR ''|'') (signed_fields c) = join (CHR ''|'') (signed_fields c')"
    using assms(2) by (simp only: canonical_join)
  show "\<forall>p \<in> set (signed_fields c). CHR ''|'' \<notin> set p"
    using assms(1) by (simp only: bar_free_def)
  show "signed_fields c \<noteq> []" "length (signed_fields c) = length (signed_fields c')"
    using length_signed_fields [of c] length_signed_fields [of c'] by auto
qed

lemma signed_fields_eq:
  "signed_fields c = signed_fields c' \<longleftrightarrow>
     ch_V c = ch_V c' \<and> ch_Algorithm c = ch_Algorithm c' \<and> ch_Challenge c = ch_Challenge c' \<and> ch_Salt c = ch_Salt c' \<and>
     ch_Difficulty c = ch_Difficulty c' \<and> ch_MaxNumber c = ch_MaxNumber c' \<and> ch_Expires c = ch_Expires c' \<and> ch_Bind c = ch_Bind c' \<and>
     NormalizeGate (ch_Gate c) = NormalizeGate (ch_Gate c') \<and> canonicalParams (ch_Params c) = canonicalParams (ch_Params c')"
  by (auto simp: signed_fields_def dest: FormatInt_inj FormatUint_inj)

lemma NormalizeGate_cases: "NormalizeGate g = GateInteractive \<or> NormalizeGate g = GateInvisible"
  by (simp add: NormalizeGate_def)

lemma bar_not_gate: "CHR ''|'' \<notin> set (NormalizeGate g)"
  using NormalizeGate_cases [of g] by (auto simp: GateInteractive_def GateInvisible_def)

lemma gates_normal: "NormalizeGate GateInteractive = GateInteractive" "NormalizeGate GateInvisible = GateInvisible"
  by code_simp+

lemma NormalizeGate_idem [simp]: "NormalizeGate (NormalizeGate g) = NormalizeGate g"
  using NormalizeGate_cases [of g] by (auto simp: gates_normal)

lemma sort_keys_small: "sort_keys [] = []" "sort_keys [k] = [k]"
  by (simp_all add: sort_keys_def)

lemma canonicalParams_Nil [simp]: "canonicalParams [] = []"
  by (simp add: canonicalParams_def)

lemma effort_params:
  "selectEffort ls risk = (algo, diff, params) \<Longrightarrow>
     CHR ''|'' \<notin> set (canonicalParams params) \<and> CHR ''|'' \<notin> set algo \<and>
     (algo = AlgoSHA256 \<and> params = [] \<or> algo = AlgoPBKDF2SHA256 \<and> params = [(''iterations'', 10000)] \<or>
      algo = AlgoArgon2id \<and> params = [(''memory'', 19456), (''iterations'', 2), (''parallelism'', 1)])"
proof -
  assume eff: "selectEffort ls risk = (algo, diff, params)"
  have cases: "algo = AlgoSHA256 \<and> params = [] \<or> algo = AlgoPBKDF2SHA256 \<and> params = [(''iterations'', 10000)] \<or>
      algo = AlgoArgon2id \<and> params = [(''memory'', 19456), (''iterations'', 2), (''parallelism'', 1)]"
    using eff by (auto simp: selectEffort_def Let_def split: if_splits RiskLevel.splits)
  have p1: "CHR ''|'' \<notin> set (canonicalParams [(''iterations'', 10000)])"
    by (simp add: canonicalParams_def sort_keys_small)
  have "sort_keys [''memory'', ''iterations'', ''parallelism''] = [''iterations'', ''memory'', ''parallelism'']"
    by code_simp
  then have p2: "CHR ''|'' \<notin> set (canonicalParams [(''memory'', 19456), (''iterations'', 2), (''parallelism'', 1)])"
    by (simp add: canonicalParams_def)
  have "CHR ''|'' \<notin> set AlgoSHA256" "CHR ''|'' \<notin> set AlgoPBKDF2SHA256" "CHR ''|'' \<notin> set AlgoArgon2id"
    by (simp_all add: AlgoSHA256_def AlgoPBKDF2SHA256_def AlgoArgon2id_def)
  then show ?thesis
    using cases p1 p2 by auto
qed

lemma IssueChallenge_fields:
  assumes "IssueChallenge cy m bindID risk gate nb sb now = (c, m')"
  shows "ch_V c = ProtocolVersion" "ch_Challenge c = hex_encode nb" "ch_Expires c = now + tokenTTL" "ch_Bind c = bindID"
    "ch_Gate c = NormalizeGate gate" "ch_MaxNumber c = maxNumberFor (ch_Difficulty c)"
    "(ch_Algorithm c, ch_Difficulty c, ch_Params c) = selectEffort (fst (settings m)) risk"
    "ch_Salt c = (if ch_Algorithm c = AlgoPBKDF2SHA256 \<or> ch_Algorithm c = AlgoArgon2id then hex_encode sb else [])"
    "ch_Signature c = signChallenge cy m c" "mg_Secret m' = mg_Secret m" "mg_nonces m' = mg_nonces m"
  using assms
  by (auto simp: IssueChallenge_def settings_def Let_def signChallenge_def canonicalChallenge_def split: prod.splits option.splits)

lemma IssueChallenge_bar_free:
  assumes "IssueChallenge cy m bindID risk gate nb sb now = (c, m')" "CHR ''|'' \<notin> set bindID"
  shows "bar_free c"
proof -
  note f = IssueChallenge_fields [OF assms(1)]
  show ?thesis
    using effort_params [OF f(7) [symmetric]] assms(2) bar_not_gate
    by (simp add: bar_free_def signed_fields_def f(2,4,5,8) FormatUint_eq)
qed

subsection \<open>Parameters of PBKDF2\<close>

lemma sort_keys_length: "length (sort_keys ks) = length ks"
proof -
  have "length (fold (key_exch i) js xs) = length xs" for i js xs
    by (induction js arbitrary: xs) (simp_all add: key_exch_def)
  then have "length (fold (\<lambda>i ks. fold (key_exch i) [Suc i..<length ks] ks) is xs) = length xs" for "is" xs
    by (induction "is" arbitrary: xs) simp_all
  then show ?thesis
    by (simp add: sort_keys_def)
qed

lemma split_last_eq:
  assumes "k @ CHR ''='' # v = k' @ CHR ''='' # v'" "CHR ''='' \<notin> set v" "CHR ''='' \<notin> set v'"
  shows "k = k' \<and> v = v'"
proof -
  have "rev v @ CHR ''='' # rev k = rev v' @ CHR ''='' # rev k'"
    using arg_cong [OF assms(1), of rev] by simp
  then have "Cut (rev v @ CHR ''='' # rev k) (CHR ''='') = Cut (rev v' @ CHR ''='' # rev k') (CHR ''='')"
    by simp
  then show ?thesis
    using assms(2,3) by (simp add: Cut_append)
qed

lemma iterations_covered:
  assumes "canonicalParams ps = canonicalParams [(''iterations'', 10000)]"
  shows "map_of ps ''iterations'' = Some 10000"
proof -
  have c: "canonicalParams [(''iterations'', 10000)] = ''iterations'' @ CHR ''='' # FormatInt 10000"
    by (simp add: canonicalParams_def sort_keys_small)
  let ?f = "\<lambda>k. k @ ''='' @ FormatInt (case map_of ps k of Some v \<Rightarrow> v | None \<Rightarrow> 0)"
  have ps: "ps \<noteq> []"
    using assms c by auto
  then have j: "canonicalParams ps = join (CHR '','') (map ?f (sort_keys (map fst ps)))"
    by (simp add: canonicalParams_def)
  have ne: "map ?f (sort_keys (map fst ps)) \<noteq> []"
    using ps sort_keys_length [of "map fst ps"] by auto
  have "CountByte (canonicalParams ps) (CHR '','') = 0"
    unfolding assms c by (simp add: CountByte_0)
  then have "length (sort_keys (map fst ps)) \<le> 1"
    unfolding j CountByte_join [OF ne] by simp
  then obtain k v where kv: "ps = [(k, v)]"
    using ps sort_keys_length [of "map fst ps"] by (cases ps) auto
  then have "k @ CHR ''='' # FormatInt v = ''iterations'' @ CHR ''='' # FormatInt 10000"
    using assms c j by (simp add: sort_keys_small)
  then have "k = ''iterations'' \<and> FormatInt v = FormatInt 10000"
    by (rule split_last_eq) simp_all
  then show ?thesis
    using kv FormatInt_inj by auto
qed

section \<open>Round trips\<close>

lemma settings_secret [simp]: "mg_Secret (snd (settings m)) = mg_Secret m" "mg_nonces (snd (settings m)) = mg_nonces m"
  by (simp_all add: settings_def Let_def split: option.splits)

lemma chal_mac_settings [simp]: "chal_mac cy (snd (settings m)) = chal_mac cy m"
  by (simp add: chal_mac_def fun_eq_iff)

lemma settings_idem [simp]: "settings (snd (settings m)) = (fst (settings m), snd (settings m))"
  by (simp add: settings_def Let_def split: option.splits)

definition clearance_expiry :: "Manager \<Rightarrow> gotime \<Rightarrow> int" where
  "clearance_expiry m t = unix_sec (t + ls_CookieTTL (fst (settings m)))"

lemma ClearanceCookie_value:
  "ck_Value (fst (ClearanceCookie cy m bindID reqID sec t)) =
     (let payload = bindID @ CHR ''|'' # FormatInt (clearance_expiry m t) @ CHR ''|'' # reqID
      in RawEncodeToString b64_url payload @ CHR ''.'' # chal_mac cy m payload)"
  by (simp add: ClearanceCookie_def Let_def clearance_expiry_def case_prod_beta)

lemma length_Split: "length (Split c s) = Suc (count_list s c)"
  by (induction s) (auto split: list.split)

lemma clearance_validates:
  assumes "- (2 ^ 63) \<le> clearance_expiry m t" "clearance_expiry m t < 2 ^ 63"
  shows "chal_validateCookie cy m (ck_Value (fst (ClearanceCookie cy m bindID reqID sec t))) bindID' now =
     (if CHR ''|'' \<in> set bindID \<union> set reqID \<or> bindID' \<noteq> bindID then Some ErrBadCookie
      else if unix_sec now > clearance_expiry m t then Some ErrExpired else None)"
proof -
  let ?e = "clearance_expiry m t"
  let ?p = "bindID @ CHR ''|'' # FormatInt ?e @ CHR ''|'' # reqID"
  have dot: "CHR ''.'' \<notin> set (RawEncodeToString b64_url ?p)"
    using RawEncode_chars [OF alphabets(4)] alphabets(5) by blast
  have s1: "Split (CHR ''.'') (RawEncodeToString b64_url ?p @ CHR ''.'' # chal_mac cy m ?p) = [RawEncodeToString b64_url ?p, chal_mac cy m ?p]"
    using dot by (simp add: Split_append Split_no_sep chal_mac_def)
  have n: "length (Split (CHR ''|'') ?p) = 3 \<longleftrightarrow> CHR ''|'' \<notin> set bindID \<union> set reqID"
    by (auto simp: length_Split count_list_0_iff)
  have s2: "Split (CHR ''|'') ?p = [bindID, FormatInt ?e, reqID]" if "CHR ''|'' \<notin> set bindID \<union> set reqID"
    using that by (simp add: Split_append Split_no_sep)
  have pi: "ParseInt (FormatInt ?e) = Some ?e"
    using assms by (rule ParseInt_FormatInt)
  have "chal_validateCookie cy m (ck_Value (fst (ClearanceCookie cy m bindID reqID sec t))) bindID' now =
      (if length (Split (CHR ''|'') ?p) \<noteq> 3 then Some ErrBadCookie
       else if Split (CHR ''|'') ?p ! 0 \<noteq> bindID' then Some ErrBadCookie
       else case ParseInt (Split (CHR ''|'') ?p ! 1) of None \<Rightarrow> Some ErrExpired
        | Some expi \<Rightarrow> if unix_sec now > expi then Some ErrExpired else None)"
    unfolding ClearanceCookie_value Let_def chal_validateCookie_def s1 by simp
  then show ?thesis by (auto simp: n s2 pi)
qed

subsection \<open>A solved challenge\<close>

definition solved :: "Challenge \<Rightarrow> nat \<Rightarrow> EnvReport \<Rightarrow> Payload" where
  "solved c sol env =
     \<lparr> pl_V = ch_V c, pl_Algorithm = ch_Algorithm c, pl_Challenge = ch_Challenge c, pl_Salt = ch_Salt c, pl_Difficulty = ch_Difficulty c,
       pl_MaxNumber = ch_MaxNumber c, pl_Expires = ch_Expires c, pl_Bind = ch_Bind c, pl_Gate = ch_Gate c, pl_Params = ch_Params c,
       pl_Signature = ch_Signature c, pl_Solution = FormatUint sol, pl_Env = env \<rparr>"

lemma asChallenge_solved [simp]: "asChallenge (solved c sol env) = c"
  by (simp add: asChallenge_def solved_def)

lemma int64_expiry: "- (2 ^ 62) \<le> e \<Longrightarrow> e < 2 ^ 62 \<Longrightarrow> int64 (int64 (e - tokenTTL) + tokenTTL) = e"
  by (simp add: tokenTTL_def int64_id)

lemma VerifyPayload_solved:
  assumes "DecodePayload unmarshal raw = Inr (solved c sol env)" "bindID = [] \<or> bindID = ch_Bind c" "now \<le> ch_Expires c"
    "ch_Signature c = signChallenge cy m c" "sol < 2 ^ 64" "sol \<le> ch_MaxNumber c" "VerifySolution cy c sol = None"
    "- (2 ^ 62) \<le> ch_Expires c" "ch_Expires c < 2 ^ 62"
  shows "VerifyPayload cy unmarshal m raw bindID now =
     (case shard_get 256 (mg_nonces m) (ch_Challenge c) of
        None \<Rightarrow> (Inr (solved c sol env), m\<lparr> mg_nonces := shard_put 256 (ch_Challenge c) (ch_Expires c) (mg_nonces m) \<rparr>)
      | Some _ \<Rightarrow> (Inl ErrReplay, m))"
proof -
  have u: "ParseUint (pl_Solution (solved c sol env)) = Some sol"
    using assms(5) by (simp add: solved_def)
  have v: "verifyChallengeSignature cy m c = None"
    using assms(4) by (simp add: verifyChallengeSignature_def)
  have e: "int64 (int64 (ch_Expires c - tokenTTL) + tokenTTL) = ch_Expires c"
    using assms(8,9) by (rule int64_expiry)
  have p: "pl_Bind (solved c sol env) = ch_Bind c" "pl_Expires (solved c sol env) = ch_Expires c"
    "pl_MaxNumber (solved c sol env) = ch_MaxNumber c" "pl_Challenge (solved c sol env) = ch_Challenge c"
    by (simp_all add: solved_def)
  show ?thesis
    using assms(2,3,6,7)
    by (auto simp: VerifyPayload_def assms(1) v u p e ConsumeNonce_def nonce_consume_def Let_def split: option.splits)
qed

section \<open>Properties\<close>

text \<open>C2: However submissions and sweeps of the replay store are ordered in time, a challenge is accepted at most once: no
  two accepted payloads carry the same challenge and expiry.\<close>

theorem nonce_single_use:
  assumes "nonces_ok m" "sorted (map event_time es)"
  shows "length (filter (same_challenge p) (accepted cy unmarshal m es)) \<le> 1"
proof -
  let ?qs = "filter (same_challenge p) (accepted cy unmarshal m es)"
  have s: "sorted_wrt (\<lambda>p q. \<not> same_challenge p q) ?qs"
    using accepted_once [OF assms] by (rule sorted_wrt_filter)
  show ?thesis
  proof (rule ccontr)
    assume "\<not> ?thesis"
    then have "2 \<le> length ?qs"
      by simp
    then obtain a b rest where ab: "?qs = a # b # rest"
      by (metis Suc_le_length_iff numeral_2_eq_2)
    then have "a \<in> set ?qs" "b \<in> set ?qs"
      by simp_all
    then have "same_challenge p a" "same_challenge p b"
      by simp_all
    moreover have "\<not> same_challenge a b"
      using s ab by simp
    ultimately show False
      by (simp add: same_challenge_def)
  qed
qed

definition demo_crypto :: crypto where
  "demo_crypto = \<lparr> cy_hmac = (\<lambda>k msg. k @ msg), cy_sha256 = (\<lambda>_. replicate 32 (char_of (0 :: nat))), cy_pbkdf2 = (\<lambda>_ _ _ _. None) \<rparr>"

definition demo_mgr :: Manager where
  "demo_mgr = \<lparr> mg_Secret = ''k'', mg_Difficulty = 16, mg_Algorithm = [], mg_CookieName = ''rg'', mg_CookieTTL = hour, mg_Secure = True,
     mg_nonces = shard_new 256, mg_risks = [], mg_live = None \<rparr>"

definition demo_challenge :: "Challenge \<times> Manager" where
  "demo_challenge = IssueChallenge demo_crypto demo_mgr ''b'' RiskLow [] ''n'' [] 1000"

definition demo_env_report :: EnvReport where
  "demo_env_report = \<lparr> er_Webdriver = False, er_Playwright = False, er_Selenium = False, er_Headless = False, er_NoPlugins = False,
     er_ZeroViewport = False, er_SoftWebGL = False, er_WDDeleted = False, er_PermMismatch = False, er_Interacted = False, er_SolveMs = 0 \<rparr>"

definition demo_unmarshal :: "string \<Rightarrow> Payload option" where
  "demo_unmarshal _ = Some (solved (fst demo_challenge) 5 demo_env_report)"

lemma demo_mgr_fresh: "nonces_ok demo_mgr" "shard_get 256 (mg_nonces demo_mgr) k = None"
  by (simp_all add: demo_mgr_def nonces_ok_def store256.invar_empty store256.get_empty)

lemma demo_fields:
  "ch_V (fst demo_challenge) = 1" "ch_Algorithm (fst demo_challenge) = AlgoSHA256" "ch_Difficulty (fst demo_challenge) = 16"
  "ch_MaxNumber (fst demo_challenge) = 2 ^ 19" "ch_Challenge (fst demo_challenge) = hex_encode ''n''" "ch_Expires (fst demo_challenge) = 1300"
  "ch_Params (fst demo_challenge) = []" "ch_Signature (fst demo_challenge) = signChallenge demo_crypto demo_mgr (fst demo_challenge)"
  "nonces_ok (snd demo_challenge)" "mg_Secret (snd demo_challenge) = mg_Secret demo_mgr" "mg_nonces (snd demo_challenge) = shard_new 256"
  "ch_Bind (fst demo_challenge) = ''b''"
proof -
  have i: "IssueChallenge demo_crypto demo_mgr ''b'' RiskLow [] ''n'' [] 1000 = (fst demo_challenge, snd demo_challenge)"
    by (simp add: demo_challenge_def)
  note f = IssueChallenge_fields [OF i]
  have "selectEffort (fst (settings demo_mgr)) RiskLow = (AlgoSHA256, 16, [])"
    by code_simp
  then show "ch_Algorithm (fst demo_challenge) = AlgoSHA256" "ch_Difficulty (fst demo_challenge) = 16" "ch_Params (fst demo_challenge) = []"
    using f(7) by simp_all
  then show "ch_MaxNumber (fst demo_challenge) = 2 ^ 19"
    using f(6) by (simp add: maxNumberFor_def)
  show "ch_V (fst demo_challenge) = 1" "ch_Challenge (fst demo_challenge) = hex_encode ''n''" "ch_Expires (fst demo_challenge) = 1300"
    "ch_Signature (fst demo_challenge) = signChallenge demo_crypto demo_mgr (fst demo_challenge)"
    "mg_Secret (snd demo_challenge) = mg_Secret demo_mgr" "mg_nonces (snd demo_challenge) = shard_new 256"
    "ch_Bind (fst demo_challenge) = ''b''"
    using f by (simp_all add: ProtocolVersion_def tokenTTL_def demo_mgr_def)
  then show "nonces_ok (snd demo_challenge)"
    by (simp add: nonces_ok_def store256.invar_empty)
qed

lemma demo_zero_bits: "leadingZeroBits (replicate 32 (char_of (0 :: nat))) = 256"
  by code_simp

lemma demo_solution: "VerifySolution demo_crypto (fst demo_challenge) 5 = None"
  by (simp add: VerifySolution_def demo_fields checkPoW_def demo_crypto_def demo_zero_bits)

lemma demo_decode: "DecodePayload demo_unmarshal ''AA'' = Inr (solved (fst demo_challenge) 5 demo_env_report)"
proof -
  have "TrimSpace ''AA'' = ''AA''" "RawDecodeString b64_url ''AA'' \<noteq> None"
    by code_simp+
  then show ?thesis
    by (auto simp: DecodePayload_def demo_unmarshal_def solved_def demo_fields ProtocolVersion_def)
qed

lemma demo_accepts:
  "VerifyPayload demo_crypto demo_unmarshal (snd demo_challenge) ''AA'' ''b'' 1001 =
     (Inr (solved (fst demo_challenge) 5 demo_env_report),
      (snd demo_challenge)\<lparr> mg_nonces := shard_put 256 (hex_encode ''n'') 1300 (shard_new 256) \<rparr>)"
proof -
  have "signChallenge demo_crypto demo_mgr (fst demo_challenge) = signChallenge demo_crypto (snd demo_challenge) (fst demo_challenge)"
    by (simp add: signChallenge_def demo_fields)
  then show ?thesis
    using VerifyPayload_solved [OF demo_decode, of "''b''" 1001 demo_crypto "snd demo_challenge"] demo_solution
    by (simp add: demo_fields store256.get_empty)
qed

theorem nonce_single_use_witness:
  "length (filter (same_challenge (solved (fst demo_challenge) 5 demo_env_report))
     (accepted demo_crypto demo_unmarshal (snd demo_challenge) [Submit ''AA'' ''b'' 1001, Sweep 1200, Submit ''AA'' ''b'' 1250])) = 1"
proof -
  let ?es = "[Submit ''AA'' ''b'' 1001, Sweep 1200, Submit ''AA'' ''b'' 1250]"
  let ?p = "solved (fst demo_challenge) 5 demo_env_report"
  have "length (filter (same_challenge ?p) (accepted demo_crypto demo_unmarshal (snd demo_challenge) ?es)) \<le> 1"
    by (rule nonce_single_use) (simp_all add: demo_fields)
  moreover
  have "?p \<in> set (filter (same_challenge ?p) (accepted demo_crypto demo_unmarshal (snd demo_challenge) ?es))"
    by (simp add: demo_accepts same_challenge_def)
  from length_pos_if_in_set [OF this] calculation show ?thesis
    by linarith
qed

text \<open>C8: A payload accepted under the signature of an issued challenge is that challenge in every field that matters: nonce,
  algorithm, salt, difficulty, search bound, expiry, bind, gate, and the iteration count of PBKDF2; the only other way is two
  different signed strings with the same HMAC under the secret of the site, which the client then has in hand.  Nothing is
  assumed of the HMAC.  So, short of a collision, a client cannot lower the work it was given or move a solution to another
  client, whatever separators it puts into the fields.\<close>

theorem accepted_fields_are_issued:
  assumes issued: "IssueChallenge cy m0 bindID risk gate nb sb t0 = (c, m1)" "mg_Secret m0 = mg_Secret m" "CHR ''|'' \<notin> set bindID"
    and acc: "VerifyPayload cy unmarshal m raw bindID' now = (Inr p, m')" "pl_Signature p = ch_Signature c"
  shows "(pl_Challenge p = ch_Challenge c \<and> pl_Algorithm p = ch_Algorithm c \<and> pl_Salt p = ch_Salt c \<and>
      pl_Difficulty p = ch_Difficulty c \<and> pl_MaxNumber p = ch_MaxNumber c \<and> pl_Expires p = t0 + 300 \<and> pl_Bind p = bindID \<and>
      NormalizeGate (pl_Gate p) = NormalizeGate gate \<and>
      (ch_Algorithm c = AlgoPBKDF2SHA256 \<longrightarrow> map_of (pl_Params p) ''iterations'' = Some 10000)) \<or>
    (canonicalChallenge (asChallenge p) \<noteq> canonicalChallenge c \<and>
      cy_hmac cy (mg_Secret m) (canonicalChallenge (asChallenge p)) = cy_hmac cy (mg_Secret m) (canonicalChallenge c))"
proof (cases "canonicalChallenge c = canonicalChallenge (asChallenge p)")
  case True
  note f = IssueChallenge_fields [OF issued(1)]
  from True have "signed_fields c = signed_fields (asChallenge p)"
    by (rule canonical_inj [OF IssueChallenge_bar_free [OF issued(1,3)]])
  then have eq: "pl_Challenge p = ch_Challenge c" "pl_Algorithm p = ch_Algorithm c" "pl_Salt p = ch_Salt c"
    "pl_Difficulty p = ch_Difficulty c" "pl_MaxNumber p = ch_MaxNumber c" "pl_Expires p = ch_Expires c" "pl_Bind p = ch_Bind c"
    "NormalizeGate (pl_Gate p) = NormalizeGate (ch_Gate c)" "canonicalParams (pl_Params p) = canonicalParams (ch_Params c)"
    by (simp_all add: signed_fields_eq asChallenge_def)
  have "ch_Algorithm c = AlgoPBKDF2SHA256 \<longrightarrow> ch_Params c = [(''iterations'', 10000)]"
    using effort_params [OF f(7) [symmetric]] by (auto simp: AlgoSHA256_def AlgoPBKDF2SHA256_def AlgoArgon2id_def)
  then show ?thesis
    using eq f(3,4,5) iterations_covered by (simp add: tokenTTL_def)
next
  case False
  have "hex_encode (cy_hmac cy (mg_Secret m) (canonicalChallenge (asChallenge p))) = hex_encode (cy_hmac cy (mg_Secret m) (canonicalChallenge c))"
    using VerifyPayload_Inr(4) [OF acc(1)] acc(2) IssueChallenge_fields(9) [OF issued(1)] issued(2) by (simp add: signChallenge_def)
  then have "cy_hmac cy (mg_Secret m) (canonicalChallenge (asChallenge p)) = cy_hmac cy (mg_Secret m) (canonicalChallenge c)"
    by (rule hex_encode_inj)
  with False show ?thesis by auto
qed

theorem accepted_fields_are_issued_witness:
  "pl_Difficulty (solved (fst demo_challenge) 5 demo_env_report) = 16 \<and> pl_Expires (solved (fst demo_challenge) 5 demo_env_report) = 1300"
proof -
  have i: "IssueChallenge demo_crypto demo_mgr ''b'' RiskLow [] ''n'' [] 1000 = (fst demo_challenge, snd demo_challenge)"
    by (simp add: demo_challenge_def)
  have s: "pl_Signature (solved (fst demo_challenge) 5 demo_env_report) = ch_Signature (fst demo_challenge)"
    by (simp add: solved_def)
  have k: "mg_Secret demo_mgr = mg_Secret (snd demo_challenge)"
    by (simp only: demo_fields)
  have b: "CHR ''|'' \<notin> set ''b''"
    by simp
  note eq = accepted_fields_are_issued [OF i k b demo_accepts s, unfolded asChallenge_solved]
  have "pl_Difficulty (solved (fst demo_challenge) 5 demo_env_report) = ch_Difficulty (fst demo_challenge)"
    using eq by blast
  moreover have "pl_Expires (solved (fst demo_challenge) 5 demo_env_report) = 1000 + 300"
    using eq by blast
  ultimately show ?thesis
    by (simp only: demo_fields) simp
qed

text \<open>C12: A solved challenge is accepted: the payload of an issued challenge with a solution that meets its difficulty passes once
  within its lifetime of five minutes, and the same submission again within it is a replay.\<close>

theorem issued_challenge_accepted:
  assumes issued: "IssueChallenge cy m0 bindID risk gate nb sb t0 = (c, m)"
    and fresh: "nonces_ok m0" "shard_get 256 (mg_nonces m0) (hex_encode nb) = None" "- (2 ^ 61) \<le> t0" "t0 < 2 ^ 61"
    and sol: "VerifySolution cy c sol = None" "sol \<le> ch_MaxNumber c" "sol < 2 ^ 64"
    and sent: "DecodePayload unmarshal raw = Inr (solved c sol env)" "now \<le> t0 + 300" "now' \<le> t0 + 300"
  shows "fst (VerifyPayload cy unmarshal m raw bindID now) = Inr (solved c sol env) \<and>
    fst (VerifyPayload cy unmarshal (snd (VerifyPayload cy unmarshal m raw bindID now)) raw bindID now') = Inl ErrReplay"
proof -
  note f = IssueChallenge_fields [OF issued]
  let ?m2 = "m\<lparr> mg_nonces := shard_put 256 (ch_Challenge c) (ch_Expires c) (mg_nonces m) \<rparr>"
  have e: "- (2 ^ 62) \<le> ch_Expires c" "ch_Expires c < 2 ^ 62"
    using fresh(3,4) f(3) by (simp_all add: tokenTTL_def)
  have sg: "ch_Signature c = signChallenge cy m c" "ch_Signature c = signChallenge cy ?m2 c"
    using f(9,10) by (simp_all add: signChallenge_def)
  have tm: "now \<le> ch_Expires c" "now' \<le> ch_Expires c"
    using sent(2,3) f(3) by (simp_all add: tokenTTL_def)
  have b: "bindID = [] \<or> bindID = ch_Bind c"
    using f(4) by simp
  have "shard_get 256 (mg_nonces m) (ch_Challenge c) = None"
    using fresh(2) f(2,11) by simp
  then have 1: "VerifyPayload cy unmarshal m raw bindID now = (Inr (solved c sol env), ?m2)"
    using VerifyPayload_solved [OF sent(1) b tm(1) sg(1) sol(3,2,1) e] by simp
  have "shard_get 256 (mg_nonces ?m2) (ch_Challenge c) = Some (ch_Expires c)"
    using fresh(1) f(11) by (simp add: nonces_ok_def store256.get_put)
  then have "VerifyPayload cy unmarshal ?m2 raw bindID now' = (Inl ErrReplay, ?m2)"
    using VerifyPayload_solved [OF sent(1) b tm(2) sg(2) sol(3,2,1) e] by simp
  then show ?thesis
    using 1 by simp
qed

theorem issued_challenge_accepted_witness:
  "fst (VerifyPayload demo_crypto demo_unmarshal (snd demo_challenge) ''AA'' ''b'' 1001) = Inr (solved (fst demo_challenge) 5 demo_env_report) \<and>
   fst (VerifyPayload demo_crypto demo_unmarshal (snd (VerifyPayload demo_crypto demo_unmarshal (snd demo_challenge) ''AA'' ''b'' 1001)) ''AA'' ''b'' 1300) = Inl ErrReplay"
proof -
  have i: "IssueChallenge demo_crypto demo_mgr ''b'' RiskLow [] ''n'' [] 1000 = (fst demo_challenge, snd demo_challenge)"
    by (simp add: demo_challenge_def)
  show ?thesis
    by (rule issued_challenge_accepted [OF i demo_mgr_fresh]) (simp_all add: demo_solution demo_decode demo_fields)
qed

text \<open>C14: The proof of work is a threshold: a solution meets difficulty \<open>d\<close> exactly if the SHA-256 digest, read as a big-endian
  number, is below \<open>2 ^ (256 - d)\<close>.\<close>

theorem pow_threshold:
  assumes "length (cy_sha256 cy (pow_message nonce sol)) = 32" "0 \<le> d" "d \<le> 256"
  shows "checkPoW cy nonce sol d \<longleftrightarrow> be_value (cy_sha256 cy (pow_message nonce sol)) < 2 ^ (256 - nat d)"
proof -
  have "nat d \<le> leadingZeroBits (cy_sha256 cy (pow_message nonce sol)) \<longleftrightarrow>
      be_value (cy_sha256 cy (pow_message nonce sol)) < 2 ^ (256 - nat d)"
    unfolding leadingZeroBits_def using lz_threshold [of "nat d" "cy_sha256 cy (pow_message nonce sol)"] assms by simp
  then show ?thesis
    using assms(2) by (simp add: checkPoW_def nat_le_iff)
qed

theorem pow_threshold_witness:
  "checkPoW demo_crypto ''n'' 5 16 \<longleftrightarrow> be_value (replicate 32 (char_of (0 :: nat))) < 2 ^ (256 - nat 16)"
  using pow_threshold [of demo_crypto "''n''" 5 16] by (simp add: demo_crypto_def)

text \<open>An issued token parses back to itself for its client during five minutes, and is expired afterwards.\<close>

theorem token_roundtrip:
  assumes "Issue cy m clientID nb t0 = ((tk, raw), m')" "- (2 ^ 62) \<le> t0" "t0 < 2 ^ 62" "t0 \<le> now" "now < 2 ^ 62"
    "- (2 ^ 63) \<le> ls_Difficulty (fst (settings m))" "ls_Difficulty (fst (settings m)) < 2 ^ 63"
  shows "ParseToken cy m' raw clientID now = (if now \<le> t0 + 300 then Inr tk else Inl ErrExpired)"
proof -
  let ?d = "ls_Difficulty (fst (settings m))"
  have tk: "tk = \<lparr> tk_Nonce = hex_encode nb, tk_IssuedAt = t0, tk_Difficulty = ?d \<rparr>" and m': "m' = snd (settings m)"
    and raw: "raw = join (CHR ''.'') [hex_encode nb, FormatInt t0, FormatInt ?d, chal_sign cy m' (hex_encode nb) t0 ?d clientID]"
    using assms(1) by (auto simp: Issue_def Let_def case_prod_beta)
  have sp: "Split (CHR ''.'') raw = [hex_encode nb, FormatInt t0, FormatInt ?d, chal_sign cy m' (hex_encode nb) t0 ?d clientID]"
    unfolding raw by (rule Split_join) (simp_all add: chal_sign_def)
  have pi: "ParseInt (FormatInt t0) = Some t0" "ParseInt (FormatInt ?d) = Some ?d"
    using assms by (simp_all add: ParseInt_FormatInt)
  have "int64 (now - t0) = now - t0"
    using assms by (intro int64_id) simp_all
  then show ?thesis
    by (auto simp: ParseToken_def sp pi tk tokenTTL_def Let_def)
qed

theorem token_roundtrip_witness:
  "\<exists>tk raw m'. Issue demo_crypto demo_mgr ''1.2.3.4'' ''n'' 1000 = ((tk, raw), m') \<and>
     ParseToken demo_crypto m' raw ''1.2.3.4'' 1300 = Inr tk \<and> ParseToken demo_crypto m' raw ''1.2.3.4'' 1301 = Inl ErrExpired"
proof -
  obtain tk raw m' where i: "Issue demo_crypto demo_mgr ''1.2.3.4'' ''n'' 1000 = ((tk, raw), m')"
    by (metis surj_pair)
  have "ls_Difficulty (fst (settings demo_mgr)) = 16"
    by (simp add: settings_def demo_mgr_def Let_def)
  then show ?thesis
    using i token_roundtrip [OF i, of 1300] token_roundtrip [OF i, of 1301] by simp
qed

text \<open>C25: A clearance cookie, sent back, clears exactly the client it was bound to, up to its expiry second, provided that
  neither the binding nor the request identifier contains a bar.  A request identifier with a bar gives a cookie that clears
  nobody, because the signed text then has more than three fields; the challenge endpoint takes the identifier from the
  client's post.\<close>

theorem clearance_exact:
  assumes "isToken (ls_CookieName (fst (settings m)))" "- (2 ^ 63) \<le> clearance_expiry m t" "clearance_expiry m t < 2 ^ 63"
  shows "fst (HasClearance cy m (with_cookie r (ls_CookieName (fst (settings m))) (ck_Value (fst (ClearanceCookie cy m bindID reqID sec t)))) bindID' now) \<longleftrightarrow>
    bindID' = bindID \<and> unix_sec now \<le> clearance_expiry m t \<and> CHR ''|'' \<notin> set bindID \<and> CHR ''|'' \<notin> set reqID"
proof -
  let ?v = "ck_Value (fst (ClearanceCookie cy m bindID reqID sec t))"
  have ne: "?v \<noteq> []"
    by (simp add: ClearanceCookie_value Let_def)
  have "\<forall>c \<in> set b64_url. validCookieValueByte c \<and> c \<noteq> CHR '' ''"
    by code_simp
  then have "cookie_safe (RawEncodeToString b64_url s)" for s
    using RawEncode_chars [OF alphabets(4)] by (auto simp: cookie_safe_def)
  then have "cookie_safe ?v"
    by (simp add: ClearanceCookie_value Let_def cookie_bytes chal_mac_def)
  then have "Request_Cookie (with_cookie r (ls_CookieName (fst (settings m))) ?v) (ls_CookieName (fst (settings m))) = Some ?v"
    using ne by (intro Cookie_with_cookie assms(1)) (auto simp: cookie_safe_def)
  moreover have "chal_validateCookie cy (snd (settings m)) ?v bindID' now = chal_validateCookie cy m ?v bindID' now"
    unfolding chal_validateCookie_def chal_mac_settings ..
  ultimately show ?thesis
    using clearance_validates [OF assms(2,3), of cy bindID reqID sec bindID' now] ne
    by (auto simp: HasClearance_def case_prod_beta split: if_splits)
qed

theorem clearance_exact_witness:
  "fst (HasClearance demo_crypto demo_mgr (with_cookie demo_http (ls_CookieName (fst (settings demo_mgr)))
     (ck_Value (fst (ClearanceCookie demo_crypto demo_mgr ''10.0.0.1'' ''r1'' True 0)))) ''10.0.0.1'' second) \<and>
   \<not> fst (HasClearance demo_crypto demo_mgr (with_cookie demo_http (ls_CookieName (fst (settings demo_mgr)))
     (ck_Value (fst (ClearanceCookie demo_crypto demo_mgr ''10.0.0.1'' ''r1'' True 0)))) ''10.0.0.2'' second) \<and>
   \<not> fst (HasClearance demo_crypto demo_mgr (with_cookie demo_http (ls_CookieName (fst (settings demo_mgr)))
     (ck_Value (fst (ClearanceCookie demo_crypto demo_mgr ''10.0.0.1'' ''r|1'' True 0)))) ''10.0.0.1'' second)"
proof -
  have n: "isToken (ls_CookieName (fst (settings demo_mgr)))"
    by (simp add: settings_def demo_mgr_def Let_def isToken_def is_token_char_def is_lower_def)
  have e: "clearance_expiry demo_mgr 0 = 3600"
    by (simp add: clearance_expiry_def settings_def demo_mgr_def Let_def unix_sec_def duration_defs)
  have "unix_sec second = 1"
    by (simp add: unix_sec_def duration_defs)
  then show ?thesis
    using clearance_exact [OF n, where t = 0 and reqID = "''r1''" and bindID = "''10.0.0.1''"]
      clearance_exact [OF n, where t = 0 and reqID = "''r|1''" and bindID = "''10.0.0.1''"] e by simp
qed

end
