(* ===== verification/ConfigData.thy ===== *)
theory ConfigData
  imports GoNet
begin

text \<open>
  \<open>internal/config/config.go\<close>, the data: one record per configuration struct with the source's fields in the source's
  order (a \<open>Duration\<close> counts nanoseconds, a \<open>float64\<close> is a rational, a \<open>*bool\<close> an option; the three slices that
  are compared with \<open>nil\<close> are options), the zero values, and \<open>Default\<close>.
\<close>

section \<open>Structs\<close>

record ListenConfig =
  li_HTTP :: string
  li_HTTPS :: string
  li_QUIC :: string
  li_AllowHTTP1 :: bool

definition zero_ListenConfig :: ListenConfig where
  "zero_ListenConfig = \<lparr> li_HTTP = [], li_HTTPS = [], li_QUIC = [], li_AllowHTTP1 = False \<rparr>"

record ACMEConfig =
  acme_Email :: string
  acme_Directory :: string
  acme_Staging :: bool
  acme_StorageDir :: string
  acme_Hosts :: "string list"
  acme_HTTP01 :: "bool option"
  acme_TLSALPN01 :: "bool option"
  acme_RedirectHTTP :: "bool option"
  acme_AgreeTOS :: bool
  acme_RenewWindow :: duration
  acme_OnDemand :: bool

definition zero_ACMEConfig :: ACMEConfig where
  "zero_ACMEConfig = \<lparr> acme_Email = [], acme_Directory = [], acme_Staging = False, acme_StorageDir = [], acme_Hosts = [], acme_HTTP01 = None, acme_TLSALPN01 = None, acme_RedirectHTTP = None, acme_AgreeTOS = False, acme_RenewWindow = 0, acme_OnDemand = False \<rparr>"

record SelfSignedConfig =
  ss_StorageDir :: string
  ss_Hosts :: "string list"
  ss_Validity :: duration

definition zero_SelfSignedConfig :: SelfSignedConfig where
  "zero_SelfSignedConfig = \<lparr> ss_StorageDir = [], ss_Hosts = [], ss_Validity = 0 \<rparr>"

record TLSConfig =
  tls_Mode :: string
  tls_CertFile :: string
  tls_KeyFile :: string
  tls_ACME :: ACMEConfig
  tls_SelfSigned :: SelfSignedConfig

definition zero_TLSConfig :: TLSConfig where
  "zero_TLSConfig = \<lparr> tls_Mode = [], tls_CertFile = [], tls_KeyFile = [], tls_ACME = zero_ACMEConfig, tls_SelfSigned = zero_SelfSignedConfig \<rparr>"

record UpstreamHealthConfig =
  uh_Enabled :: bool
  uh_Path :: string
  uh_Interval :: duration
  uh_Timeout :: duration
  uh_SuccessCodes :: "int list"

definition zero_UpstreamHealthConfig :: UpstreamHealthConfig where
  "zero_UpstreamHealthConfig = \<lparr> uh_Enabled = False, uh_Path = [], uh_Interval = 0, uh_Timeout = 0, uh_SuccessCodes = [] \<rparr>"

record UpstreamConfig =
  ups_URL :: string
  ups_ConnectTimeout :: duration
  ups_ResponseHeader :: duration
  ups_IdleConnTimeout :: duration
  ups_MaxIdleConns :: int
  ups_MaxIdleConnsPerHost :: int
  ups_MaxConnsPerHost :: int
  ups_FlushInterval :: duration
  ups_SetHeaders :: "string list"
  ups_Protocol :: string
  ups_AllowHTTP1 :: bool
  ups_TLSCAFile :: string
  ups_TLSClientCertFile :: string
  ups_TLSClientKeyFile :: string
  ups_InsecureSkipVerify :: bool
  ups_Health :: UpstreamHealthConfig

definition zero_UpstreamConfig :: UpstreamConfig where
  "zero_UpstreamConfig = \<lparr> ups_URL = [], ups_ConnectTimeout = 0, ups_ResponseHeader = 0, ups_IdleConnTimeout = 0, ups_MaxIdleConns = 0, ups_MaxIdleConnsPerHost = 0, ups_MaxConnsPerHost = 0, ups_FlushInterval = 0, ups_SetHeaders = [], ups_Protocol = [], ups_AllowHTTP1 = False, ups_TLSCAFile = [], ups_TLSClientCertFile = [], ups_TLSClientKeyFile = [], ups_InsecureSkipVerify = False, ups_Health = zero_UpstreamHealthConfig \<rparr>"

record TrustConfig =
  tr_Mode :: string
  tr_TrustedProxies :: "string list"
  tr_RealIPHeader :: string
  tr_ProtoHeader :: string
  tr_ProxyProtocol :: bool

definition zero_TrustConfig :: TrustConfig where
  "zero_TrustConfig = \<lparr> tr_Mode = [], tr_TrustedProxies = [], tr_RealIPHeader = [], tr_ProtoHeader = [], tr_ProxyProtocol = False \<rparr>"

record BlocklistsConfig =
  bl_IPFiles :: "string list"
  bl_DNSFiles :: "string list"
  bl_UAFiles :: "string list"
  bl_ReloadInterval :: duration

definition zero_BlocklistsConfig :: BlocklistsConfig where
  "zero_BlocklistsConfig = \<lparr> bl_IPFiles = [], bl_DNSFiles = [], bl_UAFiles = [], bl_ReloadInterval = 0 \<rparr>"

record AllowlistsConfig =
  al_IPFiles :: "string list"
  al_UAFiles :: "string list"
  al_HeaderFiles :: "string list"
  al_ReloadInterval :: duration

definition zero_AllowlistsConfig :: AllowlistsConfig where
  "zero_AllowlistsConfig = \<lparr> al_IPFiles = [], al_UAFiles = [], al_HeaderFiles = [], al_ReloadInterval = 0 \<rparr>"

record QFeedsConfig =
  qf_Enabled :: bool
  qf_APIToken :: string
  qf_BaseURL :: string
  qf_Feeds :: "string list"
  qf_Refresh :: duration
  qf_OnError :: string
  qf_Limit :: int

definition zero_QFeedsConfig :: QFeedsConfig where
  "zero_QFeedsConfig = \<lparr> qf_Enabled = False, qf_APIToken = [], qf_BaseURL = [], qf_Feeds = [], qf_Refresh = 0, qf_OnError = [], qf_Limit = 0 \<rparr>"

record RateLimitConfig =
  rl_Enabled :: bool
  rl_Requests :: int
  rl_Window :: duration
  rl_Burst :: int
  rl_PerPath :: bool
  rl_ChallengeOver :: bool
  rl_SubnetV4Prefix :: int
  rl_SubnetV6Prefix :: int
  rl_SubnetRequests :: int
  rl_SubnetBurst :: int
  rl_SubnetWindow :: duration
  rl_GlobalRequests :: int
  rl_GlobalBurst :: int
  rl_GlobalWindow :: duration

definition zero_RateLimitConfig :: RateLimitConfig where
  "zero_RateLimitConfig = \<lparr> rl_Enabled = False, rl_Requests = 0, rl_Window = 0, rl_Burst = 0, rl_PerPath = False, rl_ChallengeOver = False, rl_SubnetV4Prefix = 0, rl_SubnetV6Prefix = 0, rl_SubnetRequests = 0, rl_SubnetBurst = 0, rl_SubnetWindow = 0, rl_GlobalRequests = 0, rl_GlobalBurst = 0, rl_GlobalWindow = 0 \<rparr>"

record ProtectConfig =
  pt_Enabled :: bool
  pt_MaxBodyBytes :: int
  pt_MaxHeaderBytes :: int
  pt_MaxURLBytes :: int
  pt_MaxConcurrentGlobal :: int
  pt_MaxConcurrentClient :: int
  pt_BanAfterStrikes :: int
  pt_BanTTL :: duration
  pt_BanEscalation :: int
  pt_AttackBlock :: bool
  pt_AttackScore :: int
  pt_WriteMethodCost :: int

definition zero_ProtectConfig :: ProtectConfig where
  "zero_ProtectConfig = \<lparr> pt_Enabled = False, pt_MaxBodyBytes = 0, pt_MaxHeaderBytes = 0, pt_MaxURLBytes = 0, pt_MaxConcurrentGlobal = 0, pt_MaxConcurrentClient = 0, pt_BanAfterStrikes = 0, pt_BanTTL = 0, pt_BanEscalation = 0, pt_AttackBlock = False, pt_AttackScore = 0, pt_WriteMethodCost = 0 \<rparr>"

record CrawlerVerify =
  cv_Enabled :: bool
  cv_Timeout :: duration
  cv_SpoofScore :: int

definition zero_CrawlerVerify :: CrawlerVerify where
  "zero_CrawlerVerify = \<lparr> cv_Enabled = False, cv_Timeout = 0, cv_SpoofScore = 0 \<rparr>"

record DetectProxySignals =
  ps_BotScoreHeader :: string
  ps_BotScoreHeader2 :: string
  ps_JA4Header :: string
  ps_LowScorePoints :: int

definition zero_DetectProxySignals :: DetectProxySignals where
  "zero_DetectProxySignals = \<lparr> ps_BotScoreHeader = [], ps_BotScoreHeader2 = [], ps_JA4Header = [], ps_LowScorePoints = 0 \<rparr>"

record WebBotAuthConfig =
  wba_Enabled :: bool
  wba_Timeout :: duration
  wba_SpoofScore :: int

definition zero_WebBotAuthConfig :: WebBotAuthConfig where
  "zero_WebBotAuthConfig = \<lparr> wba_Enabled = False, wba_Timeout = 0, wba_SpoofScore = 0 \<rparr>"

record AIPayConfig =
  pay_PayTo :: string
  pay_Amount :: string
  pay_Network :: string
  pay_Asset :: string
  pay_Description :: string
  pay_Facilitator :: string

definition zero_AIPayConfig :: AIPayConfig where
  "zero_AIPayConfig = \<lparr> pay_PayTo = [], pay_Amount = [], pay_Network = [], pay_Asset = [], pay_Description = [], pay_Facilitator = [] \<rparr>"

record DetectSection =
  det_Enabled :: bool
  det_ChallengeScore :: int
  det_BlockScore :: int
  det_MissingUAScore :: int
  det_ScannerUAScore :: int
  det_AIUAScore :: int
  det_ProbePathScore :: int
  det_OddMethodScore :: int
  det_MissingAcceptScore :: int
  det_MissingAcceptLangScore :: int
  det_MissingSecFetchScore :: int
  det_SecCHUAMismatchScore :: int
  det_StarAcceptBrowserScore :: int
  det_High404Threshold :: int
  det_High404Window :: duration
  det_High404Action :: string
  det_PenaltyThreshold :: int
  det_PenaltyWindow :: duration
  det_PenaltyAction :: string
  det_CacheMissTTL :: duration
  det_BehaviorWindow :: duration
  det_BehaviorBurstLimit :: int
  det_BehaviorBurstScore :: int
  det_BehaviorPathFanout :: int
  det_BehaviorPathFanoutScore :: int
  det_BehaviorStrikeLimit :: int
  det_BehaviorStrikeScore :: int
  det_BehaviorWriteBurstLimit :: int
  det_BehaviorWriteBurstScore :: int
  det_BehaviorWriteRepeatLimit :: int
  det_BehaviorWriteRepeatScore :: int
  det_EmptyFormContextScore :: int
  det_ForumWritePathScore :: int
  det_ForgeFlavor :: string
  det_ForgeExpensiveScore :: int
  det_BehaviorForgeBurstLimit :: int
  det_BehaviorForgeBurstScore :: int
  det_ForgeRateCost :: int
  det_MissingAcceptEncScore :: int
  det_SecCHUANonChromiumScore :: int
  det_HTTP10BrowserScore :: int
  det_MissingContentTypeScore :: int
  det_LongUAScore :: int
  det_MissingUIRScore :: int
  det_SNIHostMismatchScore :: int
  det_BehaviorUAVarietyLimit :: int
  det_BehaviorUAVarietyScore :: int
  det_CrawlerVerify :: CrawlerVerify
  det_ProxySignals :: DetectProxySignals
  det_WebBotAuth :: WebBotAuthConfig
  det_AICrawlerPolicy :: string
  det_AIPay :: AIPayConfig

definition zero_DetectSection :: DetectSection where
  "zero_DetectSection = \<lparr> det_Enabled = False, det_ChallengeScore = 0, det_BlockScore = 0, det_MissingUAScore = 0, det_ScannerUAScore = 0, det_AIUAScore = 0, det_ProbePathScore = 0, det_OddMethodScore = 0, det_MissingAcceptScore = 0, det_MissingAcceptLangScore = 0, det_MissingSecFetchScore = 0, det_SecCHUAMismatchScore = 0, det_StarAcceptBrowserScore = 0, det_High404Threshold = 0, det_High404Window = 0, det_High404Action = [], det_PenaltyThreshold = 0, det_PenaltyWindow = 0, det_PenaltyAction = [], det_CacheMissTTL = 0, det_BehaviorWindow = 0, det_BehaviorBurstLimit = 0, det_BehaviorBurstScore = 0, det_BehaviorPathFanout = 0, det_BehaviorPathFanoutScore = 0, det_BehaviorStrikeLimit = 0, det_BehaviorStrikeScore = 0, det_BehaviorWriteBurstLimit = 0, det_BehaviorWriteBurstScore = 0, det_BehaviorWriteRepeatLimit = 0, det_BehaviorWriteRepeatScore = 0, det_EmptyFormContextScore = 0, det_ForumWritePathScore = 0, det_ForgeFlavor = [], det_ForgeExpensiveScore = 0, det_BehaviorForgeBurstLimit = 0, det_BehaviorForgeBurstScore = 0, det_ForgeRateCost = 0, det_MissingAcceptEncScore = 0, det_SecCHUANonChromiumScore = 0, det_HTTP10BrowserScore = 0, det_MissingContentTypeScore = 0, det_LongUAScore = 0, det_MissingUIRScore = 0, det_SNIHostMismatchScore = 0, det_BehaviorUAVarietyLimit = 0, det_BehaviorUAVarietyScore = 0, det_CrawlerVerify = zero_CrawlerVerify, det_ProxySignals = zero_DetectProxySignals, det_WebBotAuth = zero_WebBotAuthConfig, det_AICrawlerPolicy = [], det_AIPay = zero_AIPayConfig \<rparr>"

record CorazaConfig =
  cz_Enabled :: bool
  cz_Mode :: string
  cz_CRS :: bool
  cz_Paranoia :: int
  cz_RulesDir :: string
  cz_RulesFile :: string
  cz_Directives :: string
  cz_MaxBodyInspect :: int
  cz_SkipPathPrefixes :: "string list option"

definition zero_CorazaConfig :: CorazaConfig where
  "zero_CorazaConfig = \<lparr> cz_Enabled = False, cz_Mode = [], cz_CRS = False, cz_Paranoia = 0, cz_RulesDir = [], cz_RulesFile = [], cz_Directives = [], cz_MaxBodyInspect = 0, cz_SkipPathPrefixes = None \<rparr>"

record SemanticConfig =
  sem_Enabled :: bool
  sem_Mode :: string
  sem_MaxBodyInspect :: int
  sem_MaxDecodeDepth :: int
  sem_MaxDecodeBytes :: int
  sem_MaxCPUNanos :: int
  sem_StrictBudget :: bool
  sem_Families :: "string list option"
  sem_SkipPathPrefixes :: "string list option"

definition zero_SemanticConfig :: SemanticConfig where
  "zero_SemanticConfig = \<lparr> sem_Enabled = False, sem_Mode = [], sem_MaxBodyInspect = 0, sem_MaxDecodeDepth = 0, sem_MaxDecodeBytes = 0, sem_MaxCPUNanos = 0, sem_StrictBudget = False, sem_Families = None, sem_SkipPathPrefixes = None \<rparr>"

record MLConfig =
  ml_Enabled :: bool
  ml_Mode :: string
  ml_ModelPath :: string
  ml_AdaptPath :: string
  ml_AttestPath :: string
  ml_ChallengeProb :: rat
  ml_BlockProb :: rat
  ml_ConfidenceMin :: rat
  ml_FPRGate :: rat
  ml_ShadowSampleRate :: rat
  ml_MaxPoints :: int

definition zero_MLConfig :: MLConfig where
  "zero_MLConfig = \<lparr> ml_Enabled = False, ml_Mode = [], ml_ModelPath = [], ml_AdaptPath = [], ml_AttestPath = [], ml_ChallengeProb = 0, ml_BlockProb = 0, ml_ConfidenceMin = 0, ml_FPRGate = 0, ml_ShadowSampleRate = 0, ml_MaxPoints = 0 \<rparr>"

record CaptchaConfig =
  cap_Enabled :: bool
  cap_Provider :: string
  cap_Token :: string

definition zero_CaptchaConfig :: CaptchaConfig where
  "zero_CaptchaConfig = \<lparr> cap_Enabled = False, cap_Provider = [], cap_Token = [] \<rparr>"

record ChallengeConfig =
  chal_Enabled :: bool
  chal_Mode :: string
  chal_Difficulty :: int
  chal_Algorithm :: string
  chal_EnvProbe :: string
  chal_NoJSFallback :: bool
  chal_NoJSDelay :: duration
  chal_CookieName :: string
  chal_CookieTTL :: duration
  chal_Secret :: string
  chal_PathPrefix :: string
  chal_SkipPathPrefixes :: "string list"
  chal_Captcha :: CaptchaConfig

definition zero_ChallengeConfig :: ChallengeConfig where
  "zero_ChallengeConfig = \<lparr> chal_Enabled = False, chal_Mode = [], chal_Difficulty = 0, chal_Algorithm = [], chal_EnvProbe = [], chal_NoJSFallback = False, chal_NoJSDelay = 0, chal_CookieName = [], chal_CookieTTL = 0, chal_Secret = [], chal_PathPrefix = [], chal_SkipPathPrefixes = [], chal_Captcha = zero_CaptchaConfig \<rparr>"

record StealthConfig =
  st_RequestIDHeader :: string
  st_ElementName :: string
  st_BootstrapGlobal :: string
  st_AccessCookieName :: string
  st_HideBrandMark :: bool
  st_GenericCopy :: bool
  st_ServeManifest :: bool
  st_ServeRootIcons :: bool
  st_WidgetInputName :: string

definition zero_StealthConfig :: StealthConfig where
  "zero_StealthConfig = \<lparr> st_RequestIDHeader = [], st_ElementName = [], st_BootstrapGlobal = [], st_AccessCookieName = [], st_HideBrandMark = False, st_GenericCopy = False, st_ServeManifest = False, st_ServeRootIcons = False, st_WidgetInputName = [] \<rparr>"

record PrivacyConfig =
  pv_IPHashSecret :: string
  pv_LogIP :: string
  pv_RequestIDs :: bool
  pv_Retention :: duration
  pv_WAFEventsTTL :: duration
  pv_PrivacyNoticeURL :: string

definition zero_PrivacyConfig :: PrivacyConfig where
  "zero_PrivacyConfig = \<lparr> pv_IPHashSecret = [], pv_LogIP = [], pv_RequestIDs = False, pv_Retention = 0, pv_WAFEventsTTL = 0, pv_PrivacyNoticeURL = [] \<rparr>"

record UIConfig =
  ui_Brand :: string
  ui_StatusText :: string
  ui_TestMode :: bool
  ui_LogoURL :: string
  ui_FaviconURL :: string
  ui_Background :: string
  ui_Foreground :: string
  ui_Accent :: string
  ui_FontSans :: string
  ui_FontMono :: string
  ui_ChallengeTitle :: string
  ui_ChallengeSubtitle :: string
  ui_BlockTitle :: string
  ui_RateLimitTitle :: string
  ui_UpstreamTitle :: string
  ui_ErrorTitle :: string
  ui_FooterText :: string
  ui_Contact :: string
  ui_CustomCSS :: string
  ui_RequestIDLabel :: string

definition zero_UIConfig :: UIConfig where
  "zero_UIConfig = \<lparr> ui_Brand = [], ui_StatusText = [], ui_TestMode = False, ui_LogoURL = [], ui_FaviconURL = [], ui_Background = [], ui_Foreground = [], ui_Accent = [], ui_FontSans = [], ui_FontMono = [], ui_ChallengeTitle = [], ui_ChallengeSubtitle = [], ui_BlockTitle = [], ui_RateLimitTitle = [], ui_UpstreamTitle = [], ui_ErrorTitle = [], ui_FooterText = [], ui_Contact = [], ui_CustomCSS = [], ui_RequestIDLabel = [] \<rparr>"

record SiteConfig =
  site_PublicURL :: string
  site_Description :: string
  site_OGImage :: string
  site_ThemeColor :: string
  site_Robots :: string
  site_Lang :: string
  site_RobotsAI :: string
  site_ContentSignal :: string
  site_RSLFile :: string
  site_LLMSFile :: string

definition zero_SiteConfig :: SiteConfig where
  "zero_SiteConfig = \<lparr> site_PublicURL = [], site_Description = [], site_OGImage = [], site_ThemeColor = [], site_Robots = [], site_Lang = [], site_RobotsAI = [], site_ContentSignal = [], site_RSLFile = [], site_LLMSFile = [] \<rparr>"

record LoggingConfig =
  lg_Level :: string
  lg_Format :: string
  lg_Stats :: bool
  lg_StatsInterval :: duration

definition zero_LoggingConfig :: LoggingConfig where
  "zero_LoggingConfig = \<lparr> lg_Level = [], lg_Format = [], lg_Stats = False, lg_StatsInterval = 0 \<rparr>"

record SentryConfig =
  sy_Enabled :: bool
  sy_DSN :: string
  sy_Environment :: string
  sy_Release :: string
  sy_ServerName :: string
  sy_SampleRate :: rat
  sy_TracesSampleRate :: rat
  sy_Debug :: bool
  sy_AttachStacktrace :: bool
  sy_SendDefaultPII :: bool
  sy_CaptureUpstream :: bool
  sy_FlushTimeout :: duration

definition zero_SentryConfig :: SentryConfig where
  "zero_SentryConfig = \<lparr> sy_Enabled = False, sy_DSN = [], sy_Environment = [], sy_Release = [], sy_ServerName = [], sy_SampleRate = 0, sy_TracesSampleRate = 0, sy_Debug = False, sy_AttachStacktrace = False, sy_SendDefaultPII = False, sy_CaptureUpstream = False, sy_FlushTimeout = 0 \<rparr>"

record SandboxLandlockConfig =
  ll_Mode :: string
  ll_RODirs :: "string list"
  ll_RWDirs :: "string list"
  ll_ROFiles :: "string list"
  ll_RWFiles :: "string list"
  ll_RestrictNet :: "bool option"
  ll_RestrictScoped :: "bool option"
  ll_BindTCP :: "int list"
  ll_BindUDP :: "int list"
  ll_ConnectTCP :: "int list"
  ll_ConnectUDP :: "int list"
  ll_IgnoreMissing :: "bool option"

definition zero_SandboxLandlockConfig :: SandboxLandlockConfig where
  "zero_SandboxLandlockConfig = \<lparr> ll_Mode = [], ll_RODirs = [], ll_RWDirs = [], ll_ROFiles = [], ll_RWFiles = [], ll_RestrictNet = None, ll_RestrictScoped = None, ll_BindTCP = [], ll_BindUDP = [], ll_ConnectTCP = [], ll_ConnectUDP = [], ll_IgnoreMissing = None \<rparr>"

record SandboxSeccompConfig =
  sc_Mode :: string
  sc_DenyAction :: string

definition zero_SandboxSeccompConfig :: SandboxSeccompConfig where
  "zero_SandboxSeccompConfig = \<lparr> sc_Mode = [], sc_DenyAction = [] \<rparr>"

record SandboxConfig =
  sb_Mode :: string
  sb_Landlock :: SandboxLandlockConfig
  sb_Seccomp :: SandboxSeccompConfig

definition zero_SandboxConfig :: SandboxConfig where
  "zero_SandboxConfig = \<lparr> sb_Mode = [], sb_Landlock = zero_SandboxLandlockConfig, sb_Seccomp = zero_SandboxSeccompConfig \<rparr>"

record AdminConfig =
  adm_Enabled :: bool
  adm_Listen :: string
  adm_HTTPS :: string
  adm_CertFile :: string
  adm_KeyFile :: string
  adm_BasePath :: string
  adm_DataDir :: string
  adm_BootstrapUser :: string
  adm_BootstrapPassword :: string
  adm_SessionTTL :: duration
  adm_CookieSecure :: string

definition zero_AdminConfig :: AdminConfig where
  "zero_AdminConfig = \<lparr> adm_Enabled = False, adm_Listen = [], adm_HTTPS = [], adm_CertFile = [], adm_KeyFile = [], adm_BasePath = [], adm_DataDir = [], adm_BootstrapUser = [], adm_BootstrapPassword = [], adm_SessionTTL = 0, adm_CookieSecure = [] \<rparr>"

record HubConfig =
  hub_PublicURL :: string

definition zero_HubConfig :: HubConfig where
  "zero_HubConfig = \<lparr> hub_PublicURL = [] \<rparr>"

record AgentConfig =
  ag_HubURL :: string
  ag_Token :: string
  ag_HubPubKey :: string
  ag_Name :: string
  ag_DataDir :: string

definition zero_AgentConfig :: AgentConfig where
  "zero_AgentConfig = \<lparr> ag_HubURL = [], ag_Token = [], ag_HubPubKey = [], ag_Name = [], ag_DataDir = [] \<rparr>"

record NebulaConfig =
  neb_CACertFile :: string
  neb_CAKeyFile :: string
  neb_CIDR :: string
  neb_CertTTL :: duration
  neb_Groups :: "string list"
  neb_CertVersion :: int
  neb_StaticHostMap :: "(string, string list) gomap"
  neb_LighthouseIPs :: "string list"

definition zero_NebulaConfig :: NebulaConfig where
  "zero_NebulaConfig = \<lparr> neb_CACertFile = [], neb_CAKeyFile = [], neb_CIDR = [], neb_CertTTL = 0, neb_Groups = [], neb_CertVersion = 0, neb_StaticHostMap = [], neb_LighthouseIPs = [] \<rparr>"

record ThreatIntelConfig =
  ti_Enabled :: bool
  ti_ExportRawIP :: bool
  ti_ExportToken :: string
  ti_AbuseIPDBKey :: string
  ti_AbuseIPDBMinConfidence :: int
  ti_AbuseIPDBLimit :: int
  ti_MISPURL :: string
  ti_MISPKey :: string
  ti_IngestURLs :: "string list"
  ti_IngestInterval :: duration
  ti_DefaultTTL :: duration

definition zero_ThreatIntelConfig :: ThreatIntelConfig where
  "zero_ThreatIntelConfig = \<lparr> ti_Enabled = False, ti_ExportRawIP = False, ti_ExportToken = [], ti_AbuseIPDBKey = [], ti_AbuseIPDBMinConfidence = 0, ti_AbuseIPDBLimit = 0, ti_MISPURL = [], ti_MISPKey = [], ti_IngestURLs = [], ti_IngestInterval = 0, ti_DefaultTTL = 0 \<rparr>"

record HoneypotConfig =
  hp_Enabled :: bool
  hp_Paths :: "string list"
  hp_Prefixes :: "string list"
  hp_Action :: string
  hp_BanTTL :: duration

definition zero_HoneypotConfig :: HoneypotConfig where
  "zero_HoneypotConfig = \<lparr> hp_Enabled = False, hp_Paths = [], hp_Prefixes = [], hp_Action = [], hp_BanTTL = 0 \<rparr>"

record TarpitConfig =
  tp_Interval :: duration
  tp_BytesPerTick :: int
  tp_MaxDuration :: duration

definition zero_TarpitConfig :: TarpitConfig where
  "zero_TarpitConfig = \<lparr> tp_Interval = 0, tp_BytesPerTick = 0, tp_MaxDuration = 0 \<rparr>"

record DecisionsConfig =
  dn_Enabled :: bool
  dn_Token :: string

definition zero_DecisionsConfig :: DecisionsConfig where
  "zero_DecisionsConfig = \<lparr> dn_Enabled = False, dn_Token = [] \<rparr>"

record NotifyConfig =
  nt_WebhookURL :: string
  nt_Events :: "string list"
  nt_Timeout :: duration

definition zero_NotifyConfig :: NotifyConfig where
  "zero_NotifyConfig = \<lparr> nt_WebhookURL = [], nt_Events = [], nt_Timeout = 0 \<rparr>"

record GlobalConfig =
  cfg_Listen :: ListenConfig
  cfg_TLS :: TLSConfig
  cfg_Upstream :: UpstreamConfig
  cfg_Trust :: TrustConfig
  cfg_Blocklists :: BlocklistsConfig
  cfg_Allowlists :: AllowlistsConfig
  cfg_QFeeds :: QFeedsConfig
  cfg_RateLimit :: RateLimitConfig
  cfg_Protect :: ProtectConfig
  cfg_Detect :: DetectSection
  cfg_Coraza :: CorazaConfig
  cfg_Semantic :: SemanticConfig
  cfg_ML :: MLConfig
  cfg_Challenge :: ChallengeConfig
  cfg_Stealth :: StealthConfig
  cfg_Privacy :: PrivacyConfig
  cfg_UI :: UIConfig
  cfg_Site :: SiteConfig
  cfg_Logging :: LoggingConfig
  cfg_Sentry :: SentryConfig
  cfg_Sandbox :: SandboxConfig
  cfg_Admin :: AdminConfig
  cfg_Hub :: HubConfig
  cfg_Agent :: AgentConfig
  cfg_Nebula :: NebulaConfig
  cfg_ThreatIntel :: ThreatIntelConfig
  cfg_Honeypot :: HoneypotConfig
  cfg_Tarpit :: TarpitConfig
  cfg_Decisions :: DecisionsConfig
  cfg_Notify :: NotifyConfig
  cfg_runMode :: string

definition zero_GlobalConfig :: GlobalConfig where
  "zero_GlobalConfig = \<lparr> cfg_Listen = zero_ListenConfig, cfg_TLS = zero_TLSConfig, cfg_Upstream = zero_UpstreamConfig, cfg_Trust = zero_TrustConfig, cfg_Blocklists = zero_BlocklistsConfig, cfg_Allowlists = zero_AllowlistsConfig, cfg_QFeeds = zero_QFeedsConfig, cfg_RateLimit = zero_RateLimitConfig, cfg_Protect = zero_ProtectConfig, cfg_Detect = zero_DetectSection, cfg_Coraza = zero_CorazaConfig, cfg_Semantic = zero_SemanticConfig, cfg_ML = zero_MLConfig, cfg_Challenge = zero_ChallengeConfig, cfg_Stealth = zero_StealthConfig, cfg_Privacy = zero_PrivacyConfig, cfg_UI = zero_UIConfig, cfg_Site = zero_SiteConfig, cfg_Logging = zero_LoggingConfig, cfg_Sentry = zero_SentryConfig, cfg_Sandbox = zero_SandboxConfig, cfg_Admin = zero_AdminConfig, cfg_Hub = zero_HubConfig, cfg_Agent = zero_AgentConfig, cfg_Nebula = zero_NebulaConfig, cfg_ThreatIntel = zero_ThreatIntelConfig, cfg_Honeypot = zero_HoneypotConfig, cfg_Tarpit = zero_TarpitConfig, cfg_Decisions = zero_DecisionsConfig, cfg_Notify = zero_NotifyConfig, cfg_runMode = [] \<rparr>"

record Flags =
  fl_ConfigPath :: string
  fl_ListenHTTP :: string
  fl_ListenHTTPS :: string
  fl_ListenQUIC :: string
  fl_Upstream :: string
  fl_Secret :: string
  fl_TestMode :: bool
  fl_TestModeSet :: bool
  fl_PublicURL :: string
  fl_LogLevel :: string
  fl_LogFormat :: string
  fl_LogStats :: bool
  fl_LogStatsSet :: bool
  fl_LogStatsInterval :: string
  fl_AdminListen :: string
  fl_AdminEnabled :: bool
  fl_AdminEnabledSet :: bool
  fl_AdminDataDir :: string

definition zero_Flags :: Flags where
  "zero_Flags = \<lparr> fl_ConfigPath = [], fl_ListenHTTP = [], fl_ListenHTTPS = [], fl_ListenQUIC = [], fl_Upstream = [], fl_Secret = [], fl_TestMode = False, fl_TestModeSet = False, fl_PublicURL = [], fl_LogLevel = [], fl_LogFormat = [], fl_LogStats = False, fl_LogStatsSet = False, fl_LogStatsInterval = [], fl_AdminListen = [], fl_AdminEnabled = False, fl_AdminEnabledSet = False, fl_AdminDataDir = [] \<rparr>"


section \<open>Default\<close>

definition default_Listen :: ListenConfig where
  "default_Listen =
     zero_ListenConfig\<lparr> li_HTTP := '':8080'', li_AllowHTTP1 := True \<rparr>"

definition default_TLS :: TLSConfig where
  "default_TLS =
     zero_TLSConfig\<lparr> tls_Mode := ''off'', tls_ACME := zero_ACMEConfig\<lparr> acme_StorageDir := ''./data/certs'',
       acme_HTTP01 := Some True, acme_TLSALPN01 := Some True, acme_RedirectHTTP := Some True \<rparr>, tls_SelfSigned :=
       zero_SelfSignedConfig\<lparr> ss_StorageDir := ''./data/selfsigned'', ss_Hosts := [''localhost''], ss_Validity := 365 * 24
       * hour \<rparr> \<rparr>"

definition default_Upstream :: UpstreamConfig where
  "default_Upstream =
     zero_UpstreamConfig\<lparr> ups_URL := ''http://127.0.0.1:8000'', ups_ConnectTimeout := 5 * second, ups_ResponseHeader := 30
       * second, ups_IdleConnTimeout := 90 * second, ups_MaxIdleConns := 1024, ups_MaxIdleConnsPerHost := 256, ups_MaxConnsPerHost
       := 256, ups_FlushInterval := - 1, ups_Protocol := ''h2'', ups_AllowHTTP1 := True, ups_Health :=
       zero_UpstreamHealthConfig\<lparr> uh_Path := ''/healthz'', uh_Interval := 10 * second, uh_Timeout := 3 * second \<rparr>
       \<rparr>"

definition default_Trust :: TrustConfig where
  "default_Trust =
     zero_TrustConfig\<lparr> tr_Mode := ''edge'', tr_RealIPHeader := ''X-Real-IP'', tr_ProtoHeader := ''X-Forwarded-Proto''
       \<rparr>"

definition default_Blocklists :: BlocklistsConfig where
  "default_Blocklists =
     zero_BlocklistsConfig\<lparr> bl_ReloadInterval := 30 * second \<rparr>"

definition default_Allowlists :: AllowlistsConfig where
  "default_Allowlists =
     zero_AllowlistsConfig\<lparr> al_ReloadInterval := 30 * second \<rparr>"

definition default_QFeeds :: QFeedsConfig where
  "default_QFeeds =
     zero_QFeedsConfig\<lparr> qf_BaseURL := ''https://api.qfeeds.com'', qf_Feeds := [''malware_ip'', ''malware_domains''],
       qf_Refresh := 1 * hour, qf_OnError := ''fail_open'' \<rparr>"

definition default_RateLimit :: RateLimitConfig where
  "default_RateLimit =
     zero_RateLimitConfig\<lparr> rl_Enabled := True, rl_Requests := 120, rl_Window := minute, rl_Burst := 60, rl_ChallengeOver :=
       True, rl_SubnetV4Prefix := 24, rl_SubnetV6Prefix := 64, rl_SubnetRequests := 1000, rl_SubnetBurst := 200, rl_SubnetWindow
       := minute, rl_GlobalRequests := 5000, rl_GlobalBurst := 1000, rl_GlobalWindow := minute \<rparr>"

definition default_Protect :: ProtectConfig where
  "default_Protect =
     zero_ProtectConfig\<lparr> pt_Enabled := True, pt_MaxBodyBytes := 1048576, pt_MaxHeaderBytes := 16384, pt_MaxURLBytes :=
       8192, pt_MaxConcurrentGlobal := 8192, pt_MaxConcurrentClient := 32, pt_BanAfterStrikes := 5, pt_BanTTL := 10 * minute,
       pt_BanEscalation := 0, pt_AttackBlock := True, pt_AttackScore := 90, pt_WriteMethodCost := 3 \<rparr>"

definition default_Coraza :: CorazaConfig where
  "default_Coraza =
     zero_CorazaConfig\<lparr> cz_Enabled := False, cz_Mode := ''block'', cz_CRS := True, cz_Paranoia := 1, cz_MaxBodyInspect :=
       1048576, cz_SkipPathPrefixes := Some [''/_rg''] \<rparr>"

definition default_Semantic :: SemanticConfig where
  "default_Semantic =
     zero_SemanticConfig\<lparr> sem_Enabled := False, sem_Mode := ''shadow'', sem_MaxBodyInspect := 65536, sem_MaxDecodeDepth :=
       3, sem_MaxDecodeBytes := 262144, sem_MaxCPUNanos := 2000000, sem_Families := Some [''sqli'', ''xss'', ''cmd'', ''path''],
       sem_SkipPathPrefixes := Some [''/_rg''] \<rparr>"

definition default_ML :: MLConfig where
  "default_ML =
     zero_MLConfig\<lparr> ml_Enabled := False, ml_Mode := ''shadow'', ml_ModelPath := ''assets/ml/base.bin'', ml_ChallengeProb :=
       3 / 4, ml_BlockProb := 19 / 20, ml_ConfidenceMin := 17 / 20, ml_FPRGate := 1 / 1000, ml_ShadowSampleRate := 1 / 50,
       ml_MaxPoints := 60 \<rparr>"

definition default_Detect :: DetectSection where
  "default_Detect =
     zero_DetectSection\<lparr> det_Enabled := True, det_ChallengeScore := 40, det_BlockScore := 90, det_MissingUAScore := 25,
       det_ScannerUAScore := 50, det_AIUAScore := 55, det_ProbePathScore := 40, det_OddMethodScore := 30, det_MissingAcceptScore
       := 10, det_MissingAcceptLangScore := 15, det_MissingSecFetchScore := 20, det_SecCHUAMismatchScore := 25,
       det_StarAcceptBrowserScore := 15, det_High404Threshold := 20, det_High404Window := minute, det_High404Action :=
       ''challenge'', det_PenaltyThreshold := 100, det_PenaltyWindow := minute, det_PenaltyAction := ''challenge'',
       det_CacheMissTTL := 5 * second, det_BehaviorWindow := minute, det_BehaviorBurstLimit := 60, det_BehaviorBurstScore := 35,
       det_BehaviorPathFanout := 40, det_BehaviorPathFanoutScore := 30, det_BehaviorStrikeLimit := 3, det_BehaviorStrikeScore :=
       25, det_BehaviorWriteBurstLimit := 20, det_BehaviorWriteBurstScore := 35, det_BehaviorWriteRepeatLimit := 8,
       det_BehaviorWriteRepeatScore := 40, det_EmptyFormContextScore := 30, det_ForumWritePathScore := 25, det_ForgeFlavor :=
       ''auto'', det_ForgeExpensiveScore := 40, det_BehaviorForgeBurstLimit := 24, det_BehaviorForgeBurstScore := 35,
       det_ForgeRateCost := 4, det_MissingAcceptEncScore := 10, det_SecCHUANonChromiumScore := 15, det_HTTP10BrowserScore := 15,
       det_MissingContentTypeScore := 15, det_LongUAScore := 15, det_MissingUIRScore := 10, det_SNIHostMismatchScore := 25,
       det_BehaviorUAVarietyLimit := 4, det_BehaviorUAVarietyScore := 30, det_CrawlerVerify := zero_CrawlerVerify\<lparr>
       cv_Enabled := True, cv_Timeout := 250 * millisecond, cv_SpoofScore := 40 \<rparr>, det_WebBotAuth :=
       zero_WebBotAuthConfig\<lparr> wba_Enabled := True, wba_Timeout := 2 * second, wba_SpoofScore := 40 \<rparr>,
       det_AICrawlerPolicy := ''challenge'', det_AIPay := zero_AIPayConfig\<lparr> pay_Network := ''base'', pay_Asset :=
       ''0x833589fCD6eDb6E08f4c7C32D4f71b54bdA02993'', pay_Amount := ''10000'' \<rparr>, det_ProxySignals :=
       zero_DetectProxySignals\<lparr> ps_BotScoreHeader := ''CF-Bot-Score'', ps_BotScoreHeader2 := ''X-Bot-Score'', ps_JA4Header
       := ''X-JA4'', ps_LowScorePoints := 40 \<rparr> \<rparr>"

definition default_Challenge :: ChallengeConfig where
  "default_Challenge =
     zero_ChallengeConfig\<lparr> chal_Enabled := True, chal_Mode := ''detect'', chal_Difficulty := 16, chal_Algorithm :=
       ''adaptive'', chal_EnvProbe := ''on'', chal_CookieName := ''rg_clear'', chal_CookieTTL := 24 * hour, chal_PathPrefix :=
       ''/_rg'', chal_NoJSFallback := True, chal_NoJSDelay := 3 * second \<rparr>"

definition default_Stealth :: StealthConfig where
  "default_Stealth =
     zero_StealthConfig\<lparr> st_RequestIDHeader := ''X-RavenGuard-Request-ID'', st_ElementName := ''rg-check'',
       st_BootstrapGlobal := ''__g__'', st_AccessCookieName := ''rg_access'', st_ServeManifest := True, st_ServeRootIcons := True,
       st_WidgetInputName := ''rg'' \<rparr>"

definition default_Privacy :: PrivacyConfig where
  "default_Privacy =
     zero_PrivacyConfig\<lparr> pv_LogIP := ''hash'', pv_RequestIDs := True, pv_Retention := 30 * minute, pv_WAFEventsTTL := 14 *
       24 * hour \<rparr>"

definition default_UI :: UIConfig where
  "default_UI =
     zero_UIConfig\<lparr> ui_Brand := ''RavenGuard'', ui_StatusText := ''Checking your browser before accessing this site.''
       \<rparr>"

definition default_Site :: SiteConfig where
  "default_Site =
     zero_SiteConfig\<lparr> site_Description := ''RavenGuard Web Application Firewall'', site_ThemeColor := ''#050505'',
       site_Robots := ''noindex, nofollow'', site_Lang := ''en'', site_RobotsAI := ''signal'', site_ContentSignal := ''search=yes, ai-input=yes, ai-train=no'' \<rparr>"

definition default_Logging :: LoggingConfig where
  "default_Logging =
     zero_LoggingConfig\<lparr> lg_Level := ''info'', lg_Format := ''text'', lg_Stats := True, lg_StatsInterval := 30 * second
       \<rparr>"

definition default_Sentry :: SentryConfig where
  "default_Sentry =
     zero_SentryConfig\<lparr> sy_SampleRate := 1, sy_AttachStacktrace := True, sy_FlushTimeout := 2 * second \<rparr>"

definition default_Sandbox :: SandboxConfig where
  "default_Sandbox =
     zero_SandboxConfig\<lparr> sb_Mode := ''best_effort'', sb_Landlock := zero_SandboxLandlockConfig\<lparr> ll_RestrictNet :=
       Some True, ll_RestrictScoped := Some True, ll_IgnoreMissing := Some True \<rparr>, sb_Seccomp :=
       zero_SandboxSeccompConfig\<lparr> sc_DenyAction := ''errno'' \<rparr> \<rparr>"

definition default_Admin :: AdminConfig where
  "default_Admin =
     zero_AdminConfig\<lparr> adm_Enabled := False, adm_Listen := ''127.0.0.1:9090'', adm_BasePath := ''/'', adm_DataDir :=
       ''./data/admin'', adm_BootstrapUser := ''admin'', adm_SessionTTL := 12 * hour, adm_CookieSecure := ''auto'' \<rparr>"

definition default_Agent :: AgentConfig where
  "default_Agent =
     zero_AgentConfig\<lparr> ag_DataDir := ''./data/proxy'' \<rparr>"

definition default_ThreatIntel :: ThreatIntelConfig where
  "default_ThreatIntel =
     zero_ThreatIntelConfig\<lparr> ti_Enabled := True, ti_AbuseIPDBMinConfidence := 80, ti_AbuseIPDBLimit := 10000,
       ti_IngestInterval := hour, ti_DefaultTTL := 24 * hour \<rparr>"

definition default_Honeypot :: HoneypotConfig where
  "default_Honeypot =
     zero_HoneypotConfig\<lparr> hp_Action := ''ban'', hp_BanTTL := hour \<rparr>"

definition default_Tarpit :: TarpitConfig where
  "default_Tarpit =
     zero_TarpitConfig\<lparr> tp_Interval := 5 * second, tp_BytesPerTick := 64, tp_MaxDuration := 2 * minute \<rparr>"

definition default_Notify :: NotifyConfig where
  "default_Notify =
     zero_NotifyConfig\<lparr> nt_Timeout := 5 * second \<rparr>"

definition Default :: GlobalConfig where
  "Default = zero_GlobalConfig\<lparr>
     cfg_Listen := default_Listen, cfg_TLS := default_TLS, cfg_Upstream := default_Upstream, cfg_Trust := default_Trust,
     cfg_Blocklists := default_Blocklists, cfg_Allowlists := default_Allowlists, cfg_QFeeds := default_QFeeds, cfg_RateLimit :=
     default_RateLimit, cfg_Protect := default_Protect, cfg_Coraza := default_Coraza, cfg_Semantic := default_Semantic, cfg_ML :=
     default_ML, cfg_Detect := default_Detect, cfg_Challenge := default_Challenge, cfg_Stealth := default_Stealth, cfg_Privacy :=
     default_Privacy, cfg_UI := default_UI, cfg_Site := default_Site, cfg_Logging := default_Logging, cfg_Sentry :=
     default_Sentry, cfg_Sandbox := default_Sandbox, cfg_Admin := default_Admin, cfg_Agent := default_Agent, cfg_ThreatIntel :=
     default_ThreatIntel, cfg_Honeypot := default_Honeypot, cfg_Tarpit := default_Tarpit, cfg_Notify := default_Notify \<rparr>"

end
