(* ===== verification/Config.thy ===== *)
theory Config
  imports ConfigData
begin

text \<open>
  \<open>internal/config/config.go\<close>, the operations: overriding settings from the environment and from flags, filling in
  defaults, validation and loading.  Each configuration section has its own definition, composed in the order of the code;
  a section's settings do not read another section's, but for the site description, which reads the brand.
\<close>

section \<open>Environment and flags\<close>

text \<open>What loading takes from outside: the environment, \<open>time.ParseDuration\<close>, \<open>strconv.ParseFloat\<close>, \<open>url.Parse\<close> (scheme
  and host) and the TOML decoder, which overwrites the fields its file names.\<close>

record env =
  ev_Getenv :: "string \<Rightarrow> string"
  ev_ParseDuration :: "string \<Rightarrow> duration option"
  ev_ParseFloat :: "string \<Rightarrow> rat option"
  ev_parseURL :: "string \<Rightarrow> (string \<times> string) option"
  ev_DecodeFile :: "string \<Rightarrow> GlobalConfig \<Rightarrow> GlobalConfig option"

definition envOr :: "env \<Rightarrow> string \<Rightarrow> string \<Rightarrow> string" where
  "envOr e key fallback = (let v = ev_Getenv e key in if v \<noteq> [] then v else fallback)"

definition setStr :: "env \<Rightarrow> string \<Rightarrow> string \<Rightarrow> string" where
  "setStr e key dst = (let v = ev_Getenv e key in if v \<noteq> [] then v else dst)"

definition ParseBool :: "string \<Rightarrow> bool option" where
  "ParseBool s =
     (if s \<in> {''1'', ''t'', ''T'', ''true'', ''TRUE'', ''True''} then Some True
      else if s \<in> {''0'', ''f'', ''F'', ''false'', ''FALSE'', ''False''} then Some False
      else None)"

definition setBool :: "env \<Rightarrow> string \<Rightarrow> bool \<Rightarrow> bool" where
  "setBool e key dst = (case ParseBool (ev_Getenv e key) of Some b \<Rightarrow> b | None \<Rightarrow> dst)"

definition setInt :: "env \<Rightarrow> string \<Rightarrow> int \<Rightarrow> int" where
  "setInt e key dst = (case ParseInt (ev_Getenv e key) of Some n \<Rightarrow> n | None \<Rightarrow> dst)"

definition setFloat :: "env \<Rightarrow> string \<Rightarrow> rat \<Rightarrow> rat" where
  "setFloat e key dst =
     (let v = ev_Getenv e key in
      if v = [] then dst else case ev_ParseFloat e v of Some n \<Rightarrow> n | None \<Rightarrow> dst)"

definition setBoolPtr :: "env \<Rightarrow> string \<Rightarrow> bool option \<Rightarrow> bool option" where
  "setBoolPtr e key dst = (case ParseBool (ev_Getenv e key) of Some b \<Rightarrow> Some b | None \<Rightarrow> dst)"

definition setDur :: "env \<Rightarrow> string \<Rightarrow> duration \<Rightarrow> duration" where
  "setDur e key dst =
     (let v = ev_Getenv e key in
      if v = [] then dst else case ev_ParseDuration e v of Some d \<Rightarrow> d | None \<Rightarrow> dst)"

definition parseStringSlice :: "string \<Rightarrow> string list" where
  "parseStringSlice s = (if s = [] then [] else filter (\<lambda>p. p \<noteq> []) (map TrimSpace (Split (CHR '','') s)))"

definition parseIntSlice :: "string \<Rightarrow> int list" where
  "parseIntSlice s =
     (if s = [] then []
      else List.map_filter (\<lambda>p. let p = TrimSpace p in if p = [] then None else ParseInt p) (Split (CHR '','') s))"

definition setSlice :: "env \<Rightarrow> string \<Rightarrow> string list \<Rightarrow> string list" where
  "setSlice e key dst = (let v = ev_Getenv e key in if v \<noteq> [] then parseStringSlice v else dst)"

definition setInts :: "env \<Rightarrow> string \<Rightarrow> int list \<Rightarrow> int list" where
  "setInts e key dst = (let v = ev_Getenv e key in if v \<noteq> [] then parseIntSlice v else dst)"

text \<open>A second variable that is read only while the setting is still empty.\<close>

definition fallbackStr :: "env \<Rightarrow> string \<Rightarrow> string \<Rightarrow> string" where
  "fallbackStr e key dst = (if dst = [] then setStr e key dst else dst)"

definition env_Listen :: "env \<Rightarrow> ListenConfig \<Rightarrow> ListenConfig" where
  "env_Listen e x =
     x\<lparr> li_HTTP := setStr e ''RG_LISTEN_HTTP'' (li_HTTP x), li_HTTPS := setStr e ''RG_LISTEN_HTTPS'' (li_HTTPS x), li_QUIC :=
       setStr e ''RG_LISTEN_QUIC'' (li_QUIC x), li_AllowHTTP1 := setBool e ''RG_LISTEN_ALLOW_HTTP1'' (li_AllowHTTP1 x) \<rparr>"

definition env_TLS :: "env \<Rightarrow> TLSConfig \<Rightarrow> TLSConfig" where
  "env_TLS e x =
     x\<lparr> tls_CertFile := setStr e ''RG_TLS_CERT_FILE'' (tls_CertFile x), tls_KeyFile := setStr e ''RG_TLS_KEY_FILE'' (tls_KeyFile
       x), tls_Mode := setStr e ''RG_TLS_MODE'' (tls_Mode x), tls_ACME := (tls_ACME x)\<lparr> acme_Email := setStr e ''RG_ACME_EMAIL''
       (acme_Email (tls_ACME x)), acme_StorageDir := setStr e ''RG_ACME_STORAGE_DIR'' (acme_StorageDir (tls_ACME x)), acme_Directory :=
       setStr e ''RG_ACME_DIRECTORY'' (acme_Directory (tls_ACME x)), acme_Staging := setBool e ''RG_ACME_STAGING'' (acme_Staging
       (tls_ACME x)), acme_AgreeTOS := setBool e ''RG_ACME_AGREE_TOS'' (acme_AgreeTOS (tls_ACME x)), acme_Hosts := setSlice e
       ''RG_ACME_HOSTS'' (acme_Hosts (tls_ACME x)) \<rparr>, tls_SelfSigned := (tls_SelfSigned x)\<lparr> ss_StorageDir := setStr e
       ''RG_SELFSIGNED_STORAGE_DIR'' (ss_StorageDir (tls_SelfSigned x)), ss_Hosts := setSlice e ''RG_SELFSIGNED_HOSTS'' (ss_Hosts
       (tls_SelfSigned x)) \<rparr> \<rparr>"

definition env_Upstream :: "env \<Rightarrow> UpstreamConfig \<Rightarrow> UpstreamConfig" where
  "env_Upstream e x =
     x\<lparr> ups_URL := setStr e ''RG_UPSTREAM_URL'' (ups_URL x), ups_Health := (ups_Health x)\<lparr> uh_Enabled := setBool e
       ''RG_UPSTREAM_HEALTH_ENABLED'' (uh_Enabled (ups_Health x)), uh_Path := setStr e ''RG_UPSTREAM_HEALTH_PATH'' (uh_Path (ups_Health
       x)), uh_SuccessCodes := setInts e ''RG_UPSTREAM_HEALTH_SUCCESS_CODES'' (uh_SuccessCodes (ups_Health x)) \<rparr>, ups_Protocol
       := setStr e ''RG_UPSTREAM_PROTOCOL'' (ups_Protocol x), ups_AllowHTTP1 := setBool e ''RG_UPSTREAM_ALLOW_HTTP1'' (ups_AllowHTTP1
       x), ups_TLSCAFile := setStr e ''RG_UPSTREAM_TLS_CA_FILE'' (ups_TLSCAFile x), ups_TLSClientCertFile := setStr e
       ''RG_UPSTREAM_TLS_CLIENT_CERT_FILE'' (ups_TLSClientCertFile x), ups_TLSClientKeyFile := setStr e
       ''RG_UPSTREAM_TLS_CLIENT_KEY_FILE'' (ups_TLSClientKeyFile x), ups_InsecureSkipVerify := setBool e
       ''RG_UPSTREAM_INSECURE_SKIP_VERIFY'' (ups_InsecureSkipVerify x) \<rparr>"

definition env_Trust :: "env \<Rightarrow> TrustConfig \<Rightarrow> TrustConfig" where
  "env_Trust e x =
     x\<lparr> tr_Mode := setStr e ''RG_TRUST_MODE'' (tr_Mode x), tr_RealIPHeader := setStr e ''RG_REAL_IP_HEADER'' (tr_RealIPHeader
       x), tr_ProtoHeader := setStr e ''RG_PROTO_HEADER'' (tr_ProtoHeader x), tr_ProxyProtocol := setBool e ''RG_PROXY_PROTOCOL''
       (tr_ProxyProtocol x), tr_TrustedProxies := setSlice e ''RG_TRUSTED_PROXIES'' (tr_TrustedProxies x) \<rparr>"

definition env_Challenge :: "env \<Rightarrow> ChallengeConfig \<Rightarrow> ChallengeConfig" where
  "env_Challenge e x =
     x\<lparr> chal_CookieName := setStr e ''RG_CHALLENGE_COOKIE_NAME'' (chal_CookieName x), chal_Secret := setStr e
       ''RG_CHALLENGE_SECRET'' (chal_Secret x), chal_Mode := setStr e ''RG_CHALLENGE_MODE'' (chal_Mode x), chal_EnvProbe := setStr e
       ''RG_CHALLENGE_ENV_PROBE'' (chal_EnvProbe x), chal_PathPrefix := setStr e ''RG_CHALLENGE_PATH_PREFIX'' (chal_PathPrefix x),
       chal_SkipPathPrefixes := setSlice e ''RG_CHALLENGE_SKIP_PATH_PREFIXES'' (chal_SkipPathPrefixes x), chal_Algorithm := setStr e
       ''RG_CHALLENGE_ALGORITHM'' (chal_Algorithm x), chal_Difficulty := setInt e ''RG_CHALLENGE_DIFFICULTY'' (chal_Difficulty x),
       chal_Enabled := setBool e ''RG_CHALLENGE_ENABLED'' (chal_Enabled x), chal_Captcha := (chal_Captcha x)\<lparr> cap_Enabled :=
       setBool e ''RG_CAPTCHA_ENABLED'' (cap_Enabled (chal_Captcha x)), cap_Provider := setStr e ''RG_CAPTCHA_PROVIDER'' (cap_Provider
       (chal_Captcha x)), cap_Token := setStr e ''RG_CAPTCHA_TOKEN'' (cap_Token (chal_Captcha x)) \<rparr> \<rparr>"

definition env_Stealth :: "env \<Rightarrow> StealthConfig \<Rightarrow> StealthConfig" where
  "env_Stealth e x =
     x\<lparr> st_RequestIDHeader := setStr e ''RG_STEALTH_REQUEST_ID_HEADER'' (st_RequestIDHeader x), st_ElementName := setStr e
       ''RG_STEALTH_ELEMENT_NAME'' (st_ElementName x), st_BootstrapGlobal := setStr e ''RG_STEALTH_BOOTSTRAP_GLOBAL''
       (st_BootstrapGlobal x), st_AccessCookieName := setStr e ''RG_STEALTH_ACCESS_COOKIE_NAME'' (st_AccessCookieName x),
       st_HideBrandMark := setBool e ''RG_STEALTH_HIDE_BRAND_MARK'' (st_HideBrandMark x), st_GenericCopy := setBool e
       ''RG_STEALTH_GENERIC_COPY'' (st_GenericCopy x) \<rparr>"

definition env_QFeeds :: "env \<Rightarrow> QFeedsConfig \<Rightarrow> QFeedsConfig" where
  "env_QFeeds e x =
     x\<lparr> qf_APIToken := fallbackStr e ''QFEEDS_API_TOKEN'' (setStr e ''RG_QFEEDS_API_TOKEN'' (qf_APIToken x)), qf_Enabled :=
       setBool e ''RG_QFEEDS_ENABLED'' (qf_Enabled x) \<rparr>"

definition env_Privacy :: "env \<Rightarrow> PrivacyConfig \<Rightarrow> PrivacyConfig" where
  "env_Privacy e x =
     x\<lparr> pv_IPHashSecret := setStr e ''RG_PRIVACY_IP_HASH_SECRET'' (pv_IPHashSecret x), pv_LogIP := setStr e
       ''RG_PRIVACY_LOG_IP'' (pv_LogIP x), pv_RequestIDs := setBool e ''RG_PRIVACY_REQUEST_IDS'' (pv_RequestIDs x), pv_PrivacyNoticeURL
       := setStr e ''RG_PRIVACY_NOTICE_URL'' (pv_PrivacyNoticeURL x) \<rparr>"

definition env_UI :: "env \<Rightarrow> UIConfig \<Rightarrow> UIConfig" where
  "env_UI e x =
     x\<lparr> ui_Brand := setStr e ''RG_UI_BRAND'' (ui_Brand x), ui_StatusText := setStr e ''RG_UI_STATUS_TEXT'' (ui_StatusText x),
       ui_Contact := setStr e ''RG_UI_CONTACT'' (ui_Contact x), ui_TestMode := setBool e ''RG_UI_TEST_MODE'' (ui_TestMode x) \<rparr>"

definition env_Site :: "env \<Rightarrow> SiteConfig \<Rightarrow> SiteConfig" where
  "env_Site e x =
     x\<lparr> site_PublicURL := setStr e ''RG_SITE_PUBLIC_URL'' (site_PublicURL x), site_Description := setStr e
       ''RG_SITE_DESCRIPTION'' (site_Description x), site_OGImage := setStr e ''RG_SITE_OG_IMAGE'' (site_OGImage x), site_ThemeColor :=
       setStr e ''RG_SITE_THEME_COLOR'' (site_ThemeColor x), site_Robots := setStr e ''RG_SITE_ROBOTS'' (site_Robots x), site_Lang :=
       setStr e ''RG_SITE_LANG'' (site_Lang x) \<rparr>"

definition env_Logging :: "env \<Rightarrow> LoggingConfig \<Rightarrow> LoggingConfig" where
  "env_Logging e x =
     x\<lparr> lg_Level := setStr e ''RG_LOG_LEVEL'' (lg_Level x), lg_Format := setStr e ''RG_LOG_FORMAT'' (lg_Format x), lg_Stats :=
       setBool e ''RG_LOG_STATS'' (lg_Stats x), lg_StatsInterval := setDur e ''RG_LOG_STATS_INTERVAL'' (lg_StatsInterval x) \<rparr>"

definition env_Sentry :: "env \<Rightarrow> SentryConfig \<Rightarrow> SentryConfig" where
  "env_Sentry e x =
     x\<lparr> sy_Enabled := setBool e ''RG_SENTRY_ENABLED'' (sy_Enabled x), sy_DSN := fallbackStr e ''SENTRY_DSN'' (setStr e
       ''RG_SENTRY_DSN'' (sy_DSN x)), sy_Environment := fallbackStr e ''SENTRY_ENVIRONMENT'' (setStr e ''RG_SENTRY_ENVIRONMENT''
       (sy_Environment x)), sy_Release := fallbackStr e ''SENTRY_RELEASE'' (setStr e ''RG_SENTRY_RELEASE'' (sy_Release x)),
       sy_ServerName := setStr e ''RG_SENTRY_SERVER_NAME'' (sy_ServerName x), sy_SampleRate := setFloat e ''RG_SENTRY_SAMPLE_RATE''
       (sy_SampleRate x), sy_TracesSampleRate := setFloat e ''RG_SENTRY_TRACES_SAMPLE_RATE'' (sy_TracesSampleRate x), sy_Debug :=
       setBool e ''RG_SENTRY_DEBUG'' (sy_Debug x), sy_AttachStacktrace := setBool e ''RG_SENTRY_ATTACH_STACKTRACE''
       (sy_AttachStacktrace x), sy_SendDefaultPII := setBool e ''RG_SENTRY_SEND_DEFAULT_PII'' (sy_SendDefaultPII x), sy_CaptureUpstream
       := setBool e ''RG_SENTRY_CAPTURE_UPSTREAM_ERRORS'' (sy_CaptureUpstream x), sy_FlushTimeout := setDur e
       ''RG_SENTRY_FLUSH_TIMEOUT'' (sy_FlushTimeout x) \<rparr>"

definition env_Sandbox :: "env \<Rightarrow> SandboxConfig \<Rightarrow> SandboxConfig" where
  "env_Sandbox e x =
     x\<lparr> sb_Mode := setStr e ''RG_SANDBOX_MODE'' (sb_Mode x), sb_Landlock := (sb_Landlock x)\<lparr> ll_Mode := setStr e
       ''RG_SANDBOX_LANDLOCK_MODE'' (ll_Mode (sb_Landlock x)), ll_RestrictNet := setBoolPtr e ''RG_SANDBOX_LANDLOCK_RESTRICT_NET''
       (ll_RestrictNet (sb_Landlock x)), ll_RestrictScoped := setBoolPtr e ''RG_SANDBOX_LANDLOCK_RESTRICT_SCOPED'' (ll_RestrictScoped
       (sb_Landlock x)), ll_IgnoreMissing := setBoolPtr e ''RG_SANDBOX_LANDLOCK_IGNORE_MISSING'' (ll_IgnoreMissing (sb_Landlock x))
       \<rparr>, sb_Seccomp := (sb_Seccomp x)\<lparr> sc_Mode := setStr e ''RG_SANDBOX_SECCOMP_MODE'' (sc_Mode (sb_Seccomp x)),
       sc_DenyAction := setStr e ''RG_SANDBOX_SECCOMP_DENY_ACTION'' (sc_DenyAction (sb_Seccomp x)) \<rparr> \<rparr>"

definition env_Admin :: "env \<Rightarrow> AdminConfig \<Rightarrow> AdminConfig" where
  "env_Admin e x =
     x\<lparr> adm_Enabled := setBool e ''RG_ADMIN_ENABLED'' (adm_Enabled x), adm_Listen := setStr e ''RG_ADMIN_LISTEN'' (adm_Listen
       x), adm_HTTPS := setStr e ''RG_ADMIN_HTTPS'' (adm_HTTPS x), adm_BasePath := setStr e ''RG_ADMIN_BASE_PATH'' (adm_BasePath x),
       adm_DataDir := setStr e ''RG_ADMIN_DATA_DIR'' (adm_DataDir x), adm_BootstrapUser := setStr e ''RG_ADMIN_BOOTSTRAP_USER''
       (adm_BootstrapUser x), adm_BootstrapPassword := setStr e ''RG_ADMIN_BOOTSTRAP_PASSWORD'' (adm_BootstrapPassword x),
       adm_CookieSecure := setStr e ''RG_ADMIN_COOKIE_SECURE'' (adm_CookieSecure x), adm_SessionTTL := setDur e
       ''RG_ADMIN_SESSION_TTL'' (adm_SessionTTL x) \<rparr>"

definition env_Hub :: "env \<Rightarrow> HubConfig \<Rightarrow> HubConfig" where
  "env_Hub e x =
     x\<lparr> hub_PublicURL := setStr e ''RG_HUB_PUBLIC_URL'' (hub_PublicURL x) \<rparr>"

definition env_Agent :: "env \<Rightarrow> AgentConfig \<Rightarrow> AgentConfig" where
  "env_Agent e x =
     x\<lparr> ag_HubURL := setStr e ''RG_AGENT_HUB_URL'' (ag_HubURL x), ag_Token := setStr e ''RG_AGENT_TOKEN'' (ag_Token x),
       ag_HubPubKey := setStr e ''RG_AGENT_HUB_PUBKEY'' (ag_HubPubKey x), ag_Name := setStr e ''RG_AGENT_NAME'' (ag_Name x), ag_DataDir
       := setStr e ''RG_AGENT_DATA_DIR'' (ag_DataDir x) \<rparr>"

definition env_Nebula :: "env \<Rightarrow> NebulaConfig \<Rightarrow> NebulaConfig" where
  "env_Nebula e x =
     x\<lparr> neb_CACertFile := setStr e ''RG_NEBULA_CA_CRT'' (neb_CACertFile x), neb_CAKeyFile := setStr e ''RG_NEBULA_CA_KEY''
       (neb_CAKeyFile x), neb_CIDR := setStr e ''RG_NEBULA_CIDR'' (neb_CIDR x) \<rparr>"

definition env_Honeypot :: "env \<Rightarrow> HoneypotConfig \<Rightarrow> HoneypotConfig" where
  "env_Honeypot e x =
     x\<lparr> hp_Enabled := setBool e ''RG_HONEYPOT_ENABLED'' (hp_Enabled x) \<rparr>"

definition env_Decisions :: "env \<Rightarrow> DecisionsConfig \<Rightarrow> DecisionsConfig" where
  "env_Decisions e x =
     x\<lparr> dn_Token := setStr e ''RG_DECISIONS_TOKEN'' (dn_Token x) \<rparr>"

definition env_Notify :: "env \<Rightarrow> NotifyConfig \<Rightarrow> NotifyConfig" where
  "env_Notify e x =
     x\<lparr> nt_WebhookURL := setStr e ''RG_NOTIFY_WEBHOOK_URL'' (nt_WebhookURL x) \<rparr>"

definition applyEnv :: "env \<Rightarrow> GlobalConfig \<Rightarrow> GlobalConfig" where
  "applyEnv e c =
     c\<lparr> cfg_Listen := env_Listen e (cfg_Listen c), cfg_TLS := env_TLS e (cfg_TLS c), cfg_Upstream := env_Upstream e
       (cfg_Upstream c), cfg_Trust := env_Trust e (cfg_Trust c), cfg_Challenge := env_Challenge e (cfg_Challenge c), cfg_Stealth :=
       env_Stealth e (cfg_Stealth c), cfg_QFeeds := env_QFeeds e (cfg_QFeeds c), cfg_Privacy := env_Privacy e (cfg_Privacy c), cfg_UI
       := env_UI e (cfg_UI c), cfg_Site := env_Site e (cfg_Site c), cfg_Logging := env_Logging e (cfg_Logging c), cfg_Sentry :=
       env_Sentry e (cfg_Sentry c), cfg_Sandbox := env_Sandbox e (cfg_Sandbox c), cfg_Admin := env_Admin e (cfg_Admin c), cfg_Hub :=
       env_Hub e (cfg_Hub c), cfg_Agent := env_Agent e (cfg_Agent c), cfg_Nebula := env_Nebula e (cfg_Nebula c), cfg_Honeypot :=
       env_Honeypot e (cfg_Honeypot c), cfg_Decisions := env_Decisions e (cfg_Decisions c), cfg_Notify := env_Notify e (cfg_Notify c)
       \<rparr>"


definition flagStr :: "string \<Rightarrow> string \<Rightarrow> string" where
  "flagStr f dst = (if f \<noteq> [] then f else dst)"

definition applyFlags :: "env \<Rightarrow> GlobalConfig \<Rightarrow> Flags \<Rightarrow> GlobalConfig" where
  "applyFlags e c f =
     c\<lparr> cfg_Listen := (cfg_Listen c)\<lparr> li_HTTP := flagStr (fl_ListenHTTP f) (li_HTTP (cfg_Listen c)),
          li_HTTPS := flagStr (fl_ListenHTTPS f) (li_HTTPS (cfg_Listen c)),
          li_QUIC := flagStr (fl_ListenQUIC f) (li_QUIC (cfg_Listen c)) \<rparr>,
        cfg_Upstream := (cfg_Upstream c)\<lparr> ups_URL := flagStr (fl_Upstream f) (ups_URL (cfg_Upstream c)) \<rparr>,
        cfg_Challenge := (cfg_Challenge c)\<lparr> chal_Secret := flagStr (fl_Secret f) (chal_Secret (cfg_Challenge c)) \<rparr>,
        cfg_Site := (cfg_Site c)\<lparr> site_PublicURL := flagStr (fl_PublicURL f) (site_PublicURL (cfg_Site c)) \<rparr>,
        cfg_Logging := (cfg_Logging c)\<lparr> lg_Level := flagStr (fl_LogLevel f) (lg_Level (cfg_Logging c)),
          lg_Format := flagStr (fl_LogFormat f) (lg_Format (cfg_Logging c)),
          lg_Stats := (if fl_LogStatsSet f then fl_LogStats f else lg_Stats (cfg_Logging c)),
          lg_StatsInterval := (if fl_LogStatsInterval f \<noteq> []
             then case ev_ParseDuration e (fl_LogStatsInterval f) of Some d \<Rightarrow> d | None \<Rightarrow> lg_StatsInterval (cfg_Logging c)
             else lg_StatsInterval (cfg_Logging c)) \<rparr>,
        cfg_UI := (cfg_UI c)\<lparr> ui_TestMode := (if fl_TestModeSet f then fl_TestMode f else ui_TestMode (cfg_UI c)) \<rparr>,
        cfg_Admin := (cfg_Admin c)\<lparr> adm_Listen := flagStr (fl_AdminListen f) (adm_Listen (cfg_Admin c)),
          adm_DataDir := flagStr (fl_AdminDataDir f) (adm_DataDir (cfg_Admin c)),
          adm_Enabled := (if fl_AdminEnabledSet f then fl_AdminEnabled f else adm_Enabled (cfg_Admin c)) \<rparr> \<rparr>"

section \<open>Normalisation\<close>

definition orStr :: "string \<Rightarrow> string \<Rightarrow> string" where
  "orStr x dflt = (if x = [] then dflt else x)"

definition orPos :: "int \<Rightarrow> int \<Rightarrow> int" where
  "orPos x dflt = (if x \<le> 0 then dflt else x)"

definition orPosR :: "rat \<Rightarrow> rat \<Rightarrow> rat" where
  "orPosR x dflt = (if x \<le> 0 then dflt else x)"

definition orSome :: "'a option \<Rightarrow> 'a \<Rightarrow> 'a option" where
  "orSome x dflt = (case x of None \<Rightarrow> Some dflt | Some v \<Rightarrow> Some v)"

definition normalizeBasePath :: "string \<Rightarrow> string" where
  "normalizeBasePath p0 =
     (let p = TrimSpace p0 in
      if p = [] \<or> p = ''/'' then ''/''
      else let p = (if \<not> HasPrefix p ''/'' then ''/'' @ p else p) in TrimSuffix p ''/'')"

definition norm_TLS :: "TLSConfig \<Rightarrow> TLSConfig" where
  "norm_TLS x =
     x\<lparr> tls_Mode := ToLower (TrimSpace
          (if tls_Mode x = [] then (if tls_CertFile x \<noteq> [] \<or> tls_KeyFile x \<noteq> [] then ''files'' else ''off'') else tls_Mode x)),
        tls_ACME := (tls_ACME x)\<lparr> acme_StorageDir := orStr (acme_StorageDir (tls_ACME x)) ''./data/certs'' \<rparr>,
        tls_SelfSigned := (tls_SelfSigned x)\<lparr> ss_StorageDir := orStr (ss_StorageDir (tls_SelfSigned x)) ''./data/selfsigned'',
          ss_Hosts := (if ss_Hosts (tls_SelfSigned x) = [] then [''localhost''] else ss_Hosts (tls_SelfSigned x)),
          ss_Validity := orPos (ss_Validity (tls_SelfSigned x)) (365 * 24 * hour) \<rparr> \<rparr>"

definition norm_Trust :: "TrustConfig \<Rightarrow> TrustConfig" where
  "norm_Trust x =
     x\<lparr> tr_Mode := orStr (tr_Mode x) ''edge'', tr_RealIPHeader := orStr (tr_RealIPHeader x) ''X-Real-IP'',
        tr_ProtoHeader := orStr (tr_ProtoHeader x) ''X-Forwarded-Proto'' \<rparr>"

definition norm_QFeeds :: "QFeedsConfig \<Rightarrow> QFeedsConfig" where
  "norm_QFeeds x = x\<lparr> qf_OnError := orStr (qf_OnError x) ''fail_open'' \<rparr>"

definition norm_Challenge :: "ChallengeConfig \<Rightarrow> ChallengeConfig" where
  "norm_Challenge x =
     x\<lparr> chal_PathPrefix := orStr (chal_PathPrefix x) ''/_rg'', chal_Mode := orStr (chal_Mode x) ''detect'',
        chal_EnvProbe := orStr (chal_EnvProbe x) ''on'', chal_CookieName := orStr (chal_CookieName x) ''rg_clear'' \<rparr>"

definition norm_Stealth :: "StealthConfig \<Rightarrow> StealthConfig" where
  "norm_Stealth x =
     x\<lparr> st_ElementName := orStr (st_ElementName x) ''rg-check'', st_BootstrapGlobal := orStr (st_BootstrapGlobal x) ''__g__'',
        st_AccessCookieName := orStr (st_AccessCookieName x) ''rg_access'', st_WidgetInputName := orStr (st_WidgetInputName x) ''rg'' \<rparr>"

definition norm_Detect :: "DetectSection \<Rightarrow> DetectSection" where
  "norm_Detect x =
     x\<lparr> det_High404Action := orStr (det_High404Action x) ''challenge'', det_PenaltyAction := orStr (det_PenaltyAction x) ''challenge'',
        det_PenaltyThreshold := orPos (det_PenaltyThreshold x) 100, det_PenaltyWindow := orPos (det_PenaltyWindow x) minute,
        det_CacheMissTTL := orPos (det_CacheMissTTL x) (5 * second),
        det_CrawlerVerify := (det_CrawlerVerify x)\<lparr> cv_Timeout := orPos (cv_Timeout (det_CrawlerVerify x)) (250 * millisecond),
          cv_SpoofScore := orPos (cv_SpoofScore (det_CrawlerVerify x)) 40 \<rparr>,
        det_AICrawlerPolicy := orStr (det_AICrawlerPolicy x) ''challenge'',
        det_WebBotAuth := (det_WebBotAuth x)\<lparr> wba_Timeout := orPos (wba_Timeout (det_WebBotAuth x)) (2 * second),
          wba_SpoofScore := orPos (wba_SpoofScore (det_WebBotAuth x)) 40 \<rparr>,
        det_AIPay := (det_AIPay x)\<lparr> pay_Network := orStr (pay_Network (det_AIPay x)) ''base'',
          pay_Asset := orStr (pay_Asset (det_AIPay x)) ''0x833589fCD6eDb6E08f4c7C32D4f71b54bdA02993'',
          pay_Amount := orStr (pay_Amount (det_AIPay x)) ''10000'' \<rparr> \<rparr>"

definition norm_RateLimit :: "RateLimitConfig \<Rightarrow> RateLimitConfig" where
  "norm_RateLimit x =
     x\<lparr> rl_SubnetV4Prefix := orPos (rl_SubnetV4Prefix x) 24, rl_SubnetV6Prefix := orPos (rl_SubnetV6Prefix x) 64,
        rl_SubnetRequests := orPos (rl_SubnetRequests x) 1000, rl_SubnetBurst := orPos (rl_SubnetBurst x) 200,
        rl_SubnetWindow := orPos (rl_SubnetWindow x) minute, rl_GlobalRequests := orPos (rl_GlobalRequests x) 5000,
        rl_GlobalBurst := orPos (rl_GlobalBurst x) 1000, rl_GlobalWindow := orPos (rl_GlobalWindow x) minute \<rparr>"

definition norm_Upstream :: "UpstreamConfig \<Rightarrow> UpstreamConfig" where
  "norm_Upstream x = x\<lparr> ups_Health := (ups_Health x)\<lparr> uh_Path := orStr (uh_Path (ups_Health x)) ''/healthz'' \<rparr> \<rparr>"

definition norm_Privacy :: "PrivacyConfig \<Rightarrow> PrivacyConfig" where
  "norm_Privacy x =
     x\<lparr> pv_LogIP := orStr (pv_LogIP x) ''hash'', pv_Retention := orPos (pv_Retention x) (30 * minute),
        pv_WAFEventsTTL := orPos (pv_WAFEventsTTL x) (14 * 24 * hour) \<rparr>"

definition norm_Coraza :: "CorazaConfig \<Rightarrow> CorazaConfig" where
  "norm_Coraza x =
     x\<lparr> cz_Mode := orStr (cz_Mode x) ''block'', cz_Paranoia := (if cz_Paranoia x < 1 then 1 else cz_Paranoia x),
        cz_MaxBodyInspect := orPos (cz_MaxBodyInspect x) 1048576, cz_SkipPathPrefixes := orSome (cz_SkipPathPrefixes x) [''/_rg''] \<rparr>"

definition norm_Semantic :: "SemanticConfig \<Rightarrow> SemanticConfig" where
  "norm_Semantic x =
     x\<lparr> sem_Mode := orStr (sem_Mode x) ''shadow'', sem_MaxBodyInspect := orPos (sem_MaxBodyInspect x) 65536,
        sem_MaxDecodeDepth := orPos (sem_MaxDecodeDepth x) 3, sem_MaxDecodeBytes := orPos (sem_MaxDecodeBytes x) 262144,
        sem_MaxCPUNanos := orPos (sem_MaxCPUNanos x) 2000000,
        sem_Families := orSome (sem_Families x) [''sqli'', ''xss'', ''cmd'', ''path''],
        sem_SkipPathPrefixes := orSome (sem_SkipPathPrefixes x) [''/_rg''] \<rparr>"

definition norm_ML :: "MLConfig \<Rightarrow> MLConfig" where
  "norm_ML x =
     x\<lparr> ml_Mode := orStr (ml_Mode x) ''shadow'', ml_ModelPath := orStr (ml_ModelPath x) ''assets/ml/base.bin'',
        ml_ChallengeProb := orPosR (ml_ChallengeProb x) (3 / 4), ml_BlockProb := orPosR (ml_BlockProb x) (19 / 20),
        ml_ConfidenceMin := orPosR (ml_ConfidenceMin x) (17 / 20), ml_FPRGate := orPosR (ml_FPRGate x) (1 / 1000),
        ml_ShadowSampleRate := orPosR (ml_ShadowSampleRate x) (1 / 50), ml_MaxPoints := orPos (ml_MaxPoints x) 60 \<rparr>"

text \<open>The description is made from the brand before an empty brand gets its default.\<close>

definition norm_Site :: "string \<Rightarrow> SiteConfig \<Rightarrow> SiteConfig" where
  "norm_Site brand x =
     x\<lparr> site_Robots := orStr (site_Robots x) ''noindex, nofollow'', site_ThemeColor := orStr (site_ThemeColor x) ''#050505'',
        site_RobotsAI := orStr (site_RobotsAI x) ''signal'',
        site_ContentSignal := orStr (site_ContentSignal x) ''search=yes, ai-input=yes, ai-train=no'',
        site_Lang := orStr (site_Lang x) ''en'',
        site_Description := orStr (site_Description x) (brand @ '' Web Application Firewall'') \<rparr>"

definition norm_UI :: "UIConfig \<Rightarrow> UIConfig" where
  "norm_UI x = x\<lparr> ui_Brand := orStr (ui_Brand x) ''RavenGuard'' \<rparr>"

definition norm_Sentry :: "SentryConfig \<Rightarrow> SentryConfig" where
  "norm_Sentry x =
     x\<lparr> sy_FlushTimeout := orPos (sy_FlushTimeout x) (2 * second), sy_Enabled := (sy_Enabled x \<or> sy_DSN x \<noteq> []) \<rparr>"

definition norm_Logging :: "LoggingConfig \<Rightarrow> LoggingConfig" where
  "norm_Logging x = x\<lparr> lg_StatsInterval := orPos (lg_StatsInterval x) (30 * second) \<rparr>"

definition norm_Sandbox :: "SandboxConfig \<Rightarrow> SandboxConfig" where
  "norm_Sandbox x =
     x\<lparr> sb_Mode := orStr (sb_Mode x) ''best_effort'',
        sb_Landlock := (sb_Landlock x)\<lparr> ll_RestrictNet := orSome (ll_RestrictNet (sb_Landlock x)) True,
          ll_RestrictScoped := orSome (ll_RestrictScoped (sb_Landlock x)) True,
          ll_IgnoreMissing := orSome (ll_IgnoreMissing (sb_Landlock x)) True \<rparr>,
        sb_Seccomp := (sb_Seccomp x)\<lparr> sc_DenyAction := orStr (sc_DenyAction (sb_Seccomp x)) ''errno'' \<rparr> \<rparr>"

definition norm_Admin :: "AdminConfig \<Rightarrow> AdminConfig" where
  "norm_Admin x =
     x\<lparr> adm_Listen := orStr (adm_Listen x) ''127.0.0.1:9090'', adm_DataDir := orStr (adm_DataDir x) ''./data/admin'',
        adm_BootstrapUser := orStr (adm_BootstrapUser x) ''admin'', adm_SessionTTL := orPos (adm_SessionTTL x) (12 * hour),
        adm_CookieSecure := orStr (adm_CookieSecure x) ''auto'',
        adm_BasePath := normalizeBasePath (orStr (adm_BasePath x) ''/'') \<rparr>"

definition cfg_normalize :: "GlobalConfig \<Rightarrow> GlobalConfig" where
  "cfg_normalize c =
     c\<lparr> cfg_TLS := norm_TLS (cfg_TLS c), cfg_Trust := norm_Trust (cfg_Trust c), cfg_QFeeds := norm_QFeeds (cfg_QFeeds c),
        cfg_Challenge := norm_Challenge (cfg_Challenge c), cfg_Stealth := norm_Stealth (cfg_Stealth c),
        cfg_Detect := norm_Detect (cfg_Detect c), cfg_RateLimit := norm_RateLimit (cfg_RateLimit c),
        cfg_Upstream := norm_Upstream (cfg_Upstream c), cfg_Privacy := norm_Privacy (cfg_Privacy c),
        cfg_Coraza := norm_Coraza (cfg_Coraza c), cfg_Semantic := norm_Semantic (cfg_Semantic c), cfg_ML := norm_ML (cfg_ML c),
        cfg_Site := norm_Site (ui_Brand (cfg_UI c)) (cfg_Site c), cfg_UI := norm_UI (cfg_UI c),
        cfg_Sentry := norm_Sentry (cfg_Sentry c), cfg_Logging := norm_Logging (cfg_Logging c),
        cfg_Sandbox := norm_Sandbox (cfg_Sandbox c), cfg_Admin := norm_Admin (cfg_Admin c) \<rparr>"

section \<open>Validation\<close>

text \<open>A validation is a list of checks; the first one that fails gives the error.  A check holds the condition under which
  the code returns, and its message (without the quoted values that \<open>%q\<close> and \<open>%w\<close> add).\<close>

fun first_error :: "(bool \<times> string) list \<Rightarrow> string option" where
  "first_error [] = None"
| "first_error ((bad, msg) # cs) = (if bad then Some msg else first_error cs)"

definition weakChallengeSecret :: "string \<Rightarrow> bool" where
  "weakChallengeSecret secret =
     (let s = TrimSpace secret in
      if s = [] then True
      else let low = ToLower s in
           if HasPrefix low ''change-me'' then True else length s < 16)"

definition validateUpstreamURL :: "env \<Rightarrow> string \<Rightarrow> string option" where
  "validateUpstreamURL e raw0 =
     (let raw = TrimSpace raw0 in
      if HasPrefix raw ''unix://'' \<or> HasPrefix raw ''unix:'' then None
      else case ev_parseURL e raw of
        None \<Rightarrow> Some ''upstream.url''
      | Some (scheme, host) \<Rightarrow>
          let s = ToLower scheme in
          if s \<in> {''http'', ''https'', ''ws'', ''wss'', ''h3'', ''http3'', ''quic''} then
            (if host = [] then Some ''upstream.url must include a host'' else None)
          else if s = ''unix'' then None
          else Some ''upstream.url scheme must be http, https, ws, wss, or unix'')"

definition sandbox_mode_bad :: "string \<Rightarrow> bool" where
  "sandbox_mode_bad v \<longleftrightarrow> ToLower (TrimSpace v) \<notin> {[], ''off'', ''try'', ''best_effort'', ''enforce''}"

definition validateSandboxMode :: "string \<Rightarrow> string \<Rightarrow> string option" where
  "validateSandboxMode fname v =
     (if sandbox_mode_bad v then Some (fname @ '' must be off, try, best_effort, or enforce'') else None)"

text \<open>\<open>netip.ParsePrefix\<close> and \<open>netip.ParseAddr\<close>, as far as the overlay asks: whether they give an IPv4 prefix or address.\<close>

definition is_prefix4 :: "string \<Rightarrow> bool" where
  "is_prefix4 s =
     (case LastIndexByte s (CHR ''/'') of
        None \<Rightarrow> False
      | Some i \<Rightarrow>
          (case ParseAddr (take i s) of
             Some (A4 _) \<Rightarrow>
               let b = drop (Suc i) s in
               if length b > 1 \<and> \<not> (is_digit (hd b) \<and> hd b \<noteq> CHR ''0'') then False
               else (case ParseInt b of None \<Rightarrow> False | Some n \<Rightarrow> 0 \<le> n \<and> n \<le> 32)
           | _ \<Rightarrow> False))"

definition is_addr4 :: "string \<Rightarrow> bool" where
  "is_addr4 s = (case ParseAddr s of Some (A4 _) \<Rightarrow> True | _ \<Rightarrow> False)"

definition Nebula_Validate :: "NebulaConfig \<Rightarrow> string option" where
  "Nebula_Validate n =
     (let cidr = TrimSpace (neb_CIDR n) in
      if cidr = [] then None
      else first_error
        [(\<not> is_prefix4 cidr, ''nebula.cidr must be an IPv4 prefix such as 10.42.0.0/16''),
         (neb_CertVersion n \<notin> {0, 1, 2}, ''nebula.cert_version must be 1 or 2''),
         (list_ex (\<lambda>(ip, _). \<not> is_addr4 (TrimSpace ip)) (neb_StaticHostMap n), ''nebula.static_host_map key must be an IPv4 overlay address''),
         (list_ex (\<lambda>ip. \<not> is_addr4 (TrimSpace ip)) (neb_LighthouseIPs n), ''nebula.lighthouse_ips entry must be an IPv4 overlay address'')])"

definition check_err :: "string option \<Rightarrow> bool \<times> string" where
  "check_err eo = (case eo of None \<Rightarrow> (False, []) | Some msg \<Rightarrow> (True, msg))"

definition check_listen :: "env \<Rightarrow> GlobalConfig \<Rightarrow> (bool \<times> string) list" where
  "check_listen e c =
     (let hubOnly = (cfg_runMode c = ''hub''); u = ups_URL (cfg_Upstream c); li = cfg_Listen c in
      if \<not> hubOnly then
        [(u = [], ''upstream.url is required''),
         check_err (validateUpstreamURL e u),
         (li_HTTP li = [] \<and> li_HTTPS li = [] \<and> li_QUIC li = [], ''at least one of listen.http, listen.https, listen.quic is required'')]
      else if u \<noteq> [] then [check_err (validateUpstreamURL e u)]
      else [])"

definition check_tls :: "GlobalConfig \<Rightarrow> (bool \<times> string) list" where
  "check_tls c =
     (let hubOnly = (cfg_runMode c = ''hub''); t = cfg_TLS c; li = cfg_Listen c;
          m = ToLower (TrimSpace (tls_Mode t)); mode = (if m = [] then ''off'' else m);
          needsTLS = (\<not> hubOnly \<and> (li_HTTPS li \<noteq> [] \<or> li_QUIC li \<noteq> []));
          http01 = (case acme_HTTP01 (tls_ACME t) of None \<Rightarrow> True | Some b \<Rightarrow> b)
      in [(mode \<notin> {''off'', ''files'', ''acme'', ''selfsigned''}, ''tls.mode must be off, files, acme, or selfsigned''),
          (mode = ''files'' \<and> needsTLS \<and> (tls_CertFile t = [] \<or> tls_KeyFile t = []),
             ''tls.cert_file and tls.key_file required when tls.mode is files and https or quic is enabled''),
          (mode = ''acme'' \<and> \<not> hubOnly \<and> \<not> acme_AgreeTOS (tls_ACME t), ''tls.acme.agree_tos is required when tls.mode is acme''),
          (mode = ''acme'' \<and> \<not> hubOnly \<and> TrimSpace (acme_Email (tls_ACME t)) = [], ''tls.acme.email is required when tls.mode is acme''),
          (mode = ''acme'' \<and> \<not> hubOnly \<and> TrimSpace (acme_StorageDir (tls_ACME t)) = [], ''tls.acme.storage_dir is required when tls.mode is acme''),
          (mode = ''acme'' \<and> \<not> hubOnly \<and> http01 \<and> li_HTTP li = [], ''listen.http is required when tls.acme.http01 is enabled''),
          (mode = ''selfsigned'' \<and> needsTLS \<and> TrimSpace (ss_StorageDir (tls_SelfSigned t)) = [],
             ''tls.selfsigned.storage_dir is required when tls.mode is selfsigned and https or quic is enabled''),
          (mode = ''off'' \<and> needsTLS, ''tls.mode must be files, acme, or selfsigned when listen.https or listen.quic is set'')])"

definition check_trust :: "GlobalConfig \<Rightarrow> (bool \<times> string) list" where
  "check_trust c =
     (let t = cfg_Trust c in
      [(ToLower (TrimSpace (tr_Mode t)) \<notin> {''edge'', ''behind_proxy''}, ''trust.mode must be edge or behind_proxy''),
       (EqualFold (TrimSpace (tr_Mode t)) ''behind_proxy'' \<and> \<not> list_ex (\<lambda>p. TrimSpace p \<noteq> []) (tr_TrustedProxies t),
          ''trust.trusted_proxies is required when trust.mode is behind_proxy''),
       (ToLower (TrimSpace (pv_LogIP (cfg_Privacy c))) \<notin> {''off'', ''hash''}, ''privacy.log_ip must be off or hash'')])"

definition check_challenge :: "GlobalConfig \<Rightarrow> (bool \<times> string) list" where
  "check_challenge c =
     (let hubOnly = (cfg_runMode c = ''hub''); ch = cfg_Challenge c; on = (\<not> hubOnly \<and> chal_Enabled ch);
          a = ToLower (TrimSpace (chal_Algorithm ch)); algo = (if a = [] then ''adaptive'' else a);
          cap = cap_Enabled (chal_Captcha ch); provider = ToLower (TrimSpace (cap_Provider (chal_Captcha ch)))
      in [(on \<and> weakChallengeSecret (chal_Secret ch), ''challenge.secret must be at least 16 characters and must not use a change-me placeholder''),
          (on \<and> (chal_Difficulty ch < 0 \<or> chal_Difficulty ch > 28), ''challenge.difficulty must be between 0 and 28''),
          (on \<and> chal_CookieName ch = [], ''challenge.cookie_name is required''),
          (on \<and> ToLower (chal_Mode ch) \<notin> {''detect'', ''always'', ''attack''}, ''challenge.mode must be detect, always, or attack''),
          (on \<and> ToLower (TrimSpace (chal_EnvProbe ch)) \<notin> {''on'', ''off'', []}, ''challenge.env_probe must be on or off''),
          (on \<and> algo \<notin> {''adaptive'', ''sha256'', ''sha-256'', ''pbkdf2'', ''pbkdf2-sha256'', ''argon2id''},
             ''challenge.algorithm must be adaptive, sha256, pbkdf2, or argon2id''),
          (\<not> hubOnly \<and> cap \<and> provider = [], ''challenge.captcha.provider is required when captcha is enabled''),
          (\<not> hubOnly \<and> cap \<and> provider \<noteq> ''stub'' \<and> provider \<noteq> ''ravenguard'', ''challenge.captcha.provider is not supported (use stub or ravenguard)'')])"

definition check_engines :: "GlobalConfig \<Rightarrow> (bool \<times> string) list" where
  "check_engines c =
     (let hubOnly = (cfg_runMode c = ''hub''); q = cfg_QFeeds c; z = cfg_Coraza c; sm = cfg_Semantic c; m = cfg_ML c; rl = cfg_RateLimit c;
          qon = (\<not> hubOnly \<and> qf_Enabled q); zon = (\<not> hubOnly \<and> cz_Enabled z); son = (\<not> hubOnly \<and> sem_Enabled sm);
          mon = (\<not> hubOnly \<and> ml_Enabled m); ron = (\<not> hubOnly \<and> rl_Enabled rl)
      in [(qon \<and> qf_APIToken q = [], ''qfeeds.api_token is required when qfeeds is enabled''),
          (qon \<and> qf_OnError q \<notin> {''fail_open'', ''fail_closed''}, ''qfeeds.on_error must be fail_open or fail_closed''),
          (zon \<and> ToLower (TrimSpace (cz_Mode z)) \<notin> {''block'', ''detect''}, ''coraza.mode must be block or detect''),
          (zon \<and> (cz_Paranoia z < 1 \<or> cz_Paranoia z > 4), ''coraza.paranoia must be between 1 and 4''),
          (zon \<and> \<not> cz_CRS z \<and> TrimSpace (cz_RulesDir z) = [] \<and> TrimSpace (cz_RulesFile z) = [] \<and> TrimSpace (cz_Directives z) = [],
             ''coraza requires crs, rules_dir, rules_file, or directives when enabled''),
          (son \<and> ToLower (TrimSpace (sem_Mode sm)) \<notin> {''shadow'', ''challenge'', ''block''}, ''semantic.mode must be shadow, challenge, or block''),
          (mon \<and> ToLower (TrimSpace (ml_Mode m)) \<notin> {''off'', ''shadow'', ''challenge'', ''block''}, ''ml.mode must be off, shadow, challenge, or block''),
          (mon \<and> ml_BlockProb m < ml_ChallengeProb m, ''ml.block_prob must be >= ml.challenge_prob''),
          (ron \<and> rl_Requests rl \<le> 0, ''ratelimit.requests must be > 0''),
          (ron \<and> rl_Window rl \<le> 0, ''ratelimit.window must be > 0'')])"

definition check_detect :: "GlobalConfig \<Rightarrow> (bool \<times> string) list" where
  "check_detect c =
     (let d = cfg_Detect c; on = det_Enabled d; cv = det_CrawlerVerify d in
      [(on \<and> det_BlockScore d < det_ChallengeScore d, ''detect.block_score must be >= detect.challenge_score''),
       (on \<and> ToLower (det_High404Action d) \<notin> {''challenge'', ''block'', ''tarpit'', ''off'', []}, ''detect.high_404_action must be challenge, block, tarpit, or off''),
       (on \<and> ToLower (det_PenaltyAction d) \<notin> {''challenge'', ''block'', ''tarpit'', ''off'', []}, ''detect.penalty_action must be challenge, block, tarpit, or off''),
       (on \<and> ToLower (det_ForgeFlavor d) \<notin> {''auto'', ''gitea'', ''forgejo'', ''cgit'', []}, ''detect.forge_flavor must be auto, gitea, or cgit''),
       (on \<and> ToLower (det_AICrawlerPolicy d) \<notin> {''allow'', ''challenge'', ''block'', ''pay'', []}, ''detect.ai_crawler_policy must be allow, challenge, block, or pay''),
       (on \<and> EqualFold (det_AICrawlerPolicy d) ''pay'' \<and> pay_PayTo (det_AIPay d) = [], ''detect.ai_pay.pay_to is required when ai_crawler_policy is pay''),
       (on \<and> cv_Enabled cv \<and> (cv_Timeout cv < 0 \<or> cv_Timeout cv > 10 * second), ''detect.crawler_verify.timeout must be between 0 and 10s''),
       (on \<and> cv_Enabled cv \<and> cv_SpoofScore cv < 0, ''detect.crawler_verify.spoof_score must be >= 0'')])"

definition check_traps :: "GlobalConfig \<Rightarrow> (bool \<times> string) list" where
  "check_traps c =
     (let h = cfg_Honeypot c; t = cfg_Tarpit c; d = cfg_Decisions c in
      [(hp_Enabled h \<and> ToLower (hp_Action h) \<notin> {''ban'', ''deny'', ''block'', ''challenge'', ''tarpit'', []}, ''honeypot.action must be ban, deny, challenge, or tarpit''),
       (hp_Enabled h \<and> hp_Paths h = [] \<and> hp_Prefixes h = [], ''honeypot.paths or honeypot.prefixes required when honeypot is enabled''),
       (hp_Enabled h \<and> hp_BanTTL h \<le> 0, ''honeypot.ban_ttl must be > 0''),
       (tp_Interval t < 0 \<or> tp_BytesPerTick t < 0 \<or> tp_MaxDuration t < 0, ''tarpit intervals, bytes_per_tick, and max_duration must be >= 0''),
       (tp_MaxDuration t > 10 * minute, ''tarpit.max_duration must be <= 10m''),
       (dn_Enabled d \<and> TrimSpace (dn_Token d) = [], ''decisions.token is required when decisions is enabled'')])"

definition check_rate_layers :: "GlobalConfig \<Rightarrow> (bool \<times> string) list" where
  "check_rate_layers c =
     (let r = cfg_RateLimit c; on = rl_Enabled r in
      [(on \<and> (rl_SubnetRequests r < 0 \<or> rl_SubnetBurst r < 0), ''ratelimit.subnet_requests and subnet_burst must be >= 0''),
       (on \<and> rl_SubnetRequests r > 0 \<and> rl_SubnetWindow r \<le> 0, ''ratelimit.subnet_window must be > 0 when subnet_requests is set''),
       (on \<and> (rl_GlobalRequests r < 0 \<or> rl_GlobalBurst r < 0), ''ratelimit.global_requests and global_burst must be >= 0''),
       (on \<and> rl_GlobalRequests r > 0 \<and> rl_GlobalWindow r \<le> 0, ''ratelimit.global_window must be > 0 when global_requests is set''),
       (on \<and> (rl_SubnetV4Prefix r < 0 \<or> rl_SubnetV4Prefix r > 32), ''ratelimit.subnet_v4_prefix must be between 0 and 32''),
       (on \<and> (rl_SubnetV6Prefix r < 0 \<or> rl_SubnetV6Prefix r > 128), ''ratelimit.subnet_v6_prefix must be between 0 and 128'')])"

definition check_runtime :: "GlobalConfig \<Rightarrow> (bool \<times> string) list" where
  "check_runtime c =
     (let g = cfg_Logging c; s = cfg_Sentry c; b = cfg_Sandbox c in
      [(ToLower (lg_Level g) \<notin> {[], ''debug'', ''info'', ''warn'', ''warning'', ''error''}, ''logging.level must be debug, info, warn, or error''),
       (ToLower (lg_Format g) \<notin> {[], ''text'', ''json''}, ''logging.format must be text or json''),
       (lg_Stats g \<and> lg_StatsInterval g < second, ''logging.stats_interval must be at least 1s when stats is enabled''),
       (sy_Enabled s \<and> TrimSpace (sy_DSN s) = [], ''sentry.dsn is required when sentry is enabled''),
       (sy_Enabled s \<and> (sy_SampleRate s < 0 \<or> sy_SampleRate s > 1), ''sentry.sample_rate must be between 0 and 1''),
       (sy_Enabled s \<and> (sy_TracesSampleRate s < 0 \<or> sy_TracesSampleRate s > 1), ''sentry.traces_sample_rate must be between 0 and 1''),
       check_err (validateSandboxMode ''sandbox.mode'' (sb_Mode b)),
       check_err (validateSandboxMode ''sandbox.landlock.mode'' (ll_Mode (sb_Landlock b))),
       check_err (validateSandboxMode ''sandbox.seccomp.mode'' (sc_Mode (sb_Seccomp b))),
       (ToLower (TrimSpace (sc_DenyAction (sb_Seccomp b))) \<notin> {[], ''errno'', ''kill'', ''kill_thread'', ''kill_process'', ''trap'', ''log''},
          ''sandbox.seccomp.deny_action must be errno, kill_thread, kill_process, trap, or log'')])"

definition check_admin :: "GlobalConfig \<Rightarrow> (bool \<times> string) list" where
  "check_admin c =
     (let hubOnly = (cfg_runMode c = ''hub''); a = cfg_Admin c; on = (adm_Enabled a \<or> hubOnly); nolisten = (adm_Listen a = [] \<and> adm_HTTPS a = []);
          cert = (if adm_CertFile a = [] then tls_CertFile (cfg_TLS c) else adm_CertFile a);
          key = (if adm_KeyFile a = [] then tls_KeyFile (cfg_TLS c) else adm_KeyFile a)
      in [(hubOnly \<and> nolisten, ''admin.listen or admin.https is required in hub mode''),
          (hubOnly \<and> TrimSpace (adm_DataDir a) = [], ''admin.data_dir is required in hub mode''),
          (on \<and> nolisten, ''admin.listen or admin.https is required when admin is enabled''),
          (on \<and> adm_HTTPS a \<noteq> [] \<and> (cert = [] \<or> key = []), ''admin TLS cert/key or tls.cert_file/tls.key_file required when admin.https is set''),
          (on \<and> TrimSpace (adm_DataDir a) = [], ''admin.data_dir is required when admin is enabled''),
          (on \<and> ToLower (TrimSpace (adm_CookieSecure a)) \<notin> {''auto'', ''true'', ''false'', ''1'', ''0'', ''yes'', ''no''},
             ''admin.cookie_secure must be auto, true, or false'')])"

definition check_agent :: "GlobalConfig \<Rightarrow> (bool \<times> string) list" where
  "check_agent c =
     (let on = (cfg_runMode c = ''proxy''); a = cfg_Agent c in
      [(on \<and> TrimSpace (ag_HubURL a) = [], ''agent.hub_url is required in proxy mode''),
       (on \<and> TrimSpace (ag_Token a) = [], ''agent.token is required in proxy mode''),
       (on \<and> TrimSpace (ag_HubPubKey a) = [], ''agent.hub_pubkey is required in proxy mode''),
       (on \<and> TrimSpace (ag_DataDir a) = [], ''agent.data_dir is required in proxy mode'')])"

definition config_checks :: "env \<Rightarrow> GlobalConfig \<Rightarrow> (bool \<times> string) list" where
  "config_checks e c =
     check_listen e c @ check_tls c @ check_trust c @ check_challenge c @ check_engines c @ check_detect c @ check_traps c @
     check_rate_layers c @ check_runtime c @ check_admin c @ check_agent c @ [check_err (Nebula_Validate (cfg_Nebula c))]"

definition Config_Validate :: "env \<Rightarrow> GlobalConfig \<Rightarrow> string option" where
  "Config_Validate e c = first_error (config_checks e c)"

section \<open>Loading\<close>

definition SetRunMode :: "GlobalConfig \<Rightarrow> string \<Rightarrow> GlobalConfig" where
  "SetRunMode c mode = c\<lparr> cfg_runMode := ToLower (TrimSpace mode) \<rparr>"

definition ResolveRunMode :: "env \<Rightarrow> string list \<Rightarrow> (string \<times> string list) option" where
  "ResolveRunMode e args =
     (let v = ToLower (TrimSpace (ev_Getenv e ''RG_MODE'')); mode = (if v \<noteq> [] then v else ''all'');
          (mode, rest) = (case args of
             a # as \<Rightarrow> if a \<in> {''hub'', ''proxy'', ''all''} then (a, as) else (mode, args)
           | [] \<Rightarrow> (mode, args))
      in if mode \<in> {''hub'', ''proxy'', ''all''} then Some (mode, rest) else None)"

definition Config_Load :: "env \<Rightarrow> string \<Rightarrow> string + GlobalConfig" where
  "Config_Load e path =
     (case (if path \<noteq> [] then ev_DecodeFile e path Default else Some Default) of
        None \<Rightarrow> Inl ''load config''
      | Some cfg \<Rightarrow>
          let cfg = cfg_normalize (applyEnv e cfg)
          in case Config_Validate e cfg of Some err \<Rightarrow> Inl err | None \<Rightarrow> Inr cfg)"

text \<open>The configuration that is normalised: the file's, overridden by the environment, then by the flags; a hub has the admin
  plane on.\<close>

definition override :: "env \<Rightarrow> Flags \<Rightarrow> string \<Rightarrow> GlobalConfig \<Rightarrow> GlobalConfig" where
  "override e f mode cfg =
     (let cfg = SetRunMode (applyFlags e (applyEnv e cfg) f) mode
      in if mode = ''hub'' then cfg\<lparr> cfg_Admin := (cfg_Admin cfg)\<lparr> adm_Enabled := True \<rparr> \<rparr> else cfg)"

definition LoadWithFlagsMode :: "env \<Rightarrow> Flags \<Rightarrow> string \<Rightarrow> string + GlobalConfig" where
  "LoadWithFlagsMode e f mode =
     (let path = (if fl_ConfigPath f = [] then envOr e ''RG_CONFIG'' ''configs/ravenguard.toml'' else fl_ConfigPath f) in
      case (if path \<noteq> [] then ev_DecodeFile e path Default else Some Default) of
        None \<Rightarrow> Inl ''load config''
      | Some cfg \<Rightarrow>
          let cfg = cfg_normalize (override e f mode cfg)
          in case Config_Validate e cfg of Some err \<Rightarrow> Inl err | None \<Rightarrow> Inr cfg)"

definition LoadWithFlags :: "env \<Rightarrow> Flags \<Rightarrow> string + GlobalConfig" where
  "LoadWithFlags e f = LoadWithFlagsMode e f ''all''"

section \<open>Lemmas\<close>

lemma first_error_None: "first_error cs = None \<longleftrightarrow> (\<forall>(bad, msg) \<in> set cs. \<not> bad)"
  by (induction cs rule: first_error.induct) auto

lemma first_error_None_append: "first_error (xs @ ys) = None \<longleftrightarrow> first_error xs = None \<and> first_error ys = None"
  by (auto simp: first_error_None)

lemma first_error_nth: "first_error cs = None \<Longrightarrow> i < length cs \<Longrightarrow> \<not> fst (cs ! i)"
  by (induction cs arbitrary: i rule: first_error.induct) (auto simp: nth_Cons split: if_splits nat.splits)

lemma Validate_None:
  assumes "Config_Validate e c = None"
  shows "first_error (check_listen e c) = None" "first_error (check_tls c) = None" "first_error (check_trust c) = None"
    "first_error (check_challenge c) = None" "first_error (check_engines c) = None" "first_error (check_detect c) = None"
    "first_error (check_rate_layers c) = None"
  using assms by (simp_all add: Config_Validate_def config_checks_def first_error_None_append)

lemma Load_Inr:
  assumes "LoadWithFlagsMode e f mode = Inr c"
  obtains c0 where "c = cfg_normalize c0" "Config_Validate e c = None"
  using assms by (auto simp: LoadWithFlagsMode_def Let_def split: option.splits if_splits)

lemma override_sections:
  "cfg_Challenge (override e f mode c) = (env_Challenge e (cfg_Challenge c))\<lparr> chal_Secret := flagStr (fl_Secret f) (chal_Secret (env_Challenge e (cfg_Challenge c))) \<rparr>"
  "cfg_Upstream (override e f mode c) = (env_Upstream e (cfg_Upstream c))\<lparr> ups_URL := flagStr (fl_Upstream f) (ups_URL (env_Upstream e (cfg_Upstream c))) \<rparr>"
  "li_HTTP (cfg_Listen (override e f mode c)) = flagStr (fl_ListenHTTP f) (li_HTTP (env_Listen e (cfg_Listen c)))"
  "cfg_Protect (override e f mode c) = cfg_Protect c"
  "cfg_Honeypot (override e f mode c) = env_Honeypot e (cfg_Honeypot c)"
  by (simp_all add: override_def Let_def SetRunMode_def applyFlags_def applyEnv_def)

lemma normalize_sections:
  "cfg_Challenge (cfg_normalize c) = norm_Challenge (cfg_Challenge c)" "cfg_Upstream (cfg_normalize c) = norm_Upstream (cfg_Upstream c)"
  "cfg_Listen (cfg_normalize c) = cfg_Listen c" "cfg_Protect (cfg_normalize c) = cfg_Protect c" "cfg_Honeypot (cfg_normalize c) = cfg_Honeypot c"
  by (simp_all add: cfg_normalize_def)

lemma env_settings:
  "chal_Secret (env_Challenge e x) = setStr e ''RG_CHALLENGE_SECRET'' (chal_Secret x)"
  "ups_URL (env_Upstream e y) = setStr e ''RG_UPSTREAM_URL'' (ups_URL y)"
  "li_HTTP (env_Listen e z) = setStr e ''RG_LISTEN_HTTP'' (li_HTTP z)"
  by (simp_all add: env_Challenge_def env_Upstream_def env_Listen_def)

lemma is_space_lower: "is_space (lower_char c) = is_space c"
  by (simp add: is_space_def lower_char_def is_upper_def split: if_splits)

lemma TrimFunc_ToLower: "TrimFunc is_space (ToLower s) = ToLower (TrimFunc is_space s)"
  by (simp add: TrimFunc_def ToLower_def rev_map dropWhile_map comp_def is_space_lower)

lemma TrimFunc_ends:
  assumes "TrimFunc P s \<noteq> []"
  shows "\<not> P (hd (TrimFunc P s))" "\<not> P (last (TrimFunc P s))"
proof -
  let ?m = "dropWhile P s"
  have m: "?m = TrimFunc P s @ rev (takeWhile P (rev ?m))"
    unfolding TrimFunc_def by (metis rev_append rev_rev_ident takeWhile_dropWhile_id)
  then have "hd (TrimFunc P s) = hd ?m"
    using assms by (metis hd_append2)
  then show "\<not> P (hd (TrimFunc P s))"
    using assms m by (metis append_is_Nil_conv hd_dropWhile)
  show "\<not> P (last (TrimFunc P s))"
    using assms unfolding TrimFunc_def by (metis hd_dropWhile last_rev rev.simps(1))
qed

lemma TrimFunc_idem: "TrimFunc P (TrimFunc P s) = TrimFunc P s"
  using TrimFunc_ends [of P s] by (intro TrimFunc_id) blast

lemma ToLower_TrimSpace_idem: "ToLower (TrimSpace (ToLower (TrimSpace s))) = ToLower (TrimSpace s)"
  by (simp add: TrimSpace_def TrimFunc_ToLower TrimFunc_idem)

lemma or_idem [simp]: "orStr (orStr x d) d = orStr x d" "orPos (orPos i n) n = orPos i n" "orPosR (orPosR r q) q = orPosR r q"
  "orSome (orSome y v) v = orSome y v"
  by (auto simp: orStr_def orPos_def orPosR_def orSome_def split: option.splits)

text \<open>Every section settles after one pass, but for the admin base path.\<close>

lemma norm_settles:
  "norm_Trust (norm_Trust x2) = norm_Trust x2"
  "norm_QFeeds (norm_QFeeds x3) = norm_QFeeds x3"
  "norm_Challenge (norm_Challenge x4) = norm_Challenge x4"
  "norm_Stealth (norm_Stealth x5) = norm_Stealth x5"
  "norm_RateLimit (norm_RateLimit x7) = norm_RateLimit x7"
  "norm_Upstream (norm_Upstream x8) = norm_Upstream x8"
  "norm_Privacy (norm_Privacy x9) = norm_Privacy x9"
  "norm_Coraza (norm_Coraza y1) = norm_Coraza y1"
  "norm_Semantic (norm_Semantic y2) = norm_Semantic y2"
  "norm_ML (norm_ML y3) = norm_ML y3"
  "norm_UI (norm_UI y5) = norm_UI y5"
  "norm_Sentry (norm_Sentry y6) = norm_Sentry y6"
  "norm_Logging (norm_Logging y7) = norm_Logging y7"
  "norm_Sandbox (norm_Sandbox y8) = norm_Sandbox y8"
  by (simp_all add: norm_Trust_def norm_QFeeds_def norm_Challenge_def norm_Stealth_def norm_RateLimit_def norm_Upstream_def
      norm_Privacy_def norm_Coraza_def norm_Semantic_def norm_ML_def norm_UI_def norm_Sentry_def norm_Logging_def norm_Sandbox_def)

text \<open>A TLS mode of blanks only is normalised to the empty mode, which the next pass would replace.\<close>

lemma norm_TLS_settles:
  assumes "tls_Mode x = [] \<or> TrimSpace (tls_Mode x) \<noteq> []"
  shows "norm_TLS (norm_TLS x) = norm_TLS x"
proof -
  have "TrimSpace ''files'' = ''files''" "TrimSpace ''off'' = ''off''"
    by (simp_all add: TrimSpace_def TrimFunc_def is_space_def)
  then have "tls_Mode (norm_TLS x) \<noteq> []"
    using assms by (auto simp: norm_TLS_def)
  then show ?thesis
    by (simp add: norm_TLS_def ToLower_TrimSpace_idem)
qed

lemma norm_Detect_settles: "norm_Detect (norm_Detect x) = norm_Detect x"
  by (simp add: norm_Detect_def)

lemma orStr_eq_Nil: "orStr x d = [] \<longleftrightarrow> x = [] \<and> d = []"
  by (simp add: orStr_def)

lemma norm_Site_settles: "norm_Site b' (norm_Site b x) = norm_Site b x"
  by (simp add: norm_Site_def) (simp add: orStr_def)

lemma normalizeBasePath_slash: "HasPrefix (normalizeBasePath p) ''/''"
proof (cases "TrimSpace p = [] \<or> TrimSpace p = ''/''")
  case False
  let ?q = "if \<not> HasPrefix (TrimSpace p) ''/'' then ''/'' @ TrimSpace p else TrimSpace p"
  obtain x xs where x: "TrimSpace p = x # xs"
    using False by (cases "TrimSpace p") auto
  obtain c r where q: "?q = CHR ''/'' # c # r"
  proof (cases "x = CHR ''/''")
    case True
    then obtain y ys where "xs = y # ys"
      using False x by (cases xs) auto
    then show ?thesis
      using that x True by (simp add: HasPrefix_def)
  next
    case False
    then show ?thesis
      using that x by (simp add: HasPrefix_def)
  qed
  then have "normalizeBasePath p = TrimSuffix (CHR ''/'' # c # r) ''/''"
    using False by (simp add: normalizeBasePath_def Let_def)
  then show ?thesis
    by (simp add: TrimSuffix_def HasPrefix_def)
qed (auto simp: normalizeBasePath_def HasPrefix_def)

lemma normalizeBasePath_nonempty: "normalizeBasePath p \<noteq> []"
  using normalizeBasePath_slash [of p] by (auto simp: HasPrefix_def)

lemma norm_Admin_settles:
  "norm_Admin (norm_Admin x) = (norm_Admin x)\<lparr> adm_BasePath := normalizeBasePath (adm_BasePath (norm_Admin x)) \<rparr>"
  using normalizeBasePath_nonempty by (simp add: norm_Admin_def orStr_def)

lemma weak_secret_long:
  "\<not> weakChallengeSecret s \<Longrightarrow> 16 \<le> length (TrimSpace s) \<and> \<not> HasPrefix (ToLower (TrimSpace s)) ''change-me''"
  by (auto simp: weakChallengeSecret_def Let_def split: if_splits)

definition layer_ok :: "int \<Rightarrow> int \<Rightarrow> duration \<Rightarrow> bool" where
  "layer_ok requests burst window \<longleftrightarrow> 0 < requests \<and> 0 < burst \<and> 0 < window"

lemma layers_normal:
  "layer_ok (rl_SubnetRequests (cfg_RateLimit (cfg_normalize c))) (rl_SubnetBurst (cfg_RateLimit (cfg_normalize c))) (rl_SubnetWindow (cfg_RateLimit (cfg_normalize c)))"
  "layer_ok (rl_GlobalRequests (cfg_RateLimit (cfg_normalize c))) (rl_GlobalBurst (cfg_RateLimit (cfg_normalize c))) (rl_GlobalWindow (cfg_RateLimit (cfg_normalize c)))"
  "1 \<le> rl_SubnetV4Prefix (cfg_RateLimit (cfg_normalize c))" "1 \<le> rl_SubnetV6Prefix (cfg_RateLimit (cfg_normalize c))"
  by (auto simp: layer_ok_def cfg_normalize_def norm_RateLimit_def orPos_def minute_def)

lemma penalty_normal:
  "0 < det_PenaltyThreshold (cfg_Detect (cfg_normalize c))" "0 < det_PenaltyWindow (cfg_Detect (cfg_normalize c))"
  by (auto simp: cfg_normalize_def norm_Detect_def orPos_def minute_def)

section \<open>Properties\<close>

definition serving :: "GlobalConfig \<Rightarrow> bool" where
  "serving c \<longleftrightarrow> cfg_runMode c \<noteq> ''hub''"

text \<open>C29: a configuration that loads for a proxy is fit for the components it starts, whatever the file, the environment and
  the flags hold: there is an upstream and a listener, no TLS listener without TLS, a challenge has a secret of at least
  16 bytes that is no placeholder and a difficulty in range, rate limits (also of the subnet and the global layer) are
  positive and the subnet prefixes are valid, blocking needs no smaller score than challenging, and trusting a proxy needs
  one to be named.  The limits of the subnet and the global layer are positive because normalisation replaces zero by the
  default: the sample configurations say that zero disables a layer, and it does not.\<close>

theorem loaded_config_sound:
  assumes load: "LoadWithFlagsMode e f mode = Inr c" and serve: "serving c"
  shows "ups_URL (cfg_Upstream c) \<noteq> [] \<and> (li_HTTP (cfg_Listen c) \<noteq> [] \<or> li_HTTPS (cfg_Listen c) \<noteq> [] \<or> li_QUIC (cfg_Listen c) \<noteq> [])
    \<and> (li_HTTPS (cfg_Listen c) \<noteq> [] \<or> li_QUIC (cfg_Listen c) \<noteq> [] \<longrightarrow> ToLower (TrimSpace (tls_Mode (cfg_TLS c))) \<in> {''files'', ''acme'', ''selfsigned''})
    \<and> (chal_Enabled (cfg_Challenge c) \<longrightarrow> 16 \<le> length (TrimSpace (chal_Secret (cfg_Challenge c))) \<and> \<not> HasPrefix (ToLower (TrimSpace (chal_Secret (cfg_Challenge c)))) ''change-me''
          \<and> 0 \<le> chal_Difficulty (cfg_Challenge c) \<and> chal_Difficulty (cfg_Challenge c) \<le> 28 \<and> chal_CookieName (cfg_Challenge c) \<noteq> [])
    \<and> (rl_Enabled (cfg_RateLimit c) \<longrightarrow> 0 < rl_Requests (cfg_RateLimit c) \<and> 0 < rl_Window (cfg_RateLimit c)
          \<and> layer_ok (rl_SubnetRequests (cfg_RateLimit c)) (rl_SubnetBurst (cfg_RateLimit c)) (rl_SubnetWindow (cfg_RateLimit c))
          \<and> layer_ok (rl_GlobalRequests (cfg_RateLimit c)) (rl_GlobalBurst (cfg_RateLimit c)) (rl_GlobalWindow (cfg_RateLimit c))
          \<and> rl_SubnetV4Prefix (cfg_RateLimit c) \<in> {1..32} \<and> rl_SubnetV6Prefix (cfg_RateLimit c) \<in> {1..128})
    \<and> (det_Enabled (cfg_Detect c) \<longrightarrow> det_ChallengeScore (cfg_Detect c) \<le> det_BlockScore (cfg_Detect c)
          \<and> 0 < det_PenaltyThreshold (cfg_Detect c) \<and> 0 < det_PenaltyWindow (cfg_Detect c))
    \<and> (EqualFold (TrimSpace (tr_Mode (cfg_Trust c))) ''behind_proxy'' \<longrightarrow> list_ex (\<lambda>p. TrimSpace p \<noteq> []) (tr_TrustedProxies (cfg_Trust c)))"
    (is "?L \<and> ?I \<and> ?T \<and> ?C \<and> ?R \<and> ?D \<and> ?P")
proof -
  obtain c0 where c: "c = cfg_normalize c0" and "Config_Validate e c = None"
    using Load_Inr [OF load] .
  note ok = Validate_None [OF this(2)]
  have hub: "cfg_runMode c \<noteq> ''hub''"
    using serve by (simp add: serving_def)
  have "?L \<and> ?I"
    using ok(1) hub by (auto simp: check_listen_def check_err_def Let_def split: if_splits option.splits)
  moreover have ?T
    using first_error_nth [OF ok(2), of 0] first_error_nth [OF ok(2), of 7] hub
    by (cases "TrimSpace (tls_Mode (cfg_TLS c)) = []") (auto simp: check_tls_def Let_def)
  moreover have ?C
    using first_error_nth [OF ok(4), of 0] first_error_nth [OF ok(4), of 1] first_error_nth [OF ok(4), of 2] hub weak_secret_long
    by (auto simp: check_challenge_def Let_def)
  moreover have ?R
    using first_error_nth [OF ok(5), of 8] first_error_nth [OF ok(5), of 9] first_error_nth [OF ok(7), of 4] first_error_nth [OF ok(7), of 5]
      hub layers_normal [of c0]
    by (auto simp: c [symmetric] check_engines_def check_rate_layers_def Let_def)
  moreover have ?D
    using first_error_nth [OF ok(6), of 0] penalty_normal [of c0] by (auto simp: c [symmetric] check_detect_def Let_def)
  moreover have ?P
    using first_error_nth [OF ok(3), of 1] by (auto simp: check_trust_def Let_def)
  ultimately show ?thesis
    by blast
qed

definition demo_env :: env where
  "demo_env = \<lparr> ev_Getenv = (\<lambda>k. if k = ''RG_CHALLENGE_SECRET'' then ''0123456789abcdef'' else []), ev_ParseDuration = (\<lambda>_. None),
     ev_ParseFloat = (\<lambda>_. None), ev_parseURL = (\<lambda>s. Some (''http'', s)), ev_DecodeFile = (\<lambda>_ c. Some c) \<rparr>"

text \<open>The defaults with a secret in the environment.\<close>

definition demo_config :: GlobalConfig where
  "demo_config = SetRunMode (Default\<lparr> cfg_Challenge := default_Challenge\<lparr> chal_Secret := ''0123456789abcdef'' \<rparr> \<rparr>) ''all''"

lemma demo_steps:
  "override demo_env zero_Flags ''all'' Default = demo_config" "cfg_normalize demo_config = demo_config" "Config_Validate demo_env demo_config = None"
  by code_simp+

lemma demo_reads: "ev_DecodeFile demo_env p c = Some c" "envOr demo_env ''RG_CONFIG'' d = d"
  by (simp_all add: demo_env_def envOr_def)

lemma demo_loads: "LoadWithFlagsMode demo_env zero_Flags ''all'' = Inr demo_config"
  by (simp add: LoadWithFlagsMode_def Let_def demo_steps demo_reads)

theorem loaded_config_sound_witness:
  "serving demo_config \<and> 16 \<le> length (TrimSpace (chal_Secret (cfg_Challenge demo_config))) \<and> det_ChallengeScore (cfg_Detect demo_config) \<le> det_BlockScore (cfg_Detect demo_config)"
proof -
  have "TrimSpace ''all'' = ''all''"
    by (simp add: TrimSpace_def TrimFunc_def is_space_def)
  then have "serving demo_config" "chal_Enabled (cfg_Challenge demo_config)" "det_Enabled (cfg_Detect demo_config)"
    by (simp_all add: serving_def demo_config_def SetRunMode_def Default_def default_Challenge_def default_Detect_def ToLower_def lower_char_def is_upper_def)
  then show ?thesis
    using loaded_config_sound [OF demo_loads] by blast
qed

text \<open>Filling in defaults settles: normalising a normalised configuration changes nothing but the admin base path, from which
  every pass takes one more trailing slash.  The site description, however, is built from the brand as it was configured: an
  empty brand gives the description \<open>" Web Application Firewall"\<close> although the brand becomes \<open>"RavenGuard"\<close>.\<close>

theorem normalize_settles:
  assumes "tls_Mode (cfg_TLS c) = [] \<or> TrimSpace (tls_Mode (cfg_TLS c)) \<noteq> []"
  shows "cfg_normalize (cfg_normalize c) =
           (cfg_normalize c)\<lparr> cfg_Admin := (cfg_Admin (cfg_normalize c))
              \<lparr> adm_BasePath := normalizeBasePath (adm_BasePath (cfg_Admin (cfg_normalize c))) \<rparr> \<rparr>
       \<and> HasPrefix (adm_BasePath (cfg_Admin (cfg_normalize c))) ''/''
       \<and> (ui_Brand (cfg_UI c) = [] \<and> site_Description (cfg_Site c) = [] \<longrightarrow>
            ui_Brand (cfg_UI (cfg_normalize c)) = ''RavenGuard'' \<and> site_Description (cfg_Site (cfg_normalize c)) = '' Web Application Firewall'')"
proof (intro conjI impI)
  show "cfg_normalize (cfg_normalize c) =
           (cfg_normalize c)\<lparr> cfg_Admin := (cfg_Admin (cfg_normalize c))
              \<lparr> adm_BasePath := normalizeBasePath (adm_BasePath (cfg_Admin (cfg_normalize c))) \<rparr> \<rparr>"
    by (simp add: cfg_normalize_def norm_settles norm_Detect_settles norm_TLS_settles [OF assms] norm_Site_settles norm_Admin_settles)
  show "HasPrefix (adm_BasePath (cfg_Admin (cfg_normalize c))) ''/''"
    by (simp add: cfg_normalize_def norm_Admin_def normalizeBasePath_slash)
qed (simp_all add: cfg_normalize_def norm_UI_def norm_Site_def orStr_def)

theorem normalize_settles_witness:
  "site_Description (cfg_Site (cfg_normalize (zero_GlobalConfig))) = '' Web Application Firewall''
   \<and> normalizeBasePath ''/a//'' = ''/a/'' \<and> normalizeBasePath ''/a/'' = ''/a''"
proof -
  have "site_Description (cfg_Site (cfg_normalize zero_GlobalConfig)) = '' Web Application Firewall''"
    using normalize_settles [of zero_GlobalConfig] by (simp add: zero_GlobalConfig_def zero_TLSConfig_def zero_UIConfig_def zero_SiteConfig_def)
  then show ?thesis
    by (simp add: normalizeBasePath_def TrimSpace_def TrimFunc_def is_space_def HasPrefix_def TrimSuffix_def HasSuffix_def)
qed

text \<open>The precedence of settings: a flag wins over the environment, the environment over the file, and the file over the
  default; a setting that none of them names keeps its default.\<close>

theorem setting_precedence:
  assumes load: "LoadWithFlagsMode e f mode = Inr c" and path: "fl_ConfigPath f \<noteq> []" "ev_DecodeFile e (fl_ConfigPath f) Default = Some file"
  shows "chal_Secret (cfg_Challenge c) =
           (if fl_Secret f \<noteq> [] then fl_Secret f else if ev_Getenv e ''RG_CHALLENGE_SECRET'' \<noteq> [] then ev_Getenv e ''RG_CHALLENGE_SECRET''
            else chal_Secret (cfg_Challenge file))
       \<and> ups_URL (cfg_Upstream c) =
           (if fl_Upstream f \<noteq> [] then fl_Upstream f else if ev_Getenv e ''RG_UPSTREAM_URL'' \<noteq> [] then ev_Getenv e ''RG_UPSTREAM_URL''
            else ups_URL (cfg_Upstream file))
       \<and> li_HTTP (cfg_Listen c) =
           (if fl_ListenHTTP f \<noteq> [] then fl_ListenHTTP f else if ev_Getenv e ''RG_LISTEN_HTTP'' \<noteq> [] then ev_Getenv e ''RG_LISTEN_HTTP''
            else li_HTTP (cfg_Listen file))
       \<and> cfg_Protect c = cfg_Protect file \<and> cfg_Honeypot c = env_Honeypot e (cfg_Honeypot file)"
proof -
  have c: "c = cfg_normalize (override e f mode file)"
    using assms by (auto simp: LoadWithFlagsMode_def Let_def split: option.splits if_splits)
  show ?thesis
    unfolding c normalize_sections override_sections
    by (simp add: norm_Challenge_def norm_Upstream_def override_sections flagStr_def env_settings setStr_def)
qed

theorem setting_precedence_witness:
  "\<exists>c. LoadWithFlagsMode demo_env (zero_Flags\<lparr> fl_ConfigPath := ''rg.toml'' \<rparr>) ''all'' = Inr c
     \<and> li_HTTP (cfg_Listen c) = '':8080'' \<and> chal_Secret (cfg_Challenge c) = ''0123456789abcdef''
     \<and> ups_URL (cfg_Upstream c) = ''http://127.0.0.1:8000''"
proof -
  let ?f = "zero_Flags\<lparr> fl_ConfigPath := ''rg.toml'' \<rparr>"
  have "override demo_env ?f ''all'' Default = demo_config"
    by code_simp
  then have load: "LoadWithFlagsMode demo_env ?f ''all'' = Inr demo_config"
    by (simp add: LoadWithFlagsMode_def Let_def demo_steps demo_reads)
  show ?thesis
    using setting_precedence [OF load, of Default] load
    by (simp add: demo_env_def Default_def default_Upstream_def default_Listen_def zero_Flags_def)
qed

end
