(* ===== verification/PipeReq.thy ===== *)
theory PipeReq
  imports Attack Detect Trackers Requestlog Edge ConfigData Access
begin

text \<open>
  What the request pipeline decides from a request alone: \<open>internal/pipeline/challenge_ajax.go\<close> and the helpers of
  \<open>internal/pipeline/pipeline.go\<close> (hosts, honeypot paths, the no-JavaScript token, the tarpit, the status recorder), and
  \<open>internal/notify/notify.go\<close>.
\<close>

section \<open>Definitions\<close>

subsection \<open>URLs\<close>

text \<open>\<open>url.shouldEscape\<close> for paths and for query components, \<open>url.escape\<close>, \<open>URL.EscapedPath\<close> and \<open>URL.RequestURI\<close>.\<close>

definition url_unreserved :: "char \<Rightarrow> bool" where
  "url_unreserved c \<longleftrightarrow> is_lower c \<or> is_upper c \<or> is_digit c \<or> c \<in> set ''-_.~''"

definition path_plain :: "char \<Rightarrow> bool" where
  "path_plain c \<longleftrightarrow> url_unreserved c \<or> c \<in> set ''$&+,/:;=@''"

definition upper_hex :: "nat \<Rightarrow> char" where
  "upper_hex d = (if d < 10 then char_of (48 + d) else char_of (55 + d))"

definition pct :: "char \<Rightarrow> string" where
  "pct c = [CHR ''%'', upper_hex (byte_of c div 16), upper_hex (byte_of c mod 16)]"

definition path_escape :: "string \<Rightarrow> string" where
  "path_escape s = concat (map (\<lambda>c. if path_plain c then [c] else pct c) s)"

definition QueryEscape :: "string \<Rightarrow> string" where
  "QueryEscape s = concat (map (\<lambda>c. if url_unreserved c then [c] else if c = CHR '' '' then ''+'' else pct c) s)"

definition valid_encoded_path :: "string \<Rightarrow> bool" where
  "valid_encoded_path s \<longleftrightarrow>
     list_all (\<lambda>c. path_plain c \<or> c = CHR 0x27 \<or> c = CHR ''%'' \<or> c \<in> set ''!()*[]'') s"

definition escaped_path :: "string \<Rightarrow> string \<Rightarrow> string" where
  "escaped_path path rawPath =
     (if rawPath \<noteq> [] \<and> valid_encoded_path rawPath \<and> PathUnescape rawPath = Some path then rawPath
      else if path = ''*'' then ''*'' else path_escape path)"

definition RequestURI :: "Request \<Rightarrow> string" where
  "RequestURI r =
     (let p = escaped_path (req_Path r) (req_RawPath r); p = (if p = [] then ''/'' else p)
      in if req_RawQuery r \<noteq> [] then p @ ''?'' @ req_RawQuery r else p)"

definition pl_stripPort :: "string \<Rightarrow> string" where
  "pl_stripPort host =
     (let plain = (case LastIndexByte host (CHR '':'') of
                     Some i \<Rightarrow> if CountByte host (CHR '':'') = 1 then take i host else host
                   | None \<Rightarrow> host)
      in if host = [] then []
         else if hd host = CHR ''['' then
           (case IndexByte host (CHR '']'') of Some e \<Rightarrow> if e > 0 then take (e - 1) (drop 1 host) else plain | None \<Rightarrow> plain)
         else plain)"

subsection \<open>Actions and honeypot paths\<close>

datatype action = actionChallenge | actionBlock | actionOff | actionTarpit | actionBan

definition parseAction :: "string \<Rightarrow> action" where
  "parseAction s =
     (let a = ToLower (TrimSpace s) in
      if a = ''block'' \<or> a = ''deny'' then actionBlock
      else if a = ''tarpit'' then actionTarpit
      else if a = ''off'' then actionOff else actionChallenge)"

record trapSet =
  ts_action :: action
  ts_banTTL :: duration
  ts_exact :: "string list"
  ts_prefixes :: "string list"

definition trapPath :: "string \<Rightarrow> string" where
  "trapPath p =
     (let p = TrimSpace p in
      if p = [] then []
      else let p = (if hd p \<noteq> CHR ''/'' then CHR ''/'' # p else p) in ToLower p)"

definition buildTraps :: "GlobalConfig \<Rightarrow> trapSet option" where
  "buildTraps cfg =
     (let hc = cfg_Honeypot cfg in
      if \<not> hp_Enabled hc then None
      else
        let exact = filter (\<lambda>p. p \<noteq> []) (map trapPath (hp_Paths hc));
            prefixes = filter (\<lambda>p. p \<noteq> []) (map trapPath (hp_Prefixes hc));
            a = ToLower (TrimSpace (hp_Action hc))
        in if exact = [] \<and> prefixes = [] then None
           else Some \<lparr> ts_action = (if a = ''deny'' \<or> a = ''block'' then actionBlock
                                    else if a = ''challenge'' then actionChallenge
                                    else if a = ''tarpit'' then actionTarpit else actionBan),
                       ts_banTTL = hp_BanTTL hc, ts_exact = exact, ts_prefixes = prefixes \<rparr>)"

definition trap_Match :: "trapSet \<Rightarrow> string \<Rightarrow> bool" where
  "trap_Match t path =
     (let low = ToLower path in low \<in> set (ts_exact t) \<or> list_ex (HasPrefix low) (ts_prefixes t))"

subsection \<open>What a client can render, and where it came from\<close>

definition header :: "Request \<Rightarrow> string \<Rightarrow> string" where
  "header r k = Header_Get (req_Header r) k"

definition isTopLevelNavigation :: "Request \<Rightarrow> bool" where
  "isTopLevelNavigation r =
     (let dest = fs_TrimSpace (header r ''Sec-Fetch-Dest'') in
      if EqualFold dest ''document'' \<or> EqualFold dest ''iframe'' then True
      else EqualFold (fs_TrimSpace (header r ''Sec-Fetch-Mode'')) ''navigate'')"

definition wantsHTMLChallenge :: "Request \<Rightarrow> bool" where
  "wantsHTMLChallenge r =
     (if header r ''HX-Request'' \<noteq> [] then False
      else if EqualFold (header r ''X-Requested-With'') ''XMLHttpRequest'' then False
      else if isTopLevelNavigation r then True
      else
        let accept = header r ''Accept'' in
        if ContainsFold accept ''text/event-stream'' then False
        else
          let dest = fs_TrimSpace (header r ''Sec-Fetch-Dest'') in
          if EqualFold dest ''document'' \<or> EqualFold dest ''iframe'' then True
          else if dest \<noteq> [] then False
          else if accept \<noteq> [] then
            (case Index accept ''application/json'' of
               Some j \<Rightarrow>
                 (case Index accept ''text/html'' of
                    None \<Rightarrow> False
                  | Some h \<Rightarrow> if j < h then False else \<not> ContainsFold accept ''text/event-stream'')
             | None \<Rightarrow> \<not> ContainsFold accept ''text/event-stream'')
          else True)"

definition hostFromURL :: "string \<Rightarrow> string" where
  "hostFromURL s =
     (case (case Index s ''://'' of
              Some i \<Rightarrow> Some (drop (i + 3) s)
            | None \<Rightarrow> if HasPrefix s ''//'' then Some (drop 2 s) else None) of
        None \<Rightarrow> []
      | Some s \<Rightarrow>
          let s = takeWhile (\<lambda>c. c \<notin> set ''/?#'') s;
              s = (case LastIndexByte s (CHR ''@'') of Some i \<Rightarrow> drop (Suc i) s | None \<Rightarrow> s)
          in pl_stripPort s)"

definition origin_matches :: "Request \<Rightarrow> string \<Rightarrow> bool" where
  "origin_matches r hdr =
     (let v = fs_TrimSpace (header r hdr) in
      if v = [] then False
      else let uhost = hostFromURL v in uhost \<noteq> [] \<and> EqualFold uhost (pl_stripPort (req_Host r)))"

definition isSameOriginRequest :: "Request \<Rightarrow> bool" where
  "isSameOriginRequest r =
     (if req_Host r = [] then False
      else
        let site = fs_TrimSpace (header r ''Sec-Fetch-Site'') in
        if EqualFold site ''same-origin'' \<or> EqualFold site ''same-site'' then True
        else if EqualFold site ''cross-site'' \<or> EqualFold site ''none'' then False
        else list_ex (origin_matches r) [''Origin'', ''Referer''])"

definition isBrowserSameOriginSubrequest :: "Request \<Rightarrow> bool" where
  "isBrowserSameOriginSubrequest r \<longleftrightarrow> \<not> wantsHTMLChallenge r \<and> isSameOriginRequest r"

definition safeNextPath :: "string \<Rightarrow> string" where
  "safeNextPath raw0 =
     (let raw = TrimSpace raw0 in
      if raw = [] then ''/''
      else if \<not> HasPrefix raw ''/'' \<or> HasPrefix raw ''//'' then ''/''
      else if list_ex (\<lambda>c. c = CHR 0x0D \<or> c = CHR 0x0A \<or> c = CHR 0x5C) raw then ''/''
      else raw)"

text \<open>\<open>url.Parse\<close> is the parameter \<open>parse\<close>: the host, the escaped path and the raw query of a URL, or an error.\<close>

definition challengeReturnTo :: "(string \<Rightarrow> (string \<times> string \<times> string) option) \<Rightarrow> Request \<Rightarrow> string" where
  "challengeReturnTo parse r =
     (let ref = TrimSpace (header r ''Referer'') in
      if ref = [] then ''/''
      else case parse ref of
        None \<Rightarrow> ''/''
      | Some (host, path, rawQuery) \<Rightarrow>
          if host \<noteq> [] \<and> \<not> EqualFold (pl_stripPort host) (pl_stripPort (req_Host r)) then ''/''
          else
            let path = (if path = [] then ''/'' else path);
                path = (if rawQuery \<noteq> [] then path @ ''?'' @ rawQuery else path)
            in safeNextPath path)"

subsection \<open>The no-JavaScript token\<close>

text \<open>\<open>hm key message\<close> is HMAC-SHA-256.\<close>

definition noJSMint :: "(string \<Rightarrow> string \<Rightarrow> string) \<Rightarrow> string \<Rightarrow> string \<Rightarrow> string \<Rightarrow> int \<Rightarrow> string" where
  "noJSMint hm secret bindID nxt ts =
     FormatInt ts @ ''.'' @ hex_encode (hm secret (''nojs|'' @ FormatInt ts @ ''|'' @ bindID @ ''|'' @ nxt))"

definition noJSVerify :: "(string \<Rightarrow> string \<Rightarrow> string) \<Rightarrow> string \<Rightarrow> string \<Rightarrow> string \<Rightarrow> string \<Rightarrow> int option" where
  "noJSVerify hm secret tok bindID nxt =
     (case Cut tok (CHR ''.'') of
        None \<Rightarrow> None
      | Some (tsStr, hexMac) \<Rightarrow>
          (case ParseInt tsStr of
             None \<Rightarrow> None
           | Some ts \<Rightarrow>
               (case hex_DecodeString hexMac of
                  None \<Rightarrow> None
                | Some got \<Rightarrow>
                    (case Cut (noJSMint hm secret bindID nxt ts) (CHR ''.'') of
                       None \<Rightarrow> None
                     | Some (_, expectMac) \<Rightarrow>
                         (case hex_DecodeString expectMac of
                            None \<Rightarrow> None
                          | Some expBytes \<Rightarrow> if got \<noteq> expBytes then None else Some ts)))))"

subsection \<open>Tarpit\<close>

text \<open>The drip: a block is written at every tick until the deadline; the client is found gone at check \<open>gone\<close>, if at all, by
  its context or by a failing write.  The ticker delivers at most one tick per interval, so that at check \<open>k\<close> the clock has
  moved by \<open>k\<close> intervals at least; \<open>lag k\<close> is what it is late beyond that, for writes that block and for ticks missed
  meanwhile, and is arbitrary.  The result is the number of blocks, and whether the closing text is written.\<close>

function tarpit_loop :: "duration \<Rightarrow> duration \<Rightarrow> (nat \<Rightarrow> nat) \<Rightarrow> nat option \<Rightarrow> nat \<Rightarrow> nat \<times> bool" where
  "tarpit_loop interval maxDur lag gone k =
     (if \<not> (int k * interval + int (lag k) < maxDur \<and> 0 < interval) then (k, True)
      else if gone = Some k then (k, False)
      else tarpit_loop interval maxDur lag gone (Suc k))"
  by auto
termination
  by (relation "measure (\<lambda>(interval, maxDur, lag, gone, k). nat (maxDur - int k * interval))") (auto simp: algebra_simps)

declare tarpit_loop.simps [simp del]

record tarpitRun =
  tr_blocks :: nat
  tr_blockSize :: int
  tr_closed :: bool

definition serveTarpit :: "GlobalConfig \<Rightarrow> (nat \<Rightarrow> nat) \<Rightarrow> nat option \<Rightarrow> tarpitRun" where
  "serveTarpit cfg lag gone =
     (let tc = cfg_Tarpit cfg;
          interval = (if tp_Interval tc \<le> 0 then 5 * second else tp_Interval tc);
          n = (if tp_BytesPerTick tc \<le> 0 then 64 else tp_BytesPerTick tc);
          maxDur = (if tp_MaxDuration tc \<le> 0 then 2 * minute else tp_MaxDuration tc);
          (k, fin) = tarpit_loop interval maxDur lag gone 0
      in \<lparr> tr_blocks = k, tr_blockSize = n, tr_closed = fin \<rparr>)"

subsection \<open>Status recorder\<close>

record statusRecorder =
  sr_header :: Header
  sr_status :: int
  sr_cacheTTL :: int

definition WriteHeader :: "statusRecorder \<Rightarrow> int \<Rightarrow> statusRecorder" where
  "WriteHeader s code =
     (let h = (if sr_cacheTTL s > 0 \<and> CacheableMissStatus code \<and> Header_Get (sr_header s) ''Cache-Control'' = []
               then Header_Set (sr_header s) ''Cache-Control'' (''public, max-age='' @ FormatInt (sr_cacheTTL s))
               else sr_header s)
      in s\<lparr> sr_header := h, sr_status := code \<rparr>)"

definition missCacheTTL :: "GlobalConfig \<Rightarrow> int" where
  "missCacheTTL cfg =
     (let d = det_CacheMissTTL (cfg_Detect cfg) in if d \<le> 0 then 0 else duration_seconds d)"

subsection \<open>Scorer configuration\<close>

definition buildDetectConfig :: "GlobalConfig \<Rightarrow> DetectConfig" where
  "buildDetectConfig cfg =
     (let d = cfg_Detect cfg in
      \<lparr> dc_MissingUAScore = det_MissingUAScore d, dc_ScannerUAScore = det_ScannerUAScore d, dc_AIUAScore = det_AIUAScore d,
        dc_ProbePathScore = det_ProbePathScore d, dc_OddMethodScore = det_OddMethodScore d,
        dc_MissingAcceptScore = det_MissingAcceptScore d, dc_MissingAcceptLangScore = det_MissingAcceptLangScore d,
        dc_MissingSecFetchScore = det_MissingSecFetchScore d, dc_SecCHUAMismatchScore = det_SecCHUAMismatchScore d,
        dc_StarAcceptBrowserScore = det_StarAcceptBrowserScore d, dc_EmptyFormContextScore = det_EmptyFormContextScore d,
        dc_ForumWritePathScore = det_ForumWritePathScore d, dc_ForgeExpensiveScore = det_ForgeExpensiveScore d,
        dc_ForgeFlavor = ParseForgeFlavor (det_ForgeFlavor d), dc_ProxyBotLowScore = ps_LowScorePoints (det_ProxySignals d),
        dc_ProxyBotHeader = ps_BotScoreHeader (det_ProxySignals d), dc_ProxyBotScoreHeader = ps_BotScoreHeader2 (det_ProxySignals d),
        dc_MissingAcceptEncScore = det_MissingAcceptEncScore d, dc_SecCHUANonChromiumScore = det_SecCHUANonChromiumScore d,
        dc_HTTP10BrowserScore = det_HTTP10BrowserScore d, dc_MissingContentTypeScore = det_MissingContentTypeScore d,
        dc_LongUAScore = det_LongUAScore d, dc_MissingUIRScore = det_MissingUIRScore d,
        dc_SNIHostMismatchScore = (if EqualFold (tr_Mode (cfg_Trust cfg)) ''behind_proxy'' then 0 else det_SNIHostMismatchScore d),
        dc_AIUAAction = [] \<rparr>)"

subsection \<open>Notifications\<close>

definition queueCap :: nat where "queueCap = 256"

record Notifier =
  no_url :: string
  no_actions :: "string list"
  no_timeout :: duration
  no_ch :: "Event list"

definition Notifier_New :: "string \<Rightarrow> string list \<Rightarrow> duration \<Rightarrow> Notifier option" where
  "Notifier_New url events timeout =
     (if url = [] then None
      else Some \<lparr> no_url = url, no_actions = (if events = [] then [ActionBlock] else events),
                  no_timeout = (if timeout \<le> 0 then 5 * second else timeout), no_ch = [] \<rparr>)"

definition Notify :: "Notifier option \<Rightarrow> Event \<Rightarrow> Notifier option" where
  "Notify n e =
     map_option (\<lambda>n. if evt_Action e \<notin> set (no_actions n) then n
                     else if length (no_ch n) < queueCap then n\<lparr> no_ch := no_ch n @ [e] \<rparr> else n) n"

text \<open>The worker takes the oldest event and posts it.\<close>

definition notify_run_step :: "Notifier \<Rightarrow> (Event \<times> Notifier) option" where
  "notify_run_step n = (case no_ch n of [] \<Rightarrow> None | e # es \<Rightarrow> Some (e, n\<lparr> no_ch := es \<rparr>))"

section \<open>Lemmas\<close>

subsection \<open>Tarpit\<close>

lemma tarpit_stops:
  assumes "tarpit_loop interval maxDur lag gone k = (n, fin)" "0 < interval"
  shows "k \<le> n \<and> (\<forall>j. k \<le> j \<and> j < n \<longrightarrow> int j * interval + int (lag j) < maxDur \<and> gone \<noteq> Some j) \<and>
    (if fin then maxDur \<le> int n * interval + int (lag n) else int n * interval + int (lag n) < maxDur \<and> gone = Some n)"
  using assms
proof (induction interval maxDur lag gone k rule: tarpit_loop.induct)
  case (1 interval maxDur lag gone k)
  note run = "1.prems"(1) [unfolded tarpit_loop.simps [of interval maxDur lag gone k]]
  show ?case
  proof (cases "int k * interval + int (lag k) < maxDur \<and> gone \<noteq> Some k")
    case True
    with run "1.prems"(2) have "tarpit_loop interval maxDur lag gone (Suc k) = (n, fin)" by simp
    with "1.IH" True "1.prems"(2)
    have IH: "Suc k \<le> n \<and> (\<forall>j. Suc k \<le> j \<and> j < n \<longrightarrow> int j * interval + int (lag j) < maxDur \<and> gone \<noteq> Some j) \<and>
      (if fin then maxDur \<le> int n * interval + int (lag n) else int n * interval + int (lag n) < maxDur \<and> gone = Some n)" by simp
    have "Suc k \<le> j" if "k \<le> j" "j \<noteq> k" for j using that by simp
    with IH True show ?thesis by (metis Suc_leD)
  next
    case False
    with run "1.prems"(2) show ?thesis by (auto split: if_splits)
  qed
qed

text \<open>C36: the tarpit ends.  However late the checks of the clock come, the number of blocks is at most
  \<open>\<lceil>maxDuration / interval\<rceil>\<close>: every block belongs to a check before the deadline that found the client there, and the
  response stops at the first check that finds the deadline passed, with the closing text, or the client gone, without it.
  Settings that are not positive count as five seconds and two minutes.  How long a single write blocks is up to the reader.\<close>

theorem tarpit_terminates:
  fixes cfg :: GlobalConfig and lag :: "nat \<Rightarrow> nat" and gone :: "nat option"
  defines "interval \<equiv> (if tp_Interval (cfg_Tarpit cfg) \<le> 0 then 5 * second else tp_Interval (cfg_Tarpit cfg))"
    and "maxDur \<equiv> (if tp_MaxDuration (cfg_Tarpit cfg) \<le> 0 then 2 * minute else tp_MaxDuration (cfg_Tarpit cfg))"
  defines "clock \<equiv> (\<lambda>k. int k * interval + int (lag k))"
    and "n \<equiv> tr_blocks (serveTarpit cfg lag gone)"
  shows "int n \<le> (maxDur + interval - 1) div interval \<and> (\<forall>j<n. clock j < maxDur \<and> gone \<noteq> Some j) \<and>
    (if tr_closed (serveTarpit cfg lag gone) then maxDur \<le> clock n else clock n < maxDur \<and> gone = Some n)"
proof -
  have pos: "0 < interval" "0 < maxDur" by (simp_all add: interval_def maxDur_def second_def minute_def)
  obtain k fin where run: "tarpit_loop interval maxDur lag gone 0 = (k, fin)" by fastforce
  have n: "n = k" and fin: "tr_closed (serveTarpit cfg lag gone) = fin"
    using run unfolding n_def by (simp_all add: serveTarpit_def interval_def maxDur_def Let_def)
  note st = tarpit_stops [OF run pos(1), simplified]
  have "int k \<le> (maxDur + interval - 1) div interval"
  proof (cases k)
    case 0
    then show ?thesis using pos by (simp add: pos_imp_zdiv_nonneg_iff)
  next
    case (Suc j)
    then have "int j * interval + int (lag j) < maxDur" using st by blast
    then have "int j * interval + 1 \<le> maxDur" by linarith
    then have "int k * interval \<le> maxDur + interval - 1" using Suc by (simp add: algebra_simps)
    then show ?thesis using zdiv_mono1 [OF _ pos(1), of "int k * interval"] pos(1) by simp
  qed
  then show ?thesis using st unfolding n fin clock_def by simp
qed

theorem tarpit_terminates_witness:
  "tr_blocks (serveTarpit zero_GlobalConfig (\<lambda>k. if k < 3 then 0 else nat (3 * minute)) None) = 3 \<and>
   tr_closed (serveTarpit zero_GlobalConfig (\<lambda>k. if k < 3 then 0 else nat (3 * minute)) None)"
proof -
  let ?lag = "\<lambda>k :: nat. if k < 3 then 0 else nat (3 * minute)"
  have z: "tp_Interval (cfg_Tarpit zero_GlobalConfig) = 0" "tp_MaxDuration (cfg_Tarpit zero_GlobalConfig) = 0"
    by (simp_all add: zero_GlobalConfig_def zero_TarpitConfig_def)
  let ?r = "serveTarpit zero_GlobalConfig ?lag None"
  have t: "\<forall>j < tr_blocks ?r. int j * (5 * second) + int (?lag j) < 2 * minute"
    "tr_closed ?r \<and> 2 * minute \<le> int (tr_blocks ?r) * (5 * second) + int (?lag (tr_blocks ?r))"
    using tarpit_terminates [of zero_GlobalConfig ?lag None] unfolding z by (simp_all split: if_splits)
  have "\<not> 3 < tr_blocks ?r"
    using spec [OF t(1), of 3] by (simp add: second_def minute_def)
  moreover have "\<not> tr_blocks ?r < 3"
    using t(2) by (auto simp: second_def minute_def)
  ultimately show ?thesis using t(2) by linarith
qed

subsection \<open>The no-JavaScript token\<close>

lemma FormatInt_no_dot: "CHR ''.'' \<notin> set (FormatInt n)" "CHR ''|'' \<notin> set (FormatInt n)"
  using FormatInt_chars [of "CHR ''.''" n] FormatInt_chars [of "CHR ''|''" n] by (auto simp: is_digit_def)

lemma Cut_mint: "Cut (noJSMint hm secret b nxt ts) (CHR ''.'') =
    Some (FormatInt ts, hex_encode (hm secret (''nojs|'' @ FormatInt ts @ ''|'' @ b @ ''|'' @ nxt)))"
  unfolding noJSMint_def using Cut_append [OF FormatInt_no_dot(1)] by simp

lemma noJSVerify_own:
  assumes "- (2 ^ 63) \<le> ts" "ts < 2 ^ 63"
  shows "noJSVerify hm secret (noJSMint hm secret b nxt ts) b nxt = Some ts"
  using ParseInt_FormatInt [OF assms] by (simp add: noJSVerify_def Cut_mint)

text \<open>A no-JavaScript token is good for the client and the destination it was minted for and for nothing else: it verifies
  there and gives back its issue time, and as long as the MAC has no collisions it verifies for no other client key and no
  other destination.\<close>

theorem nojs_token_exact:
  assumes "- (2 ^ 63) \<le> ts" "ts < 2 ^ 63" "inj (hm secret)" "CHR ''|'' \<notin> set b" "CHR ''|'' \<notin> set b'"
  shows "noJSVerify hm secret (noJSMint hm secret b nxt ts) b' nxt' = (if b' = b \<and> nxt' = nxt then Some ts else None)"
proof -
  have "b' = b \<and> nxt' = nxt" if "b @ ''|'' @ nxt = b' @ ''|'' @ nxt'"
    using that assms(4,5) by (auto simp: append_eq_append_conv2 Cons_eq_append_conv append_eq_Cons_conv)
  then have "hm secret (''nojs|'' @ FormatInt ts @ ''|'' @ b @ ''|'' @ nxt) = hm secret (''nojs|'' @ FormatInt ts @ ''|'' @ b' @ ''|'' @ nxt')
      \<longleftrightarrow> b' = b \<and> nxt' = nxt"
    using assms(3) by (auto simp: inj_def)
  then show ?thesis
    using ParseInt_FormatInt [OF assms(1,2)] by (simp add: noJSVerify_def Cut_mint)
qed

lemma nojs_token_exact_witness:
  "noJSVerify (\<lambda>k m. k @ m) ''s'' (noJSMint (\<lambda>k m. k @ m) ''s'' ''c1'' ''/a'' 7) ''c1'' ''/a'' = Some 7
   \<and> noJSVerify (\<lambda>k m. k @ m) ''s'' (noJSMint (\<lambda>k m. k @ m) ''s'' ''c1'' ''/a'' 7) ''c2'' ''/a'' = None"
  using nojs_token_exact [of 7 "\<lambda>k m. k @ m" "''s''" "''c1''" "''c1''" "''/a''" "''/a''"]
    nojs_token_exact [of 7 "\<lambda>k m. k @ m" "''s''" "''c1''" "''c2''" "''/a''" "''/a''"]
  by (simp add: inj_def)

subsection \<open>Return targets\<close>

text \<open>A path on this host: it starts with one slash and holds no line break and no backslash.\<close>

definition local_path :: "string \<Rightarrow> bool" where
  "local_path p \<longleftrightarrow> (\<exists>rest. p = CHR ''/'' # rest \<and> (rest = [] \<or> hd rest \<noteq> CHR ''/'')) \<and>
     (\<forall>c \<in> set p. c \<noteq> CHR 0x0D \<and> c \<noteq> CHR 0x0A \<and> c \<noteq> CHR 0x5C)"

lemma safeNextPath_local: "local_path (safeNextPath raw)"
proof -
  have "local_path ''/''" by (simp add: local_path_def)
  moreover have "local_path (TrimSpace raw)"
    if pre: "HasPrefix (TrimSpace raw) ''/''" "\<not> HasPrefix (TrimSpace raw) ''//''"
      "\<not> list_ex (\<lambda>c. c = CHR 0x0D \<or> c = CHR 0x0A \<or> c = CHR 0x5C) (TrimSpace raw)"
  proof -
    obtain rest where "TrimSpace raw = CHR ''/'' # rest" using pre(1) by (cases "TrimSpace raw") (auto simp: HasPrefix_def)
    then show ?thesis
      using pre by (cases rest) (auto simp: local_path_def HasPrefix_def list_ex_iff)
  qed
  ultimately show ?thesis by (simp add: safeNextPath_def Let_def)
qed

text \<open>C35: wherever a client is sent back to after a challenge, the target is a path on this host, whatever its Referer, its
  request URI and the URL parser say; a tab after the first slash is kept, which browsers drop.\<close>

theorem return_targets_local:
  "local_path (challengeReturnTo parse r) \<and> local_path (safeNextPath (RequestURI r))
   \<and> safeNextPath (''/'' @ [CHR 0x09] @ ''/evil.example'') = ''/'' @ [CHR 0x09] @ ''/evil.example''"
proof -
  have "local_path ''/''" by (simp add: local_path_def)
  then have "local_path (challengeReturnTo parse r)"
    by (simp add: challengeReturnTo_def Let_def safeNextPath_local split: option.split)
  moreover have "safeNextPath (''/'' @ [CHR 0x09] @ ''/evil.example'') = ''/'' @ [CHR 0x09] @ ''/evil.example''" by code_simp
  ultimately show ?thesis by (simp add: safeNextPath_local)
qed

end
