(* ===== verification/Qfeeds.thy ===== *)
theory Qfeeds
  imports Blocklist
begin

text \<open>
  Threat feeds (\<open>internal/qfeeds/qfeeds.go\<close>): lists of addresses and domains fetched from a service and cached, the
  refresh that replaces them, and the two lookups of the pipeline.  The HTTP fetch is the parameter \<open>fetch\<close>, from a feed
  name to the body or an error.
\<close>

section \<open>Definitions\<close>

record FeedConfig =
  fc_APIToken :: string
  fc_BaseURL :: string
  fc_Feeds :: "string list"
  fc_Refresh :: duration
  fc_OnError :: string
  fc_Limit :: int

record Cache =
  fd_ips :: "IPNet list"
  fd_domains :: "string list"
  fd_cfg :: FeedConfig
  fd_failed :: bool

definition Qfeeds_New :: "FeedConfig \<Rightarrow> Cache" where
  "Qfeeds_New cfg =
     \<lparr> fd_ips = [], fd_domains = [],
       fd_cfg = cfg\<lparr> fc_OnError := (if fc_OnError cfg = [] then ''fail_open'' else fc_OnError cfg),
                     fc_BaseURL := (if fc_BaseURL cfg = [] then ''https://api.qfeeds.com'' else fc_BaseURL cfg) \<rparr>,
       fd_failed = False \<rparr>"

record FeedStatus =
  fs_Enabled :: bool
  fs_Failed :: bool
  fs_IPCount :: nat
  fs_DomainCount :: nat
  fs_Feeds :: "string list"
  fs_Refresh :: string
  fs_OnError :: string
  fs_BaseURL :: string
  fs_HasToken :: bool
  fs_Limit :: int

text \<open>\<open>dur_string\<close> prints a duration.\<close>

definition Cache_Status :: "(duration \<Rightarrow> string) \<Rightarrow> Cache option \<Rightarrow> bool \<Rightarrow> FeedStatus" where
  "Cache_Status dur_string c enabled =
     (case c of
        None \<Rightarrow> \<lparr> fs_Enabled = enabled, fs_Failed = False, fs_IPCount = 0, fs_DomainCount = 0, fs_Feeds = [], fs_Refresh = [],
                  fs_OnError = [], fs_BaseURL = [], fs_HasToken = False, fs_Limit = 0 \<rparr>
      | Some c \<Rightarrow>
          \<lparr> fs_Enabled = enabled, fs_Failed = fd_failed c, fs_IPCount = length (fd_ips c), fs_DomainCount = length (fd_domains c),
            fs_Feeds = fc_Feeds (fd_cfg c), fs_Refresh = dur_string (fc_Refresh (fd_cfg c)), fs_OnError = fc_OnError (fd_cfg c),
            fs_BaseURL = fc_BaseURL (fd_cfg c), fs_HasToken = fc_APIToken (fd_cfg c) \<noteq> [], fs_Limit = fc_Limit (fd_cfg c) \<rparr>)"

definition UpdateSettings :: "Cache option \<Rightarrow> string list \<Rightarrow> duration \<Rightarrow> string \<Rightarrow> string \<Rightarrow> int \<Rightarrow> string \<Rightarrow> Cache option" where
  "UpdateSettings c feeds refresh onError baseURL limit apiToken =
     map_option (\<lambda>c. c\<lparr> fd_cfg :=
       \<lparr> fc_APIToken = (if apiToken \<noteq> [] then apiToken else fc_APIToken (fd_cfg c)),
         fc_BaseURL = (if baseURL \<noteq> [] then baseURL else fc_BaseURL (fd_cfg c)),
         fc_Feeds = (if feeds \<noteq> [] then feeds else fc_Feeds (fd_cfg c)),
         fc_Refresh = (if refresh > 0 then refresh else fc_Refresh (fd_cfg c)),
         fc_OnError = (if onError \<noteq> [] then onError else fc_OnError (fd_cfg c)),
         fc_Limit = (if limit \<ge> 0 then limit else fc_Limit (fd_cfg c)) \<rparr> \<rparr>) c"

definition Cache_IPBlocked :: "Cache \<Rightarrow> IP option \<Rightarrow> bool" where
  "Cache_IPBlocked c ip =
     (case ip of
        None \<Rightarrow> False
      | Some ip \<Rightarrow>
          if fd_failed c \<and> fc_OnError (fd_cfg c) = ''fail_closed'' then True
          else list_ex (\<lambda>n. IPNet_Contains n ip) (fd_ips c))"

definition Cache_DomainBlocked :: "Cache \<Rightarrow> string \<Rightarrow> bool" where
  "Cache_DomainBlocked c host =
     (let host = NormalizeHost host in
      if host = [] then False
      else if fd_failed c \<and> fc_OnError (fd_cfg c) = ''fail_closed'' then True
      else if host \<in> set (fd_domains c) then True
      else dns_walk (fd_domains c) host)"

text \<open>A line of a feed: comments and everything after the first comma are dropped.\<close>

definition feed_line :: "string \<Rightarrow> string option" where
  "feed_line raw =
     (let line = TrimSpace raw in
      if line = [] \<or> HasPrefix line ''#'' then None
      else Some (case IndexByte line (CHR '','') of Some i \<Rightarrow> TrimSpace (take i line) | None \<Rightarrow> line))"

text \<open>The scanner stops without an error at the first line of a mebibyte.\<close>

definition feed_lines :: "string \<Rightarrow> string list" where
  "feed_lines body = List.map_filter feed_line (takeWhile (\<lambda>l. int (length l) < 1024 * 1024) (scan_lines body))"

definition ParseFeed :: "string \<Rightarrow> string \<Rightarrow> IPNet list \<times> string list" where
  "ParseFeed feedType body =
     (if Contains feedType ''ip'' then (List.map_filter ParseIPOrCIDR (feed_lines body), [])
      else ([], remdups (filter (\<lambda>h. h \<noteq> []) (map NormalizeHost (feed_lines body)))))"

fun refresh_loop :: "(string \<Rightarrow> string option) \<Rightarrow> string list \<Rightarrow> bool \<times> IPNet list \<times> string list \<Rightarrow> bool \<times> IPNet list \<times> string list" where
  "refresh_loop fetch [] acc = acc"
| "refresh_loop fetch (feed # feeds) (ok, ips, doms) =
     (let feed = TrimSpace feed in
      if feed = [] then refresh_loop fetch feeds (ok, ips, doms)
      else case fetch feed of
        None \<Rightarrow> refresh_loop fetch feeds (False, ips, doms)
      | Some body \<Rightarrow>
          let (i, d) = ParseFeed feed body in refresh_loop fetch feeds (ok, ips @ i, remdups (doms @ d)))"

definition Cache_refresh :: "(string \<Rightarrow> string option) \<Rightarrow> Cache \<Rightarrow> Cache" where
  "Cache_refresh fetch c =
     (let (ok, ips, doms) = refresh_loop fetch (fc_Feeds (fd_cfg c)) (True, [], []) in
      if \<not> ok \<and> ips = [] \<and> doms = [] then c\<lparr> fd_failed := True \<rparr>
      else c\<lparr> fd_failed := False, fd_ips := ips, fd_domains := doms \<rparr>)"

definition RefreshNow :: "(string \<Rightarrow> string option) \<Rightarrow> Cache option \<Rightarrow> Cache option" where
  "RefreshNow fetch c = map_option (Cache_refresh fetch) c"

section \<open>Lemmas\<close>

text \<open>The feeds that answered, with their bodies.\<close>

definition answers :: "(string \<Rightarrow> string option) \<Rightarrow> string list \<Rightarrow> (string \<times> string) list" where
  "answers fetch feeds = List.map_filter (\<lambda>f. if TrimSpace f = [] then None else map_option (Pair (TrimSpace f)) (fetch (TrimSpace f))) feeds"

definition silent :: "(string \<Rightarrow> string option) \<Rightarrow> string list \<Rightarrow> bool" where
  "silent fetch feeds \<longleftrightarrow> (\<exists>f \<in> set feeds. TrimSpace f \<noteq> [] \<and> fetch (TrimSpace f) = None)"

lemma answers_simps [simp]:
  "answers fetch [] = []"
  "answers fetch (f # fs) =
     (if TrimSpace f = [] then answers fetch fs
      else case fetch (TrimSpace f) of None \<Rightarrow> answers fetch fs | Some b \<Rightarrow> (TrimSpace f, b) # answers fetch fs)"
  by (auto simp: answers_def List.map_filter_simps split: option.splits)

lemma silent_simps [simp]:
  "\<not> silent fetch []"
  "silent fetch (f # fs) \<longleftrightarrow> (TrimSpace f \<noteq> [] \<and> fetch (TrimSpace f) = None) \<or> silent fetch fs"
  by (auto simp: silent_def)

lemma refresh_loop_spec:
  "fst (refresh_loop fetch feeds (ok, ips, doms)) \<longleftrightarrow> ok \<and> \<not> silent fetch feeds"
  "fst (snd (refresh_loop fetch feeds (ok, ips, doms))) = ips @ concat (map (\<lambda>(f, b). fst (ParseFeed f b)) (answers fetch feeds))"
  "set (snd (snd (refresh_loop fetch feeds (ok, ips, doms))))
     = set doms \<union> (\<Union>(f, b) \<in> set (answers fetch feeds). set (snd (ParseFeed f b)))"
  by (induction feeds arbitrary: ok ips doms)
     (auto simp: Let_def split: option.splits prod.splits)

text \<open>The entries of the feeds that answered.\<close>

definition feed_nets :: "(string \<Rightarrow> string option) \<Rightarrow> Cache \<Rightarrow> IPNet set" where
  "feed_nets fetch c = (\<Union>(f, b) \<in> set (answers fetch (fc_Feeds (fd_cfg c))). set (fst (ParseFeed f b)))"

definition feed_hosts :: "(string \<Rightarrow> string option) \<Rightarrow> Cache \<Rightarrow> string set" where
  "feed_hosts fetch c = (\<Union>(f, b) \<in> set (answers fetch (fc_Feeds (fd_cfg c))). set (snd (ParseFeed f b)))"

lemma refresh_cases:
  "Cache_refresh fetch c =
     (if silent fetch (fc_Feeds (fd_cfg c)) \<and> feed_nets fetch c = {} \<and> feed_hosts fetch c = {} then c\<lparr> fd_failed := True \<rparr>
      else c\<lparr> fd_failed := False, fd_ips := fst (snd (refresh_loop fetch (fc_Feeds (fd_cfg c)) (True, [], []))),
              fd_domains := snd (snd (refresh_loop fetch (fc_Feeds (fd_cfg c)) (True, [], []))) \<rparr>)"
proof -
  let ?l = "refresh_loop fetch (fc_Feeds (fd_cfg c)) (True, [], [])"
  have n: "set (fst (snd ?l)) = feed_nets fetch c" "set (snd (snd ?l)) = feed_hosts fetch c"
    by (auto simp: refresh_loop_spec feed_nets_def feed_hosts_def)
  have "fst (snd ?l) = [] \<longleftrightarrow> feed_nets fetch c = {}" "snd (snd ?l) = [] \<longleftrightarrow> feed_hosts fetch c = {}"
    unfolding n [symmetric] by simp_all
  then show ?thesis
    using refresh_loop_spec(1) [of fetch "fc_Feeds (fd_cfg c)" True "[]" "[]"]
    by (auto simp: Cache_refresh_def Let_def split: prod.splits)
qed

lemma refresh_sets:
  "set (fst (snd (refresh_loop fetch (fc_Feeds (fd_cfg c)) (True, [], [])))) = feed_nets fetch c"
  "set (snd (snd (refresh_loop fetch (fc_Feeds (fd_cfg c)) (True, [], [])))) = feed_hosts fetch c"
  by (auto simp: refresh_loop_spec feed_nets_def feed_hosts_def)

lemma Domain_iff:
  "Cache_DomainBlocked c host \<longleftrightarrow> normalizeHost host \<noteq> [] \<and>
     ((fd_failed c \<and> fc_OnError (fd_cfg c) = ''fail_closed'') \<or> (\<exists>dn \<in> set (fd_domains c). dns_suffix dn (normalizeHost host)))"
  by (auto simp: Cache_DomainBlocked_def NormalizeHost_def Let_def dns_walk_iff dns_suffix_def)

text \<open>C37: what a refresh leaves behind.  When some feed answers with an entry, or none fails, the cache holds exactly the
  entries of the feeds that answered: an address is blocked iff one of their networks contains it, a host iff it is one of
  their domains or below one, whatever \<open>on_error\<close> says and whatever the feeds that failed held before.  When a feed fails and
  none gives an entry, \<open>fail_closed\<close> blocks everything and any other setting keeps the lists of the last refresh.\<close>

theorem feed_refresh_exact:
  "(if silent fetch (fc_Feeds (fd_cfg c)) \<and> feed_nets fetch c = {} \<and> feed_hosts fetch c = {}
    then fd_ips (Cache_refresh fetch c) = fd_ips c \<and> fd_domains (Cache_refresh fetch c) = fd_domains c
       \<and> (Cache_IPBlocked (Cache_refresh fetch c) (Some ip)
            \<longleftrightarrow> fc_OnError (fd_cfg c) = ''fail_closed'' \<or> (\<exists>n \<in> set (fd_ips c). IPNet_Contains n ip))
       \<and> (Cache_DomainBlocked (Cache_refresh fetch c) host
            \<longleftrightarrow> normalizeHost host \<noteq> [] \<and> (fc_OnError (fd_cfg c) = ''fail_closed''
                  \<or> (\<exists>dn \<in> set (fd_domains c). dns_suffix dn (normalizeHost host))))
    else (Cache_IPBlocked (Cache_refresh fetch c) (Some ip) \<longleftrightarrow> (\<exists>n \<in> feed_nets fetch c. IPNet_Contains n ip))
       \<and> (Cache_DomainBlocked (Cache_refresh fetch c) host
            \<longleftrightarrow> normalizeHost host \<noteq> [] \<and> (\<exists>dn \<in> feed_hosts fetch c. dns_suffix dn (normalizeHost host))))"
  by (auto simp: refresh_cases Domain_iff Cache_IPBlocked_def list_ex_iff refresh_sets)

text \<open>A failing feed loses its entries as soon as another feed answers, also under \<open>fail_closed\<close>: a network that only the
  failing address feed listed is no longer blocked after a refresh in which a domain feed answered.\<close>

theorem feed_partial_failure:
  assumes "fc_Feeds (fd_cfg c) = [ipFeed, domFeed]" "TrimSpace ipFeed = ipFeed" "TrimSpace domFeed = domFeed" "ipFeed \<noteq> []" "domFeed \<noteq> []"
    and "\<not> Contains domFeed ''ip''" "fetch ipFeed = None" "fetch domFeed = Some body" "snd (ParseFeed domFeed body) \<noteq> []"
  shows "\<not> Cache_IPBlocked (Cache_refresh fetch c) ip"
proof -
  have "feed_nets fetch c = {}" "feed_hosts fetch c \<noteq> {}"
    using assms by (auto simp: feed_nets_def feed_hosts_def ParseFeed_def filter_empty_conv)
  then have "fd_ips (Cache_refresh fetch c) = []" "\<not> fd_failed (Cache_refresh fetch c)"
    using refresh_sets(1) [of fetch c] by (simp_all add: refresh_cases)
  then show ?thesis by (auto simp: Cache_IPBlocked_def split: option.splits)
qed

definition demo_feeds :: Cache where
  "demo_feeds = (Qfeeds_New \<lparr> fc_APIToken = ''t'', fc_BaseURL = [], fc_Feeds = [''malware_ip'', ''malware_domains''], fc_Refresh = 1,
     fc_OnError = ''fail_closed'', fc_Limit = 0 \<rparr>)\<lparr> fd_ips := [Net4 0x01020304 32] \<rparr>"

definition demo_fetch :: "string \<Rightarrow> string option" where
  "demo_fetch f = (if f = ''malware_domains'' then Some ''bad.example'' else None)"

lemma feed_partial_failure_witness:
  "Cache_IPBlocked demo_feeds (Some (V4 0x01020304))
   \<and> \<not> Cache_IPBlocked (Cache_refresh demo_fetch demo_feeds) (Some (V4 0x01020304))"
proof
  show "Cache_IPBlocked demo_feeds (Some (V4 0x01020304))" by code_simp
  show "\<not> Cache_IPBlocked (Cache_refresh demo_fetch demo_feeds) (Some (V4 0x01020304))"
  proof (rule feed_partial_failure [where ipFeed = "''malware_ip''" and domFeed = "''malware_domains''" and body = "''bad.example''"])
    show "fc_Feeds (fd_cfg demo_feeds) = [''malware_ip'', ''malware_domains'']" by (simp add: demo_feeds_def Qfeeds_New_def)
    show "demo_fetch ''malware_ip'' = None" "demo_fetch ''malware_domains'' = Some ''bad.example''" by (simp_all add: demo_fetch_def)
    show "snd (ParseFeed ''malware_domains'' ''bad.example'') \<noteq> []" by code_simp
  qed code_simp+
qed

end
