(* ===== verification/PipeState.thy ===== *)
theory PipeState
  imports PipeReq Ratelimit Allowlist Threatshare Qfeeds AccessGate Challenge
begin

text \<open>
  The state of the request pipeline (\<open>internal/pipeline/pipeline.go\<close>) and what its handlers share: the handler owns one
  value of every component, events go to the request log and the notifier, refusals render a page.  Engines whose inside is
  not part of this development (Coraza, the semantic and the ML engine, signed agents, crawler verification, OpenAPI
  schemas, the payment facilitator, the upstream) are functions in the record \<open>engines\<close>.  Within one request every clock
  reading is the same instant \<open>now\<close>.
\<close>

section \<open>Definitions\<close>

subsection \<open>Engines\<close>

record corazaResult =
  cz_Matched :: bool
  cz_ShouldBlock :: bool
  cz_RuleID :: int
  cz_Data :: string
  cz_Action :: string

text \<open>An engine evaluates a request and leaves a body for the next reader.\<close>

record corazaEngine =
  cz_Mode :: string
  cz_Evaluate :: "Request \<Rightarrow> bodyStream option \<Rightarrow> corazaResult \<times> bodyStream option"

record semResult =
  sm_Matched :: bool
  sm_ShouldBlock :: bool
  sm_NeedChal :: bool
  sm_Family :: string
  sm_Score :: int
  sm_Confidence :: rat
  sm_Evidence :: string
  sm_Aborted :: bool
  sm_Error :: string

record mlInput =
  mi_Body :: "string option"
  mi_SemanticSQLi :: int
  mi_SemanticXSS :: int
  mi_SemanticCMD :: int
  mi_SemanticPath :: int
  mi_BotScoreLow :: bool
  mi_JA4Present :: bool

record semEngine =
  se_Enabled :: bool
  se_Mode :: string
  se_Evaluate :: "Request \<Rightarrow> string option \<Rightarrow> semResult"
  se_Enrich :: "Request \<Rightarrow> string option \<Rightarrow> mlInput \<Rightarrow> mlInput"

record mlResult =
  mr_Prob :: rat
  mr_Points :: int
  mr_Confidence :: rat
  mr_ShouldBlock :: bool
  mr_NeedChal :: bool
  mr_ShadowOnly :: bool
  mr_ModelHash :: string
  mr_Features :: "rat list"

record mlScorer =
  me_Enabled :: bool
  me_Mode :: string
  me_Evaluate :: "Request \<Rightarrow> mlInput \<Rightarrow> mlResult"

record mlSample =
  sp_RequestID :: string
  sp_Prob :: rat
  sp_Points :: int
  sp_WouldBlock :: bool
  sp_WouldChal :: bool
  sp_Features :: "rat list"
  sp_Method :: string
  sp_Path :: string
  sp_Host :: string

datatype shadow_call = ShadowOffer mlSample | ShadowMaybe rat mlSample

record schemaResult =
  sc_OK :: bool
  sc_ShouldBlock :: bool
  sc_Reason :: string
  sc_SchemaID :: string

datatype WebBotVerdict = WebBotNone | WebBotInvalid | WebBotVerified | WebBotUnknown

record engines =
  en_crypto :: crypto
  en_coraza :: "corazaEngine option"
  en_semantic :: "semEngine option"
  en_ml :: "mlScorer option"
  en_wba :: "(Request \<Rightarrow> WebBotVerdict) option"
  en_crawlerSpoofed :: "(IP \<Rightarrow> string \<Rightarrow> bool) option"
  en_schemas :: "(Request \<Rightarrow> string \<Rightarrow> schemaResult) option"
  en_paymentValid :: "string \<Rightarrow> (string, string) gomap \<Rightarrow> bool"
  en_status :: "OutReq \<Rightarrow> bodyStream option \<Rightarrow> int"
  en_parseURL :: "string \<Rightarrow> (string \<times> string \<times> string) option"
  en_fmtFloat :: "rat \<Rightarrow> nat \<Rightarrow> string"

subsection \<open>Handler\<close>

text \<open>The threat reporter is the list of what it was told, the shadow store of the ML engine the list of what it was
  offered.\<close>

record Handler =
  hd_cfg :: GlobalConfig
  hd_lists :: "Sets option"
  hd_allows :: "AllowSets option"
  hd_feeds :: "Cache option"
  hd_limiter :: "Limiter option"
  hd_subnetLimit :: "Limiter option"
  hd_globalLimit :: "Limiter option"
  hd_chal :: "Manager option"
  hd_captcha :: "CaptchaVerifier option"
  hd_pages :: bool
  hd_upstream :: Proxy
  hd_routes :: "Table option"
  hd_access :: "AccessManager option"
  hd_acmeHTTP :: bool
  hd_trusted :: "IPNet list"
  hd_priv :: "PrivacyGuard option"
  hd_prot :: "Guard option"
  hd_nf :: "CountTracker option"
  hd_pen :: "CountTracker option"
  hd_beh :: "BehaviorTracker option"
  hd_health :: "Checker option"
  hd_detectCfg :: DetectConfig
  hd_crawlerVerify :: bool
  hd_crawlerSpoof :: int
  hd_challengeAlways :: bool
  hd_high404Action :: action
  hd_penAction :: action
  hd_subnetV4 :: int
  hd_subnetV6 :: int
  hd_writeCost :: int
  hd_forgeRateCost :: int
  hd_forgeFlavor :: ForgeFlavor
  hd_wbaSpoof :: int
  hd_aiPolicy :: string
  hd_rslBody :: string
  hd_llmsBody :: string
  hd_redirectHTTP :: bool
  hd_reqLog :: "Logger option"
  hd_threatOverlay :: "Overlay option"
  hd_reports :: "(string \<times> string \<times> string) list option"
  hd_traps :: "trapSet option"
  hd_notifier :: "Notifier option"
  hd_shadow :: "shadow_call list option"

text \<open>What the client gets.  Pages of \<open>internal/ui\<close> are named by what they are rendered from.\<close>

datatype answer =
    BlockPage string
  | RateLimitPage
  | UpstreamPage
  | ErrorPage string
  | HttpError string int
  | TarpitStream
  | ChallengePage string bool string bool string
  | ChallengeStream
  | ChallengeHX string
  | ChallengeJSON string
  | AccessPage gate
  | PaymentRequired "(string, string) gomap"
  | Served served "bodyStream option"

text \<open>What the handlers know of a request: its identifier, the client and the key it is bound to, host and User-Agent.\<close>

record ctx =
  cx_reqID :: string
  cx_clientIP :: "IP option"
  cx_ipStr :: string
  cx_bindID :: string
  cx_host :: string
  cx_ua :: string

subsection \<open>Clients\<close>

definition resolveClientIP :: "Handler \<Rightarrow> Request \<Rightarrow> IP option" where
  "resolveClientIP h r =
     (if \<not> EqualFold (tr_Mode (cfg_Trust (hd_cfg h))) ''behind_proxy'' then ClientIP r [] []
      else ClientIP r (hd_trusted h) (tr_RealIPHeader (cfg_Trust (hd_cfg h))))"

definition pubReqID :: "Handler \<Rightarrow> string \<Rightarrow> string" where
  "pubReqID h reqID = (if \<not> pv_RequestIDs (cfg_Privacy (hd_cfg h)) then [] else reqID)"

definition clientBind :: "engines \<Rightarrow> Handler \<Rightarrow> string \<Rightarrow> string" where
  "clientBind en h ipStr = (if hd_priv h \<noteq> None then ClientKey (cy_hmac (en_crypto en)) (hd_priv h) ipStr else ipStr)"

definition logIP :: "engines \<Rightarrow> Handler \<Rightarrow> string \<Rightarrow> string" where
  "logIP en h ipStr = (if hd_priv h \<noteq> None then Privacy_LogIP (cy_hmac (en_crypto en)) (hd_priv h) ipStr else ipStr)"

definition requestSecure :: "Handler \<Rightarrow> Request \<Rightarrow> bool" where
  "requestSecure h r =
     (let cfg = hd_cfg h in
      if li_HTTPS (cfg_Listen cfg) \<noteq> [] \<or> li_QUIC (cfg_Listen cfg) \<noteq> [] then True
      else if SecureDefault (hd_chal h) then True
      else if \<not> EqualFold (tr_Mode (cfg_Trust cfg)) ''behind_proxy'' then req_TLS r
      else RequestHTTPS (Some r) (tr_ProtoHeader (cfg_Trust cfg)))"

definition ip_string :: "IP option \<Rightarrow> string" where
  "ip_string ip = (case ip of None \<Rightarrow> [] | Some i \<Rightarrow> IP_String i)"

definition request_ctx :: "engines \<Rightarrow> Handler \<Rightarrow> string \<Rightarrow> Request \<Rightarrow> ctx" where
  "request_ctx en h reqID r =
     (let ip = resolveClientIP h r in
      \<lparr> cx_reqID = reqID, cx_clientIP = ip, cx_ipStr = ip_string ip, cx_bindID = clientBind en h (ip_string ip),
        cx_host = pl_stripPort (req_Host r), cx_ua = header r ''User-Agent'' \<rparr>)"

definition skipChallenge :: "Handler \<Rightarrow> Request \<Rightarrow> bool" where
  "skipChallenge h r =
     (if list_ex (\<lambda>p. p \<noteq> [] \<and> HasPrefix (req_Path r) p) (chal_SkipPathPrefixes (cfg_Challenge (hd_cfg h))) then True
      else case hd_routes h of
        None \<Rightarrow> False
      | Some t \<Rightarrow> (case Lookup t r of None \<Rightarrow> False | Some m \<Rightarrow> rt_SkipChallenge (m_Route m)))"

definition pl_subnetKey :: "engines \<Rightarrow> Handler \<Rightarrow> IP option \<Rightarrow> string" where
  "pl_subnetKey en h ip = (if ip = None then [] else clientBind en h (SubnetKey ip (hd_subnetV4 h) (hd_subnetV6 h)))"

definition globalOver :: "Handler \<Rightarrow> gotime \<Rightarrow> bool \<times> Handler" where
  "globalOver h now =
     (case hd_globalLimit h of
        None \<Rightarrow> (False, h)
      | Some g \<Rightarrow> let (ok, g) = Limiter_Allow g ''site'' ''/'' now in (\<not> ok, h\<lparr> hd_globalLimit := Some g \<rparr>))"

definition upstreamHealthy :: "Handler \<Rightarrow> Request \<Rightarrow> bool" where
  "upstreamHealthy h r =
     (case hd_routes h of
        Some t \<Rightarrow> Table_Healthy t r
      | None \<Rightarrow> (case hd_health h of Some hc \<Rightarrow> Checker_Healthy hc | None \<Rightarrow> True))"

subsection \<open>Events and refusals\<close>

definition recordEvent :: "engines \<Rightarrow> Handler \<Rightarrow> Request \<Rightarrow> ctx \<Rightarrow> string \<Rightarrow> string \<Rightarrow> int \<Rightarrow> (string, string) gomap \<Rightarrow> gotime \<Rightarrow> Handler" where
  "recordEvent en h r cx action reason score details now =
     (if hd_reqLog h = None \<and> hd_notifier h = None then h
      else
        let ev = \<lparr> evt_RequestID = pubReqID h (cx_reqID cx), evt_Action = action, evt_Reason = reason, evt_Method = req_Method r,
                   evt_Path = req_Path r, evt_Host = cx_host cx, evt_UA = cx_ua cx, evt_IPHash = logIP en h (cx_ipStr cx),
                   evt_BindID = cx_bindID cx, evt_Score = score, evt_Details = details, evt_CreatedAt = 0 \<rparr>
        in h\<lparr> hd_notifier := Notify (hd_notifier h) ev, hd_reqLog := Logger_Record (hd_reqLog h) ev now \<rparr>)"

definition emitBlock :: "engines \<Rightarrow> Handler \<Rightarrow> Request \<Rightarrow> ctx \<Rightarrow> string \<Rightarrow> int \<Rightarrow> (string, string) gomap \<Rightarrow> gotime \<Rightarrow> answer \<times> Handler" where
  "emitBlock en h r cx reason score details now =
     (BlockPage reason, recordEvent en h r cx ActionBlock reason score details now)"

definition emitRateLimit :: "engines \<Rightarrow> Handler \<Rightarrow> Request \<Rightarrow> ctx \<Rightarrow> gotime \<Rightarrow> answer \<times> Handler" where
  "emitRateLimit en h r cx now = (RateLimitPage, recordEvent en h r cx ActionRateLimit ''Rate limited'' 0 [] now)"

definition reportThreatBan :: "Handler \<Rightarrow> string \<Rightarrow> string \<Rightarrow> Handler" where
  "reportThreatBan h bindID reason =
     (if bindID = [] then h else h\<lparr> hd_reports := map_option (\<lambda>l. l @ [(''bind'', bindID, reason)]) (hd_reports h) \<rparr>)"

definition prot_on :: "Handler \<Rightarrow> bool" where
  "prot_on h = Guard_Enabled (hd_prot h)"

definition prot_strike :: "Handler \<Rightarrow> string \<Rightarrow> gotime \<Rightarrow> Handler" where
  "prot_strike h bindID now =
     (if prot_on h then h\<lparr> hd_prot := map_option (\<lambda>g. Guard_Strike g bindID now) (hd_prot h) \<rparr> else h)"

definition auto_ban :: "Handler \<Rightarrow> string \<Rightarrow> gotime \<Rightarrow> Handler" where
  "auto_ban h bindID now =
     (if prot_on h
      then reportThreatBan (h\<lparr> hd_prot := map_option (\<lambda>g. Guard_BanNow g bindID now) (hd_prot h) \<rparr>) bindID ''auto ban''
      else h)"

subsection \<open>Challenge page\<close>

definition max_risk :: "RiskLevel \<Rightarrow> RiskLevel \<Rightarrow> RiskLevel" where
  "max_risk a b = (if risk_num a \<le> risk_num b then b else a)"

definition serveChallenge :: "engines \<Rightarrow> Handler \<Rightarrow> Request \<Rightarrow> ctx \<Rightarrow> RiskLevel \<Rightarrow> gotime \<Rightarrow> answer \<times> Handler" where
  "serveChallenge en h r cx risk now =
     (if hd_chal h = None then (ErrorPage ''Challenge unavailable'', h)
      else
        let cfg = hd_cfg h; cc = cfg_Challenge cfg;
            (prevRisk, prevGate) = TakeChallenge (hd_chal h) (cx_bindID cx) (unix_sec now);
            risk = max_risk prevRisk (FloorRiskForMode (chal_Mode cc) risk);
            gate = ResolveGate (chal_Mode cc) risk prevGate (cap_Enabled (chal_Captcha cc));
            h = h\<lparr> hd_chal := RememberChallenge (hd_chal h) (cx_bindID cx) risk gate (unix_sec now) \<rparr>;
            captchaOn = (cap_Enabled (chal_Captcha cc) \<and> gate = GateInteractive);
            h = recordEvent en h r cx ActionChallenge ''Challenge required'' 0 [(''gate'', gate)] now
        in if \<not> wantsHTMLChallenge r then
             let ret = challengeReturnTo (en_parseURL en) r in
             if IsSSE (Some r) then (ChallengeStream, h)
             else if header r ''HX-Request'' \<noteq> [] then (ChallengeHX ret, h)
             else (ChallengeJSON ret, h)
           else
             let nxt = safeNextPath (RequestURI r) in
             (ChallengePage gate captchaOn nxt (chal_NoJSFallback cc \<and> IsTextBrowserUA (cx_ua cx))
                (chal_PathPrefix cc @ ''/noscript?next='' @ QueryEscape nxt), h))"

definition denyLimited :: "engines \<Rightarrow> Handler \<Rightarrow> Request \<Rightarrow> ctx \<Rightarrow> string \<Rightarrow> bool \<Rightarrow> bool \<Rightarrow> gotime \<Rightarrow> answer \<times> Handler" where
  "denyLimited en h r cx reason isStream strike now =
     (let h = (if strike then prot_strike h (cx_bindID cx) now else h);
          cfg = hd_cfg h;
          h' = recordEvent en h r cx ActionRateLimit reason 0 [] now
      in if isStream then (HttpError ''rate limited'' 429, h')
         else if rl_ChallengeOver (cfg_RateLimit cfg) \<and> chal_Enabled (cfg_Challenge cfg) \<and> hd_chal h \<noteq> None \<and> \<not> skipChallenge h r
         then serveChallenge en h' r cx RiskElevated now
         else (RateLimitPage, h'))"

definition serveTrap :: "engines \<Rightarrow> Handler \<Rightarrow> Request \<Rightarrow> ctx \<Rightarrow> trapSet \<Rightarrow> gotime \<Rightarrow> answer \<times> Handler" where
  "serveTrap en h r cx t now =
     (let details = [(''trap'', req_Path r)]; reason = ''Honeypot path'' in
      case ts_action t of
        actionBan \<Rightarrow>
          let h = (if prot_on h
                   then reportThreatBan
                          (h\<lparr> hd_prot := map_option (\<lambda>g. Guard_BanUntil g (cx_bindID cx) (now + ts_banTTL t) now) (hd_prot h) \<rparr>)
                          (cx_bindID cx) ''honeypot ban''
                   else h)
          in emitBlock en h r cx reason 0 details now
      | actionTarpit \<Rightarrow> (TarpitStream, recordEvent en h r cx ActionBlock reason 0 details now)
      | actionChallenge \<Rightarrow> serveChallenge en h r cx RiskElevated now
      | _ \<Rightarrow> emitBlock en h r cx reason 0 details now)"

subsection \<open>Payment\<close>

definition paymentRequirements :: "Handler \<Rightarrow> Request \<Rightarrow> (string, string) gomap" where
  "paymentRequirements h r =
     (let p = det_AIPay (cfg_Detect (hd_cfg h)); scheme = (if \<not> requestSecure h r then ''http'' else ''https'') in
      [(''scheme'', ''exact''), (''network'', pay_Network p), (''maxAmountRequired'', pay_Amount p),
       (''resource'', scheme @ ''://'' @ req_Host r @ RequestURI r), (''description'', pay_Description p), (''mimeType'', ''text/html''),
       (''payTo'', pay_PayTo p), (''maxTimeoutSeconds'', ''300''), (''asset'', pay_Asset p)])"

text \<open>The facilitator's answer to the signature and the requirements is \<open>en_paymentValid\<close>.\<close>

definition aiPaymentValid :: "engines \<Rightarrow> Handler \<Rightarrow> Request \<Rightarrow> bool" where
  "aiPaymentValid en h r =
     (if pay_Facilitator (det_AIPay (cfg_Detect (hd_cfg h))) = [] then False
      else
        let sig = header r ''PAYMENT-SIGNATURE''; sig = (if sig = [] then header r ''X-PAYMENT'' else sig)
        in if sig = [] then False else en_paymentValid en sig (paymentRequirements h r))"

definition emitPaymentRequired :: "engines \<Rightarrow> Handler \<Rightarrow> Request \<Rightarrow> ctx \<Rightarrow> gotime \<Rightarrow> answer \<times> Handler" where
  "emitPaymentRequired en h r cx now =
     (PaymentRequired (paymentRequirements h r), recordEvent en h r cx ActionPayment ''payment required'' 0 [] now)"

definition readOptionalFile :: "fs \<Rightarrow> string \<Rightarrow> string" where
  "readOptionalFile d path = (if path = [] then [] else case map_of d path of None \<Rightarrow> [] | Some b \<Rightarrow> b)"

definition servePolicyFile :: "string \<Rightarrow> Request \<Rightarrow> int \<times> string" where
  "servePolicyFile body r =
     (if req_Method r \<noteq> ''GET'' \<and> req_Method r \<noteq> ''HEAD'' then (405, ''method not allowed'')
      else if body = [] then (404, ''404 page not found'')
      else (200, if req_Method r = ''GET'' then body else []))"

end
