(* ===== verification/Pipeline.thy ===== *)
theory Pipeline
  imports PipeState
begin

text \<open>
  The guard of the request pipeline (\<open>guard\<close> of \<open>internal/pipeline/pipeline.go\<close> with the methods it calls): the gates in
  the order of the code, each a function from the handler to a step, which stops with an answer or goes on with a value, and
  the changed handler.
\<close>

section \<open>Definitions\<close>

datatype 'a step = Stop answer | Go 'a

text \<open>A gate followed by the rest of the handler.\<close>

definition and_then :: "'a step \<times> Handler \<Rightarrow> ('a \<Rightarrow> Handler \<Rightarrow> 'b step \<times> Handler) \<Rightarrow> 'b step \<times> Handler" where
  "and_then s k = (case s of (Stop a, h) \<Rightarrow> (Stop a, h) | (Go x, h) \<Rightarrow> k x h)"

definition stop :: "answer \<times> Handler \<Rightarrow> 'a step \<times> Handler" where
  "stop ah = (case ah of (a, h) \<Rightarrow> (Stop a, h))"

subsection \<open>Admission\<close>

definition gate_protect :: "engines \<Rightarrow> Request \<Rightarrow> ctx \<Rightarrow> gotime \<Rightarrow> Handler \<Rightarrow> unit step \<times> Handler" where
  "gate_protect en r cx now h =
     (case hd_prot h of
        None \<Rightarrow> (Go (), h)
      | Some g \<Rightarrow>
          if \<not> prot_on h then (Go (), h)
          else
            let reason = CheckRequestSize g (req_Path r) (req_RawQuery r) (req_ContentLength r) in
            if reason \<noteq> [] then stop (emitBlock en h r cx reason 0 [] now)
            else
              let (banned, g) = Guard_Banned g (cx_bindID cx) now; h = h\<lparr> hd_prot := Some g \<rparr> in
              if banned then stop (emitBlock en h r cx ''Temporarily banned'' 0 [] now)
              else
                let (ok, g) = Guard_Acquire g (cx_bindID cx); h = h\<lparr> hd_prot := Some g \<rparr> in
                if \<not> ok then stop (emitRateLimit en h r cx now) else (Go (), h))"

text \<open>The body as the handlers read it: \<open>LimitBody\<close> makes reading past the limit fail.\<close>

definition request_body :: "Handler \<Rightarrow> Request \<Rightarrow> bodyStream option" where
  "request_body h r =
     (if \<not> req_HasBody r then None
      else case (case hd_prot h of None \<Rightarrow> None | Some g \<Rightarrow> LimitBody g (req_HasBody r)) of
        None \<Rightarrow> Some \<lparr> bs_data = req_Body r, bs_fails = False \<rparr>
      | Some n \<Rightarrow> Some \<lparr> bs_data = take (nat n) (req_Body r), bs_fails = int (length (req_Body r)) > n \<rparr>)"

subsection \<open>Lists and feeds\<close>

definition gate_lists :: "engines \<Rightarrow> Request \<Rightarrow> ctx \<Rightarrow> gotime \<Rightarrow> Handler \<Rightarrow> unit step \<times> Handler" where
  "gate_lists en r cx now h =
     (case hd_lists h of
        None \<Rightarrow> (Go (), h)
      | Some s \<Rightarrow>
          if Sets_IPBlocked s (cx_clientIP cx) then stop (emitBlock en h r cx ''IP blocked'' 0 [] now)
          else if Sets_DNSBlocked s (cx_host cx) then stop (emitBlock en h r cx ''Host blocked'' 0 [] now)
          else if Sets_UABlocked s (cx_ua cx) then
            let h = h\<lparr> hd_reports := map_option (\<lambda>l. l @ [(''ua'', cx_ua cx, ''ua blocklist'')]) (hd_reports h) \<rparr>
            in stop (emitBlock en h r cx ''Client blocked'' 0 [] now)
          else (Go (), h))"

definition gate_overlay :: "engines \<Rightarrow> Request \<Rightarrow> ctx \<Rightarrow> gotime \<Rightarrow> Handler \<Rightarrow> unit step \<times> Handler" where
  "gate_overlay en r cx now h =
     (let tov = hd_threatOverlay h; ja4 = header r ''X-JA4'' in
      if tov = None then (Go (), h)
      else if Overlay_IPBlocked tov (cx_clientIP cx) now then stop (emitBlock en h r cx ''Shared IP block'' 0 [] now)
      else if Overlay_DNSBlocked tov (cx_host cx) now then stop (emitBlock en h r cx ''Shared host block'' 0 [] now)
      else if Overlay_UABlocked tov (cx_ua cx) now then stop (emitBlock en h r cx ''Shared client block'' 0 [] now)
      else if ja4 \<noteq> [] \<and> Overlay_JA4Blocked tov ja4 now then stop (emitBlock en h r cx ''Shared fingerprint block'' 0 [] now)
      else (Go (), h))"

definition gate_feeds :: "engines \<Rightarrow> Request \<Rightarrow> ctx \<Rightarrow> gotime \<Rightarrow> Handler \<Rightarrow> unit step \<times> Handler" where
  "gate_feeds en r cx now h =
     (case hd_feeds h of
        None \<Rightarrow> (Go (), h)
      | Some c \<Rightarrow>
          if Cache_IPBlocked c (cx_clientIP cx) \<or> Cache_DomainBlocked c (cx_host cx)
          then stop (emitBlock en h r cx ''Threat feed match'' 0 [] now) else (Go (), h))"

definition gate_traps :: "engines \<Rightarrow> Request \<Rightarrow> ctx \<Rightarrow> gotime \<Rightarrow> Handler \<Rightarrow> unit step \<times> Handler" where
  "gate_traps en r cx now h =
     (case hd_traps h of
        None \<Rightarrow> (Go (), h)
      | Some t \<Rightarrow> if trap_Match t (req_Path r) then stop (serveTrap en h r cx t now) else (Go (), h))"

definition gate_health :: "Request \<Rightarrow> Handler \<Rightarrow> unit step \<times> Handler" where
  "gate_health r h = (if \<not> upstreamHealthy h r then (Stop UpstreamPage, h) else (Go (), h))"

subsection \<open>Attack signatures and engines\<close>

text \<open>The value of this gate: whether the built-in signatures are skipped, and the body.\<close>

definition gate_coraza :: "engines \<Rightarrow> Request \<Rightarrow> ctx \<Rightarrow> gotime \<Rightarrow> bodyStream option \<Rightarrow> Handler \<Rightarrow> (bool \<times> bodyStream option) step \<times> Handler" where
  "gate_coraza en r cx now body h =
     (case en_coraza en of
        None \<Rightarrow> (Go (False, body), h)
      | Some eng \<Rightarrow>
          let (cr, body) = cz_Evaluate eng r body;
              details = [(''rule_id'', FormatInt (cz_RuleID cr)), (''action'', cz_Action cr), (''data'', cz_Data cr)];
              skip = EqualFold (cz_Mode eng) ''block''
          in if cz_Matched cr \<and> cz_ShouldBlock cr then
               let h = auto_ban h (cx_bindID cx) now in
               (Stop (BlockPage ''Request blocked by WAF rules''), recordEvent en h r cx ActionCoraza ''Coraza rule matched'' 0 details now)
             else if cz_Matched cr then (Go (skip, body), recordEvent en h r cx ActionCoraza ''Coraza detect match'' 0 details now)
             else (Go (skip, body), h))"

definition gate_attack :: "engines \<Rightarrow> Request \<Rightarrow> ctx \<Rightarrow> gotime \<Rightarrow> bool \<Rightarrow> Handler \<Rightarrow> unit step \<times> Handler" where
  "gate_attack en r cx now skipAttack h =
     (if skipAttack then (Go (), h)
      else
        let attack = AttackMatch (Some r) in
        if attack = [] then (Go (), h)
        else if \<not> prot_on h \<or> Guard_AttackBlock (hd_prot h) then
          stop (emitBlock en (auto_ban h (cx_bindID cx) now) r cx ''Attack pattern blocked'' 0 [(''attack'', attack)] now)
        else (Go (), h\<lparr> hd_prot := map_option (\<lambda>g. Guard_Strike g (cx_bindID cx) now) (hd_prot h) \<rparr>))"

text \<open>\<open>runSemanticML\<close>: its value is the extra points, whether a challenge is recommended, and the body.\<close>

definition sem_details :: "engines \<Rightarrow> semResult \<Rightarrow> (string, string) gomap" where
  "sem_details en s =
     [(''family'', sm_Family s), (''confidence'', en_fmtFloat en (sm_Confidence s) 3), (''evidence'', sm_Evidence s)]
     @ (if sm_Aborted s then [(''aborted'', sm_Error s)] else [])"

definition go_div2 :: "int \<Rightarrow> int" where
  "go_div2 n = (if n < 0 then - (- n div 2) else n div 2)"

definition run_semantic :: "engines \<Rightarrow> Request \<Rightarrow> ctx \<Rightarrow> gotime \<Rightarrow> string option \<Rightarrow> Handler \<Rightarrow> (int \<times> bool \<times> semResult option) step \<times> Handler" where
  "run_semantic en r cx now body h =
     (case en_semantic en of
        None \<Rightarrow> (Go (0, False, None), h)
      | Some sem \<Rightarrow>
          if \<not> se_Enabled sem then (Go (0, False, None), h)
          else
            let s = se_Evaluate sem r body; mode = se_Mode sem in
            if \<not> (sm_Matched s \<or> sm_Aborted s) then (Go (0, False, Some s), h)
            else if sm_ShouldBlock s then
              let h = auto_ban h (cx_bindID cx) now in
              (Stop (BlockPage ''Request blocked by semantic analysis''),
               recordEvent en h r cx ActionSemantic ''Semantic payload match'' (sm_Score s) (sem_details en s) now)
            else if sm_Matched s then
              let h = recordEvent en h r cx ActionSemantic ''Semantic detect match'' (sm_Score s) (sem_details en s) now;
                  needChal = (mode = ''challenge'' \<and> sm_NeedChal s)
              in if sm_Score s \<ge> 50
                 then (Go (min (go_div2 (sm_Score s)) 40, needChal \<or> mode = ''challenge'' \<or> mode = ''block'', Some s), h)
                 else (Go (0, needChal, Some s), h)
            else (Go (0, False, Some s), h))"

definition ml_input :: "engines \<Rightarrow> Handler \<Rightarrow> Request \<Rightarrow> string option \<Rightarrow> semResult option \<Rightarrow> mlInput" where
  "ml_input en h r body s =
     (let zero = \<lparr> mi_Body = body, mi_SemanticSQLi = 0, mi_SemanticXSS = 0, mi_SemanticCMD = 0, mi_SemanticPath = 0,
                   mi_BotScoreLow = False, mi_JA4Present = False \<rparr>;
          i = (case en_semantic en of
                 Some sem \<Rightarrow> se_Enrich sem r body zero
               | None \<Rightarrow> zero);
          ps = det_ProxySignals (cfg_Detect (hd_cfg h));
          ja4Hdr = (if ps_JA4Header ps = [] then ''X-JA4'' else ps_JA4Header ps);
          botHdr = (if ps_BotScoreHeader ps = [] then ''CF-Bot-Score'' else ps_BotScoreHeader ps);
          v = header r botHdr;
          low = (v \<noteq> [] \<and> (case ParseInt v of None \<Rightarrow> False | Some n \<Rightarrow> n > 0 \<and> n < 30))
      in i\<lparr> mi_JA4Present := header r ja4Hdr \<noteq> [], mi_BotScoreLow := mi_BotScoreLow i \<or> low \<rparr>)"

definition shadow_sample :: "Handler \<Rightarrow> Request \<Rightarrow> ctx \<Rightarrow> mlResult \<Rightarrow> mlSample" where
  "shadow_sample h r cx mr =
     (let mc = cfg_ML (hd_cfg h) in
      \<lparr> sp_RequestID = cx_reqID cx, sp_Prob = mr_Prob mr, sp_Points = mr_Points mr, sp_WouldBlock = mr_Prob mr \<ge> ml_BlockProb mc,
        sp_WouldChal = (mr_NeedChal mr \<or> mr_Prob mr \<ge> ml_ChallengeProb mc), sp_Features = mr_Features mr,
        sp_Method = req_Method r, sp_Path = req_Path r, sp_Host = cx_host cx \<rparr>)"

definition offer_shadow :: "Handler \<Rightarrow> Request \<Rightarrow> ctx \<Rightarrow> mlResult \<Rightarrow> Handler" where
  "offer_shadow h r cx mr =
     (let mc = cfg_ML (hd_cfg h); s = shadow_sample h r cx mr;
          c = (if mr_Prob mr \<ge> ml_BlockProb mc \<or> mr_NeedChal mr \<or> sp_WouldBlock s \<or> sp_WouldChal s then ShadowOffer s
               else ShadowMaybe (ml_ShadowSampleRate mc) s)
      in h\<lparr> hd_shadow := map_option (\<lambda>l. l @ [c]) (hd_shadow h) \<rparr>)"

definition run_ml :: "engines \<Rightarrow> Request \<Rightarrow> ctx \<Rightarrow> gotime \<Rightarrow> string option \<Rightarrow> int \<times> bool \<times> semResult option \<Rightarrow> Handler \<Rightarrow> (int \<times> bool) step \<times> Handler" where
  "run_ml en r cx now body sem h =
     (case sem of (extra, needChal, s) \<Rightarrow>
      case en_ml en of
        None \<Rightarrow> (Go (extra, needChal), h)
      | Some ms \<Rightarrow>
          if \<not> me_Enabled ms then (Go (extra, needChal), h)
          else
            let mr = me_Evaluate ms r (ml_input en h r body s);
                details = [(''prob'', en_fmtFloat en (mr_Prob mr) 4), (''confidence'', en_fmtFloat en (mr_Confidence mr) 3),
                           (''model'', mr_ModelHash mr)]
            in if mr_ShouldBlock mr then
                 let h = recordEvent en h r cx ActionML ''ML block'' (mr_Points mr) details now in
                 (Stop (BlockPage ''Request blocked by ML score''), auto_ban h (cx_bindID cx) now)
               else
                 let signal = (mr_Points mr > 0 \<or> mr_NeedChal mr);
                     shadow = (mr_ShadowOnly mr \<or> me_Mode ms = ''shadow'');
                     h = (if signal \<and> shadow then recordEvent en h r cx ActionML ''ML shadow'' (mr_Points mr) details now
                          else if signal \<and> mr_NeedChal mr
                          then recordEvent en h r cx ActionML ''ML challenge signal'' (mr_Points mr) details now
                          else h)
                 in (Go (if signal then extra + mr_Points mr else extra, needChal \<or> (signal \<and> \<not> shadow \<and> mr_NeedChal mr)),
                     offer_shadow h r cx mr))"

definition runSemanticML :: "engines \<Rightarrow> Request \<Rightarrow> ctx \<Rightarrow> gotime \<Rightarrow> bodyStream option \<Rightarrow> Handler \<Rightarrow> (int \<times> bool \<times> bodyStream option) step \<times> Handler" where
  "runSemanticML en r cx now body h =
     (let sem_off = (case en_semantic en of None \<Rightarrow> True | Some s \<Rightarrow> \<not> se_Enabled s);
          ml_off = (case en_ml en of None \<Rightarrow> True | Some s \<Rightarrow> \<not> me_Enabled s)
      in if sem_off \<and> ml_off then (Go (0, False, body), h)
         else
           let maxBody = sem_MaxBodyInspect (cfg_Semantic (hd_cfg h));
               maxBody = (if maxBody \<le> 0 then 65536 else maxBody);
               c = (if body \<noteq> None \<and> req_Method r \<noteq> ''GET'' \<and> req_Method r \<noteq> ''HEAD'' then Capture body maxBody
                    else \<lparr> cr_captured = None, cr_err = False, cr_body = body, cr_contentLength = None \<rparr>)
           in and_then (run_semantic en r cx now (cr_captured c) h)
                (\<lambda>sem h. and_then (run_ml en r cx now (cr_captured c) sem h)
                  (\<lambda>(extra, needChal) h. (Go (extra, needChal, cr_body c), h))))"

definition gate_engines :: "engines \<Rightarrow> Request \<Rightarrow> ctx \<Rightarrow> gotime \<Rightarrow> bool \<Rightarrow> bodyStream option \<Rightarrow> Handler \<Rightarrow> (int \<times> bool \<times> bodyStream option) step \<times> Handler" where
  "gate_engines en r cx now allowed body h =
     (if \<not> allowed \<and> \<not> IsGitSmartHTTP (Some r) then runSemanticML en r cx now body h else (Go (0, False, body), h))"

subsection \<open>Rate limits\<close>

definition rate_cost :: "Handler \<Rightarrow> Request \<Rightarrow> int" where
  "rate_cost h r =
     (let cost = (if prot_on h then MethodCost (req_Method r) (hd_writeCost h) else 1) in
      if ClassifyRequest (hd_forgeFlavor h) (req_Path r) (req_RawQuery r) = ForgeHot \<and> hd_forgeRateCost h > cost
      then hd_forgeRateCost h else cost)"

definition gate_global :: "engines \<Rightarrow> Request \<Rightarrow> ctx \<Rightarrow> gotime \<Rightarrow> bool \<Rightarrow> Handler \<Rightarrow> unit step \<times> Handler" where
  "gate_global en r cx now isStream h =
     (let (over, h) = globalOver h now in
      if over then stop (denyLimited en h r cx ''Global rate limit'' isStream False now) else (Go (), h))"

definition gate_subnet :: "engines \<Rightarrow> Request \<Rightarrow> ctx \<Rightarrow> gotime \<Rightarrow> bool \<Rightarrow> int \<Rightarrow> Handler \<Rightarrow> unit step \<times> Handler" where
  "gate_subnet en r cx now isStream cost h =
     (case hd_subnetLimit h of
        None \<Rightarrow> (Go (), h)
      | Some l \<Rightarrow>
          let key = pl_subnetKey en h (cx_clientIP cx) in
          if cx_clientIP cx = None \<or> key = [] then (Go (), h)
          else let (ok, l) = Limiter_AllowN l key ''/'' cost now; h = h\<lparr> hd_subnetLimit := Some l \<rparr> in
               if \<not> ok then stop (denyLimited en h r cx ''Subnet rate limit'' isStream False now) else (Go (), h))"

definition gate_client :: "engines \<Rightarrow> Request \<Rightarrow> ctx \<Rightarrow> gotime \<Rightarrow> bool \<Rightarrow> int \<Rightarrow> Handler \<Rightarrow> unit step \<times> Handler" where
  "gate_client en r cx now isStream cost h =
     (case hd_limiter h of
        None \<Rightarrow> (Go (), h)
      | Some l \<Rightarrow>
          let (ok, l) = Limiter_AllowN l (cx_bindID cx) (req_Path r) cost now; h = h\<lparr> hd_limiter := Some l \<rparr> in
          if \<not> ok then stop (denyLimited en h r cx ''Rate limited'' isStream True now) else (Go (), h))"

definition gate_rate :: "engines \<Rightarrow> Request \<Rightarrow> ctx \<Rightarrow> gotime \<Rightarrow> Handler \<Rightarrow> unit step \<times> Handler" where
  "gate_rate en r cx now h =
     (if \<not> rl_Enabled (cfg_RateLimit (hd_cfg h)) then (Go (), h)
      else
        let cost = rate_cost h r; isStream = IsStreamProtocol (Some r) in
        and_then (gate_global en r cx now isStream h)
          (\<lambda>_ h. and_then (gate_subnet en r cx now isStream cost h) (\<lambda>_ h. gate_client en r cx now isStream cost h)))"

subsection \<open>Access, schemas and the upstream\<close>

definition gate_access :: "engines \<Rightarrow> Request \<Rightarrow> ctx \<Rightarrow> gotime \<Rightarrow> bool \<Rightarrow> Handler \<Rightarrow> unit step \<times> Handler" where
  "gate_access en r cx now websocket h =
     (let record = (\<lambda>reason policy. recordEvent en h r cx ActionAccess reason 0 [(''policy_id'', policy)] now) in
      case checkAccess (cy_hmac (en_crypto en)) (hd_access h) (hd_routes h) (hd_pages h) (chal_PathPrefix (cfg_Challenge (hd_cfg h))) r
             (cx_bindID cx) (cx_clientIP cx) websocket now of
        Admit \<Rightarrow> (Go (), h)
      | RefuseError reason status policy \<Rightarrow> (Stop (HttpError reason status), record reason policy)
      | PageAccessForm kind act policy \<Rightarrow> (Stop (AccessPage (PageAccessForm kind act policy)), record ''access form required'' policy)
      | PlainForm resp policy \<Rightarrow> (Stop (AccessPage (PlainForm resp policy)), record ''access form required'' policy)
      | PageBlock reason policy \<Rightarrow> (Stop (BlockPage reason), record reason policy))"

definition checkOpenAPI :: "engines \<Rightarrow> Request \<Rightarrow> ctx \<Rightarrow> gotime \<Rightarrow> Handler \<Rightarrow> unit step \<times> Handler" where
  "checkOpenAPI en r cx now h =
     (case (en_schemas en, hd_routes h) of
        (Some validate, Some t) \<Rightarrow>
          (case Lookup t r of
             None \<Rightarrow> (Go (), h)
           | Some m \<Rightarrow>
               if rt_OpenAPISchemaID (m_Route m) = [] then (Go (), h)
               else
                 let res = validate r (rt_OpenAPISchemaID (m_Route m)) in
                 if sc_OK res then (Go (), h)
                 else
                   let h = recordEvent en h r cx ActionOpenAPI (sc_Reason res) 0 [(''schema_id'', sc_SchemaID res)] now in
                   if \<not> sc_ShouldBlock res then (Go (), h)
                   else if IsWebSocketUpgrade (Some r) then (Stop (HttpError ''openapi schema violation'' 403), h)
                   else (Stop (BlockPage ''OpenAPI schema violation''), h))
      | _ \<Rightarrow> (Go (), h))"

definition forwarded :: "Handler \<Rightarrow> Request \<Rightarrow> ctx \<Rightarrow> Request" where
  "forwarded h r cx =
     (let r = (if cx_clientIP cx \<noteq> None
               then SetClientForwardHeadersIP r (cx_ipStr cx) (if requestSecure h r then ''https'' else ''http'') else r);
          name = TrimSpace (st_RequestIDHeader (cfg_Stealth (hd_cfg h)))
      in if name \<noteq> [] then r\<lparr> req_Header := Header_Set (req_Header r) name (cx_reqID cx) \<rparr> else r)"

definition serve_upstream :: "Handler \<Rightarrow> Request \<Rightarrow> served" where
  "serve_upstream h r = (case hd_routes h of Some t \<Rightarrow> Table_ServeHTTP t r | None \<Rightarrow> serve_with (Some (hd_upstream h)) None r)"

definition served_status :: "engines \<Rightarrow> served \<Rightarrow> bodyStream option \<Rightarrow> int" where
  "served_status en s body = (case s of Proxied out \<Rightarrow> en_status en out body | NotFound \<Rightarrow> 404 | Unhealthy \<Rightarrow> 502)"

definition pl_proxy :: "engines \<Rightarrow> Request \<Rightarrow> ctx \<Rightarrow> gotime \<Rightarrow> bodyStream option \<Rightarrow> Handler \<Rightarrow> answer \<times> Handler" where
  "pl_proxy en r cx now body h =
     (let r = forwarded h r cx; s = serve_upstream h r; cfg = hd_cfg h in
      if IsStreamProtocol (Some r) \<or> (hd_nf h = None \<and> hd_pen h = None \<and> missCacheTTL cfg \<le> 0) \<or> \<not> det_Enabled (cfg_Detect cfg)
      then (Served s body, h)
      else
        let st = served_status en s body in
        (Served s body,
         h\<lparr> hd_nf := map_option (\<lambda>t. NotFound_Record t (cx_bindID cx) st now) (hd_nf h),
            hd_pen := map_option (\<lambda>t. Penalty_Record t (cx_bindID cx) st now) (hd_pen h) \<rparr>))"

text \<open>The last steps, shared by every path to the upstream.\<close>

definition admit_and_proxy :: "engines \<Rightarrow> Request \<Rightarrow> ctx \<Rightarrow> gotime \<Rightarrow> bool \<Rightarrow> bodyStream option \<Rightarrow> Handler \<Rightarrow> unit step \<times> Handler" where
  "admit_and_proxy en r cx now websocket body h =
     and_then (gate_access en r cx now websocket h)
       (\<lambda>_ h. and_then (checkOpenAPI en r cx now h) (\<lambda>_ h. stop (pl_proxy en r cx now body h)))"

subsection \<open>WebSocket handshakes\<close>

definition challenge_applies :: "Handler \<Rightarrow> Request \<Rightarrow> bool \<Rightarrow> bool" where
  "challenge_applies h r allowed \<longleftrightarrow>
     \<not> allowed \<and> chal_Enabled (cfg_Challenge (hd_cfg h)) \<and> hd_chal h \<noteq> None \<and> \<not> skipChallenge h r"

definition has_clearance :: "engines \<Rightarrow> Request \<Rightarrow> ctx \<Rightarrow> gotime \<Rightarrow> Handler \<Rightarrow> bool \<times> Handler" where
  "has_clearance en r cx now h =
     (case hd_chal h of
        None \<Rightarrow> (False, h)
      | Some m \<Rightarrow> let (ok, m) = HasClearance (en_crypto en) m r (cx_bindID cx) now in (ok, h\<lparr> hd_chal := Some m \<rparr>))"

definition gate_websocket :: "engines \<Rightarrow> Request \<Rightarrow> ctx \<Rightarrow> gotime \<Rightarrow> bool \<Rightarrow> bodyStream option \<Rightarrow> Handler \<Rightarrow> unit step \<times> Handler" where
  "gate_websocket en r cx now allowed body h =
     (if \<not> IsWebSocketUpgrade (Some r) then (Go (), h)
      else
        let (ok, h) = (if challenge_applies h r allowed then has_clearance en r cx now h else (True, h)) in
        if \<not> ok then (Stop (HttpError ''clearance required'' 403), recordEvent en h r cx ActionChallenge ''clearance required'' 0 [] now)
        else admit_and_proxy en r cx now True body h)"

subsection \<open>Detection\<close>

definition web_bot :: "engines \<Rightarrow> Request \<Rightarrow> WebBotVerdict" where
  "web_bot en r =
     (case en_wba en of None \<Rightarrow> WebBotNone | Some check \<Rightarrow> if header r ''Signature-Agent'' \<noteq> [] then check r else WebBotNone)"

definition scorer_config :: "engines \<Rightarrow> Handler \<Rightarrow> Request \<Rightarrow> DetectConfig" where
  "scorer_config en h r =
     (let d = hd_detectCfg h in
      if web_bot en r = WebBotVerified \<and> hd_aiPolicy h \<noteq> ''block'' \<and> hd_aiPolicy h \<noteq> ''pay'' then d\<lparr> dc_AIUAAction := ''allow'' \<rparr> else d)"

definition gate_behavior :: "engines \<Rightarrow> Request \<Rightarrow> ctx \<Rightarrow> gotime \<Rightarrow> Handler \<Rightarrow> unit step \<times> Handler" where
  "gate_behavior en r cx now h =
     (if hd_beh h = None then (Go (), h)
      else
        let b = Behavior_Record (hd_beh h) (cx_bindID cx) (req_Path r) (req_RawQuery r) (req_Method r) (cx_ua cx) now;
            (over, b) = StrikesExceeded b (cx_bindID cx) now;
            h = h\<lparr> hd_beh := b \<rparr>
        in if over then stop (emitBlock en (auto_ban h (cx_bindID cx) now) r cx ''Too many failed challenges'' 0 [] now)
           else (Go (), h))"

definition detect_result :: "engines \<Rightarrow> Request \<Rightarrow> ctx \<Rightarrow> gotime \<Rightarrow> int \<Rightarrow> Handler \<Rightarrow> int \<times> Handler" where
  "detect_result en r cx now mlExtra h =
     (let base = dr_Score (Score r (scorer_config en h r));
          wba = (if web_bot en r = WebBotInvalid then hd_wbaSpoof h else 0);
          (br, b) = (if hd_beh h = None then (zero_result, None) else Behavior_Score (hd_beh h) (cx_bindID cx) now);
          crawler = (case (en_crawlerSpoofed en, cx_clientIP cx) of
                       (Some spoofed, Some ip) \<Rightarrow> if hd_crawlerVerify h \<and> spoofed ip (cx_ua cx) then hd_crawlerSpoof h else 0
                     | _ \<Rightarrow> 0);
          ml = (if mlExtra > 0 then mlExtra else 0)
      in (base + wba + dr_Score br + crawler + ml, h\<lparr> hd_beh := b \<rparr>))"

text \<open>The reasons stored with a refusal.\<close>

definition score_details :: "engines \<Rightarrow> Request \<Rightarrow> ctx \<Rightarrow> gotime \<Rightarrow> int \<Rightarrow> int \<Rightarrow> Handler \<Rightarrow> (string, string) gomap \<times> Handler" where
  "score_details en r cx now mlExtra score h =
     (if \<not> score > 0 then ([], h)
      else
        let dbg = dr_Reasons (ScoreDebug r (scorer_config en h r));
            (br, b) = (if hd_beh h = None then (zero_result, None) else Behavior_Score (hd_beh h) (cx_bindID cx) now);
            reasons = dbg @ dr_Reasons br @ (if mlExtra > 0 then [''ml''] else [])
        in (if reasons \<noteq> [] then [(''reasons'', join (CHR '','') reasons)] else [], h\<lparr> hd_beh := b \<rparr>))"

definition gate_block_score :: "engines \<Rightarrow> Request \<Rightarrow> ctx \<Rightarrow> gotime \<Rightarrow> int \<Rightarrow> int \<Rightarrow> Handler \<Rightarrow> unit step \<times> Handler" where
  "gate_block_score en r cx now mlExtra score h =
     (if score \<ge> det_BlockScore (cfg_Detect (hd_cfg h)) then
        let h = prot_strike h (cx_bindID cx) now; (details, h) = score_details en r cx now mlExtra score h
        in stop (emitBlock en h r cx ''Request blocked'' score details now)
      else (Go (), h))"

definition gate_ai :: "engines \<Rightarrow> Request \<Rightarrow> ctx \<Rightarrow> gotime \<Rightarrow> int \<Rightarrow> Handler \<Rightarrow> unit step \<times> Handler" where
  "gate_ai en r cx now score h =
     (if \<not> IsAIUA (cx_ua cx) then (Go (), h)
      else if hd_aiPolicy h = ''block'' then
        stop (emitBlock en (prot_strike h (cx_bindID cx) now) r cx ''AI crawlers not allowed'' score [] now)
      else if hd_aiPolicy h = ''pay'' \<and> \<not> aiPaymentValid en h r then stop (emitPaymentRequired en h r cx now)
      else (Go (), h))"

text \<open>The value: whether the tracker asks for a challenge.\<close>

definition tracker_action :: "engines \<Rightarrow> Request \<Rightarrow> ctx \<Rightarrow> gotime \<Rightarrow> action \<Rightarrow> string \<Rightarrow> bool \<Rightarrow> Handler \<Rightarrow> bool step \<times> Handler" where
  "tracker_action en r cx now act reason exceeded h =
     (if \<not> exceeded then (Go False, h)
      else case act of
        actionBlock \<Rightarrow> stop (emitBlock en (prot_strike h (cx_bindID cx) now) r cx reason 0 [] now)
      | actionTarpit \<Rightarrow>
          (Stop TarpitStream, recordEvent en (prot_strike h (cx_bindID cx) now) r cx ActionBlock reason 0 [] now)
      | actionOff \<Rightarrow> (Go False, h)
      | _ \<Rightarrow> (Go True, h))"

definition gate_notfound :: "engines \<Rightarrow> Request \<Rightarrow> ctx \<Rightarrow> gotime \<Rightarrow> Handler \<Rightarrow> bool step \<times> Handler" where
  "gate_notfound en r cx now h =
     (case hd_nf h of
        None \<Rightarrow> (Go False, h)
      | Some t \<Rightarrow>
          let (over, t) = NotFound_Exceeded t (cx_bindID cx) now in
          tracker_action en r cx now (hd_high404Action h) ''Too many missing pages'' over (h\<lparr> hd_nf := Some t \<rparr>))"

definition gate_penalty :: "engines \<Rightarrow> Request \<Rightarrow> ctx \<Rightarrow> gotime \<Rightarrow> Handler \<Rightarrow> bool step \<times> Handler" where
  "gate_penalty en r cx now h =
     (case hd_pen h of
        None \<Rightarrow> (Go False, h)
      | Some t \<Rightarrow>
          let (over, t) = Penalty_Exceeded t (cx_bindID cx) now in
          tracker_action en r cx now (hd_penAction h) ''Too many expensive responses'' over (h\<lparr> hd_pen := Some t \<rparr>))"

text \<open>The value: whether a challenge is needed, and the score.\<close>

definition gate_detect :: "engines \<Rightarrow> Request \<Rightarrow> ctx \<Rightarrow> gotime \<Rightarrow> bool \<Rightarrow> int \<Rightarrow> bool \<Rightarrow> Handler \<Rightarrow> (bool \<times> int) step \<times> Handler" where
  "gate_detect en r cx now allowed mlExtra semNeedChal h =
     (if allowed \<or> IsGitSmartHTTP (Some r) \<or> \<not> det_Enabled (cfg_Detect (hd_cfg h)) then (Go (semNeedChal, 0), h)
      else
        and_then (gate_behavior en r cx now h) (\<lambda>_ h.
          let (score, h) = detect_result en r cx now mlExtra h;
              need = (semNeedChal \<or> score \<ge> det_ChallengeScore (cfg_Detect (hd_cfg h)))
          in and_then (gate_block_score en r cx now mlExtra score h) (\<lambda>_ h.
             and_then (gate_ai en r cx now score h) (\<lambda>_ h.
             and_then (gate_notfound en r cx now h) (\<lambda>n1 h.
             and_then (gate_penalty en r cx now h) (\<lambda>n2 h. (Go (need \<or> n1 \<or> n2, score), h)))))))"

subsection \<open>Challenge\<close>

definition isHotForge :: "Handler \<Rightarrow> Request \<Rightarrow> bool" where
  "isHotForge h r \<longleftrightarrow> ClassifyRequest (hd_forgeFlavor h) (req_Path r) (req_RawQuery r) = ForgeHot"

definition isSameOriginSSE :: "Handler \<Rightarrow> Request \<Rightarrow> bool" where
  "isSameOriginSSE h r \<longleftrightarrow>
     \<not> hd_challengeAlways h \<and> IsSSE (Some r) \<and> isSameOriginRequest r \<and> \<not> isTopLevelNavigation r \<and> \<not> isHotForge h r"

definition soft_pass :: "Handler \<Rightarrow> Request \<Rightarrow> bool" where
  "soft_pass h r \<longleftrightarrow>
     isSameOriginSSE h r \<or>
     (\<not> hd_challengeAlways h \<and> \<not> wantsHTMLChallenge r \<and> isBrowserSameOriginSubrequest r \<and> \<not> isHotForge h r)"

definition gate_challenge :: "engines \<Rightarrow> Request \<Rightarrow> ctx \<Rightarrow> gotime \<Rightarrow> bool \<Rightarrow> bool \<Rightarrow> int \<Rightarrow> Handler \<Rightarrow> unit step \<times> Handler" where
  "gate_challenge en r cx now allowed needChallenge detectScore h =
     (if \<not> (challenge_applies h r allowed \<and> \<not> IsGitSmartHTTP (Some r)) then (Go (), h)
      else
        let (ok, h) = has_clearance en r cx now h; cfg = hd_cfg h; cc = cfg_Challenge cfg in
        if ok then (Go (), h)
        else if \<not> (hd_challengeAlways h \<or> needChallenge) then (Go (), h)
        else
          let risk = RiskFromScore detectScore (det_ChallengeScore (cfg_Detect cfg)) (det_BlockScore (cfg_Detect cfg)) in
          if soft_pass h r then
            let risk = FloorRiskForMode (chal_Mode cc) risk;
                gate = ResolveGate (chal_Mode cc) risk [] (cap_Enabled (chal_Captcha cc))
            in (Go (), h\<lparr> hd_chal := RememberChallenge (hd_chal h) (cx_bindID cx) risk gate (unix_sec now) \<rparr>)
          else
            let risk = (if hd_challengeAlways h \<and> detectScore = 0 then RiskLow else risk);
                risk = FloorRiskForMode (chal_Mode cc) risk
            in stop (serveChallenge en h r cx risk now))"

subsection \<open>The guard\<close>

definition client_allowed :: "Handler \<Rightarrow> Request \<Rightarrow> ctx \<Rightarrow> bool" where
  "client_allowed h r cx \<longleftrightarrow> hd_allows h \<noteq> None \<and> Allow_Match (hd_allows h) (cx_clientIP cx) (cx_ua cx) (Some (req_Header r))"

text \<open>The gates before the rate limits, then the limits, then the path to the upstream.\<close>

definition guard_screen :: "engines \<Rightarrow> Request \<Rightarrow> ctx \<Rightarrow> gotime \<Rightarrow> bool \<Rightarrow> bodyStream option \<Rightarrow> Handler \<Rightarrow> (int \<times> bool \<times> bodyStream option) step \<times> Handler" where
  "guard_screen en r cx now allowed body h =
     and_then (gate_lists en r cx now h) (\<lambda>_ h.
     and_then (gate_overlay en r cx now h) (\<lambda>_ h.
     and_then (gate_feeds en r cx now h) (\<lambda>_ h.
     and_then (gate_traps en r cx now h) (\<lambda>_ h.
     and_then (gate_health r h) (\<lambda>_ h.
     and_then (gate_coraza en r cx now body h) (\<lambda>(skipAttack, body) h.
     and_then (gate_attack en r cx now skipAttack h) (\<lambda>_ h.
     gate_engines en r cx now allowed body h)))))))"

definition guard_rest :: "engines \<Rightarrow> Request \<Rightarrow> ctx \<Rightarrow> gotime \<Rightarrow> bool \<Rightarrow> int \<times> bool \<times> bodyStream option \<Rightarrow> Handler \<Rightarrow> unit step \<times> Handler" where
  "guard_rest en r cx now allowed v h =
     (case v of (mlExtra, semNeedChal, body) \<Rightarrow>
      and_then (gate_rate en r cx now h) (\<lambda>_ h.
      and_then (gate_websocket en r cx now allowed body h) (\<lambda>_ h.
      and_then (gate_detect en r cx now allowed mlExtra semNeedChal h) (\<lambda>(need, score) h.
      let score = (if mlExtra > 0 \<and> score = 0 then mlExtra else score) in
      and_then (gate_challenge en r cx now allowed need score h) (\<lambda>_ h.
      admit_and_proxy en r cx now False body h)))))"

definition guard_admitted :: "engines \<Rightarrow> Request \<Rightarrow> ctx \<Rightarrow> gotime \<Rightarrow> bodyStream option \<Rightarrow> Handler \<Rightarrow> unit step \<times> Handler" where
  "guard_admitted en r cx now body h =
     (let allowed = client_allowed h r cx in
      and_then (guard_screen en r cx now allowed body h) (guard_rest en r cx now allowed))"

text \<open>A slot that was taken is given back when the handler returns.\<close>

definition guard :: "engines \<Rightarrow> Handler \<Rightarrow> string \<Rightarrow> Request \<Rightarrow> gotime \<Rightarrow> unit step \<times> Handler" where
  "guard en h reqID r now =
     (let cx = request_ctx en h reqID r in
      and_then (gate_protect en r cx now h) (\<lambda>_ h1.
        let (s, h2) = guard_admitted en r cx now (request_body h1 r) h1 in
        (s, if prot_on h then h2\<lparr> hd_prot := map_option (\<lambda>g. Guard_Release g (cx_bindID cx)) (hd_prot h2) \<rparr> else h2)))"

lemma snd_stop [simp]: "snd (stop ah) = snd ah" "fst (stop ah) = Stop (fst ah)"
  by (simp_all add: stop_def split: prod.splits)

section \<open>What the gates leave alone\<close>

text \<open>An observation of the handler that the elementary effects of the gates (an event, a strike or a ban, an update of a
  tracker, of a limiter or of the challenge store) do not change.  Then no gate changes it, however the gates are composed.\<close>

locale undisturbed =
  fixes obs :: "Handler \<Rightarrow> 'o"
  assumes obs_limiters: "obs (h\<lparr> hd_limiter := l1 \<rparr>) = obs h" "obs (h\<lparr> hd_subnetLimit := l2 \<rparr>) = obs h"
      "obs (h\<lparr> hd_globalLimit := l3 \<rparr>) = obs h"
    and obs_chal: "obs (h\<lparr> hd_chal := RememberChallenge (hd_chal h) b risk g t \<rparr>) = obs h"
      "obs (snd (has_clearance en r cx now h)) = obs h"
    and obs_trackers: "obs (h\<lparr> hd_nf := t1 \<rparr>) = obs h" "obs (h\<lparr> hd_pen := t2 \<rparr>) = obs h" "obs (h\<lparr> hd_beh := t3 \<rparr>) = obs h"
    and obs_logs: "obs (h\<lparr> hd_reports := w1 \<rparr>) = obs h" "obs (h\<lparr> hd_shadow := w2 \<rparr>) = obs h"
    and obs_event: "obs (recordEvent en h r cx a rs sc d now) = obs h"
    and obs_prot: "obs (h\<lparr> hd_prot := map_option (\<lambda>g. Guard_Strike g b now) (hd_prot h) \<rparr>) = obs h"
      "obs (h\<lparr> hd_prot := map_option (\<lambda>g. Guard_BanNow g b now) (hd_prot h) \<rparr>) = obs h"
      "obs (h\<lparr> hd_prot := map_option (\<lambda>g. Guard_BanUntil g b u now) (hd_prot h) \<rparr>) = obs h"
begin

lemmas obs_effects [simp] = obs_limiters obs_chal obs_trackers obs_logs obs_event obs_prot

lemma obs_emit [simp]:
  "obs (snd (emitBlock en h r cx rs sc d now)) = obs h" "obs (snd (emitRateLimit en h r cx now)) = obs h"
  "obs (snd (emitPaymentRequired en h r cx now)) = obs h"
  by (simp_all add: emitBlock_def emitRateLimit_def emitPaymentRequired_def)

lemma obs_ban [simp]:
  "obs (reportThreatBan h b rs) = obs h" "obs (prot_strike h b now) = obs h" "obs (auto_ban h b now) = obs h"
  by (simp_all add: reportThreatBan_def prot_strike_def auto_ban_def)

lemma obs_serve [simp]:
  "obs (snd (serveChallenge en h r cx risk now)) = obs h" "obs (snd (denyLimited en h r cx rs st sk now)) = obs h"
  "obs (snd (serveTrap en h r cx t now)) = obs h"
proof -
  show c: "obs (snd (serveChallenge en h r cx risk now)) = obs h" for h risk
    by (simp add: serveChallenge_def Let_def split: prod.split)
  show "obs (snd (denyLimited en h r cx rs st sk now)) = obs h"
    by (simp add: denyLimited_def Let_def c)
  show "obs (snd (serveTrap en h r cx t now)) = obs h"
    by (simp add: serveTrap_def Let_def c split: action.split)
qed

lemma obs_offer [simp]: "obs (offer_shadow h r cx mr) = obs h"
  by (simp add: offer_shadow_def Let_def)

text \<open>A gate is quiet when it only changes what gates may change.\<close>

definition quiet :: "'a step \<times> Handler \<Rightarrow> Handler \<Rightarrow> bool" where
  "quiet s h \<longleftrightarrow> obs (snd s) = obs h"

lemma quiet_then:
  assumes "quiet s h" "\<And>x h'. s = (Go x, h') \<Longrightarrow> obs h' = obs h \<Longrightarrow> quiet (k x h') h'"
  shows "quiet (and_then s k) h"
  using assms by (cases s; cases "fst s") (auto simp: and_then_def quiet_def)

lemma obs_if: "obs (if c then a else b) = (if c then obs a else obs b)"
  by simp

lemma quiet_pair: "obs h' = obs h \<Longrightarrow> quiet (s, h') h"
  by (simp add: quiet_def)

lemma quiet_stop: "obs (snd ah) = obs h \<Longrightarrow> quiet (stop ah) h"
  by (simp add: quiet_def)

lemma quiet_if: "quiet a h \<Longrightarrow> quiet b h \<Longrightarrow> quiet (if c then a else b) h"
  by simp

lemma quiet_option: "quiet n h \<Longrightarrow> (\<And>x. v = Some x \<Longrightarrow> quiet (f x) h) \<Longrightarrow> quiet (case v of None \<Rightarrow> n | Some x \<Rightarrow> f x) h"
  by (cases v) auto

lemma quiet_prod: "(\<And>a b. p = (a, b) \<Longrightarrow> quiet (f a b) h) \<Longrightarrow> quiet (case p of (a, b) \<Rightarrow> f a b) h"
  by (cases p) auto

lemma quiet_prod_app: "(\<And>a b. p = (a, b) \<Longrightarrow> quiet (f a b h') h) \<Longrightarrow> quiet ((case p of (a, b) \<Rightarrow> f a b) h') h"
  by (cases p) auto

lemma quiet_let: "(\<And>x. x = e \<Longrightarrow> quiet (f x) h) \<Longrightarrow> quiet (Let e f) h"
  by (simp add: Let_def)

lemmas quiet_intros = quiet_pair quiet_stop quiet_if quiet_option quiet_prod quiet_prod_app quiet_let

lemma quiet_lists : "quiet (gate_lists en r cx now h) h"
  unfolding gate_lists_def by (intro quiet_intros) (auto simp: obs_if)

lemma quiet_overlay : "quiet (gate_overlay en r cx now h) h"
  unfolding gate_overlay_def by (intro quiet_intros) (auto simp: obs_if)

lemma quiet_feeds : "quiet (gate_feeds en r cx now h) h"
  unfolding gate_feeds_def by (intro quiet_intros) (auto simp: obs_if)

lemma quiet_traps : "quiet (gate_traps en r cx now h) h"
  unfolding gate_traps_def by (intro quiet_intros) (auto simp: obs_if)

lemma quiet_health : "quiet (gate_health r h) h"
  unfolding gate_health_def by (intro quiet_intros) (auto simp: obs_if)

lemma quiet_coraza : "quiet (gate_coraza en r cx now body h) h"
  unfolding gate_coraza_def by (intro quiet_intros) (auto simp: obs_if)

lemma quiet_attack : "quiet (gate_attack en r cx now skip h) h"
  unfolding gate_attack_def by (intro quiet_intros) (auto simp: obs_if)

lemma quiet_run_semantic : "quiet (run_semantic en r cx now bs h) h"
  unfolding run_semantic_def by (intro quiet_intros) (auto simp: obs_if)

lemma quiet_run_ml : "quiet (run_ml en r cx now bs sem h) h"
  unfolding run_ml_def by (intro quiet_intros) (auto simp: obs_if)

lemma quiet_global : "quiet (gate_global en r cx now st h) h"
  unfolding gate_global_def globalOver_def by (intro quiet_intros) (auto simp: obs_if Let_def split: option.splits prod.splits)

lemma quiet_subnet : "quiet (gate_subnet en r cx now st cost h) h"
  unfolding gate_subnet_def by (intro quiet_intros) (auto simp: obs_if)

lemma quiet_client : "quiet (gate_client en r cx now st cost h) h"
  unfolding gate_client_def by (intro quiet_intros) (auto simp: obs_if)

lemmas quiet_simple = quiet_lists quiet_overlay quiet_feeds quiet_traps quiet_health quiet_coraza quiet_attack
  quiet_run_semantic quiet_run_ml quiet_global quiet_subnet quiet_client

lemma quiet_semML : "quiet (runSemanticML en r cx now body h) h"
  unfolding runSemanticML_def by (intro quiet_intros quiet_then quiet_simple refl)

lemma quiet_engines : "quiet (gate_engines en r cx now allowed body h) h"
  unfolding gate_engines_def by (intro quiet_intros quiet_semML refl)

lemma quiet_rate : "quiet (gate_rate en r cx now h) h"
  unfolding gate_rate_def by (intro quiet_intros quiet_then quiet_simple refl)

lemma quiet_access : "quiet (gate_access en r cx now ws h) h"
  unfolding gate_access_def Let_def by (simp add: quiet_def split: gate.split)

lemma quiet_openapi : "quiet (checkOpenAPI en r cx now h) h"
  unfolding checkOpenAPI_def by (intro quiet_intros) (auto simp: obs_if)

lemma obs_proxy [simp]: "obs (snd (pl_proxy en r cx now body h)) = obs h"
  by (simp add: pl_proxy_def Let_def)

lemma quiet_admit : "quiet (admit_and_proxy en r cx now ws body h) h"
  unfolding admit_and_proxy_def by (intro quiet_intros quiet_then quiet_access quiet_openapi) simp

lemma obs_clearanceD: "p = has_clearance en r cx now h \<Longrightarrow> p = (ok, h') \<Longrightarrow> obs h' = obs h"
  using obs_chal(2) [of en r cx now h] by (metis snd_conv)

lemma quiet_trans: "quiet s h' \<Longrightarrow> obs h' = obs h \<Longrightarrow> quiet s h"
  by (simp add: quiet_def)

lemma quiet_websocket : "quiet (gate_websocket en r cx now allowed body h) h"
proof -
  have "obs h' = obs h"
    if "(if challenge_applies h r allowed then has_clearance en r cx now h else (True, h)) = (ok, h')" for ok h'
    using that obs_clearanceD [OF refl, of en r cx now h ok h'] by (auto split: if_splits)
  then show ?thesis
    unfolding gate_websocket_def by (intro quiet_intros) (auto intro!: quiet_trans [OF quiet_admit] dest!: sym [of "(_, _)"])
qed

lemma quiet_behavior : "quiet (gate_behavior en r cx now h) h"
  unfolding gate_behavior_def by (intro quiet_intros) auto

lemma obs_result [simp]: "obs (snd (detect_result en r cx now x h)) = obs h"
  by (simp add: detect_result_def Let_def split: prod.split)

lemma obs_details [simp]: "obs (snd (score_details en r cx now x sc h)) = obs h"
  by (simp add: score_details_def Let_def split: prod.split)

lemma obs_resultD: "p = detect_result en r cx now x h \<Longrightarrow> p = (sc, h') \<Longrightarrow> obs h' = obs h"
  using obs_result [of en r cx now x h] by (metis snd_conv)

lemma obs_detailsD: "p = score_details en r cx now x sc h \<Longrightarrow> p = (d, h') \<Longrightarrow> obs h' = obs h"
  using obs_details [of en r cx now x sc h] by (metis snd_conv)

lemma quiet_block_score : "quiet (gate_block_score en r cx now x sc h) h"
  unfolding gate_block_score_def by (intro quiet_intros) (auto dest!: obs_detailsD [OF refl] sym [of "(_, _)"])

lemma quiet_ai : "quiet (gate_ai en r cx now sc h) h"
  unfolding gate_ai_def by (intro quiet_intros) auto

lemma quiet_tracker: "quiet (tracker_action en r cx now act rs ex h) h"
  unfolding tracker_action_def by (auto simp: quiet_def split: action.split)

lemma quiet_trackers : "quiet (gate_notfound en r cx now h) h" "quiet (gate_penalty en r cx now h) h"
  using quiet_tracker by (auto simp: gate_notfound_def gate_penalty_def quiet_def Let_def split: option.split prod.split)

lemma quiet_detect : "quiet (gate_detect en r cx now allowed x need h) h"
proof -
  have q: "quiet (and_then (gate_block_score en r cx now x sc h1) (\<lambda>_ h.
      and_then (gate_ai en r cx now sc h) (\<lambda>_ h.
      and_then (gate_notfound en r cx now h) (\<lambda>n1 h.
      and_then (gate_penalty en r cx now h) (\<lambda>n2 h. (Go (nd \<or> n1 \<or> n2, sc), h)))))) h1" for sc nd h1
    by (intro quiet_intros quiet_then quiet_block_score quiet_ai quiet_trackers refl)
  show ?thesis
    unfolding gate_detect_def
    by (intro quiet_if quiet_pair quiet_then quiet_let quiet_prod quiet_behavior refl quiet_trans [OF q]) (rule obs_resultD)
qed

lemma quiet_challenge : "quiet (gate_challenge en r cx now allowed need sc h) h"
proof -
  have "obs h' = obs h" if "has_clearance en r cx now h = (ok, h')" for ok h'
    using obs_clearanceD [OF refl that] .
  then show ?thesis
    unfolding gate_challenge_def by (intro quiet_intros) (auto dest!: sym [of "(_, _)"])
qed

lemma quiet_screen : "quiet (guard_screen en r cx now allowed body h) h"
  unfolding guard_screen_def by (intro quiet_intros quiet_then quiet_simple quiet_engines)

lemma quiet_rest: "quiet (guard_rest en r cx now allowed v h) h"
  unfolding guard_rest_def by (intro quiet_intros quiet_then quiet_rate quiet_websocket quiet_detect quiet_challenge quiet_admit)

theorem undisturbed_admitted: "obs (snd (guard_admitted en r cx now body h)) = obs h"
proof -
  have "quiet (guard_admitted en r cx now body h) h"
    unfolding guard_admitted_def by (intro quiet_let quiet_then quiet_screen quiet_rest)
  then show ?thesis by (simp add: quiet_def)
qed

end

end
