(* ===== verification/PipeThms.thy ===== *)
theory PipeThms
  imports Pipeline
begin

text \<open>
  What the guard guarantees: concurrency slots are balanced, the configuration is only read, a request that reaches the
  upstream has passed every gate, and what switching off request identifiers and asking for a WebSocket do.
\<close>

section \<open>Observations no gate disturbs\<close>

text \<open>The configuration and the lists.\<close>

definition static :: "Handler \<Rightarrow> Handler" where
  "static h = h\<lparr> hd_limiter := None, hd_subnetLimit := None, hd_globalLimit := None, hd_chal := None, hd_prot := None, hd_nf := None,
     hd_pen := None, hd_beh := None, hd_reqLog := None, hd_notifier := None, hd_reports := None, hd_shadow := None \<rparr>"

interpretation st: undisturbed static
  by unfold_locales (simp_all add: static_def recordEvent_def has_clearance_def Let_def split: option.split prod.split)

text \<open>The concurrency counters and the configuration of the protect guard.\<close>

definition guard_slots :: "Guard \<Rightarrow> Config option \<times> int \<times> (string, int) gomap" where
  "guard_slots g = (g_cfg g, g_global g, g_clients g)"

definition slots :: "Handler \<Rightarrow> (Config option \<times> int \<times> (string, int) gomap) option" where
  "slots h = map_option guard_slots (hd_prot h)"

lemma cfg_frame [simp]:
  "g_cfg (snd (Guard_Banned g k t)) = g_cfg g" "g_cfg (Guard_Strike g k t) = g_cfg g" "g_cfg (Guard_BanUntil g k u t) = g_cfg g"
  "g_cfg (snd (Guard_Acquire g k)) = g_cfg g" "g_cfg (Guard_Release g k) = g_cfg g"
  by (auto simp: Guard_Banned_def Guard_Strike_def Guard_BanUntil_def Guard_Acquire_def Guard_Release_def Let_def split: option.splits)

lemma guard_slots_frame [simp]:
  "guard_slots (snd (Guard_Banned g k t)) = guard_slots g" "guard_slots (Guard_Strike g k t) = guard_slots g"
  "guard_slots (Guard_BanUntil g k u t) = guard_slots g" "guard_slots (Guard_BanNow g k t) = guard_slots g"
  by (simp_all add: guard_slots_def Guard_BanNow_def Let_def)

interpretation sl: undisturbed slots
  by unfold_locales
    (simp_all add: slots_def recordEvent_def has_clearance_def Let_def option.map_comp comp_def split: option.split prod.split)

text \<open>The request log, when request identifiers are off.\<close>

definition unlogged :: "Handler \<Rightarrow> Logger option option" where
  "unlogged h = (if pv_RequestIDs (cfg_Privacy (hd_cfg h)) then None else Some (hd_reqLog h))"

lemma Record_no_id: "evt_RequestID e = [] \<Longrightarrow> Logger_Record l e now = l"
  by (simp add: Logger_Record_def split: option.split)

interpretation ul: undisturbed unlogged
  by unfold_locales
    (simp_all add: unlogged_def recordEvent_def pubReqID_def Record_no_id has_clearance_def Let_def split: option.split prod.split)

text \<open>What a clearance cookie is checked against, and whether cookies are marked secure.\<close>

definition clearance_keys :: "Handler \<Rightarrow> (string \<times> bool \<times> liveSettings) option" where
  "clearance_keys h = map_option (\<lambda>m. (mg_Secret m, mg_Secure m, fst (settings m))) (hd_chal h)"

lemma settings_again: "fst (settings (snd (settings m))) = fst (settings m)" "mg_Secret (snd (settings m)) = mg_Secret m"
    "mg_Secure (snd (settings m)) = mg_Secure m"
  by (simp_all add: settings_def Let_def split: option.split)

lemma settings_risks: "fst (settings (m\<lparr> mg_risks := x \<rparr>)) = fst (settings m)"
  by (simp add: settings_def Let_def split: option.split)

lemma snd_HasClearance: "snd (HasClearance cy m r b now) = snd (settings m)"
  by (simp add: HasClearance_def split: prod.split)

interpretation ck: undisturbed clearance_keys
proof (unfold_locales, goal_cases)
  case (5 en r cx now h)
  show ?case
  proof (cases "hd_chal h")
    case (Some m)
    obtain ok m' where "HasClearance (en_crypto en) m r (cx_bindID cx) now = (ok, m')" by fastforce
    moreover from this have "m' = snd (settings m)" using snd_HasClearance by (metis snd_conv)
    ultimately show ?thesis using Some by (simp add: clearance_keys_def has_clearance_def settings_again)
  qed (simp add: has_clearance_def)
qed (simp_all add: clearance_keys_def recordEvent_def RememberChallenge_def option.map_comp comp_def settings_risks Let_def)

lemma validateCookie_cong: "mg_Secret m' = mg_Secret m \<Longrightarrow> chal_validateCookie cy m' v b now = chal_validateCookie cy m v b now"
proof -
  assume "mg_Secret m' = mg_Secret m"
  then have mac: "chal_mac cy m' = chal_mac cy m" by (intro ext) (simp add: chal_mac_def)
  show ?thesis unfolding chal_validateCookie_def mac ..
qed

lemma HasClearance_iff:
  "fst (HasClearance cy m r b now) \<longleftrightarrow>
     (\<exists>v. Request_Cookie r (ls_CookieName (fst (settings m))) = Some v \<and> v \<noteq> [] \<and> chal_validateCookie cy m v b now = None)"
proof -
  have "chal_validateCookie cy (snd (settings m)) v b now = chal_validateCookie cy m v b now" for v
    by (rule validateCookie_cong) (rule settings_again)
  then show ?thesis
    by (auto simp: HasClearance_def split: prod.split option.split)
qed

lemma clearance_cong:
  assumes "clearance_keys h' = clearance_keys h"
  shows "fst (has_clearance en r cx now h') = fst (has_clearance en r cx now h)"
proof (cases "hd_chal h")
  case None
  with assms show ?thesis by (simp add: clearance_keys_def has_clearance_def)
next
  case (Some m)
  with assms obtain m' where m': "hd_chal h' = Some m'" "mg_Secret m' = mg_Secret m" "fst (settings m') = fst (settings m)"
    by (auto simp: clearance_keys_def)
  have "fst (HasClearance (en_crypto en) m' r (cx_bindID cx) now) = fst (HasClearance (en_crypto en) m r (cx_bindID cx) now)"
    by (simp add: HasClearance_iff m'(3) validateCookie_cong [OF m'(2)])
  with Some m'(1) show ?thesis
    by (simp add: has_clearance_def) (simp add: case_prod_beta)
qed

section \<open>Slots and the request log\<close>

text \<open>The slots of the protect guard: its configuration, the global counter and the counter of every client.\<close>

definition slot_view :: "Guard \<Rightarrow> Config option \<times> int \<times> (string \<Rightarrow> int)" where
  "slot_view g = (g_cfg g, g_global g, slot_count g)"

lemma slot_view_slots: "guard_slots g' = guard_slots g \<Longrightarrow> slot_view g' = slot_view g"
  by (auto simp: guard_slots_def slot_view_def slot_count_def)

lemma acquire_refused: "Guard_Acquire g k = (False, g1) \<Longrightarrow> slot_view g1 = slot_view g"
  by (auto simp: Guard_Acquire_def slot_view_def slot_count_def Let_def split: if_splits option.splits)

lemma acquire_release:
  assumes "Guard_Acquire g k = (True, g1)" "guard_slots g2 = guard_slots g1"
  shows "slot_view (Guard_Release g2 k) = slot_view g"
proof -
  have "Guard_live g2 = Guard_live g" "g_global g2 = g_global g1" "g_clients g2 = g_clients g1" "g_cfg g2 = g_cfg g"
    using assms cfg_frame(4) [of g k] by (simp_all add: guard_slots_def Guard_live_def)
  then show ?thesis
    using assms(1)
    by (auto simp: Guard_Acquire_def Guard_Release_def slot_view_def slot_count_def Let_def split: if_splits option.splits)
qed

lemma prot_part: "static (h\<lparr> hd_prot := x \<rparr>) = static h" "unlogged (h\<lparr> hd_prot := x \<rparr>) = unlogged h"
    "clearance_keys (h\<lparr> hd_prot := x \<rparr>) = clearance_keys h"
  by (simp_all add: static_def unlogged_def clearance_keys_def)

text \<open>The three ways the protect guard answers.\<close>

lemma protect_cases:
  obtains (off) "\<not> prot_on h" "gate_protect en r cx now h = (Go (), h)"
  | (refused) g g1 a h1 where "prot_on h" "hd_prot h = Some g" "gate_protect en r cx now h = (Stop a, h1)" "hd_prot h1 = Some g1"
      "slot_view g1 = slot_view g" "static h1 = static h" "unlogged h1 = unlogged h" "\<forall>s b. a \<noteq> Served s b"
  | (taken) g g1 g2 where "prot_on h" "hd_prot h = Some g" "CheckRequestSize g (req_Path r) (req_RawQuery r) (req_ContentLength r) = []"
      "Guard_Banned g (cx_bindID cx) now = (False, g1)" "Guard_Acquire g1 (cx_bindID cx) = (True, g2)"
      "gate_protect en r cx now h = (Go (), h\<lparr> hd_prot := Some g2 \<rparr>)" "slot_view g1 = slot_view g"
proof (cases "hd_prot h")
  case None
  then show ?thesis by (intro off) (simp_all add: prot_on_def Guard_Enabled_def gate_protect_def)
next
  case (Some g)
  show ?thesis
  proof (cases "prot_on h")
    case False
    with Some show ?thesis by (intro off) (simp_all add: gate_protect_def)
  next
    case True
    obtain banned g1 where b: "Guard_Banned g (cx_bindID cx) now = (banned, g1)" by fastforce
    obtain ok g2 where a: "Guard_Acquire g1 (cx_bindID cx) = (ok, g2)" by fastforce
    have v1: "slot_view g1 = slot_view g"
      using guard_slots_frame(1) [of g "cx_bindID cx" now] b by (intro slot_view_slots) simp
    have v2: "slot_view g2 = slot_view g" if "\<not> ok" using acquire_refused a v1 that by simp
    have prot: "hd_prot (recordEvent en h' r cx x y z d now) = hd_prot h'" for h' x y z d
      by (simp add: recordEvent_def Let_def)
    note defs = gate_protect_def emitBlock_def emitRateLimit_def stop_def
    consider "CheckRequestSize g (req_Path r) (req_RawQuery r) (req_ContentLength r) \<noteq> []"
      | "CheckRequestSize g (req_Path r) (req_RawQuery r) (req_ContentLength r) = []" banned
      | "CheckRequestSize g (req_Path r) (req_RawQuery r) (req_ContentLength r) = []" "\<not> banned" "\<not> ok"
      | "CheckRequestSize g (req_Path r) (req_RawQuery r) (req_ContentLength r) = []" "\<not> banned" ok
      by (cases banned; cases ok; cases "CheckRequestSize g (req_Path r) (req_RawQuery r) (req_ContentLength r) = []") simp_all
    then show ?thesis
    proof cases
      case 1
      then have "gate_protect en r cx now h = (Stop (BlockPage (CheckRequestSize g (req_Path r) (req_RawQuery r) (req_ContentLength r))),
          recordEvent en h r cx ActionBlock (CheckRequestSize g (req_Path r) (req_RawQuery r) (req_ContentLength r)) 0 [] now)"
        using True Some by (simp add: defs Let_def)
      from refused [OF True Some this] show ?thesis by (simp add: prot Some st.obs_event ul.obs_event)
    next
      case 2
      then have "gate_protect en r cx now h = (Stop (BlockPage ''Temporarily banned''),
          recordEvent en (h\<lparr> hd_prot := Some g1 \<rparr>) r cx ActionBlock ''Temporarily banned'' 0 [] now)"
        using True Some b by (simp add: defs)
      from refused [OF True Some this] v1 show ?thesis by (simp add: prot st.obs_event ul.obs_event prot_part)
    next
      case 3
      then have "gate_protect en r cx now h = (Stop RateLimitPage,
          recordEvent en (h\<lparr> hd_prot := Some g2 \<rparr>) r cx ActionRateLimit ''Rate limited'' 0 [] now)"
        using True Some a b by (simp add: defs)
      from refused [OF True Some this] v2 3 show ?thesis by (simp add: prot st.obs_event ul.obs_event prot_part)
    next
      case 4
      then have "gate_protect en r cx now h = (Go (), h\<lparr> hd_prot := Some g2 \<rparr>)"
        using True Some a b by (simp add: defs)
      with 4 True Some a b v1 show ?thesis by (intro taken [of g g1 g2]) simp_all
    qed
  qed
qed

lemma guard_off:
  "\<not> prot_on h \<Longrightarrow> gate_protect en r (request_ctx en h reqID r) now h = (Go (), h) \<Longrightarrow>
     guard en h reqID r now = guard_admitted en r (request_ctx en h reqID r) now (request_body h r) h"
  by (simp add: guard_def and_then_def Let_def)

lemma guard_refused:
  "gate_protect en r (request_ctx en h reqID r) now h = (Stop a, h1) \<Longrightarrow> guard en h reqID r now = (Stop a, h1)"
  by (simp add: guard_def and_then_def Let_def)

lemma guard_taken:
  "prot_on h \<Longrightarrow> gate_protect en r (request_ctx en h reqID r) now h = (Go (), h1) \<Longrightarrow>
   guard_admitted en r (request_ctx en h reqID r) now (request_body h1 r) h1 = (s, h2) \<Longrightarrow>
     guard en h reqID r now = (s, h2\<lparr> hd_prot := map_option (\<lambda>g. Guard_Release g (cx_bindID (request_ctx en h reqID r))) (hd_prot h2) \<rparr>)"
  by (simp add: guard_def and_then_def Let_def)

text \<open>C4: the guard gives back what it takes.  Whatever a request does and whichever gate ends it, after the guard has returned
  the configuration of the protect guard, its global counter and the counter of every client are what they were before.\<close>

theorem guard_slots_balanced:
  "map_option slot_view (hd_prot (snd (guard en h reqID r now))) = map_option slot_view (hd_prot h)"
proof (cases rule: protect_cases [where h = h and en = en and r = r and cx = "request_ctx en h reqID r" and now = now])
  case off
  have "slots (snd (guard_admitted en r (request_ctx en h reqID r) now (request_body h r) h)) = slots h"
    by (rule sl.undisturbed_admitted)
  then have "map_option slot_view (hd_prot (snd (guard_admitted en r (request_ctx en h reqID r) now (request_body h r) h)))
      = map_option slot_view (hd_prot h)"
    by (auto simp: slots_def dest!: slot_view_slots split: option.splits simp: map_option_case)
  with off show ?thesis by (simp add: guard_off)
next
  case (refused g g1 a h1)
  then show ?thesis by (simp add: guard_refused)
next
  case (taken g g1 g2)
  let ?cx = "request_ctx en h reqID r" and ?h = "h\<lparr> hd_prot := Some g2 \<rparr>"
  obtain s h2 where adm: "guard_admitted en r ?cx now (request_body ?h r) ?h = (s, h2)" by fastforce
  have "slots h2 = slots ?h" using sl.undisturbed_admitted [of en r ?cx now "request_body ?h r" ?h] adm by simp
  then obtain g3 where g3: "hd_prot h2 = Some g3" "guard_slots g3 = guard_slots g2"
    by (auto simp: slots_def)
  have "slot_view (Guard_Release g3 (cx_bindID ?cx)) = slot_view g"
    using acquire_release [OF taken(5) g3(2)] taken(7) by simp
  then show ?thesis
    using taken g3 by (simp add: guard_taken [OF taken(1) taken(6) adm])
qed

text \<open>C34: with \<open>privacy.request_ids = false\<close> the guard records nothing: the request log, its events and all its counters are
  the same after every request, refused or not.\<close>

theorem no_log_without_request_ids:
  assumes "\<not> pv_RequestIDs (cfg_Privacy (hd_cfg h))"
  shows "hd_reqLog (snd (guard en h reqID r now)) = hd_reqLog h"
proof -
  let ?cx = "request_ctx en h reqID r"
  have keep: "unlogged (snd (guard en h reqID r now)) = unlogged h"
  proof (cases rule: protect_cases [where h = h and en = en and r = r and cx = ?cx and now = now])
    case off
    then show ?thesis by (simp add: guard_off ul.undisturbed_admitted)
  next
    case (refused g g1 a h1)
    then show ?thesis by (simp add: guard_refused)
  next
    case (taken g g1 g2)
    let ?h = "h\<lparr> hd_prot := Some g2 \<rparr>"
    obtain s h2 where adm: "guard_admitted en r ?cx now (request_body ?h r) ?h = (s, h2)" by fastforce
    then have "unlogged h2 = unlogged h"
      using ul.undisturbed_admitted [of en r ?cx now "request_body ?h r" ?h] by (simp add: prot_part)
    then show ?thesis by (simp add: guard_taken [OF taken(1) taken(6) adm] prot_part)
  qed
  then show ?thesis using assms by (simp add: unlogged_def split: if_splits)
qed

section \<open>The way to the upstream\<close>

text \<open>Only the proxy step serves a request; every other gate refuses or goes on.\<close>

definition refusing :: "'a step \<times> Handler \<Rightarrow> bool" where
  "refusing s \<longleftrightarrow> (\<forall>a b. fst s \<noteq> Stop (Served a b))"

lemma refusing_Go: "refusing (Go x, h)"
  by (simp add: refusing_def)

lemma refusing_Stop: "(\<And>s b. a \<noteq> Served s b) \<Longrightarrow> refusing (Stop a, h)"
  by (simp add: refusing_def)

lemma refusing_stop: "(\<And>s b. fst ah \<noteq> Served s b) \<Longrightarrow> refusing (stop ah)"
  by (simp add: refusing_def)

lemma refusing_if: "refusing a \<Longrightarrow> refusing b \<Longrightarrow> refusing (if c then a else b)"
  by simp

lemma refusing_option: "refusing n \<Longrightarrow> (\<And>x. refusing (f x)) \<Longrightarrow> refusing (case v of None \<Rightarrow> n | Some x \<Rightarrow> f x)"
  by (cases v) auto

lemma refusing_prod: "(\<And>a b. refusing (f a b)) \<Longrightarrow> refusing (case p of (a, b) \<Rightarrow> f a b)"
  by (cases p) auto

lemma refusing_prod_app: "(\<And>a b. refusing (f a b h)) \<Longrightarrow> refusing ((case p of (a, b) \<Rightarrow> f a b) h)"
  by (cases p) auto

lemma refusing_let: "(\<And>x. refusing (f x)) \<Longrightarrow> refusing (Let e f)"
  by (simp add: Let_def)

lemma refusing_then: "refusing s \<Longrightarrow> (\<And>x h. refusing (k x h)) \<Longrightarrow> refusing (and_then s k)"
  by (cases s; cases "fst s") (auto simp: and_then_def refusing_def)

lemmas refusing_intros = refusing_Go refusing_Stop refusing_stop refusing_if refusing_option refusing_prod refusing_prod_app
  refusing_let refusing_then

lemma refusal_answers:
  "fst (emitBlock en h r cx rs sc d now) \<noteq> Served s b" "fst (emitRateLimit en h r cx now) \<noteq> Served s b"
  "fst (emitPaymentRequired en h r cx now) \<noteq> Served s b" "fst (serveChallenge en h r cx risk now) \<noteq> Served s b"
  "fst (denyLimited en h r cx rs st sk now) \<noteq> Served s b" "fst (serveTrap en h r cx t now) \<noteq> Served s b"
proof -
  show c: "fst (serveChallenge en h r cx risk now) \<noteq> Served s b" for h risk
    by (auto simp: serveChallenge_def Let_def split: prod.splits if_splits)
  show "fst (emitBlock en h r cx rs sc d now) \<noteq> Served s b" "fst (emitRateLimit en h r cx now) \<noteq> Served s b"
    "fst (emitPaymentRequired en h r cx now) \<noteq> Served s b"
    by (simp_all add: emitBlock_def emitRateLimit_def emitPaymentRequired_def)
  show "fst (denyLimited en h r cx rs st sk now) \<noteq> Served s b"
    by (simp add: denyLimited_def Let_def c)
  show "fst (serveTrap en h r cx t now) \<noteq> Served s b"
    by (simp add: serveTrap_def emitBlock_def Let_def c split: action.split)
qed

lemma refusing_tracker: "refusing (tracker_action en r cx now act rs ex h)"
  by (simp add: tracker_action_def emitBlock_def stop_def refusing_def split: action.split)

lemma refusing_screen: "refusing (guard_screen en r cx now allowed body h)"
  unfolding guard_screen_def gate_lists_def gate_overlay_def gate_feeds_def gate_traps_def gate_health_def gate_coraza_def
    gate_attack_def gate_engines_def runSemanticML_def run_semantic_def run_ml_def
  by (intro refusing_intros refusal_answers) simp_all

lemma refusing_rate: "refusing (gate_rate en r cx now h)"
  unfolding gate_rate_def gate_global_def gate_subnet_def gate_client_def
  by (intro refusing_intros refusal_answers)

lemma refusing_detect: "refusing (gate_detect en r cx now allowed x need h)"
  unfolding gate_detect_def gate_behavior_def gate_block_score_def gate_ai_def gate_notfound_def gate_penalty_def
  by (intro refusing_intros refusal_answers refusing_tracker)

lemma refusing_challenge: "refusing (gate_challenge en r cx now allowed need sc h)"
  unfolding gate_challenge_def by (intro refusing_intros refusal_answers)

lemma refusing_openapi: "refusing (checkOpenAPI en r cx now h)"
  unfolding checkOpenAPI_def by (intro refusing_intros) simp_all

lemma served_then:
  assumes "and_then s k = (Stop (Served a b), h')" "refusing s"
  obtains x h1 where "s = (Go x, h1)" "k x h1 = (Stop (Served a b), h')"
  using assms by (cases s; cases "fst s") (auto simp: and_then_def refusing_def)

lemma then_Go:
  assumes "and_then s k = (Go y, h')"
  obtains x h1 where "s = (Go x, h1)" "k x h1 = (Go y, h')"
  using assms by (cases s; cases "fst s") (auto simp: and_then_def)

text \<open>What going past each gate means.\<close>

lemma stop_not_Go [simp]: "stop ah \<noteq> (Go x, h)"
  by (cases ah) (simp add: stop_def)

lemma lists_Go: "gate_lists en r cx now h = (Go x, h1) \<Longrightarrow> h1 = h \<and> (\<forall>s. hd_lists h = Some s \<longrightarrow>
    \<not> Sets_IPBlocked s (cx_clientIP cx) \<and> \<not> Sets_DNSBlocked s (cx_host cx) \<and> \<not> Sets_UABlocked s (cx_ua cx))"
  by (auto simp: gate_lists_def Let_def split: option.splits if_splits)

lemma overlay_Go: "gate_overlay en r cx now h = (Go x, h1) \<Longrightarrow> h1 = h \<and> (hd_threatOverlay h \<noteq> None \<longrightarrow>
    \<not> Overlay_IPBlocked (hd_threatOverlay h) (cx_clientIP cx) now \<and> \<not> Overlay_DNSBlocked (hd_threatOverlay h) (cx_host cx) now \<and>
    \<not> Overlay_UABlocked (hd_threatOverlay h) (cx_ua cx) now \<and>
    (header r ''X-JA4'' \<noteq> [] \<longrightarrow> \<not> Overlay_JA4Blocked (hd_threatOverlay h) (header r ''X-JA4'') now))"
  by (auto simp: gate_overlay_def Let_def split: if_splits)

lemma feeds_Go: "gate_feeds en r cx now h = (Go x, h1) \<Longrightarrow> h1 = h \<and> (\<forall>c. hd_feeds h = Some c \<longrightarrow>
    \<not> Cache_IPBlocked c (cx_clientIP cx) \<and> \<not> Cache_DomainBlocked c (cx_host cx))"
  by (auto simp: gate_feeds_def split: option.splits if_splits)

lemma traps_Go: "gate_traps en r cx now h = (Go x, h1) \<Longrightarrow> h1 = h \<and> (\<forall>t. hd_traps h = Some t \<longrightarrow> \<not> trap_Match t (req_Path r))"
  by (auto simp: gate_traps_def split: option.splits if_splits)

lemma health_Go: "gate_health r h = (Go x, h1) \<Longrightarrow> h1 = h \<and> upstreamHealthy h r"
  by (auto simp: gate_health_def split: if_splits)

definition coraza_blocks :: "engines \<Rightarrow> bool" where
  "coraza_blocks en \<longleftrightarrow> (\<exists>e. en_coraza en = Some e \<and> EqualFold (cz_Mode e) ''block'')"

lemma coraza_Go: "gate_coraza en r cx now body h = (Go (skip, body'), h1) \<Longrightarrow> skip = coraza_blocks en \<and> slots h1 = slots h"
  using sl.quiet_coraza [of en r cx now body h]
  by (auto simp: gate_coraza_def coraza_blocks_def sl.quiet_def Let_def split: option.splits if_splits prod.splits)

lemma attack_Go: "gate_attack en r cx now skip h = (Go x, h1) \<Longrightarrow>
    AttackMatch (Some r) = [] \<or> skip \<or> (prot_on h \<and> \<not> Guard_AttackBlock (hd_prot h))"
  by (auto simp: gate_attack_def Let_def split: if_splits)

lemma slots_prot:
  assumes "slots h' = slots h"
  shows "prot_on h' = prot_on h" "Guard_AttackBlock (hd_prot h') = Guard_AttackBlock (hd_prot h)"
  using assms
  by (auto simp: slots_def guard_slots_def prot_on_def Guard_Enabled_def Guard_AttackBlock_def Guard_live_def map_option_case
      split: option.splits)

text \<open>What the screening gates have established when they let a request through.\<close>

definition screened :: "engines \<Rightarrow> Request \<Rightarrow> ctx \<Rightarrow> gotime \<Rightarrow> Handler \<Rightarrow> bool" where
  "screened en r cx now h \<longleftrightarrow>
     (\<forall>s. hd_lists h = Some s \<longrightarrow>
        \<not> Sets_IPBlocked s (cx_clientIP cx) \<and> \<not> Sets_DNSBlocked s (cx_host cx) \<and> \<not> Sets_UABlocked s (cx_ua cx)) \<and>
     (hd_threatOverlay h \<noteq> None \<longrightarrow>
        \<not> Overlay_IPBlocked (hd_threatOverlay h) (cx_clientIP cx) now \<and> \<not> Overlay_DNSBlocked (hd_threatOverlay h) (cx_host cx) now \<and>
        \<not> Overlay_UABlocked (hd_threatOverlay h) (cx_ua cx) now \<and>
        (header r ''X-JA4'' \<noteq> [] \<longrightarrow> \<not> Overlay_JA4Blocked (hd_threatOverlay h) (header r ''X-JA4'') now)) \<and>
     (\<forall>c. hd_feeds h = Some c \<longrightarrow> \<not> Cache_IPBlocked c (cx_clientIP cx) \<and> \<not> Cache_DomainBlocked c (cx_host cx)) \<and>
     (\<forall>t. hd_traps h = Some t \<longrightarrow> \<not> trap_Match t (req_Path r)) \<and>
     upstreamHealthy h r \<and>
     (AttackMatch (Some r) = [] \<or> coraza_blocks en \<or> (prot_on h \<and> \<not> Guard_AttackBlock (hd_prot h)))"

lemma screen_Go:
  assumes "guard_screen en r cx now allowed body h = (Go v, h1)"
  shows "screened en r cx now h"
  using assms unfolding guard_screen_def case_prod_beta
proof (elim then_Go)
  fix x1 g1 x2 g2 x3 g3 x4 g4 x5 g5 x6 g6 x7 g7
  assume "gate_lists en r cx now h = (Go x1, g1)" and "gate_overlay en r cx now g1 = (Go x2, g2)"
    and "gate_feeds en r cx now g2 = (Go x3, g3)" and "gate_traps en r cx now g3 = (Go x4, g4)" and "gate_health r g4 = (Go x5, g5)"
    and coraza: "gate_coraza en r cx now body g5 = (Go x6, g6)" and "gate_attack en r cx now (fst x6) g6 = (Go x7, g7)"
  note facts = this
  note e = lists_Go [OF facts(1)] overlay_Go [OF facts(2)] feeds_Go [OF facts(3)] traps_Go [OF facts(4)] health_Go [OF facts(5)]
    attack_Go [OF facts(7)]
  then have g: "g1 = h" "g2 = h" "g3 = h" "g4 = h" "g5 = h" by simp_all
  have "fst x6 = coraza_blocks en" "slots g6 = slots h"
    using coraza_Go [of en r cx now body g5 "fst x6" "snd x6" g6] coraza g by simp_all
  with e show ?thesis
    unfolding screened_def g using slots_prot [of g6 h] by blast
qed

text \<open>The path to the upstream: access is admitted, and where challenges are mandatory there is a clearance.\<close>

lemma static_fields:
  assumes "static h' = static h"
  shows "hd_cfg h' = hd_cfg h" "hd_routes h' = hd_routes h" "hd_access h' = hd_access h" "hd_pages h' = hd_pages h"
    "hd_challengeAlways h' = hd_challengeAlways h" "hd_aiPolicy h' = hd_aiPolicy h"
  using assms by (cases h; cases h'; simp add: static_def)+

definition access_admits :: "engines \<Rightarrow> Request \<Rightarrow> ctx \<Rightarrow> gotime \<Rightarrow> bool \<Rightarrow> Handler \<Rightarrow> bool" where
  "access_admits en r cx now ws h \<longleftrightarrow>
     checkAccess (cy_hmac (en_crypto en)) (hd_access h) (hd_routes h) (hd_pages h) (chal_PathPrefix (cfg_Challenge (hd_cfg h))) r
       (cx_bindID cx) (cx_clientIP cx) ws now = Admit"

lemma refusing_access: "refusing (gate_access en r cx now ws h)"
  by (simp add: gate_access_def refusing_def Let_def split: gate.split)

lemma admit_served:
  assumes "admit_and_proxy en r cx now ws body h = (Stop (Served s b), h')"
  shows "access_admits en r cx now ws h"
proof -
  from assms refusing_access obtain x h1 where "gate_access en r cx now ws h = (Go x, h1)"
    unfolding admit_and_proxy_def by (rule served_then)
  then show ?thesis
    by (auto simp: gate_access_def access_admits_def Let_def split: gate.splits)
qed

lemma access_static:
  assumes "static h' = static h"
  shows "access_admits en r cx now ws h' = access_admits en r cx now ws h"
  unfolding access_admits_def static_fields [OF assms] ..

lemma challenge_static:
  assumes "static h' = static h" "clearance_keys h' = clearance_keys h"
  shows "challenge_applies h' r allowed = challenge_applies h r allowed"
proof -
  have "hd_chal h' = None \<longleftrightarrow> hd_chal h = None" using assms(2) by (auto simp: clearance_keys_def)
  then show ?thesis unfolding challenge_applies_def skipChallenge_def static_fields [OF assms(1)] by simp
qed

lemma clearance_frame:
  "static (snd (has_clearance en r cx now h)) = static h" "clearance_keys (snd (has_clearance en r cx now h)) = clearance_keys h"
  by (rule st.obs_chal, rule ck.obs_chal)

lemma websocket_served:
  assumes "gate_websocket en r cx now allowed body h = (Stop (Served s b), h')"
  shows "IsWebSocketUpgrade (Some r) \<and> access_admits en r cx now True h \<and>
     (challenge_applies h r allowed \<longrightarrow> fst (has_clearance en r cx now h))"
proof -
  let ?p = "if challenge_applies h r allowed then has_clearance en r cx now h else (True, h)"
  have ws: "IsWebSocketUpgrade (Some r)" and ok: "fst ?p"
    and adm: "admit_and_proxy en r cx now True body (snd ?p) = (Stop (Served s b), h')"
    using assms by (auto simp: gate_websocket_def Let_def case_prod_beta split: if_splits)
  have "static (snd ?p) = static h" by (simp add: clearance_frame)
  from access_static [OF this] ws ok admit_served [OF adm] show ?thesis by auto
qed

lemma challenge_Go:
  assumes "gate_challenge en r cx now allowed need sc h = (Go x, h1)" "hd_challengeAlways h"
    "challenge_applies h r allowed" "\<not> IsGitSmartHTTP (Some r)"
  shows "fst (has_clearance en r cx now h)"
proof -
  have always: "hd_challengeAlways (snd (has_clearance en r cx now h))"
    using assms(2) static_fields(5) [OF clearance_frame(1)] by simp
  show ?thesis
    using assms always
    by (auto simp: gate_challenge_def soft_pass_def isSameOriginSSE_def Let_def case_prod_beta split: if_splits)
qed

text \<open>What the policy on AI crawlers asks of a request to which detection applies.\<close>

definition ai_policy_ok :: "engines \<Rightarrow> Request \<Rightarrow> ctx \<Rightarrow> Handler \<Rightarrow> bool" where
  "ai_policy_ok en r cx h \<longleftrightarrow> (IsAIUA (cx_ua cx) \<longrightarrow> hd_aiPolicy h \<noteq> ''block'' \<and> (hd_aiPolicy h = ''pay'' \<longrightarrow> aiPaymentValid en h r))"

lemma ai_static:
  assumes "static h' = static h" "clearance_keys h' = clearance_keys h"
  shows "ai_policy_ok en r cx h' = ai_policy_ok en r cx h"
proof -
  have "SecureDefault (hd_chal h') = SecureDefault (hd_chal h)"
    using assms(2) by (cases "hd_chal h"; cases "hd_chal h'") (simp_all add: clearance_keys_def SecureDefault_def)
  then show ?thesis
    unfolding ai_policy_ok_def aiPaymentValid_def paymentRequirements_def requestSecure_def static_fields [OF assms(1)] by simp
qed

lemma detect_Go:
  assumes "gate_detect en r cx now allowed x need h = (Go v, h')" "\<not> allowed" "\<not> IsGitSmartHTTP (Some r)"
    "det_Enabled (cfg_Detect (hd_cfg h))"
  shows "ai_policy_ok en r cx h"
  using assms unfolding gate_detect_def Let_def case_prod_beta
proof (simp, elim then_Go)
  fix x1 h1 x2 h2 x3 h3
  let ?d = "detect_result en r cx now x h1"
  assume 1: "gate_behavior en r cx now h = (Go x1, h1)" and 2: "gate_block_score en r cx now x (fst ?d) (snd ?d) = (Go x2, h2)"
    and 3: "gate_ai en r cx now (fst ?d) h2 = (Go x3, h3)"
  have "static h1 = static h" "clearance_keys h1 = clearance_keys h"
    using st.quiet_behavior [of en r cx now h] ck.quiet_behavior [of en r cx now h] 1 by (simp_all add: st.quiet_def ck.quiet_def)
  moreover have "static h2 = static (snd ?d)" "clearance_keys h2 = clearance_keys (snd ?d)"
    using st.quiet_block_score [of en r cx now x "fst ?d" "snd ?d"] ck.quiet_block_score [of en r cx now x "fst ?d" "snd ?d"] 2
    by (simp_all add: st.quiet_def ck.quiet_def)
  ultimately have f: "static h2 = static h" "clearance_keys h2 = clearance_keys h" by (simp_all add: st.obs_result ck.obs_result)
  have "ai_policy_ok en r cx h2" using 3 by (auto simp: gate_ai_def ai_policy_ok_def split: if_splits)
  then show ?thesis using ai_static [OF f] by simp
qed

lemma rest_served:
  assumes "guard_rest en r cx now allowed v h = (Stop (Served s b), h')"
  shows "access_admits en r cx now (IsWebSocketUpgrade (Some r)) h \<and>
     (challenge_applies h r allowed \<and> (IsWebSocketUpgrade (Some r) \<or> hd_challengeAlways h \<and> \<not> IsGitSmartHTTP (Some r))
        \<longrightarrow> fst (has_clearance en r cx now h)) \<and>
     (\<not> IsWebSocketUpgrade (Some r) \<and> \<not> allowed \<and> \<not> IsGitSmartHTTP (Some r) \<and> det_Enabled (cfg_Detect (hd_cfg h))
        \<longrightarrow> ai_policy_ok en r cx h)"
proof -
  obtain mlExtra semNeed body where v: "v = (mlExtra, semNeed, body)" by (cases v) auto
  from assms refusing_rate obtain x1 h1 where 1: "gate_rate en r cx now h = (Go x1, h1)"
    and k1: "and_then (gate_websocket en r cx now allowed body h1) (\<lambda>_ h.
      and_then (gate_detect en r cx now allowed mlExtra semNeed h) (\<lambda>(need, score) h.
      let score = (if mlExtra > 0 \<and> score = 0 then mlExtra else score) in
      and_then (gate_challenge en r cx now allowed need score h) (\<lambda>_ h.
      admit_and_proxy en r cx now False body h))) = (Stop (Served s b), h')"
    unfolding guard_rest_def v prod.case by (rule served_then)
  have f1: "static h1 = static h" "clearance_keys h1 = clearance_keys h"
    using st.quiet_rate [of en r cx now h] ck.quiet_rate [of en r cx now h] 1 by (simp_all add: st.quiet_def ck.quiet_def)
  note same = access_static [OF f1(1)] challenge_static [OF f1] clearance_cong [OF f1(2)] static_fields [OF f1(1)]
  show ?thesis
  proof (cases "IsWebSocketUpgrade (Some r)")
    case True
    have "and_then (gate_websocket en r cx now allowed body h1) k = gate_websocket en r cx now allowed body h1" for k :: "unit \<Rightarrow> Handler \<Rightarrow> unit step \<times> Handler"
      using True by (auto simp: gate_websocket_def admit_and_proxy_def and_then_def stop_def Let_def split: prod.splits step.splits)
    then have "gate_websocket en r cx now allowed body h1 = (Stop (Served s b), h')" using k1 by simp
    from websocket_served [OF this] True same show ?thesis by simp
  next
    case False
    then have "gate_websocket en r cx now allowed body h1 = (Go (), h1)" by (simp add: gate_websocket_def)
    with k1 have "and_then (gate_detect en r cx now allowed mlExtra semNeed h1) (\<lambda>(need, score) h.
      let score = (if mlExtra > 0 \<and> score = 0 then mlExtra else score) in
      and_then (gate_challenge en r cx now allowed need score h) (\<lambda>_ h.
      admit_and_proxy en r cx now False body h)) = (Stop (Served s b), h')" by (simp add: and_then_def)
    then obtain x2 h2 where 2: "gate_detect en r cx now allowed mlExtra semNeed h1 = (Go x2, h2)"
      and k2: "(let score = (if mlExtra > 0 \<and> snd x2 = 0 then mlExtra else snd x2) in
        and_then (gate_challenge en r cx now allowed (fst x2) score h2) (\<lambda>_ h.
        admit_and_proxy en r cx now False body h)) = (Stop (Served s b), h')"
      using refusing_detect by (elim served_then) (simp_all add: case_prod_beta)
    have f2: "static h2 = static h1" "clearance_keys h2 = clearance_keys h1"
      using st.quiet_detect [of en r cx now allowed mlExtra semNeed h1] ck.quiet_detect [of en r cx now allowed mlExtra semNeed h1] 2
      by (simp_all add: st.quiet_def ck.quiet_def)
    from k2 obtain sc x3 h3 where 3: "gate_challenge en r cx now allowed (fst x2) sc h2 = (Go x3, h3)"
      and k3: "admit_and_proxy en r cx now False body h3 = (Stop (Served s b), h')"
      unfolding Let_def using refusing_challenge by (elim served_then)
    have f3: "static h3 = static h2"
      using st.quiet_challenge [of en r cx now allowed "fst x2" sc h2] 3 by (simp add: st.quiet_def)
    have "access_admits en r cx now False h"
      using admit_served [OF k3] access_static [OF f3] access_static [OF f2(1)] same by simp
    moreover have "fst (has_clearance en r cx now h)"
      if "challenge_applies h r allowed" "hd_challengeAlways h" "\<not> IsGitSmartHTTP (Some r)"
      using challenge_Go [OF 3] that same f2 challenge_static [OF f2] clearance_cong [OF f2(2)] static_fields [OF f2(1)] by simp
    moreover have "ai_policy_ok en r cx h"
      if "\<not> allowed" "\<not> IsGitSmartHTTP (Some r)" "det_Enabled (cfg_Detect (hd_cfg h))"
      using detect_Go [OF 2] that same ai_static [OF f1] by simp
    ultimately show ?thesis using False by simp
  qed
qed

text \<open>C1: a request that the guard serves passed the gates that apply to it.  Always: no block list, shared threat entry or
  feed matches its address, host, User-Agent or fingerprint; its path is no trap; its upstream is healthy; no attack signature
  matches it, unless Coraza is in charge or the protect guard is on and only counts attacks; and the access policy of its route
  admits it.  When the protect guard is on: the request is small enough and its client is not banned.  When a challenge applies
  (the client is not allow-listed, challenges are enabled, there is a manager, and neither the path nor the route skips them):
  it carries a valid clearance if it is a WebSocket handshake, or if challenges are mandatory and it is not git smart HTTP.
  When detection applies (it is enabled, the client is not allow-listed, and the request is neither a WebSocket handshake nor
  git smart HTTP): it respects the policy on AI crawlers.  The conditions are exact; what they leave out, such as an AI crawler
  that opens a WebSocket, is served without that gate.\<close>

theorem served_passed_every_gate:
  assumes "guard en h reqID r now = (Stop (Served s b), h')"
  defines "cx \<equiv> request_ctx en h reqID r"
  shows "screened en r cx now h
    \<and> (\<forall>g. hd_prot h = Some g \<longrightarrow> prot_on h \<longrightarrow>
         CheckRequestSize g (req_Path r) (req_RawQuery r) (req_ContentLength r) = [] \<and> \<not> fst (Guard_Banned g (cx_bindID cx) now))
    \<and> access_admits en r cx now (IsWebSocketUpgrade (Some r)) h
    \<and> (challenge_applies h r (client_allowed h r cx) \<and>
         (IsWebSocketUpgrade (Some r) \<or> hd_challengeAlways h \<and> \<not> IsGitSmartHTTP (Some r))
       \<longrightarrow> fst (has_clearance en r cx now h))
    \<and> (\<not> IsWebSocketUpgrade (Some r) \<and> \<not> client_allowed h r cx \<and> \<not> IsGitSmartHTTP (Some r) \<and> det_Enabled (cfg_Detect (hd_cfg h))
       \<longrightarrow> ai_policy_ok en r cx h)"
proof -
  have served: "screened en r cx now h1 \<and> access_admits en r cx now (IsWebSocketUpgrade (Some r)) h1 \<and>
      (challenge_applies h1 r (client_allowed h1 r cx) \<and>
         (IsWebSocketUpgrade (Some r) \<or> hd_challengeAlways h1 \<and> \<not> IsGitSmartHTTP (Some r))
       \<longrightarrow> fst (has_clearance en r cx now h1)) \<and>
      (\<not> IsWebSocketUpgrade (Some r) \<and> \<not> client_allowed h1 r cx \<and> \<not> IsGitSmartHTTP (Some r) \<and>
         det_Enabled (cfg_Detect (hd_cfg h1)) \<longrightarrow> ai_policy_ok en r cx h1)"
    if adm: "guard_admitted en r cx now body h1 = (Stop (Served s b), h2)" for body h1 h2
  proof -
    from adm obtain v h3 where 1: "guard_screen en r cx now (client_allowed h1 r cx) body h1 = (Go v, h3)"
      and 2: "guard_rest en r cx now (client_allowed h1 r cx) v h3 = (Stop (Served s b), h2)"
      unfolding guard_admitted_def Let_def using refusing_screen by (elim served_then)
    have f: "static h3 = static h1" "clearance_keys h3 = clearance_keys h1"
      using st.quiet_screen [of en r cx now "client_allowed h1 r cx" body h1]
        ck.quiet_screen [of en r cx now "client_allowed h1 r cx" body h1] 1
      by (simp_all add: st.quiet_def ck.quiet_def)
    show ?thesis
      using screen_Go [OF 1] rest_served [OF 2] access_static [OF f(1)] challenge_static [OF f] clearance_cong [OF f(2)]
        static_fields [OF f(1)] ai_static [OF f] by simp
  qed
  show ?thesis
  proof (cases rule: protect_cases [where h = h and en = en and r = r and cx = cx and now = now])
    case off
    with assms served show ?thesis unfolding cx_def by (metis guard_off)
  next
    case (refused g g1 a h1)
    then show ?thesis using assms guard_refused [of en r h reqID now a h1] by (auto simp: cx_def)
  next
    case (taken g g1 g2)
    let ?h = "h\<lparr> hd_prot := Some g2 \<rparr>"
    obtain st h2 where adm: "guard_admitted en r cx now (request_body ?h r) ?h = (st, h2)" by fastforce
    with assms taken have "st = Stop (Served s b)"
      by (simp add: cx_def guard_taken [OF taken(1) taken(6) [unfolded cx_def]])
    note p = served [OF adm [unfolded this]]
    have "g_cfg g2 = g_cfg g" using cfg_frame(4) [of g1 "cx_bindID cx"] cfg_frame(1) [of g "cx_bindID cx" now] taken(4,5) by simp
    then have "prot_on ?h = prot_on h" "Guard_AttackBlock (hd_prot ?h) = Guard_AttackBlock (hd_prot h)"
      using taken(2) by (simp_all add: prot_on_def Guard_Enabled_def Guard_AttackBlock_def Guard_live_def)
    moreover have "access_admits en r cx now w ?h = access_admits en r cx now w h" "upstreamHealthy ?h r = upstreamHealthy h r"
      "client_allowed ?h r cx = client_allowed h r cx" "challenge_applies ?h r w = challenge_applies h r w"
      "fst (has_clearance en r cx now ?h) = fst (has_clearance en r cx now h)" "ai_policy_ok en r cx ?h = ai_policy_ok en r cx h" for w
      by (simp_all add: access_admits_def upstreamHealthy_def client_allowed_def challenge_applies_def skipChallenge_def
          clearance_cong [OF prot_part(3)] ai_static [OF prot_part(1,3)] split: option.split)
    ultimately show ?thesis using p taken(2-4) by (simp add: screened_def)
  qed
qed

lemma handshake_proxied:
  assumes "IsWebSocketUpgrade (Some r)"
    and protect: "gate_protect en r cx now h = (Go (), h1)"
    and screen: "guard_screen en r cx now (client_allowed h1 r cx) (request_body h1 r) h1 = (Go (x, n, body), h2)"
    and rate: "gate_rate en r cx now h2 = (Go (), h3)"
    and "\<not> challenge_applies h3 r (client_allowed h1 r cx)" "access_admits en r cx now True h3" "en_schemas en = None"
    and cx: "cx = request_ctx en h reqID r"
  shows "\<exists>s. fst (guard en h reqID r now) = Stop (Served s body)"
proof -
  have "gate_access en r cx now True h3 = (Go (), h3)"
    using assms(6) by (simp add: gate_access_def access_admits_def)
  then have "fst (gate_websocket en r cx now (client_allowed h1 r cx) body h3) = Stop (fst (pl_proxy en r cx now body h3))"
    using assms(1,5,7) by (simp add: gate_websocket_def admit_and_proxy_def checkOpenAPI_def and_then_def)
  then obtain h4 where "gate_websocket en r cx now (client_allowed h1 r cx) body h3 = (Stop (fst (pl_proxy en r cx now body h3)), h4)"
    by (metis prod.collapse)
  then have "guard_rest en r cx now (client_allowed h1 r cx) (x, n, body) h2 = (Stop (fst (pl_proxy en r cx now body h3)), h4)"
    using rate by (simp add: guard_rest_def and_then_def)
  then have "fst (guard en h reqID r now) = Stop (fst (pl_proxy en r cx now body h3))"
    using protect screen by (simp add: guard_def guard_admitted_def and_then_def cx Let_def)
  then show ?thesis by (simp add: pl_proxy_def Let_def)
qed

text \<open>C33: a request that asks for a WebSocket never meets detection.  Once the screening gates and the rate limits let it
  through and no challenge applies, an admitted handshake is proxied whatever its score, the policy on AI crawlers and the
  trackers say: none of them is consulted.\<close>

theorem websocket_skips_detection:
  assumes "IsWebSocketUpgrade (Some r)"
    and protect: "gate_protect en r cx now h = (Go (), h1)"
    and screen: "guard_screen en r cx now (client_allowed h1 r cx) (request_body h1 r) h1 = (Go (x, n, body), h2)"
    and rate: "gate_rate en r cx now h2 = (Go (), h3)"
    and "\<not> challenge_applies h3 r (client_allowed h1 r cx)" "access_admits en r cx now True h3" "en_schemas en = None"
    and cx: "cx = request_ctx en h reqID r"
  shows "\<exists>s. fst (guard en h reqID r now) = Stop (Served s body)"
  using assms by (rule handshake_proxied)

section \<open>A concrete handler\<close>

definition demo_engines :: engines where
  "demo_engines = \<lparr> en_crypto = \<lparr> cy_hmac = (\<lambda>k m. k @ m), cy_sha256 = (\<lambda>m. m), cy_pbkdf2 = (\<lambda>_ _ _ _. None) \<rparr>, en_coraza = None,
     en_semantic = None, en_ml = None, en_wba = None, en_crawlerSpoofed = None, en_schemas = None, en_paymentValid = (\<lambda>_ _. False),
     en_status = (\<lambda>_ _. 200), en_parseURL = (\<lambda>_. None), en_fmtFloat = (\<lambda>_ _. []) \<rparr>"

definition demo_config :: GlobalConfig where
  "demo_config = zero_GlobalConfig\<lparr> cfg_Detect := zero_DetectSection\<lparr> det_Enabled := True, det_BlockScore := 1, det_AICrawlerPolicy := ''block'' \<rparr> \<rparr>"

definition demo_handler :: Handler where
  "demo_handler = \<lparr> hd_cfg = demo_config, hd_lists = None, hd_allows = None, hd_feeds = None, hd_limiter = None, hd_subnetLimit = None,
     hd_globalLimit = None, hd_chal = None, hd_captcha = None, hd_pages = True, hd_upstream = demo_proxy, hd_routes = None,
     hd_access = None, hd_acmeHTTP = False, hd_trusted = [], hd_priv = None, hd_prot = None, hd_nf = None, hd_pen = None, hd_beh = None,
     hd_health = None, hd_detectCfg = buildDetectConfig demo_config, hd_crawlerVerify = False, hd_crawlerSpoof = 0,
     hd_challengeAlways = False, hd_high404Action = actionChallenge, hd_penAction = actionChallenge, hd_subnetV4 = 24, hd_subnetV6 = 64,
     hd_writeCost = 3, hd_forgeRateCost = 0, hd_forgeFlavor = ForgeAuto, hd_wbaSpoof = 0, hd_aiPolicy = ''block'', hd_rslBody = [],
     hd_llmsBody = [], hd_redirectHTTP = False, hd_reqLog = Some (Logger_New 2), hd_threatOverlay = None, hd_reports = None,
     hd_traps = None, hd_notifier = None, hd_shadow = None \<rparr>"

definition demo_handshake :: Request where
  "demo_handshake = \<lparr> req_Method = ''GET'', req_Host = ''a'', req_Path = ''/'', req_RawQuery = [], req_RemoteAddr = [],
     req_Header = [(''Upgrade'', [''websocket'']), (''Connection'', [''Upgrade'']), (''User-Agent'', [''GPTBot''])],
     req_TLS = True, req_ContentLength = 0, req_Body = [], req_HasBody = False,
     req_RawPath = [], req_ProtoMajor = 1, req_ProtoMinor = 1, req_ServerName = [] \<rparr>"

abbreviation demo_ctx :: ctx where
  "demo_ctx \<equiv> request_ctx demo_engines demo_handler ''id'' demo_handshake"

lemma demo_handshake_ws: "IsWebSocketUpgrade (Some demo_handshake)"
  by code_simp

lemma demo_no_attack: "AttackMatch (Some demo_handshake) = []"
  by code_simp

lemma demo_passes:
  "gate_protect demo_engines demo_handshake cx now demo_handler = (Go (), demo_handler)"
  "guard_screen demo_engines demo_handshake cx now al (request_body demo_handler demo_handshake) demo_handler = (Go (0, False, None), demo_handler)"
  "gate_rate demo_engines demo_handshake cx now demo_handler = (Go (), demo_handler)"
  "\<not> challenge_applies demo_handler demo_handshake al" "access_admits demo_engines demo_handshake cx now True demo_handler"
proof -
  note h = demo_handler_def demo_engines_def
  show "gate_protect demo_engines demo_handshake cx now demo_handler = (Go (), demo_handler)" by (simp add: gate_protect_def h)
  have "request_body demo_handler demo_handshake = None" by (simp add: request_body_def demo_handshake_def)
  then show "guard_screen demo_engines demo_handshake cx now al (request_body demo_handler demo_handshake) demo_handler
      = (Go (0, False, None), demo_handler)"
    by (simp add: guard_screen_def and_then_def gate_lists_def gate_overlay_def gate_feeds_def gate_traps_def gate_health_def
        upstreamHealthy_def gate_coraza_def gate_attack_def demo_no_attack gate_engines_def runSemanticML_def h)
  show "gate_rate demo_engines demo_handshake cx now demo_handler = (Go (), demo_handler)"
    "\<not> challenge_applies demo_handler demo_handshake al" "access_admits demo_engines demo_handshake cx now True demo_handler"
    by (simp_all add: gate_rate_def challenge_applies_def access_admits_def checkAccess_def h demo_config_def zero_GlobalConfig_def
        zero_RateLimitConfig_def zero_ChallengeConfig_def)
qed

lemma websocket_skips_detection_witness:
  "hd_aiPolicy demo_handler = ''block'' \<and> IsAIUA ''GPTBot'' \<and> cx_ua demo_ctx = ''GPTBot'' \<and>
   (\<exists>s. fst (guard demo_engines demo_handler ''id'' demo_handshake 5) = Stop (Served s None))"
proof -
  have "IsAIUA ''GPTBot''" unfolding IsAIUA_iff by code_simp
  moreover have "cx_ua demo_ctx = ''GPTBot''" by (simp add: request_ctx_def Let_def) code_simp
  moreover have "en_schemas demo_engines = None" by (simp add: demo_engines_def)
  ultimately show ?thesis
    using websocket_skips_detection [OF demo_handshake_ws demo_passes(1,2,3,4,5) _ refl]
    by (simp add: demo_handler_def)
qed

definition demo_trap :: Handler where
  "demo_trap = demo_handler\<lparr> hd_traps := Some \<lparr> ts_action = actionBlock, ts_banTTL = 0, ts_exact = [''/''], ts_prefixes = [] \<rparr> \<rparr>"

lemma no_log_without_request_ids_witness:
  "fst (guard demo_engines demo_trap ''id'' demo_handshake 5) = Stop (BlockPage ''Honeypot path'')
   \<and> hd_reqLog (snd (guard demo_engines demo_trap ''id'' demo_handshake 5)) = Some (Logger_New 2)"
proof
  have "\<not> pv_RequestIDs (cfg_Privacy (hd_cfg demo_trap))"
    by (simp add: demo_trap_def demo_handler_def demo_config_def zero_GlobalConfig_def zero_PrivacyConfig_def)
  from no_log_without_request_ids [OF this]
  show "hd_reqLog (snd (guard demo_engines demo_trap ''id'' demo_handshake 5)) = Some (Logger_New 2)"
    by (simp add: demo_trap_def demo_handler_def)
  have "trap_Match \<lparr> ts_action = actionBlock, ts_banTTL = 0, ts_exact = [''/''], ts_prefixes = [] \<rparr> (req_Path demo_handshake)"
    by code_simp
  then show "fst (guard demo_engines demo_trap ''id'' demo_handshake 5) = Stop (BlockPage ''Honeypot path'')"
    by (simp add: guard_def guard_admitted_def guard_screen_def and_then_def gate_protect_def gate_lists_def gate_overlay_def
        gate_feeds_def gate_traps_def serveTrap_def emitBlock_def stop_def demo_trap_def demo_handler_def Let_def)
qed

text \<open>A plain request, with detection and the policy against AI crawlers in force.\<close>

definition demo_get :: Request where
  "demo_get = demo_handshake\<lparr> req_Header := [(''User-Agent'', [''Lynx/2.9''])] \<rparr>"

definition demo_detecting :: Handler where
  "demo_detecting = demo_handler\<lparr> hd_cfg := demo_config\<lparr> cfg_Detect := (cfg_Detect demo_config)\<lparr>
     det_BlockScore := dr_Score (Score demo_get (hd_detectCfg demo_handler)) + 1 \<rparr> \<rparr> \<rparr>"

lemma demo_get_facts:
  "\<not> IsWebSocketUpgrade (Some demo_get)" "\<not> IsGitSmartHTTP (Some demo_get)" "\<not> IsAIUA ''Lynx/2.9''" "AttackMatch (Some demo_get) = []"
  "header demo_get ''User-Agent'' = ''Lynx/2.9''"
  unfolding IsAIUA_iff by code_simp+

lemma demo_detecting_cfg:
  "cfg_RateLimit (hd_cfg demo_detecting) = zero_RateLimitConfig" "cfg_Challenge (hd_cfg demo_detecting) = zero_ChallengeConfig"
  "det_BlockScore (cfg_Detect (hd_cfg demo_detecting)) = dr_Score (Score demo_get (hd_detectCfg demo_handler)) + 1"
  by (simp_all add: demo_detecting_def demo_config_def zero_GlobalConfig_def)

lemma demo_detecting_fields:
  "hd_lists demo_detecting = None" "hd_feeds demo_detecting = None" "hd_threatOverlay demo_detecting = None" "hd_traps demo_detecting = None"
  "hd_routes demo_detecting = None" "hd_health demo_detecting = None" "hd_prot demo_detecting = None" "hd_limiter demo_detecting = None"
  "hd_subnetLimit demo_detecting = None" "hd_globalLimit demo_detecting = None" "hd_chal demo_detecting = None" "hd_access demo_detecting = None"
  "hd_beh demo_detecting = None" "hd_nf demo_detecting = None" "hd_pen demo_detecting = None" "hd_crawlerVerify demo_detecting = False"
  "hd_detectCfg demo_detecting = hd_detectCfg demo_handler" "hd_allows demo_detecting = None"
  by (simp_all add: demo_detecting_def demo_handler_def)

lemma demo_get_passes:
  "gate_protect demo_engines demo_get cx now demo_detecting = (Go (), demo_detecting)"
  "guard_screen demo_engines demo_get cx now al (request_body demo_detecting demo_get) demo_detecting = (Go (0, False, None), demo_detecting)"
  "gate_rate demo_engines demo_get cx now demo_detecting = (Go (), demo_detecting)"
  "\<not> challenge_applies demo_detecting demo_get al" "access_admits demo_engines demo_get cx now False demo_detecting"
proof -
  note h = demo_detecting_fields demo_detecting_cfg demo_engines_def
  show "gate_protect demo_engines demo_get cx now demo_detecting = (Go (), demo_detecting)" by (simp add: gate_protect_def h)
  have "request_body demo_detecting demo_get = None" by (simp add: request_body_def demo_get_def demo_handshake_def)
  then show "guard_screen demo_engines demo_get cx now al (request_body demo_detecting demo_get) demo_detecting
      = (Go (0, False, None), demo_detecting)"
    by (simp add: guard_screen_def and_then_def gate_lists_def gate_overlay_def gate_feeds_def gate_traps_def gate_health_def
        upstreamHealthy_def gate_coraza_def gate_attack_def demo_get_facts gate_engines_def runSemanticML_def h)
  show "gate_rate demo_engines demo_get cx now demo_detecting = (Go (), demo_detecting)"
    "\<not> challenge_applies demo_detecting demo_get al" "access_admits demo_engines demo_get cx now False demo_detecting"
    by (simp_all add: gate_rate_def challenge_applies_def access_admits_def checkAccess_def h zero_RateLimitConfig_def)
qed

lemma demo_get_detected:
  assumes "cx_ua cx = ''Lynx/2.9''"
  shows "\<exists>need score. gate_detect demo_engines demo_get cx now al 0 False demo_detecting = (Go (need, score), demo_detecting)"
proof -
  have wb: "web_bot demo_engines demo_get = WebBotNone" by (simp add: web_bot_def demo_engines_def)
  then have "detect_result demo_engines demo_get cx now 0 demo_detecting = (dr_Score (Score demo_get (hd_detectCfg demo_handler)), demo_detecting)"
    by (simp add: detect_result_def scorer_config_def demo_detecting_fields zero_result_def Let_def) (simp add: demo_engines_def)
  then show ?thesis
    by (simp add: gate_detect_def and_then_def gate_behavior_def gate_block_score_def gate_ai_def gate_notfound_def gate_penalty_def
        demo_detecting_fields demo_detecting_cfg demo_get_facts assms) blast
qed

lemma demo_get_served: "\<exists>s. fst (guard demo_engines demo_detecting ''id'' demo_get 5) = Stop (Served s None)"
proof -
  define cx where "cx = request_ctx demo_engines demo_detecting ''id'' demo_get"
  have ua: "cx_ua cx = ''Lynx/2.9''" by (simp add: cx_def request_ctx_def Let_def demo_get_facts)
  obtain need score where d: "gate_detect demo_engines demo_get cx 5 (client_allowed demo_detecting demo_get cx) 0 False demo_detecting = (Go (need, score), demo_detecting)"
    using demo_get_detected [OF ua] by blast
  have a: "gate_access demo_engines demo_get cx 5 False demo_detecting = (Go (), demo_detecting)"
    using demo_get_passes(5) [of cx 5] by (simp add: gate_access_def access_admits_def)
  have "en_schemas demo_engines = None" by (simp add: demo_engines_def)
  then have p: "admit_and_proxy demo_engines demo_get cx 5 False None demo_detecting = stop (pl_proxy demo_engines demo_get cx 5 None demo_detecting)"
    using a by (simp add: admit_and_proxy_def and_then_def checkOpenAPI_def)
  have "guard_rest demo_engines demo_get cx 5 (client_allowed demo_detecting demo_get cx) (0, False, None) demo_detecting
      = stop (pl_proxy demo_engines demo_get cx 5 None demo_detecting)"
    using d by (simp add: guard_rest_def and_then_def demo_get_passes gate_websocket_def demo_get_facts gate_challenge_def p)
  then have "fst (guard demo_engines demo_detecting ''id'' demo_get 5) = Stop (fst (pl_proxy demo_engines demo_get cx 5 None demo_detecting))"
    by (simp add: guard_def guard_admitted_def and_then_def demo_get_passes cx_def [symmetric] Let_def case_prod_beta)
  then show ?thesis by (simp add: pl_proxy_def Let_def)
qed

lemma served_passed_every_gate_witness:
  "\<exists>s h'. guard demo_engines demo_detecting ''id'' demo_get 5 = (Stop (Served s None), h') \<and>
     screened demo_engines demo_get (request_ctx demo_engines demo_detecting ''id'' demo_get) 5 demo_detecting \<and>
     access_admits demo_engines demo_get (request_ctx demo_engines demo_detecting ''id'' demo_get) 5 False demo_detecting \<and>
     det_Enabled (cfg_Detect (hd_cfg demo_detecting)) \<and>
     ai_policy_ok demo_engines demo_get (request_ctx demo_engines demo_detecting ''id'' demo_get) demo_detecting"
proof -
  obtain s where "fst (guard demo_engines demo_detecting ''id'' demo_get 5) = Stop (Served s None)"
    using demo_get_served by blast
  then have g: "guard demo_engines demo_detecting ''id'' demo_get 5
      = (Stop (Served s None), snd (guard demo_engines demo_detecting ''id'' demo_get 5))" by (metis prod.collapse)
  have "det_Enabled (cfg_Detect (hd_cfg demo_detecting))" "\<not> client_allowed demo_detecting demo_get cx" for cx
    by (simp_all add: demo_detecting_def demo_handler_def demo_config_def client_allowed_def)
  with served_passed_every_gate [OF g] g demo_get_facts(1,2) show ?thesis by auto
qed

end
