(* ===== verification/PipeHandlers.thy ===== *)
theory PipeHandlers
  imports PipeThms
begin

text \<open>
  The other handlers of \<open>internal/pipeline/pipeline.go\<close>: construction and live reconfiguration, the entry point, health and
  decisions, the no-JavaScript pages, and the challenge endpoints that exchange a solution for a clearance cookie.
\<close>

section \<open>Definitions\<close>

subsection \<open>Construction and reconfiguration\<close>

definition mode_always :: "GlobalConfig \<Rightarrow> bool" where
  "mode_always cfg \<longleftrightarrow>
     EqualFold (chal_Mode (cfg_Challenge cfg)) ''always'' \<or> EqualFold (chal_Mode (cfg_Challenge cfg)) ''attack''"

definition prefix_or :: "int \<Rightarrow> int \<Rightarrow> int \<Rightarrow> int" where
  "prefix_or bits p dflt = (if p \<le> 0 \<or> p > bits then dflt else p)"

text \<open>\<open>d\<close> is the file system the policy files are read from.  The crawler verifier and the verifier of signed agents are
  in \<open>engines\<close>.\<close>

definition Handler_New :: "fs \<Rightarrow> GlobalConfig \<Rightarrow> Sets option \<Rightarrow> Cache option \<Rightarrow> Limiter option \<Rightarrow> Manager option \<Rightarrow> CaptchaVerifier option \<Rightarrow>
    Proxy \<Rightarrow> IPNet list \<Rightarrow> CountTracker option \<Rightarrow> Checker option \<Rightarrow> PrivacyGuard option \<Rightarrow> BehaviorTracker option \<Rightarrow> Guard option \<Rightarrow> Handler" where
  "Handler_New d cfg blists feeds limiter chal captcha upstream trusted nf hc priv beh prot =
     (let det = cfg_Detect cfg; rl = cfg_RateLimit cfg in
      \<lparr> hd_cfg = cfg, hd_lists = blists, hd_allows = None, hd_feeds = feeds, hd_limiter = limiter, hd_subnetLimit = None,
        hd_globalLimit = None, hd_chal = chal, hd_captcha = captcha, hd_pages = True, hd_upstream = upstream, hd_routes = None,
        hd_access = None, hd_acmeHTTP = False, hd_trusted = trusted, hd_priv = priv, hd_prot = prot, hd_nf = nf, hd_pen = None,
        hd_beh = beh, hd_health = hc, hd_detectCfg = buildDetectConfig cfg, hd_crawlerVerify = cv_Enabled (det_CrawlerVerify det),
        hd_crawlerSpoof = cv_SpoofScore (det_CrawlerVerify det), hd_challengeAlways = mode_always cfg,
        hd_high404Action = parseAction (det_High404Action det), hd_penAction = parseAction (det_PenaltyAction det),
        hd_subnetV4 = prefix_or 32 (rl_SubnetV4Prefix rl) 24, hd_subnetV6 = prefix_or 128 (rl_SubnetV6Prefix rl) 64,
        hd_writeCost = (if prot \<noteq> None then Guard_WriteCost prot else 3), hd_forgeRateCost = det_ForgeRateCost det,
        hd_forgeFlavor = ParseForgeFlavor (det_ForgeFlavor det), hd_wbaSpoof = wba_SpoofScore (det_WebBotAuth det),
        hd_aiPolicy = ToLower (TrimSpace (det_AICrawlerPolicy det)), hd_rslBody = readOptionalFile d (site_RSLFile (cfg_Site cfg)),
        hd_llmsBody = readOptionalFile d (site_LLMSFile (cfg_Site cfg)), hd_redirectHTTP = False, hd_reqLog = None,
        hd_threatOverlay = None, hd_reports = None, hd_traps = buildTraps cfg,
        hd_notifier = Notifier_New (nt_WebhookURL (cfg_Notify cfg)) (nt_Events (cfg_Notify cfg)) (nt_Timeout (cfg_Notify cfg)),
        hd_shadow = None \<rparr>)"

definition ApplyConfig :: "fs \<Rightarrow> GlobalConfig \<Rightarrow> Handler \<Rightarrow> Handler" where
  "ApplyConfig d cfg h =
     (let det = cfg_Detect cfg; rl = cfg_RateLimit cfg; ch = cfg_Challenge cfg in
      h\<lparr> hd_cfg := cfg, hd_challengeAlways := mode_always cfg, hd_high404Action := parseAction (det_High404Action det),
         hd_penAction := parseAction (det_PenaltyAction det), hd_subnetV4 := prefix_or 32 (rl_SubnetV4Prefix rl) 24,
         hd_subnetV6 := prefix_or 128 (rl_SubnetV6Prefix rl) 64, hd_detectCfg := buildDetectConfig cfg,
         hd_crawlerVerify := cv_Enabled (det_CrawlerVerify det), hd_crawlerSpoof := cv_SpoofScore (det_CrawlerVerify det),
         hd_forgeRateCost := det_ForgeRateCost det, hd_forgeFlavor := ParseForgeFlavor (det_ForgeFlavor det),
         hd_wbaSpoof := wba_SpoofScore (det_WebBotAuth det), hd_aiPolicy := ToLower (TrimSpace (det_AICrawlerPolicy det)),
         hd_rslBody := readOptionalFile d (site_RSLFile (cfg_Site cfg)), hd_llmsBody := readOptionalFile d (site_LLMSFile (cfg_Site cfg)),
         hd_traps := buildTraps cfg,
         hd_notifier := Notifier_New (nt_WebhookURL (cfg_Notify cfg)) (nt_Events (cfg_Notify cfg)) (nt_Timeout (cfg_Notify cfg)),
         hd_trusted := (case ParseCIDRs (tr_TrustedProxies (cfg_Trust cfg)) of Inr nets \<Rightarrow> nets | Inl _ \<Rightarrow> hd_trusted h),
         hd_access := map_option (\<lambda>am. am\<lparr> am_Brand := ui_Brand (cfg_UI cfg),
            am_CookieName := (if st_AccessCookieName (cfg_Stealth cfg) \<noteq> [] then st_AccessCookieName (cfg_Stealth cfg) else am_CookieName am) \<rparr>) (hd_access h),
         hd_chal := ApplyLive (hd_chal h) (chal_CookieName ch) (chal_Difficulty ch) (chal_CookieTTL ch) (chal_Algorithm ch),
         hd_limiter := map_option (\<lambda>l. Limiter_Update l (rl_Requests rl) (rl_Burst rl) (rl_Window rl) (rl_PerPath rl)) (hd_limiter h),
         hd_subnetLimit := map_option (\<lambda>l. Limiter_Update l (rl_SubnetRequests rl) (rl_SubnetBurst rl) (rl_SubnetWindow rl) False) (hd_subnetLimit h),
         hd_globalLimit := map_option (\<lambda>l. Limiter_Update l (rl_GlobalRequests rl) (rl_GlobalBurst rl) (rl_GlobalWindow rl) False) (hd_globalLimit h) \<rparr>)"

definition SetRouter :: "Handler \<Rightarrow> Table option \<Rightarrow> Handler" where "SetRouter h t = h\<lparr> hd_routes := t \<rparr>"
definition SetAccess :: "Handler \<Rightarrow> AccessManager option \<Rightarrow> Handler" where "SetAccess h m = h\<lparr> hd_access := m \<rparr>"
definition SetAllowlists :: "Handler \<Rightarrow> AllowSets option \<Rightarrow> Handler" where "SetAllowlists h a = h\<lparr> hd_allows := a \<rparr>"
definition SetACMEHandler :: "Handler \<Rightarrow> bool \<Rightarrow> Handler" where "SetACMEHandler h a = h\<lparr> hd_acmeHTTP := a \<rparr>"
definition SetRedirectHTTP :: "Handler \<Rightarrow> bool \<Rightarrow> Handler" where "SetRedirectHTTP h b = h\<lparr> hd_redirectHTTP := b \<rparr>"
definition SetRequestLog :: "Handler \<Rightarrow> Logger option \<Rightarrow> Handler" where "SetRequestLog h l = h\<lparr> hd_reqLog := l \<rparr>"
definition SetThreatOverlay :: "Handler \<Rightarrow> Overlay option \<Rightarrow> Handler" where "SetThreatOverlay h v = h\<lparr> hd_threatOverlay := v \<rparr>"
definition SetPenaltyTracker :: "Handler \<Rightarrow> CountTracker option \<Rightarrow> Handler" where "SetPenaltyTracker h t = h\<lparr> hd_pen := t \<rparr>"
definition SetRateLayers :: "Handler \<Rightarrow> Limiter option \<Rightarrow> Limiter option \<Rightarrow> Handler" where
  "SetRateLayers h subnet glob = h\<lparr> hd_subnetLimit := subnet, hd_globalLimit := glob \<rparr>"

subsection \<open>Entry point\<close>

datatype front = FrontACME | FrontLimited | FrontRedirect string | FrontMux

definition Handler_ServeHTTP :: "engines \<Rightarrow> Handler \<Rightarrow> Request \<Rightarrow> gotime \<Rightarrow> front \<times> Handler" where
  "Handler_ServeHTTP en h r now =
     (let acmePath = HasPrefix (req_Path r) ''/.well-known/acme-challenge/'' in
      if hd_acmeHTTP h \<and> acmePath then (FrontACME, h)
      else if hd_redirectHTTP h \<and> \<not> req_TLS r \<and> req_Method r \<noteq> ''CONNECT'' \<and> \<not> acmePath then
        let go = FrontRedirect (''https://'' @ req_Host r @ RequestURI r) in
        (case (hd_limiter h, resolveClientIP h r) of
           (Some l, Some ip) \<Rightarrow>
             if rl_Enabled (cfg_RateLimit (hd_cfg h)) then
               let (ok, l) = Limiter_AllowN l (clientBind en h (IP_String ip)) ''/_redirect'' 1 now; h = h\<lparr> hd_limiter := Some l \<rparr>
               in (if \<not> ok then FrontLimited else go, h)
             else (go, h)
         | _ \<Rightarrow> (go, h))
      else (FrontMux, h))"

datatype reply =
    Plain int string
  | Page answer
  | NotFoundReply
  | Refresh int string
  | Redirected int string HttpCookie
  | ChallengeDoc Challenge
  | Cleared HttpCookie
  | Decisions "(string \<times> gotime \<times> int \<times> int) list"

definition handleHealthz :: "Handler \<Rightarrow> Request \<Rightarrow> reply" where
  "handleHealthz h r =
     (if req_Method r \<noteq> ''GET'' \<and> req_Method r \<noteq> ''HEAD'' then Plain 405 ''method not allowed''
      else if (case hd_health h of Some hc \<Rightarrow> \<not> Checker_Healthy hc | None \<Rightarrow> False) then Plain 503 ''upstream unhealthy''
      else Plain 200 ''ok'')"

definition handleDecisions :: "Handler \<Rightarrow> Request \<Rightarrow> gotime \<Rightarrow> reply" where
  "handleDecisions h r now =
     (let dc = cfg_Decisions (hd_cfg h) in
      if req_Method r \<noteq> ''GET'' then Plain 405 ''method not allowed''
      else if \<not> dn_Enabled dc \<or> dn_Token dc = [] then NotFoundReply
      else if header r ''Authorization'' \<noteq> ''Bearer '' @ dn_Token dc then Plain 401 ''unauthorized''
      else Decisions (case hd_prot h of
             None \<Rightarrow> []
           | Some g \<Rightarrow> map (\<lambda>b. (bi_Key b, bi_BannedUntil b, bi_Strikes b, bi_Bans b)) (filter bi_Active (Guard_ListBans g now))))"

subsection \<open>No-JavaScript pages\<close>

text \<open>\<open>URL.Query().Get\<close>: the first value of a key; a part with a semicolon or a bad escape is dropped.\<close>

definition query_part :: "string \<Rightarrow> string \<Rightarrow> string option" where
  "query_part key part =
     (if part = [] \<or> Contains part '';'' then None
      else let (k, v) = (case Cut part (CHR ''='') of None \<Rightarrow> (part, []) | Some kv \<Rightarrow> kv)
           in case (QueryUnescape k, QueryUnescape v) of (Some k, Some v) \<Rightarrow> if k = key then Some v else None | _ \<Rightarrow> None)"

definition query_get :: "Request \<Rightarrow> string \<Rightarrow> string" where
  "query_get r key =
     (case first_some (query_part key) (Split (CHR ''&'') (req_RawQuery r)) of Some v \<Rightarrow> v | None \<Rightarrow> [])"

definition client_key :: "engines \<Rightarrow> Handler \<Rightarrow> Request \<Rightarrow> string" where
  "client_key en h r = clientBind en h (ip_string (resolveClientIP h r))"

text \<open>The limits of an endpoint: the client's limiter, then the site-wide one.\<close>

definition endpoint_limited :: "Handler \<Rightarrow> string \<Rightarrow> string \<Rightarrow> gotime \<Rightarrow> bool \<times> Handler" where
  "endpoint_limited h bindID path now =
     (case hd_limiter h of
        Some l \<Rightarrow>
          if rl_Enabled (cfg_RateLimit (hd_cfg h)) then
            let (ok, l) = Limiter_AllowN l bindID path 1 now; h = h\<lparr> hd_limiter := Some l \<rparr>
            in if \<not> ok then (True, h) else globalOver h now
          else globalOver h now
      | None \<Rightarrow> globalOver h now)"

definition noJSClient :: "engines \<Rightarrow> Handler \<Rightarrow> Request \<Rightarrow> gotime \<Rightarrow> (reply + string) \<times> Handler" where
  "noJSClient en h r now =
     (if hd_chal h = None \<or> \<not> chal_NoJSFallback (cfg_Challenge (hd_cfg h)) then (Inl NotFoundReply, h)
      else if \<not> IsTextBrowserUA (header r ''User-Agent'') then (Inl (Plain 403 ''forbidden''), h)
      else
        let bindID = client_key en h r; (over, h) = endpoint_limited h bindID (req_Path r) now in
        if over then (Inl (Plain 429 ''too many requests''), h) else (Inr bindID, h))"

definition UnixMilli :: "gotime \<Rightarrow> int" where "UnixMilli t = t div millisecond"

definition handleNoScriptGET :: "engines \<Rightarrow> Handler \<Rightarrow> Request \<Rightarrow> gotime \<Rightarrow> reply \<times> Handler" where
  "handleNoScriptGET en h r now =
     (if req_Method r \<noteq> ''GET'' then (Plain 405 ''method not allowed'', h)
      else case noJSClient en h r now of
        (Inl e, h) \<Rightarrow> (e, h)
      | (Inr bindID, h) \<Rightarrow>
          let cc = cfg_Challenge (hd_cfg h);
              nxt = safeNextPath (query_get r ''next'');
              tok = noJSMint (cy_hmac (en_crypto en)) (chal_Secret cc) bindID nxt (UnixMilli now);
              finish = chal_PathPrefix cc @ ''/noscript/finish?tok='' @ tok @ ''&next='' @ QueryEscape nxt;
              delay = duration_seconds (chal_NoJSDelay cc)
          in (Refresh (if delay < 1 then 3 else delay) finish, h))"

definition nojs_delay :: "GlobalConfig \<Rightarrow> duration" where
  "nojs_delay cfg = (let d = chal_NoJSDelay (cfg_Challenge cfg) in if d \<le> 0 then 3 * second else d)"

definition handleNoScriptFinish :: "engines \<Rightarrow> Handler \<Rightarrow> string \<Rightarrow> Request \<Rightarrow> gotime \<Rightarrow> reply \<times> Handler" where
  "handleNoScriptFinish en h reqID r now =
     (if req_Method r \<noteq> ''GET'' then (Plain 405 ''method not allowed'', h)
      else case noJSClient en h r now of
        (Inl e, h) \<Rightarrow> (e, h)
      | (Inr bindID, h) \<Rightarrow>
          let nxt = safeNextPath (query_get r ''next''); tok = query_get r ''tok'' in
          (case noJSVerify (cy_hmac (en_crypto en)) (chal_Secret (cfg_Challenge (hd_cfg h))) tok bindID nxt of
             None \<Rightarrow> (Plain 403 ''forbidden'', h)
           | Some issued \<Rightarrow>
               let age = now - issued * millisecond in
               if age < nojs_delay (hd_cfg h) \<or> age > 10 * minute then (Plain 403 ''forbidden'', h)
               else
                 let h = recordEvent en h r (request_ctx en h reqID r) ActionChallenge ''no-js clearance'' 0 [] now in
                 (case hd_chal h of
                    None \<Rightarrow> (NotFoundReply, h)
                  | Some m \<Rightarrow>
                      let (ck, m) = ClearanceCookie (en_crypto en) m bindID reqID (requestSecure h r) now
                      in (Redirected 303 nxt ck, h\<lparr> hd_chal := Some m \<rparr>))))"

subsection \<open>Challenge endpoints\<close>

text \<open>\<open>nb\<close> and \<open>sb\<close> are the random bytes of the challenge and its salt.\<close>

definition handleChallengeV1GET :: "engines \<Rightarrow> Handler \<Rightarrow> Request \<Rightarrow> string \<Rightarrow> string \<Rightarrow> gotime \<Rightarrow> reply \<times> Handler" where
  "handleChallengeV1GET en h r nb sb now =
     (if req_Method r \<noteq> ''GET'' then (Plain 405 ''method not allowed'', h)
      else if hd_chal h = None then (Plain 400 ''challenge disabled'', h)
      else
        let bindID = client_key en h r; (over, h) = endpoint_limited h bindID (req_Path r) now in
        if over then (Plain 429 ''too many requests'', h)
        else
          let cc = cfg_Challenge (hd_cfg h);
              (risk, prevGate) = TakeChallenge (hd_chal h) bindID (unix_sec now);
              risk = FloorRiskForMode (chal_Mode cc) risk;
              gate = ResolveGate (chal_Mode cc) risk prevGate (cap_Enabled (chal_Captcha cc))
          in case hd_chal h of
               None \<Rightarrow> (Plain 400 ''challenge disabled'', h)
             | Some m \<Rightarrow>
                 let (ch, m) = IssueChallenge (en_crypto en) m bindID risk gate nb sb (unix_sec now)
                 in (ChallengeDoc ch, h\<lparr> hd_chal := Some m \<rparr>))"

record challengeBody =
  cb_Payload :: string
  cb_Token :: string
  cb_Solution :: string
  cb_RequestID :: string
  cb_Ray :: string
  cb_Captcha :: string
  cb_Env :: EnvReport

text \<open>The identifier a client may continue: the one of its challenge page, unless it belongs to another client.\<close>

definition continue_reqID :: "Handler \<Rightarrow> (Event list \<Rightarrow> string \<Rightarrow> Event option) \<Rightarrow> string \<Rightarrow> string \<Rightarrow> challengeBody \<Rightarrow> string" where
  "continue_reqID h load reqID bindID body =
     (let rid = TrimSpace (if cb_RequestID body = [] then cb_Ray body else cb_RequestID body) in
      if rid = [] \<or> rid = reqID then reqID
      else case hd_reqLog h of
        None \<Rightarrow> rid
      | Some l \<Rightarrow>
          (case Logger_GetByID load (Some l) rid of
             Some ev \<Rightarrow> if evt_BindID ev \<noteq> [] \<and> evt_BindID ev \<noteq> bindID then reqID else rid
           | None \<Rightarrow> rid))"

definition beh_strike :: "Handler \<Rightarrow> string \<Rightarrow> gotime \<Rightarrow> Handler" where
  "beh_strike h bindID now = h\<lparr> hd_beh := Behavior_Strike (hd_beh h) bindID now \<rparr>"

definition remember_high :: "Handler \<Rightarrow> string \<Rightarrow> gotime \<Rightarrow> Handler" where
  "remember_high h bindID now = h\<lparr> hd_chal := RememberChallenge (hd_chal h) bindID RiskHigh GateInteractive (unix_sec now) \<rparr>"

text \<open>The proof of work: a signed payload, or the token of the older protocol.  The result is the difficulty, the gate and
  the report of the client's environment.\<close>

definition post_solution :: "engines \<Rightarrow> (string \<Rightarrow> Payload option) \<Rightarrow> Handler \<Rightarrow> Manager \<Rightarrow> string \<Rightarrow> challengeBody \<Rightarrow> gotime \<Rightarrow>
    (reply + int \<times> string \<times> EnvReport) \<times> Handler" where
  "post_solution en unmarshal h m bindID body now =
     (if cb_Payload body \<noteq> [] then
        (case VerifyPayload (en_crypto en) unmarshal m (cb_Payload body) bindID (unix_sec now) of
           (Inl e, m) \<Rightarrow>
             (Inl (Plain 403 ''invalid solution''), remember_high (beh_strike (h\<lparr> hd_chal := Some m \<rparr>) bindID now) bindID now)
         | (Inr p, m) \<Rightarrow> (Inr (pl_Difficulty p, pl_Gate p, pl_Env p), h\<lparr> hd_chal := Some m \<rparr>))
      else
        (case ParseToken (en_crypto en) m (cb_Token body) bindID (unix_sec now) of
           Inl e \<Rightarrow> (Inl (Plain 400 ''invalid token''), h)
         | Inr tok \<Rightarrow>
             if VerifyPoW (en_crypto en) tok (cb_Solution body) \<noteq> None then
               (Inl (Plain 403 ''invalid solution''), remember_high (beh_strike h bindID now) bindID now)
             else
               (case ConsumeNonce m tok (unix_sec now) of
                  (Some e, m) \<Rightarrow> (Inl (Plain 403 ''invalid solution''), h\<lparr> hd_chal := Some m \<rparr>)
                | (None, m) \<Rightarrow> (Inr (tk_Difficulty tok, GateInteractive, cb_Env body), h\<lparr> hd_chal := Some m \<rparr>))))"

definition post_env :: "engines \<Rightarrow> Handler \<Rightarrow> Request \<Rightarrow> ctx \<Rightarrow> int \<times> string \<times> EnvReport \<Rightarrow> gotime \<Rightarrow> reply option \<times> Handler" where
  "post_env en h r cx sol now =
     (case sol of (diff, gate, env) \<Rightarrow>
      if EqualFold (TrimSpace (chal_EnvProbe (cfg_Challenge (hd_cfg h)))) ''off'' then (None, h)
      else
        let verdict = EvaluateEnv env diff gate; bindID = cx_bindID cx in
        if \<not> ev_Refuse verdict then (None, h)
        else
          let h = remember_high (prot_strike (beh_strike h bindID now) bindID now) bindID now;
              (over, b) = StrikesExceeded (hd_beh h) bindID now;
              h = h\<lparr> hd_beh := b \<rparr>;
              (banned, h) = (if over then (True, h) else case hd_prot h of
                               None \<Rightarrow> (False, h)
                             | Some g \<Rightarrow> let (bn, g) = Guard_Banned g bindID now in (bn, h\<lparr> hd_prot := Some g \<rparr>));
              details = [(''env'', join (CHR '','') (ev_Reasons verdict))]
          in if banned then
               let (a, h) = emitBlock en h r cx ''Too many failed challenges'' 0 details now in (Some (Page a), h)
             else (Some (Plain 403 (FormatEnvReasons (ev_Reasons verdict))),
                   recordEvent en h r cx ActionBlock ''challenge env refuse'' 0 details now))"

definition captcha_verify :: "engines \<Rightarrow> (string \<Rightarrow> Payload option) \<Rightarrow> Handler \<Rightarrow> CaptchaVerifier \<Rightarrow> Request \<Rightarrow> string \<Rightarrow> gotime \<Rightarrow> bool \<times> Handler" where
  "captcha_verify en unmarshal h v r token now =
     (case v of
        StubCaptcha want \<Rightarrow> (StubCaptcha_Verify want token = None, h)
      | RavenCaptcha bound \<Rightarrow>
          let (e, m) = RavenCaptcha_Verify (en_crypto en) unmarshal (if bound then hd_chal h else None) r token (unix_sec now)
          in (e = None, if bound then h\<lparr> hd_chal := m \<rparr> else h))"

definition post_captcha :: "engines \<Rightarrow> (string \<Rightarrow> Payload option) \<Rightarrow> Handler \<Rightarrow> Request \<Rightarrow> string \<Rightarrow> challengeBody \<Rightarrow> gotime \<Rightarrow> reply option \<times> Handler" where
  "post_captcha en unmarshal h r bindID body now =
     (let cap = chal_Captcha (cfg_Challenge (hd_cfg h)) in
      if \<not> cap_Enabled cap then (None, h)
      else if cb_Payload body \<noteq> [] \<and> ToLower (TrimSpace (cap_Provider cap)) = ''ravenguard'' then (None, h)
      else case hd_captcha h of
        None \<Rightarrow> (Some (Plain 500 ''captcha provider missing''), h)
      | Some v \<Rightarrow>
          let token = (if cb_Captcha body = [] then cb_Payload body else cb_Captcha body);
              (ok, h) = captcha_verify en unmarshal h v r token now
          in if ok then (None, h) else (Some (Plain 403 ''captcha failed''), remember_high (beh_strike h bindID now) bindID now))"

text \<open>\<open>decode\<close> is the JSON decoder on the body, which fails to read past one mebibyte; \<open>load\<close> is the request log's database.\<close>

definition handleChallengePOST :: "engines \<Rightarrow> (string \<Rightarrow> Payload option) \<Rightarrow> (bodyStream \<Rightarrow> challengeBody option) \<Rightarrow>
    (Event list \<Rightarrow> string \<Rightarrow> Event option) \<Rightarrow> Handler \<Rightarrow> string \<Rightarrow> Request \<Rightarrow> gotime \<Rightarrow> reply \<times> Handler" where
  "handleChallengePOST en unmarshal decode load h reqID r now =
     (if req_Method r \<noteq> ''POST'' then (Plain 405 ''method not allowed'', h)
      else if hd_chal h = None then (Plain 400 ''challenge disabled'', h)
      else
        let bindID = client_key en h r; (over, h) = endpoint_limited h bindID (req_Path r) now in
        if over then (Plain 429 ''too many requests'', h)
        else case (decode \<lparr> bs_data = take (2 ^ 20) (req_Body r), bs_fails = length (req_Body r) > 2 ^ 20 \<rparr>, hd_chal h) of
          (Some body, Some m) \<Rightarrow>
            let reqID = continue_reqID h load reqID bindID body; cx = request_ctx en h reqID r in
            (case post_solution en unmarshal h m bindID body now of
               (Inl e, h) \<Rightarrow> (e, h)
             | (Inr sol, h) \<Rightarrow>
                 (case post_env en h r cx sol now of
                    (Some e, h) \<Rightarrow> (e, h)
                  | (None, h) \<Rightarrow>
                      (case post_captcha en unmarshal h r bindID body now of
                         (Some e, h) \<Rightarrow> (e, h)
                       | (None, h) \<Rightarrow>
                           (case hd_chal h of
                              None \<Rightarrow> (Plain 400 ''challenge disabled'', h)
                            | Some m \<Rightarrow>
                                let (ck, m) = ClearanceCookie (en_crypto en) m bindID reqID (requestSecure h r) now
                                in (Cleared ck, h\<lparr> hd_chal := Some m \<rparr>)))))
        | _ \<Rightarrow> (Plain 400 ''bad request'', h))"

definition handleVerifyV1POST :: "engines \<Rightarrow> (string \<Rightarrow> Payload option) \<Rightarrow> (bodyStream \<Rightarrow> challengeBody option) \<Rightarrow>
    (Event list \<Rightarrow> string \<Rightarrow> Event option) \<Rightarrow> Handler \<Rightarrow> string \<Rightarrow> Request \<Rightarrow> gotime \<Rightarrow> reply \<times> Handler" where
  "handleVerifyV1POST = handleChallengePOST"

section \<open>Lemmas\<close>


lemma limited_frame:
  assumes "endpoint_limited h b p now = (over, h1)"
  shows "hd_chal h1 = hd_chal h" "hd_cfg h1 = hd_cfg h" "hd_captcha h1 = hd_captcha h"
  using assms by (auto simp: endpoint_limited_def globalOver_def Let_def split: option.splits prod.splits if_splits)

lemma event_frame [simp]:
  "hd_cfg (recordEvent en h r cx a rs sc d now) = hd_cfg h" "hd_chal (recordEvent en h r cx a rs sc d now) = hd_chal h"
  by (simp_all add: recordEvent_def Let_def)

text \<open>What a client has to show for a clearance: a report of its environment that is not refused, unless the probe is off;
  a solution the manager \<open>m\<close> accepts and consumes, which leaves the manager \<open>m1\<close>; and, if the captcha is enabled, a
  captcha that the configured verifier passes against \<open>m1\<close>, unless the provider is the proof of work itself and a signed
  payload was posted.\<close>

definition env_accepted :: "GlobalConfig \<Rightarrow> EnvReport \<Rightarrow> int \<Rightarrow> string \<Rightarrow> bool" where
  "env_accepted cfg env diff gate \<longleftrightarrow>
     EqualFold (TrimSpace (chal_EnvProbe (cfg_Challenge cfg))) ''off'' \<or> \<not> ev_Refuse (EvaluateEnv env diff gate)"

definition solution_shown :: "engines \<Rightarrow> (string \<Rightarrow> Payload option) \<Rightarrow> GlobalConfig \<Rightarrow> Manager \<Rightarrow> string \<Rightarrow> challengeBody \<Rightarrow> gotime \<Rightarrow> Manager \<Rightarrow> bool" where
  "solution_shown en unmarshal cfg m bindID body now m1 \<longleftrightarrow>
     (if cb_Payload body \<noteq> [] then
        \<exists>p. VerifyPayload (en_crypto en) unmarshal m (cb_Payload body) bindID (unix_sec now) = (Inr p, m1) \<and>
          env_accepted cfg (pl_Env p) (pl_Difficulty p) (pl_Gate p)
      else
        \<exists>tok. ParseToken (en_crypto en) m (cb_Token body) bindID (unix_sec now) = Inr tok \<and>
          VerifyPoW (en_crypto en) tok (cb_Solution body) = None \<and> ConsumeNonce m tok (unix_sec now) = (None, m1) \<and>
          env_accepted cfg (cb_Env body) (tk_Difficulty tok) GateInteractive)"

definition captcha_shown :: "engines \<Rightarrow> (string \<Rightarrow> Payload option) \<Rightarrow> Handler \<Rightarrow> Request \<Rightarrow> challengeBody \<Rightarrow> gotime \<Rightarrow> Manager \<Rightarrow> bool" where
  "captcha_shown en unmarshal h r body now m1 \<longleftrightarrow>
     (let cap = chal_Captcha (cfg_Challenge (hd_cfg h)) in
      \<not> cap_Enabled cap \<or> (cb_Payload body \<noteq> [] \<and> ToLower (TrimSpace (cap_Provider cap)) = ''ravenguard'') \<or>
        (\<exists>v. hd_captcha h = Some v \<and>
           fst (captcha_verify en unmarshal (h\<lparr> hd_chal := Some m1 \<rparr>) v r
             (if cb_Captcha body = [] then cb_Payload body else cb_Captcha body) now)))"

definition nonces_only :: "Manager \<Rightarrow> Manager \<Rightarrow> bool" where
  "nonces_only m m' \<longleftrightarrow> (\<exists>ns. m' = m\<lparr> mg_nonces := ns \<rparr>)"

lemma nonces_only_refl [simp]: "nonces_only m m" "nonces_only m (m\<lparr> mg_nonces := ns \<rparr>)"
  unfolding nonces_only_def by (rule exI [of _ "mg_nonces m"], simp) blast

lemma nonces_only_trans [trans]: "nonces_only m m' \<Longrightarrow> nonces_only m' m'' \<Longrightarrow> nonces_only m m''"
  by (auto simp: nonces_only_def)

lemma VerifyPayload_nonces: "VerifyPayload cy unmarshal m raw b now = (res, m') \<Longrightarrow> nonces_only m m'"
  by (cases res) (auto dest: VerifyPayload_Inl VerifyPayload_Inr(8))

lemma ConsumeNonce_nonces: "ConsumeNonce m tok now = (e, m') \<Longrightarrow> nonces_only m m'"
  by (auto simp: ConsumeNonce_def Let_def split: if_splits prod.splits)

lemma RavenCaptcha_nonces:
  "RavenCaptcha_Verify cy unmarshal (Some m) r token now = (e, mo) \<Longrightarrow> \<exists>m'. mo = Some m' \<and> nonces_only m m'"
  by (auto simp: RavenCaptcha_Verify_def dest: VerifyPayload_nonces split: prod.splits sum.splits if_splits)

lemma post_env_None: "post_env en h r cx (diff, gate, env) now = (None, h1) \<Longrightarrow> env_accepted (hd_cfg h) env diff gate \<and> h1 = h"
  by (auto simp: post_env_def env_accepted_def Let_def split: if_splits prod.splits)

lemma post_solution_shown:
  assumes "post_solution en unmarshal h m bindID body now = (Inr sol, h1)" "post_env en h1 r cx sol now = (None, h2)"
  obtains m1 where "solution_shown en unmarshal (hd_cfg h) m bindID body now m1" "h2 = h\<lparr> hd_chal := Some m1 \<rparr>" "nonces_only m m1"
proof -
  obtain diff gate env where sol: "sol = (diff, gate, env)" by (cases sol)
  note e = post_env_None [OF assms(2) [unfolded sol]]
  have "\<exists>m1. solution_shown en unmarshal (hd_cfg h) m bindID body now m1 \<and> h2 = h\<lparr> hd_chal := Some m1 \<rparr> \<and> nonces_only m m1"
    using assms(1) e
    by (auto simp: post_solution_def solution_shown_def sol dest: VerifyPayload_nonces ConsumeNonce_nonces
        split: if_splits prod.splits sum.splits option.splits)
  with that show ?thesis by blast
qed

lemma captcha_verify_cong:
  "hd_chal g = hd_chal h \<Longrightarrow> fst (captcha_verify en unmarshal g v r token now) = fst (captcha_verify en unmarshal h v r token now)"
  by (simp add: captcha_verify_def Let_def case_prod_beta split: CaptchaVerifier.split)

lemma post_captcha_shown:
  assumes "post_captcha en unmarshal g r b body now = (None, g1)" "hd_chal g = Some m1" "hd_cfg g = hd_cfg h" "hd_captcha g = hd_captcha h"
  shows "captcha_shown en unmarshal h r body now m1"
proof -
  have "fst (captcha_verify en unmarshal g v r t now) = fst (captcha_verify en unmarshal (h\<lparr> hd_chal := Some m1 \<rparr>) v r t now)" for v t
    by (rule captcha_verify_cong) (simp add: assms(2))
  with assms show ?thesis
    by (auto simp: post_captcha_def captcha_shown_def Let_def case_prod_beta split: if_splits option.splits)
qed

lemma post_captcha_nonces:
  assumes "post_captcha en unmarshal g r b body now = (None, g1)" "hd_chal g = Some m1"
  shows "\<exists>m2. hd_chal g1 = Some m2 \<and> nonces_only m1 m2"
  using assms
  by (auto simp: post_captcha_def captcha_verify_def Let_def dest: RavenCaptcha_nonces
      split: if_splits option.splits prod.splits CaptchaVerifier.splits)

text \<open>No stage that refuses answers with a cookie.\<close>

lemma refusals_are_not_cleared:
  "post_solution en unmarshal h m b body now = (Inl e, g) \<Longrightarrow> e \<noteq> Cleared ck"
  "post_env en h r cx sol now = (Some e, g) \<Longrightarrow> e \<noteq> Cleared ck"
  "post_captcha en unmarshal h r b body now = (Some e, g) \<Longrightarrow> e \<noteq> Cleared ck"
  by (auto simp: post_solution_def post_env_def post_captcha_def emitBlock_def Let_def
      split: if_splits prod.splits sum.splits option.splits)

definition post_stages :: "engines \<Rightarrow> (string \<Rightarrow> Payload option) \<Rightarrow> Handler \<Rightarrow> Manager \<Rightarrow> string \<Rightarrow> challengeBody \<Rightarrow> string \<Rightarrow> Request \<Rightarrow> gotime \<Rightarrow> reply \<times> Handler" where
  "post_stages en unmarshal h1 m b body rid r now =
     (case post_solution en unmarshal h1 m b body now of
         (Inl e, h) \<Rightarrow> (e, h)
       | (Inr sol, h) \<Rightarrow> (case post_env en h r (request_ctx en h1 rid r) sol now of
           (Some e, h) \<Rightarrow> (e, h)
         | (None, h) \<Rightarrow> (case post_captcha en unmarshal h r b body now of
             (Some e, h) \<Rightarrow> (e, h)
           | (None, h) \<Rightarrow> (case hd_chal h of
               None \<Rightarrow> (Plain 400 ''challenge disabled'', h)
             | Some m \<Rightarrow> let (ck, m) = ClearanceCookie (en_crypto en) m b rid (requestSecure h r) now
                 in (Cleared ck, h\<lparr> hd_chal := Some m \<rparr>)))))"

lemma post_stages_cleared:
  assumes "post_stages en unmarshal h1 m b body rid r now = (Cleared ck, h')"
  obtains sol h2 h3 h4 m2 where "post_solution en unmarshal h1 m b body now = (Inr sol, h2)"
    "post_env en h2 r (request_ctx en h1 rid r) sol now = (None, h3)" "post_captcha en unmarshal h3 r b body now = (None, h4)"
    "hd_chal h4 = Some m2" "ck = fst (ClearanceCookie (en_crypto en) m2 b rid (requestSecure h4 r) now)"
proof -
  obtain sol h2 where s: "post_solution en unmarshal h1 m b body now = (Inr sol, h2)"
    using assms by (auto simp: post_stages_def dest: refusals_are_not_cleared split: prod.splits sum.splits)
  obtain h3 where e: "post_env en h2 r (request_ctx en h1 rid r) sol now = (None, h3)"
    using assms by (auto simp: post_stages_def s dest: refusals_are_not_cleared split: prod.splits option.splits)
  obtain h4 where c: "post_captcha en unmarshal h3 r b body now = (None, h4)"
    using assms by (auto simp: post_stages_def s e dest: refusals_are_not_cleared split: prod.splits option.splits)
  obtain m2 where m2: "hd_chal h4 = Some m2"
    using assms by (cases "hd_chal h4") (auto simp: post_stages_def s e c)
  have "ck = fst (ClearanceCookie (en_crypto en) m2 b rid (requestSecure h4 r) now)"
    using assms by (cases "ClearanceCookie (en_crypto en) m2 b rid (requestSecure h4 r) now") (simp add: post_stages_def s e c m2)
  with s e c m2 show ?thesis by (rule that)
qed

lemma challenge_post_cleared:
  assumes "handleChallengePOST en unmarshal decode load h reqID r now = (Cleared ck, h')"
  obtains h1 body m rid where "req_Method r = ''POST''" "hd_chal h = Some m"
    "endpoint_limited h (client_key en h r) (req_Path r) now = (False, h1)"
    "decode \<lparr> bs_data = take (2 ^ 20) (req_Body r), bs_fails = length (req_Body r) > 2 ^ 20 \<rparr> = Some body"
    "post_stages en unmarshal h1 m (client_key en h r) body rid r now = (Cleared ck, h')"
proof -
  let ?in = "\<lparr> bs_data = take (2 ^ 20) (req_Body r), bs_fails = length (req_Body r) > 2 ^ 20 \<rparr>"
  define b where "b = client_key en h r"
  obtain over h1 where run0: "endpoint_limited h b (req_Path r) now = (over, h1)" by fastforce
  have post: "req_Method r = ''POST''" and en: "hd_chal h \<noteq> None" and "\<not> over"
    using assms run0 by (auto simp: handleChallengePOST_def b_def [symmetric] Let_def split: if_splits)
  then have lim: "endpoint_limited h b (req_Path r) now = (False, h1)" using run0 by simp
  note f = limited_frame [OF lim]
  obtain body m where body: "decode ?in = Some body" and m: "hd_chal h = Some m"
    using assms lim f post en
    by (cases "decode ?in"; cases "hd_chal h") (simp_all add: handleChallengePOST_def b_def [symmetric] Let_def)
  have "handleChallengePOST en unmarshal decode load h reqID r now =
      post_stages en unmarshal h1 m b body (continue_reqID h1 load reqID b body) r now"
    unfolding post_stages_def using lim post body m f by (simp add: handleChallengePOST_def b_def [symmetric] Let_def)
  with assms that [OF post m lim [unfolded b_def] body] show ?thesis by (simp add: b_def)
qed

text \<open>C3: a clearance cookie has to be earned.  When the challenge endpoint answers a post with a cookie, the body decodes to a
  solution that the challenge manager of the site accepted and consumed just now (a signed payload, or a token with its proof
  of work), and the report of the client's environment was not refused, unless the probe is off.  With that solution already
  consumed, an enabled captcha was passed, unless the captcha provider is the proof of work itself and a signed payload was
  posted.  The cookie is the one of the client the request comes from, made by a manager that differs from the site's in
  spent nonces only.\<close>

theorem clearance_is_earned:
  assumes "handleChallengePOST en unmarshal decode load h reqID r now = (Cleared ck, h')"
  shows "\<exists>body m m1 m2 rid sec. req_Method r = ''POST'' \<and> hd_chal h = Some m
    \<and> decode \<lparr> bs_data = take (2 ^ 20) (req_Body r), bs_fails = length (req_Body r) > 2 ^ 20 \<rparr> = Some body
    \<and> solution_shown en unmarshal (hd_cfg h) m (client_key en h r) body now m1
    \<and> captcha_shown en unmarshal h r body now m1 \<and> nonces_only m m1 \<and> nonces_only m1 m2
    \<and> ck = fst (ClearanceCookie (en_crypto en) m2 (client_key en h r) rid sec now)"
proof -
  obtain h1 body m rid where p: "req_Method r = ''POST''" "hd_chal h = Some m"
    "endpoint_limited h (client_key en h r) (req_Path r) now = (False, h1)"
    "decode \<lparr> bs_data = take (2 ^ 20) (req_Body r), bs_fails = length (req_Body r) > 2 ^ 20 \<rparr> = Some body"
    "post_stages en unmarshal h1 m (client_key en h r) body rid r now = (Cleared ck, h')"
    using assms by (rule challenge_post_cleared)
  obtain sol h2 h3 h4 m2 where st: "post_solution en unmarshal h1 m (client_key en h r) body now = (Inr sol, h2)"
    "post_env en h2 r (request_ctx en h1 rid r) sol now = (None, h3)"
    "post_captcha en unmarshal h3 r (client_key en h r) body now = (None, h4)" "hd_chal h4 = Some m2"
    "ck = fst (ClearanceCookie (en_crypto en) m2 (client_key en h r) rid (requestSecure h4 r) now)"
    using p(5) by (rule post_stages_cleared)
  obtain m1 where sh: "solution_shown en unmarshal (hd_cfg h1) m (client_key en h r) body now m1"
    "h3 = h1\<lparr> hd_chal := Some m1 \<rparr>" "nonces_only m m1"
    using st(1,2) by (rule post_solution_shown)
  note f = limited_frame [OF p(3)]
  have "captcha_shown en unmarshal h r body now m1"
    by (rule post_captcha_shown [OF st(3)]) (simp_all add: sh(2) f)
  moreover have "nonces_only m1 m2"
    using post_captcha_nonces [OF st(3), of m1] st(4) by (simp add: sh(2))
  ultimately show ?thesis using p sh st(5) f by auto
qed

definition demo_post :: Request where
  "demo_post = demo_handshake\<lparr> req_Method := ''POST'', req_Header := [] \<rparr>"

definition demo_solver :: Handler where
  "demo_solver = demo_handler\<lparr> hd_chal := Some (snd demo_challenge),
     hd_cfg := zero_GlobalConfig\<lparr> cfg_Challenge := zero_ChallengeConfig\<lparr> chal_EnvProbe := ''on'',
       chal_Captcha := \<lparr> cap_Enabled = True, cap_Provider = ''stub'', cap_Token = [] \<rparr> \<rparr> \<rparr>,
     hd_captcha := Some (StubCaptcha []) \<rparr>"

abbreviation demo_solver_engines :: engines where
  "demo_solver_engines \<equiv> demo_engines\<lparr> en_crypto := demo_crypto \<rparr>"

abbreviation demo_body :: challengeBody where
  "demo_body \<equiv> \<lparr> cb_Payload = ''AA'', cb_Token = [], cb_Solution = [], cb_RequestID = [], cb_Ray = [], cb_Captcha = ''ok'', cb_Env = demo_env_report \<rparr>"

lemma demo_accepts_unbound:
  "VerifyPayload demo_crypto demo_unmarshal (snd demo_challenge) ''AA'' [] 1001 =
     (Inr (solved (fst demo_challenge) 5 demo_env_report),
      (snd demo_challenge)\<lparr> mg_nonces := shard_put 256 (hex_encode ''n'') 1300 (shard_new 256) \<rparr>)"
proof -
  have "signChallenge demo_crypto demo_mgr (fst demo_challenge) = signChallenge demo_crypto (snd demo_challenge) (fst demo_challenge)"
    by (simp add: signChallenge_def demo_fields)
  then show ?thesis
    using VerifyPayload_solved [OF demo_decode, of "[]" 1001 demo_crypto "snd demo_challenge"] demo_solution
    by (simp add: demo_fields store256.get_empty)
qed

lemma demo_solver_key: "client_key demo_solver_engines demo_solver demo_post = []"
proof -
  have "ClientIP demo_post [] [] = None" by code_simp
  moreover have "\<not> EqualFold [] ''behind_proxy''" by code_simp
  ultimately show ?thesis
    by (simp add: client_key_def clientBind_def resolveClientIP_def ip_string_def demo_solver_def demo_handler_def
        zero_GlobalConfig_def zero_TrustConfig_def)
qed

lemma demo_env_accepted: "\<not> ev_Refuse (EvaluateEnv demo_env_report 16 GateInvisible)"
  by code_simp

lemma demo_solver_post:
  "\<exists>ck h. handleChallengePOST demo_solver_engines demo_unmarshal (\<lambda>_. Some demo_body) (\<lambda>_ _. None) demo_solver ''id'' demo_post
     (1001 * second) = (Cleared ck, h)"
proof -
  have off: "\<not> EqualFold (TrimSpace ''on'') ''off''" "ToLower (TrimSpace ''stub'') \<noteq> ''ravenguard''" "StubCaptcha_Verify [] ''ok'' = None"
    by code_simp+
  have id: "TrimSpace [] = []" by code_simp
  have unix: "unix_sec (1001 * second) = 1001" by (simp add: unix_sec_def second_def)
  have lim: "endpoint_limited demo_solver [] p now = (False, demo_solver)" for p now
    by (simp add: endpoint_limited_def globalOver_def demo_solver_def demo_handler_def)
  have fld: "chal_EnvProbe (cfg_Challenge (hd_cfg demo_solver)) = ''on''"
    "chal_Captcha (cfg_Challenge (hd_cfg demo_solver)) = \<lparr> cap_Enabled = True, cap_Provider = ''stub'', cap_Token = [] \<rparr>"
    "hd_captcha demo_solver = Some (StubCaptcha [])"
    "hd_chal demo_solver = Some (snd demo_challenge)" "req_Method demo_post = ''POST''"
    by (simp_all add: demo_solver_def demo_post_def)
  have env: "post_env en (demo_solver\<lparr> hd_chal := c \<rparr>) r cx (16, GateInvisible, demo_env_report) now = (None, demo_solver\<lparr> hd_chal := c \<rparr>)"
    for en r cx now c
    by (simp add: post_env_def fld off demo_env_accepted)
  have cap: "post_captcha en u (demo_solver\<lparr> hd_chal := c \<rparr>) r b demo_body now = (None, demo_solver\<lparr> hd_chal := c \<rparr>)" for en u r b now c
    by (simp add: post_captcha_def captcha_verify_def fld off)
  have i: "IssueChallenge demo_crypto demo_mgr ''b'' RiskLow [] ''n'' [] 1000 = (fst demo_challenge, snd demo_challenge)"
    by (simp add: demo_challenge_def)
  have "NormalizeGate [] = GateInvisible" by code_simp
  then have gate: "ch_Gate (fst demo_challenge) = GateInvisible" using IssueChallenge_fields(5) [OF i] by simp
  have sol: "pl_Difficulty (solved (fst demo_challenge) 5 demo_env_report) = 16" "pl_Gate (solved (fst demo_challenge) 5 demo_env_report) = GateInvisible"
    "pl_Env (solved (fst demo_challenge) 5 demo_env_report) = demo_env_report"
    by (simp_all add: solved_def demo_fields gate)
  show ?thesis
    by (simp add: handleChallengePOST_def demo_solver_key fld lim post_solution_def demo_accepts_unbound unix env cap sol
        split: prod.split)
qed

theorem clearance_is_earned_witness:
  "\<exists>ck h m m1 m2 rid sec. handleChallengePOST demo_solver_engines demo_unmarshal (\<lambda>_. Some demo_body) (\<lambda>_ _. None) demo_solver ''id'' demo_post
     (1001 * second) = (Cleared ck, h)
     \<and> solution_shown demo_solver_engines demo_unmarshal (hd_cfg demo_solver) m [] demo_body (1001 * second) m1
     \<and> captcha_shown demo_solver_engines demo_unmarshal demo_solver demo_post demo_body (1001 * second) m1
     \<and> ck = fst (ClearanceCookie demo_crypto m2 [] rid sec (1001 * second))"
proof -
  obtain ck h where run: "handleChallengePOST demo_solver_engines demo_unmarshal (\<lambda>_. Some demo_body) (\<lambda>_ _. None) demo_solver ''id'' demo_post
     (1001 * second) = (Cleared ck, h)"
    using demo_solver_post by blast
  from clearance_is_earned [OF run] run show ?thesis by (simp add: demo_solver_key) blast
qed

subsection \<open>Waiting without JavaScript\<close>

lemma noJSClient_Inr:
  assumes "noJSClient en h r now = (Inr b, h1)"
  shows "chal_NoJSFallback (cfg_Challenge (hd_cfg h))" "IsTextBrowserUA (header r ''User-Agent'')" "b = client_key en h r"
    "hd_cfg h1 = hd_cfg h" "hd_chal h1 = hd_chal h"
proof -
  obtain over g where l: "endpoint_limited h (client_key en h r) (req_Path r) now = (over, g)" by fastforce
  with assms have *: "chal_NoJSFallback (cfg_Challenge (hd_cfg h)) \<and> IsTextBrowserUA (header r ''User-Agent'') \<and> b = client_key en h r \<and> g = h1"
    by (simp add: noJSClient_def split: if_splits)
  then show "chal_NoJSFallback (cfg_Challenge (hd_cfg h))" "IsTextBrowserUA (header r ''User-Agent'')" "b = client_key en h r" by simp_all
  from * limited_frame [OF l] show "hd_cfg h1 = hd_cfg h" "hd_chal h1 = hd_chal h" by simp_all
qed

text \<open>C32: a client without JavaScript waits.  The finishing page hands out a clearance cookie only when the fallback is on,
  the client presents itself as a text browser, and its token, minted for this client and this destination, was issued at
  least the configured delay ago and at most ten minutes ago; the redirect goes to the destination the token names.\<close>

theorem nojs_wait_enforced:
  assumes "handleNoScriptFinish en h reqID r now = (Redirected code nxt ck, h')"
  shows "\<exists>issued m sec. chal_NoJSFallback (cfg_Challenge (hd_cfg h)) \<and> IsTextBrowserUA (header r ''User-Agent'')
    \<and> nxt = safeNextPath (query_get r ''next'')
    \<and> noJSVerify (cy_hmac (en_crypto en)) (chal_Secret (cfg_Challenge (hd_cfg h))) (query_get r ''tok'') (client_key en h r) nxt = Some issued
    \<and> nojs_delay (hd_cfg h) \<le> now - issued * millisecond \<and> now - issued * millisecond \<le> 10 * minute
    \<and> hd_chal h = Some m \<and> ck = fst (ClearanceCookie (en_crypto en) m (client_key en h r) reqID sec now)"
proof -
  obtain b h1 where c: "noJSClient en h r now = (Inr b, h1)"
    using assms by (auto simp: handleNoScriptFinish_def noJSClient_def Let_def split: if_splits prod.splits)
  note f = noJSClient_Inr [OF c]
  obtain issued where v: "noJSVerify (cy_hmac (en_crypto en)) (chal_Secret (cfg_Challenge (hd_cfg h1))) (query_get r ''tok'') b
      (safeNextPath (query_get r ''next'')) = Some issued"
    using assms c by (auto simp: handleNoScriptFinish_def Let_def split: if_splits option.splits)
  obtain m where m: "hd_chal h1 = Some m"
    using assms c v by (auto simp: handleNoScriptFinish_def Let_def split: if_splits option.splits)
  define sec where "sec = requestSecure (recordEvent en h1 r (request_ctx en h1 reqID r) ActionChallenge ''no-js clearance'' 0 [] now) r"
  obtain c2 m2 where k: "ClearanceCookie (en_crypto en) m b reqID sec now = (c2, m2)" by fastforce
  have "nxt = safeNextPath (query_get r ''next'') \<and> nojs_delay (hd_cfg h1) \<le> now - issued * millisecond
      \<and> now - issued * millisecond \<le> 10 * minute \<and> ck = c2"
    using assms c v m k by (auto simp: handleNoScriptFinish_def Let_def sec_def [symmetric] split: if_splits)
  with v m k f show ?thesis by (intro exI [of _ issued] exI [of _ m] exI [of _ sec]) auto
qed

lemma lynx_is_text: "IsTextBrowserUA ''Lynx/2.9''"
proof -
  have "Contains (ToLower ''Lynx/2.9'') ''lynx/''" by code_simp
  moreover have "''lynx/'' \<in> set textBrowserUAs" by (simp add: textBrowserUAs_def)
  ultimately show ?thesis
    by (auto simp: IsTextBrowserUA_def matchAnyFold_def textBrowserMatcher_def AppendLowerASCII_eq Contains_matcher [OF ua_lists_ascii(3)])
qed

definition demo_lynx :: Request where
  "demo_lynx = demo_handshake\<lparr> req_Header := [(''User-Agent'', [''Lynx/2.9''])],
     req_RawQuery := ''tok='' @ noJSMint (\<lambda>k m. k @ m) ''s'' [] ''/'' 2 @ ''&next=/'' \<rparr>"

definition demo_waiting :: Handler where
  "demo_waiting = demo_handler\<lparr> hd_chal := Some demo_mgr,
     hd_cfg := zero_GlobalConfig\<lparr> cfg_Challenge := zero_ChallengeConfig\<lparr> chal_NoJSFallback := True, chal_Secret := ''s'' \<rparr> \<rparr> \<rparr>"

lemma demo_lynx_query:
  "query_get demo_lynx ''tok'' = noJSMint (\<lambda>k m. k @ m) ''s'' [] ''/'' 2" "safeNextPath (query_get demo_lynx ''next'') = ''/''"
  by code_simp+

lemma demo_lynx_finish:
  "\<exists>ck h. handleNoScriptFinish demo_engines demo_waiting ''id'' demo_lynx (4 * second) = (Redirected 303 ''/'' ck, h)"
proof -
  have "header demo_lynx ''User-Agent'' = ''Lynx/2.9''" by code_simp
  then have ua: "IsTextBrowserUA (header demo_lynx ''User-Agent'')" by (simp add: lynx_is_text)
  have ip: "ClientIP demo_lynx [] [] = None" "\<not> EqualFold [] ''behind_proxy''" by code_simp+
  have key: "client_key demo_engines demo_waiting demo_lynx = []"
    using ip by (simp add: client_key_def clientBind_def resolveClientIP_def ip_string_def demo_waiting_def demo_handler_def
        zero_GlobalConfig_def zero_TrustConfig_def)
  have lim: "endpoint_limited demo_waiting [] p now = (False, demo_waiting)" for p now
    by (simp add: endpoint_limited_def globalOver_def demo_waiting_def demo_handler_def)
  have h: "chal_NoJSFallback (cfg_Challenge (hd_cfg demo_waiting))" "chal_Secret (cfg_Challenge (hd_cfg demo_waiting)) = ''s''"
    "hd_chal demo_waiting = Some demo_mgr" "nojs_delay (hd_cfg demo_waiting) = 3 * second" "req_Method demo_lynx = ''GET''"
    by (simp_all add: demo_waiting_def demo_lynx_def demo_handshake_def nojs_delay_def zero_ChallengeConfig_def)
  have cl: "noJSClient demo_engines demo_waiting demo_lynx now = (Inr [], demo_waiting)" for now
    using ua key lim h by (simp add: noJSClient_def)
  have hm: "cy_hmac (en_crypto demo_engines) = (\<lambda>k m. k @ m)" by (simp add: demo_engines_def)
  show ?thesis
    using noJSVerify_own [of 2 "\<lambda>k m. k @ m" "''s''" "[]" "''/''"]
    by (simp add: handleNoScriptFinish_def cl h hm demo_lynx_query second_def minute_def millisecond_def Let_def split: prod.split)
qed

theorem nojs_wait_enforced_witness:
  "\<exists>ck h. handleNoScriptFinish demo_engines demo_waiting ''id'' demo_lynx (4 * second) = (Redirected 303 ''/'' ck, h)
    \<and> IsTextBrowserUA (header demo_lynx ''User-Agent'')"
proof -
  obtain ck h where run: "handleNoScriptFinish demo_engines demo_waiting ''id'' demo_lynx (4 * second) = (Redirected 303 ''/'' ck, h)"
    using demo_lynx_finish by blast
  from nojs_wait_enforced [OF run] run show ?thesis by blast
qed

subsection \<open>Reconfiguration\<close>

text \<open>Reconfiguring a running handler gives the handler a restart with the new configuration would build on the same
  components, with the challenge settings and the limits of the client limiter updated in place and the trusted proxies
  taken over when they parse.\<close>

theorem reconfigure_like_restart:
  "ApplyConfig d cfg (Handler_New d cfg0 bl feeds lm chal cap up tr nf hc priv beh prot) =
     Handler_New d cfg bl feeds
       (map_option (\<lambda>l. Limiter_Update l (rl_Requests (cfg_RateLimit cfg)) (rl_Burst (cfg_RateLimit cfg)) (rl_Window (cfg_RateLimit cfg))
          (rl_PerPath (cfg_RateLimit cfg))) lm)
       (ApplyLive chal (chal_CookieName (cfg_Challenge cfg)) (chal_Difficulty (cfg_Challenge cfg)) (chal_CookieTTL (cfg_Challenge cfg))
          (chal_Algorithm (cfg_Challenge cfg)))
       cap up (case ParseCIDRs (tr_TrustedProxies (cfg_Trust cfg)) of Inr nets \<Rightarrow> nets | Inl _ \<Rightarrow> tr) nf hc priv beh prot"
  by (simp add: ApplyConfig_def Handler_New_def Let_def split: sum.split)

text \<open>C38: the cost of a write is frozen at start.  When the protect guard of a running handler is given a new write cost
  and the configuration is applied, the guard reports the new cost but the handler goes on charging a write the old one.\<close>

theorem write_cost_frozen:
  assumes "0 < WriteMethodCost pc" "Enabled pc" "req_Method r = ''POST''" "det_ForgeRateCost (cfg_Detect cfg) \<le> 0"
    and "h = ApplyConfig d cfg ((Handler_New d cfg0 bl feeds lm chal cap up tr nf hc priv beh (Some g))\<lparr> hd_prot := Some (Guard_UpdateConfig g pc) \<rparr>)"
  shows "Guard_WriteCost (hd_prot h) = WriteMethodCost pc \<and> rate_cost h r = Guard_WriteCost (Some g)"
proof -
  have "hd_prot h = Some (Guard_UpdateConfig g pc)" "hd_writeCost h = Guard_WriteCost (Some g)"
    "hd_forgeRateCost h = det_ForgeRateCost (cfg_Detect cfg)"
    by (simp_all add: assms(5) ApplyConfig_def Handler_New_def Let_def)
  moreover have "0 < Guard_WriteCost (Some g)" by (simp add: Guard_WriteCost_def Let_def)
  moreover have "WriteMethodCost (Guard_live (Guard_UpdateConfig g pc)) = WriteMethodCost pc" "Enabled (Guard_live (Guard_UpdateConfig g pc))"
    using assms(1,2) by (simp_all add: Guard_UpdateConfig_def keep_pos_def Guard_live_def [of "_\<lparr> g_cfg := _ \<rparr>"] Let_def)
  ultimately show ?thesis
    using assms(1,3,4)
    by (simp add: rate_cost_def prot_on_def Guard_Enabled_def MethodCost_def Guard_WriteCost_def [of "Some (Guard_UpdateConfig g pc)"])
qed

theorem write_cost_frozen_witness:
  "\<exists>h. Guard_WriteCost (hd_prot h) = 9 \<and> rate_cost h demo_post = 3"
proof -
  let ?pc = "zero_Config\<lparr> WriteMethodCost := 9, Enabled := True \<rparr>"
  have "Guard_WriteCost (Some (Guard_New zero_Config)) = 3"
    by (simp add: Guard_WriteCost_def Guard_New_def pos_or_def zero_Config_def Guard_live_def Let_def)
  moreover have "0 < WriteMethodCost ?pc" "Enabled ?pc" "req_Method demo_post = ''POST''" "det_ForgeRateCost (cfg_Detect zero_GlobalConfig) \<le> 0"
    "WriteMethodCost ?pc = 9"
    by (simp_all add: demo_post_def zero_GlobalConfig_def zero_DetectSection_def)
  ultimately show ?thesis
    using write_cost_frozen [where pc = ?pc and r = demo_post and cfg = zero_GlobalConfig and g = "Guard_New zero_Config", OF _ _ _ _ refl] by metis
qed

end
