(* ===== verification/PipeServe.thy ===== *)
theory PipeServe
  imports PipeHandlers
begin

text \<open>
  How the pipeline is put to work: attaching the engines, the table of paths that are not sent through the guard, the
  test pages, and the goroutines that sweep the components (\<open>pipeline.go\<close>) and refresh the feeds (\<open>qfeeds.go\<close>).
\<close>

section \<open>Definitions\<close>

subsection \<open>Attached engines\<close>

definition SetCoraza :: "engines \<Rightarrow> corazaEngine option \<Rightarrow> engines" where "SetCoraza en e = en\<lparr> en_coraza := e \<rparr>"
definition SetSemantic :: "engines \<Rightarrow> semEngine option \<Rightarrow> engines" where "SetSemantic en e = en\<lparr> en_semantic := e \<rparr>"
definition SetML :: "engines \<Rightarrow> mlScorer option \<Rightarrow> engines" where "SetML en s = en\<lparr> en_ml := s \<rparr>"
definition SetSchemaGate :: "engines \<Rightarrow> (Request \<Rightarrow> string \<Rightarrow> schemaResult) option \<Rightarrow> engines" where
  "SetSchemaGate en m = en\<lparr> en_schemas := m \<rparr>"
definition SetThreatReporter :: "Handler \<Rightarrow> (string \<times> string \<times> string) list option \<Rightarrow> Handler" where
  "SetThreatReporter h r = h\<lparr> hd_reports := r \<rparr>"

definition newWebBotVerifier :: "(duration \<Rightarrow> Request \<Rightarrow> WebBotVerdict) \<Rightarrow> GlobalConfig \<Rightarrow> (Request \<Rightarrow> WebBotVerdict) option" where
  "newWebBotVerifier build cfg =
     (let w = det_WebBotAuth (cfg_Detect cfg) in if \<not> wba_Enabled w then None else Some (build (wba_Timeout w)))"

definition setRequestIDHeader :: "Handler \<Rightarrow> Header \<Rightarrow> string \<Rightarrow> Header" where
  "setRequestIDHeader h hdr reqID =
     (let name = TrimSpace (st_RequestIDHeader (cfg_Stealth (hd_cfg h))) in
      if name = [] \<or> \<not> pv_RequestIDs (cfg_Privacy (hd_cfg h)) then hdr else Header_Set hdr name reqID)"

subsection \<open>Table of paths\<close>

datatype endpoint =
    EGuard | ERobots | ERsl | ELlms | EManifest | EChallengePOST | ENoScript | ENoScriptFinish | EChallengeV1 | EVerifyV1 | EAccess
  | EHealthz | EDecisions | EStatic | ETestRedirect | ETestIndex | ETestChallenge | ETestBlock | ETestRateLimit | ETestUpstream | ETestError

definition mountTestRoutes :: "GlobalConfig \<Rightarrow> (string \<times> endpoint) list" where
  "mountTestRoutes cfg =
     (let pre = chal_PathPrefix (cfg_Challenge cfg); base = pre @ ''/test'' in
      [(pre, ETestRedirect), (pre @ ''/'', ETestRedirect), (base, ETestIndex), (base @ ''/'', ETestIndex), (base @ ''/challenge'', ETestChallenge),
       (base @ ''/block'', ETestBlock), (base @ ''/ratelimit'', ETestRateLimit), (base @ ''/upstream'', ETestUpstream), (base @ ''/error'', ETestError)])"

text \<open>\<open>assets\<close> are the patterns of the embedded assets.\<close>

definition mux_routes :: "string list \<Rightarrow> GlobalConfig \<Rightarrow> (string \<times> endpoint) list" where
  "mux_routes assets cfg =
     (let pre = chal_PathPrefix (cfg_Challenge cfg) in
      map (\<lambda>p. (p, EStatic)) assets
      @ [(''/robots.txt'', ERobots), (''/.well-known/rsl.xml'', ERsl), (''/llms.txt'', ELlms)]
      @ (if st_ServeManifest (cfg_Stealth cfg) then [(''/site.webmanifest'', EManifest), (pre @ ''/site.webmanifest'', EManifest)] else [])
      @ [(pre @ ''/challenge'', EChallengePOST), (pre @ ''/noscript'', ENoScript), (pre @ ''/noscript/finish'', ENoScriptFinish),
         (pre @ ''/v1/challenge'', EChallengeV1), (pre @ ''/v1/verify'', EVerifyV1), (pre @ ''/access'', EAccess), (pre @ ''/healthz'', EHealthz),
         (''/healthz'', EHealthz), (pre @ ''/decisions'', EDecisions)]
      @ (if ui_TestMode (cfg_UI cfg) then mountTestRoutes cfg else [])
      @ [(''/'', EGuard)])"

text \<open>\<open>http.ServeMux\<close> on a clean path: a pattern that ends in a slash matches what lies below it, another one only itself,
  and the longest match wins.\<close>

definition mux_match :: "string \<Rightarrow> string \<Rightarrow> bool" where
  "mux_match pat path = (if HasSuffix pat ''/'' then HasPrefix path pat else path = pat)"

fun mux_pick :: "(string \<times> endpoint) list \<Rightarrow> string \<Rightarrow> (string \<times> endpoint) option" where
  "mux_pick [] path = None"
| "mux_pick ((pat, e) # rs) path =
     (case mux_pick rs path of
        None \<Rightarrow> if mux_match pat path then Some (pat, e) else None
      | Some (q, f) \<Rightarrow> if mux_match pat path \<and> length pat > length q then Some (pat, e) else Some (q, f))"

subsection \<open>Sweepers\<close>

text \<open>A ticker calls the function at every tick until its context is done; \<open>ticks\<close> are the ticks before that.\<close>

definition runSweeper :: "('s \<Rightarrow> gotime \<Rightarrow> 's) \<Rightarrow> gotime list \<Rightarrow> 's \<Rightarrow> 's" where
  "runSweeper fn ticks s = fold (\<lambda>t s. fn s t) ticks s"

definition StartSweeper :: "Limiter option \<Rightarrow> duration \<Rightarrow> duration \<Rightarrow> gotime list \<Rightarrow> Limiter option" where
  "StartSweeper l every maxAge ticks = (if every \<le> 0 then l else map_option (runSweeper (\<lambda>l. Limiter_Sweep l maxAge) ticks) l)"

definition StartNotFoundSweeper :: "CountTracker option \<Rightarrow> duration \<Rightarrow> duration \<Rightarrow> gotime list \<Rightarrow> CountTracker option" where
  "StartNotFoundSweeper nf every maxAge ticks = (if every \<le> 0 then nf else map_option (runSweeper (\<lambda>t. NotFound_Sweep t maxAge) ticks) nf)"

definition StartPenaltySweeper :: "CountTracker option \<Rightarrow> duration \<Rightarrow> duration \<Rightarrow> gotime list \<Rightarrow> CountTracker option" where
  "StartPenaltySweeper pen every maxAge ticks = (if every \<le> 0 then pen else map_option (runSweeper (\<lambda>t. Penalty_Sweep t maxAge) ticks) pen)"

definition StartNonceSweeper :: "Manager option \<Rightarrow> duration \<Rightarrow> gotime list \<Rightarrow> Manager option" where
  "StartNonceSweeper chal every ticks = (if every \<le> 0 then chal else map_option (runSweeper (\<lambda>m t. SweepNonces m (unix_sec t)) ticks) chal)"

definition StartBehaviorSweeper :: "BehaviorTracker option \<Rightarrow> duration \<Rightarrow> duration \<Rightarrow> gotime list \<Rightarrow> BehaviorTracker option" where
  "StartBehaviorSweeper beh every maxAge ticks =
     (if beh = None \<or> every \<le> 0 then beh else runSweeper (\<lambda>b. Behavior_Sweep b maxAge) ticks beh)"

definition StartProtectSweeper :: "Guard option \<Rightarrow> duration \<Rightarrow> duration \<Rightarrow> gotime list \<Rightarrow> Guard option" where
  "StartProtectSweeper g every maxAge ticks = (if every \<le> 0 then g else map_option (runSweeper (\<lambda>g. Guard_Sweep g maxAge) ticks) g)"

text \<open>The feeds: one refresh at the start and one per tick, each with the answers of its time.\<close>

definition Cache_Start :: "Cache \<Rightarrow> (string \<Rightarrow> string option) \<Rightarrow> (string \<Rightarrow> string option) list \<Rightarrow> Cache" where
  "Cache_Start c first later = fold (\<lambda>fetch c. Cache_refresh fetch c) later (Cache_refresh first c)"

section \<open>Lemmas\<close>

lemma mux_pick_iff:
  "mux_pick rs path = None \<longleftrightarrow> (\<forall>(pat, e) \<in> set rs. \<not> mux_match pat path)"
  by (induction rs) (auto split: option.splits if_splits)

lemma mux_pick_mem: "mux_pick rs path = Some (pat, e) \<Longrightarrow> (pat, e) \<in> set rs \<and> mux_match pat path"
  by (induction rs arbitrary: pat e) (auto split: option.splits if_splits)

definition site_paths :: "string list" where
  "site_paths = [''/robots.txt'', ''/.well-known/rsl.xml'', ''/llms.txt'', ''/site.webmanifest'', ''/healthz'']"

definition own_paths :: "string list" where
  "own_paths = [''/site.webmanifest'', ''/challenge'', ''/noscript'', ''/noscript/finish'', ''/v1/challenge'', ''/v1/verify'', ''/access'',
     ''/healthz'', ''/decisions'']"

lemma paths_end: "\<forall>p \<in> set site_paths. p \<noteq> [] \<and> last p \<noteq> CHR ''/''" "\<forall>p \<in> set own_paths. p \<noteq> [] \<and> last p \<noteq> CHR ''/''"
  by code_simp+

lemma HasSuffix_slash: "HasSuffix s ''/'' \<longleftrightarrow> s \<noteq> [] \<and> last s = CHR ''/''"
  by (cases s rule: rev_cases) (auto simp: HasSuffix_iff)

lemma mux_routes_cases:
  assumes "(pat, e) \<in> set (mux_routes assets cfg)" "\<not> ui_TestMode (cfg_UI cfg)" "e \<noteq> EGuard"
  shows "pat \<in> set assets \<or> pat \<in> set site_paths \<or> (\<exists>x \<in> set own_paths. pat = chal_PathPrefix (cfg_Challenge cfg) @ x)"
proof -
  define pre where "pre = chal_PathPrefix (cfg_Challenge cfg)"
  have "set (mux_routes assets cfg) \<subseteq> (set assets \<union> set site_paths \<union> (\<lambda>x. pre @ x) ` set own_paths) \<times> UNIV \<union> {(''/'', EGuard)}"
    using assms(2) unfolding mux_routes_def Let_def pre_def [symmetric] site_paths_def own_paths_def
    by (cases "st_ServeManifest (cfg_Stealth cfg)") (simp_all, (blast | simp)+)
  then show ?thesis using assms(1,3) unfolding pre_def by blast
qed

text \<open>Outside test mode, every path goes through the guard unless it is an asset or one of the listed paths: nothing else of
  the site can be reached around the guard.\<close>

theorem only_listed_paths_bypass_guard:
  assumes "\<not> ui_TestMode (cfg_UI cfg)" "mux_pick (mux_routes assets cfg) path = Some (pat, e)" "e \<noteq> EGuard"
  shows "pat \<in> set assets \<or> path \<in> set site_paths \<or> (\<exists>x \<in> set own_paths. path = chal_PathPrefix (cfg_Challenge cfg) @ x)"
proof -
  note mem = mux_pick_mem [OF assms(2)]
  have eq: "path = pat" if "pat = pre @ x" "x \<noteq> []" "last x \<noteq> CHR ''/''" for pre x
    using mem that by (simp add: mux_match_def HasSuffix_slash)
  from mux_routes_cases [OF _ assms(1,3)] mem
  consider "pat \<in> set assets" | "pat \<in> set site_paths" | x where "x \<in> set own_paths" "pat = chal_PathPrefix (cfg_Challenge cfg) @ x" by blast
  then show ?thesis
  proof cases
    case 2
    then show ?thesis using eq [of "[]" pat] paths_end(1) by simp
  next
    case (3 x)
    then show ?thesis using eq [OF 3(2)] paths_end(2) by auto
  qed simp
qed

lemma mux_total: "HasPrefix path ''/'' \<Longrightarrow> mux_pick (mux_routes assets cfg) path \<noteq> None"
proof -
  assume "HasPrefix path ''/''"
  then have "mux_match ''/'' path" by (simp add: mux_match_def HasSuffix_slash)
  moreover have "(''/'', EGuard) \<in> set (mux_routes assets cfg)" unfolding mux_routes_def Let_def by simp
  ultimately show ?thesis by (auto simp: mux_pick_iff)
qed

text \<open>The background sweeps of the guard never free or ban anybody, however often they run.\<close>

lemma protect_sweeper_keeps_bans:
  assumes "guard_ok g" "0 \<le> maxAge" "\<forall>t \<in> set ticks. t \<le> s" "StartProtectSweeper (Some g) every maxAge ticks = Some g'"
  shows "banned g' k s = banned g k s"
proof -
  have "guard_ok (fold (\<lambda>t g. Guard_Sweep g maxAge t) ts g) \<and> banned (fold (\<lambda>t g. Guard_Sweep g maxAge t) ts g) k s = banned g k s"
    if "\<forall>t \<in> set ts. t \<le> s" "guard_ok g" for ts g
    using that by (induction ts arbitrary: g) (simp_all add: guard_ok_Sweep sweep_keeps_bans [OF _ assms(2), THEN conjunct1])
  with assms show ?thesis by (auto simp: StartProtectSweeper_def runSweeper_def split: if_splits)
qed

subsection \<open>What the upstream is told\<close>

lemma join_not_Nil: "2 \<le> length ps \<Longrightarrow> join c ps \<noteq> []"
  by (cases "(c, ps)" rule: join.cases) simp_all

lemma IP_String_not_Nil: "IP_String ip \<noteq> []"
  by (cases ip) (simp_all add: IP_String_def ipv4_string_def ipv6_string_def Let_def case_prod_beta join_not_Nil be_digits_def)

lemma forwarded_get:
  assumes "CanonicalHeaderKey (TrimSpace (st_RequestIDHeader (cfg_Stealth (hd_cfg h)))) \<noteq> CanonicalHeaderKey k"
  shows "Header_Get (req_Header (forwarded h r cx)) k =
    Header_Get (req_Header (if cx_clientIP cx \<noteq> None
      then SetClientForwardHeadersIP r (cx_ipStr cx) (if requestSecure h r then ''https'' else ''http'') else r)) k"
  using assms by (simp add: forwarded_def Let_def)

lemma forwarded_host: "req_Host (forwarded h r cx) = req_Host r"
  by (simp add: forwarded_def SetClientForwardHeadersIP_def Let_def)

abbreviation identity_keys :: "string set" where
  "identity_keys \<equiv> {''X-Real-IP'', ''X-Forwarded-For'', ''X-Forwarded-Proto'', ''X-Forwarded-Host'', ''Forwarded''}"

text \<open>C22: the upstream is told who the client is by the proxy and not by the client.  As long as neither the headers the
  operator sets for the route nor the request identifier header overwrite the five forwarding headers, a request whose
  client address was resolved goes out with that address as \<open>X-Real-IP\<close> and as the whole of \<open>X-Forwarded-For\<close>, with the
  protocol the pipeline determined as \<open>X-Forwarded-Proto\<close>, with the requested host as \<open>X-Forwarded-Host\<close> and without a
  \<open>Forwarded\<close> header, whatever the client sent.  Only when no client address can be resolved do the first three headers
  pass through as the client sent them.\<close>

theorem upstream_identity:
  fixes px :: Proxy and h :: Handler and r :: Request and en :: engines and reqID :: string
  assumes "\<forall>k \<in> identity_keys. not_overridden px k"
    and "\<forall>k \<in> identity_keys. CanonicalHeaderKey (TrimSpace (st_RequestIDHeader (cfg_Stealth (hd_cfg h)))) \<noteq> CanonicalHeaderKey k"
  defines "fwd \<equiv> forwarded h r (request_ctx en h reqID r)"
  defines "out \<equiv> out_Header (Rewrite px fwd (reverse_out fwd))"
  shows "Header_Get out ''X-Forwarded-Host'' = req_Host r \<and> Header_Get out ''Forwarded'' = [] \<and>
    (case resolveClientIP h r of
       Some ip \<Rightarrow> Header_Get out ''X-Real-IP'' = IP_String ip \<and> Header_Get out ''X-Forwarded-For'' = IP_String ip \<and>
         Header_Get out ''X-Forwarded-Proto'' = (if requestSecure h r then ''https'' else ''http'')
     | None \<Rightarrow> \<forall>k \<in> {''X-Real-IP'', ''X-Forwarded-For'', ''X-Forwarded-Proto''}. Header_Get out k = Header_Get (req_Header r) k)"
proof -
  have nov: "not_overridden px k" if "k \<in> identity_keys" for k by (rule bspec [OF assms(1) that])
  have get: "Header_Get out k = Header_Get (req_Header fwd) k" if "k \<in> {''X-Real-IP'', ''X-Forwarded-For'', ''X-Forwarded-Proto''}" for k
    unfolding out_def by (rule Rewrite_headers [OF that]) (use that in \<open>auto intro: nov\<close>)
  have fw: "Header_Get (req_Header fwd) k = Header_Get (req_Header (if cx_clientIP (request_ctx en h reqID r) \<noteq> None
      then SetClientForwardHeadersIP r (cx_ipStr (request_ctx en h reqID r)) (if requestSecure h r then ''https'' else ''http'') else r)) k"
    if "k \<in> identity_keys" for k
    unfolding fwd_def by (rule forwarded_get) (rule bspec [OF assms(2) that])
  have host: "Header_Get out ''X-Forwarded-Host'' = req_Host r"
    unfolding out_def using Rewrite_host [OF nov, of fwd] by (simp add: fwd_def forwarded_host)
  have none: "Header_Get out ''Forwarded'' = []" unfolding out_def by (rule Rewrite_forwarded) (simp add: nov)
  have cx: "cx_clientIP (request_ctx en h reqID r) = resolveClientIP h r" "cx_ipStr (request_ctx en h reqID r) = ip_string (resolveClientIP h r)"
    by (simp_all add: request_ctx_def Let_def)
  show ?thesis
    using host none
    by (auto simp: get fw cx ip_string_def SetClientForwardHeadersIP_def IP_String_not_Nil forward_keys Let_def split: option.splits)
qed

theorem upstream_identity_witness:
  "let r = demo_in\<lparr> req_RemoteAddr := ''203.0.113.9:44'', req_Header := [(''X-Real-Ip'', [''6.6.6.6'']), (''Forwarded'', [''for=6.6.6.6''])] \<rparr>;
       fwd = forwarded demo_handler r (request_ctx demo_engines demo_handler ''id'' r);
       out = out_Header (Rewrite demo_proxy fwd (reverse_out fwd))
   in Header_Get out ''X-Real-IP'' = ''203.0.113.9'' \<and> Header_Get out ''X-Forwarded-For'' = ''203.0.113.9'' \<and> Header_Get out ''Forwarded'' = []"
proof -
  let ?r = "demo_in\<lparr> req_RemoteAddr := ''203.0.113.9:44'', req_Header := [(''X-Real-Ip'', [''6.6.6.6'']), (''Forwarded'', [''for=6.6.6.6''])] \<rparr>"
  have sh: "pc_SetHeaders (px_cfg demo_proxy) = [(''X-Env'', ''prod'')]" "CanonicalHeaderKey ''X-Env'' = ''X-Env''" by code_simp+
  have nov: "\<forall>k \<in> identity_keys. not_overridden demo_proxy k"
    unfolding not_overridden_def sh(1) by (simp add: forward_keys sh(2))
  have "TrimSpace [] = []" "CanonicalHeaderKey [] = []" by code_simp+
  then have id: "\<forall>k \<in> identity_keys. CanonicalHeaderKey (TrimSpace (st_RequestIDHeader (cfg_Stealth (hd_cfg demo_handler)))) \<noteq> CanonicalHeaderKey k"
    by (simp add: forward_keys demo_handler_def demo_config_def zero_GlobalConfig_def zero_StealthConfig_def)
  have "ClientIP ?r [] [] = Some (V4 0xCB007109)" "IP_String (V4 0xCB007109) = ''203.0.113.9''" "\<not> EqualFold [] ''behind_proxy''" by code_simp+
  then have ip: "resolveClientIP demo_handler ?r = Some (V4 0xCB007109)" "IP_String (V4 0xCB007109) = ''203.0.113.9''"
    by (simp_all add: resolveClientIP_def demo_handler_def demo_config_def zero_GlobalConfig_def zero_TrustConfig_def)
  show ?thesis
    using upstream_identity [OF nov id, of ?r demo_engines "''id''"] by (simp add: ip Let_def)
qed

end
