(* ===== verification/Crawler.thy ===== *)
theory Crawler
  imports Faststr GoNet
begin

text \<open>
  \<open>internal/detect/crawler.go\<close>: a request that claims to come from a well-known crawler is checked by reverse and
  forward DNS, and the verdict is cached per claimed identity and address.  The resolver is an argument (\<open>None\<close> is an
  error or a timeout), host names are ASCII, and an address equals itself in its IPv4-mapped form.  A check is modelled as
  one step, that is for checks that do not overlap.  In Go they may: the cache is a \<open>sync.Map\<close> and the size an atomic counter,
  which the code calls approximate, and a sweep that stores its own count loses increments made meanwhile.  What is proved
  of the cache below therefore holds of checks one after the other only; the verdict itself does not depend on the cache.  The
  order in which the map is walked by an eviction is the order of the association list.
\<close>

section \<open>Definitions\<close>

datatype CrawlerVerdict = CrawlerNotClaimed | CrawlerUnknown | CrawlerVerified | CrawlerSpoofed

record crawlerSpec =
  cr_uaSub :: string
  cr_suffixes :: "string list"

abbreviation google_hosts :: "string list" where "google_hosts \<equiv> [''googlebot.com'', ''google.com'']"
abbreviation yandex_hosts :: "string list" where "yandex_hosts \<equiv> [''yandex.ru'', ''yandex.net'', ''yandex.com'']"

definition crawlerSpecs :: "crawlerSpec list" where
  "crawlerSpecs = map (\<lambda>(u, s). \<lparr> cr_uaSub = u, cr_suffixes = s \<rparr>)
     [(''googlebot'', google_hosts), (''google-inspectiontool'', google_hosts), (''googleother'', google_hosts),
      (''adsbot-google'', [''google.com'']), (''mediapartners-google'', [''google.com'']), (''feedfetcher-google'', [''google.com'']),
      (''apis-google'', [''google.com'']), (''google-read-aloud'', [''google.com'']), (''bingbot'', [''search.msn.com'']),
      (''bingpreview'', [''search.msn.com'']), (''adidxbot'', [''search.msn.com'']), (''duckduckbot'', [''duckduckgo.com'']),
      (''duckassistbot'', [''duckduckgo.com'']), (''baiduspider'', [''baidu.com'', ''baidu.jp'']), (''yandexbot'', yandex_hosts),
      (''yandexmobilebot'', yandex_hosts), (''yandeximages'', yandex_hosts), (''yandexmetrika'', yandex_hosts),
      (''yandexaccessibilitybot'', yandex_hosts), (''applebot'', [''applebot.apple.com'']), (''qwantify'', [''qwant.com'']),
      (''exabot'', [''exabot.com'']), (''sogou web spider'', [''sogou.com'']), (''sogou inst spider'', [''sogou.com'']),
      (''seznambot'', [''seznam.cz'']), (''mj12bot'', [''majestic12.co.uk'', ''majestic.com'']), (''dotbot'', [''moz.com''])]"

definition maxCrawlerCache :: int where "maxCrawlerCache = 65536"

record crawlerEntry =
  ce_verdict :: CrawlerVerdict
  ce_expires :: gotime

record CrawlerVerifier =
  vf_timeout :: duration
  vf_posTTL :: duration
  vf_negTTL :: duration
  vf_unkTTL :: duration
  vf_cache :: "(string, crawlerEntry) gomap"
  vf_size :: int

record crawlerResolver =
  rs_LookupAddr :: "string \<Rightarrow> string list option"
  rs_LookupIP :: "string \<Rightarrow> IP list option"

definition NewCrawlerVerifier :: "duration \<Rightarrow> duration \<Rightarrow> duration \<Rightarrow> CrawlerVerifier" where
  "NewCrawlerVerifier timeout posTTL negTTL =
     \<lparr> vf_timeout = (if timeout \<le> 0 then 250 * millisecond else timeout),
       vf_posTTL = (if posTTL \<le> 0 then 24 * hour else posTTL),
       vf_negTTL = (if negTTL \<le> 0 then hour else negTTL),
       vf_unkTTL = 5 * minute, vf_cache = [], vf_size = 0 \<rparr>"

definition matchCrawlerSpec :: "string \<Rightarrow> crawlerSpec option" where
  "matchCrawlerSpec ua =
     (if ua = [] then None
      else let low = AppendLowerASCII [] ua in find (\<lambda>spec. ContainsBytes low (cr_uaSub spec)) crawlerSpecs)"

definition MatchCrawler :: "string \<Rightarrow> bool" where
  "MatchCrawler ua \<longleftrightarrow> matchCrawlerSpec ua \<noteq> None"

definition suffixAllowed :: "string \<Rightarrow> string list \<Rightarrow> bool" where
  "suffixAllowed name sfxs \<longleftrightarrow> list_ex (\<lambda>s. name = s \<or> HasSuffix name (''.'' @ s)) sfxs"

fun verify_names :: "crawlerResolver \<Rightarrow> IP \<Rightarrow> string list \<Rightarrow> string list \<Rightarrow> bool \<Rightarrow> bool \<Rightarrow> CrawlerVerdict" where
  "verify_names res ip sfxs [] sawSuffix sawForward =
     (if \<not> sawSuffix then CrawlerSpoofed else if \<not> sawForward then CrawlerUnknown else CrawlerSpoofed)"
| "verify_names res ip sfxs (raw # names) sawSuffix sawForward =
     (let name = TrimSuffix (ToLower raw) ''.'' in
      if \<not> suffixAllowed name sfxs then verify_names res ip sfxs names sawSuffix sawForward
      else case rs_LookupIP res name of
        None \<Rightarrow> verify_names res ip sfxs names True sawForward
      | Some ips \<Rightarrow> if ip \<in> set ips then CrawlerVerified else verify_names res ip sfxs names True True)"

definition crawler_verify :: "crawlerResolver \<Rightarrow> IP \<Rightarrow> crawlerSpec \<Rightarrow> CrawlerVerdict" where
  "crawler_verify res ip spec =
     (case rs_LookupAddr res (IP_String ip) of
        None \<Rightarrow> CrawlerUnknown
      | Some names \<Rightarrow> verify_names res ip (cr_suffixes spec) names False False)"

definition crawler_sweep :: "CrawlerVerifier \<Rightarrow> gotime \<Rightarrow> CrawlerVerifier" where
  "crawler_sweep v now =
     (let live = mpurge (\<lambda>k e. now > ce_expires e) (vf_cache v); n = int (length live) in
      if n \<le> maxCrawlerCache then v\<lparr> vf_cache := live, vf_size := n \<rparr>
      else
        let target = maxCrawlerCache * 3 div 4; live = drop (nat (n - target)) live
        in v\<lparr> vf_cache := live, vf_size := int (length live) \<rparr>)"

text \<open>\<open>now\<close> is the time of the call, \<open>later\<close> the time after the lookup.\<close>

definition crawler_ttl :: "CrawlerVerifier \<Rightarrow> CrawlerVerdict \<Rightarrow> duration" where
  "crawler_ttl v verdict =
     (case verdict of CrawlerVerified \<Rightarrow> vf_posTTL v | CrawlerSpoofed \<Rightarrow> vf_negTTL v | _ \<Rightarrow> vf_unkTTL v)"

definition crawler_key :: "crawlerSpec \<Rightarrow> IP \<Rightarrow> string" where
  "crawler_key spec ip = cr_uaSub spec @ ''|'' @ IP_String ip"

definition crawler_store :: "crawlerResolver \<Rightarrow> CrawlerVerifier \<Rightarrow> IP \<Rightarrow> crawlerSpec \<Rightarrow> gotime \<Rightarrow> CrawlerVerdict \<times> CrawlerVerifier" where
  "crawler_store res v ip spec later =
     (let verdict = crawler_verify res ip spec;
          v = v\<lparr> vf_cache := AList.update (crawler_key spec ip) \<lparr> ce_verdict = verdict, ce_expires = later + crawler_ttl v verdict \<rparr> (vf_cache v),
                 vf_size := vf_size v + 1 \<rparr>
      in (verdict, if vf_size v > maxCrawlerCache then crawler_sweep v later else v))"

definition crawler_Check :: "crawlerResolver \<Rightarrow> CrawlerVerifier \<Rightarrow> IP option \<Rightarrow> string \<Rightarrow> gotime \<Rightarrow> gotime \<Rightarrow> CrawlerVerdict \<times> CrawlerVerifier" where
  "crawler_Check res v ip ua now later =
     (case ip of
        None \<Rightarrow> (CrawlerUnknown, v)
      | Some ip \<Rightarrow>
          (case matchCrawlerSpec ua of
             None \<Rightarrow> (CrawlerNotClaimed, v)
           | Some spec \<Rightarrow>
               (case map_of (vf_cache v) (crawler_key spec ip) of
                  Some ent \<Rightarrow>
                    if now < ce_expires ent then (ce_verdict ent, v)
                    else crawler_store res (v\<lparr> vf_cache := AList.delete (crawler_key spec ip) (vf_cache v), vf_size := vf_size v - 1 \<rparr>) ip spec later
                | None \<Rightarrow> crawler_store res v ip spec later)))"

section \<open>Lemmas\<close>

definition cache_ok :: "CrawlerVerifier \<Rightarrow> bool" where
  "cache_ok v \<longleftrightarrow> wf_map (vf_cache v) \<and> vf_size v = int (length (vf_cache v)) \<and> vf_size v \<le> maxCrawlerCache"

lemma wf_map_drop: "wf_map m \<Longrightarrow> wf_map (drop n m)"
  by (simp add: wf_map_def drop_map [symmetric])

lemma length_delete: "wf_map m \<Longrightarrow> map_of m k = Some e \<Longrightarrow> Suc (length (AList.delete k m)) = length m"
proof (induction m)
  case (Cons kv m)
  then show ?case
  proof (cases "fst kv = k")
    case True
    then have "k \<notin> fst ` set m" using Cons.prems(1) by (auto simp: wf_map_def)
    then have "AList.delete k m = m" by (simp add: AList.delete_id)
    then show ?thesis using True by (simp add: AList.delete_simps(2) split_beta)
  next
    case False
    then show ?thesis using Cons by (cases kv) (auto simp: wf_map_def)
  qed
qed simp

lemma cache_ok_sweep:
  assumes "wf_map (vf_cache v)"
  shows "cache_ok (crawler_sweep v now)"
  using assms by (simp add: cache_ok_def crawler_sweep_def Let_def wf_map_drop wf_map_mpurge maxCrawlerCache_def)

lemma cache_ok_store:
  assumes "wf_map (vf_cache v)" "vf_size v = int (length (vf_cache v))" "map_of (vf_cache v) (crawler_key spec ip) = None"
  shows "cache_ok (snd (crawler_store res v ip spec later))"
proof -
  have "length (AList.update (crawler_key spec ip) e (vf_cache v)) = Suc (length (vf_cache v))" for e
    using assms(3) by (simp add: length_update map_of_eq_None_iff)
  then show ?thesis
    using assms(1,2)
    by (cases "vf_size v + 1 > maxCrawlerCache") (simp_all add: crawler_store_def Let_def cache_ok_sweep, simp add: cache_ok_def)
qed

lemma cache_ok_Check:
  assumes "cache_ok v"
  shows "cache_ok (snd (crawler_Check res v ip ua now later))"
proof -
  have "cache_ok (snd (crawler_store res (v\<lparr> vf_cache := AList.delete k (vf_cache v), vf_size := vf_size v - 1 \<rparr>) i spec later))"
    if "map_of (vf_cache v) k = Some e" "k = crawler_key spec i" for k e i spec
    using assms that length_delete [OF _ that(1)] by (intro cache_ok_store) (auto simp: cache_ok_def)
  then show ?thesis
    using assms by (auto simp: crawler_Check_def cache_ok_store cache_ok_def [of v] split: option.splits)
qed

text \<open>What the names of an address say about a claim.\<close>

definition claimed_names :: "crawlerSpec \<Rightarrow> string list \<Rightarrow> string list" where
  "claimed_names spec names = filter (\<lambda>n. suffixAllowed n (cr_suffixes spec)) (map (\<lambda>raw. TrimSuffix (ToLower raw) ''.'') names)"

lemma verify_names_eq:
  "verify_names res ip sfx names a b =
     (let ns = filter (\<lambda>n. suffixAllowed n sfx) (map (\<lambda>raw. TrimSuffix (ToLower raw) ''.'') names) in
      if \<exists>n \<in> set ns. \<exists>ips. rs_LookupIP res n = Some ips \<and> ip \<in> set ips then CrawlerVerified
      else if (\<not> a \<and> ns = []) \<or> b \<or> (\<exists>n \<in> set ns. rs_LookupIP res n \<noteq> None) then CrawlerSpoofed else CrawlerUnknown)"
proof (induction names arbitrary: a b)
  case (Cons raw names)
  let ?n = "TrimSuffix (ToLower raw) ''.''"
  show ?case
  proof (cases "suffixAllowed ?n sfx")
    case True
    then show ?thesis
      by (cases "rs_LookupIP res ?n") (simp_all add: Let_def Cons.IH, blast)
  qed (simp add: Let_def Cons.IH)
qed (simp add: Let_def)

lemma set_claimed_names:
  "set (claimed_names spec names) =
     {n. \<exists>raw \<in> set names. n = TrimSuffix (ToLower raw) ''.'' \<and>
         (\<exists>s \<in> set (cr_suffixes spec). n = s \<or> (\<exists>h. n = h @ ''.'' @ s))}"
  by (auto simp: claimed_names_def suffixAllowed_def list_ex_iff HasSuffix_iff suffix_def)

section \<open>Properties\<close>

definition crawler_run :: "CrawlerVerifier \<Rightarrow> (crawlerResolver \<times> IP option \<times> string \<times> gotime \<times> gotime) list \<Rightarrow> CrawlerVerifier" where
  "crawler_run v cs = fold (\<lambda>(res, ip, ua, now, later) v. snd (crawler_Check res v ip ua now later)) cs v"

text \<open>C39: the verdict on a claimed crawler is forward-confirmed reverse DNS.  With \<open>C\<close> the names of the address, in lower case and
  without the closing dot, that are a domain of the claimed operator or lie below one at a label boundary: the claim is
  verified exactly when a name in \<open>C\<close> resolves back to the address; it is spoofed when it is not verified and \<open>C\<close> is empty or
  one of its names resolves; and it is undecided when the reverse lookup failed or no name in \<open>C\<close> resolved.\<close>

theorem crawler_verdict_exact:
  "crawler_verify res ip spec =
     (case rs_LookupAddr res (IP_String ip) of
        None \<Rightarrow> CrawlerUnknown
      | Some names \<Rightarrow>
          let C = {n. \<exists>raw \<in> set names. n = TrimSuffix (ToLower raw) ''.'' \<and>
                     (\<exists>s \<in> set (cr_suffixes spec). n = s \<or> (\<exists>h. n = h @ ''.'' @ s))}
          in if \<exists>n \<in> C. \<exists>ips. rs_LookupIP res n = Some ips \<and> ip \<in> set ips then CrawlerVerified
             else if C = {} \<or> (\<exists>n \<in> C. rs_LookupIP res n \<noteq> None) then CrawlerSpoofed
             else CrawlerUnknown)"
  unfolding crawler_verify_def verify_names_eq claimed_names_def [symmetric] set_claimed_names [symmetric] Let_def
  by (auto split: option.split)

text \<open>The cache of crawler verdicts is bounded: after any sequence of checks that do not overlap, whatever the clients claim and
  the resolver and the clock return, the cache holds at most 65536 verdicts and the size counter is their number.\<close>

theorem crawler_cache_bounded:
  "let v = crawler_run (NewCrawlerVerifier timeout posTTL negTTL) cs
   in vf_size v = int (length (vf_cache v)) \<and> length (vf_cache v) \<le> 65536"
proof -
  have "cache_ok (crawler_run v cs)" if "cache_ok v" for v
    using that unfolding crawler_run_def by (induction cs arbitrary: v) (auto simp: cache_ok_Check)
  moreover have "cache_ok (NewCrawlerVerifier timeout posTTL negTTL)"
    by (simp add: cache_ok_def NewCrawlerVerifier_def maxCrawlerCache_def)
  ultimately have "cache_ok (crawler_run (NewCrawlerVerifier timeout posTTL negTTL) cs)" by blast
  then show ?thesis by (simp add: cache_ok_def Let_def maxCrawlerCache_def)
qed

end
