(* ===== verification/Reporter.thy ===== *)
theory Reporter
  imports Threatshare
begin

text \<open>
  \<open>internal/threatshare/reporter.go\<close>: reports of local blocks for the fleet, collected in a bounded queue and sent in
  batches, and what a report does to the node that applies it.  The queue has a lock of its own, so every operation is
  one step.  A Go string is cut by bytes; lower-casing is modelled on ASCII (\<open>strings.ToLower\<close> also replaces bytes that are
  not UTF-8, such as a character cut in two, by the replacement character).
\<close>

section \<open>Definitions\<close>

definition maxReasonLen :: nat where "maxReasonLen = 128"

record Reporter =
  rp_sends :: bool
  rp_DefaultTTL :: duration
  rp_queue :: "ThreatEntry list"

definition NewReporter :: "bool \<Rightarrow> duration \<Rightarrow> Reporter" where
  "NewReporter send ttl = \<lparr> rp_sends = send, rp_DefaultTTL = (if ttl \<le> 0 then 10 * minute else ttl), rp_queue = [] \<rparr>"

text \<open>\<open>Time.Unix\<close>, the inverse of \<open>time_Unix\<close> on whole seconds.\<close>

definition Time_Unix :: "gotime \<Rightarrow> int" where
  "Time_Unix t = t div second - 62135596800"

definition report_entry :: "duration \<Rightarrow> string \<Rightarrow> string \<Rightarrow> string \<Rightarrow> gotime \<Rightarrow> ThreatEntry" where
  "report_entry ttl keyType key reason now =
     \<lparr> te_ID = [], te_KeyType = keyType, te_Key = key, te_TTLSeconds = ttl div second, te_Reason = take maxReasonLen (TrimSpace reason),
       te_SourceProxyID = [], te_CreatedAtUnix = Time_Unix now, te_ExpiresAtUnix = Time_Unix (now + ttl), te_Revision = 0 \<rparr>"

definition enqueue :: "Reporter option \<Rightarrow> string \<Rightarrow> string \<Rightarrow> string \<Rightarrow> gotime \<Rightarrow> Reporter option" where
  "enqueue r keyType key reason now =
     (case r of
        None \<Rightarrow> None
      | Some rp \<Rightarrow>
          if \<not> rp_sends rp \<or> key = [] \<or> length (rp_queue rp) \<ge> 1024 then Some rp
          else Some (rp\<lparr> rp_queue := rp_queue rp @ [report_entry (rp_DefaultTTL rp) keyType key reason now] \<rparr>))"

definition ReportBind :: "Reporter option \<Rightarrow> string \<Rightarrow> string \<Rightarrow> gotime \<Rightarrow> Reporter option" where
  "ReportBind r key reason now = enqueue r ThreatKeyBind key reason now"

definition ua_key :: "string \<Rightarrow> string" where
  "ua_key ua = ToLower (take 120 (TrimSpace ua))"

definition ReportUA :: "Reporter option \<Rightarrow> string \<Rightarrow> string \<Rightarrow> gotime \<Rightarrow> Reporter option" where
  "ReportUA r ua reason now = enqueue r ThreatKeyUA (ua_key ua) reason now"

definition reporter_flush :: "Reporter \<Rightarrow> ThreatEntry list \<times> Reporter" where
  "reporter_flush rp = (if rp_sends rp then rp_queue rp else [], rp\<lparr> rp_queue := [] \<rparr>)"

section \<open>Lemmas\<close>

lemma TrimSpace_sublist: "sublist (TrimSpace s) s"
  unfolding TrimSpace_def by (rule TrimFunc_decompose [of s is_space]) (metis sublist_appendI)

lemma enqueue_bounded:
  "map_option (\<lambda>rp. length (rp_queue rp) \<le> 1024) r \<noteq> Some False \<Longrightarrow>
   map_option (\<lambda>rp. length (rp_queue rp) \<le> 1024) (enqueue r kt key reason now) \<noteq> Some False"
  by (cases r) (auto simp: enqueue_def)

lemma ua_key_sublist: "sublist (ToLower (TrimSpace (ua_key ua))) (ToLower ua)"
proof -
  have "sublist (take 120 (TrimSpace ua)) ua"
    using sublist_take [of 120 "TrimSpace ua"] TrimSpace_sublist [of ua] by (rule sublist_order.order_trans)
  then have "sublist (ua_key ua) (ToLower ua)" unfolding ua_key_def by (rule ToLower_sublist)
  moreover have "sublist (ToLower (TrimSpace (ua_key ua))) (ToLower (ua_key ua))"
    by (rule ToLower_sublist) (rule TrimSpace_sublist)
  ultimately show ?thesis by (simp add: ua_key_def ToLower_idem)
qed

section \<open>Properties\<close>

text \<open>C40: an ASCII User-Agent that one node reports is blocked by the nodes that apply the report.  The entry that \<open>ReportUA\<close> puts
  into the queue, under whatever identifier the hub gives it, blocks at a node that applied it every request with that
  User-Agent until the lifetime of the report is over, counted in whole seconds from the report.  Beyond ASCII this can fail:
  the report is cut at byte 120, possibly inside a character, which lower-casing then replaces.\<close>

theorem reported_ua_blocked:
  assumes "list_all is_ascii ua" "rp_sends rp" "length (rp_queue rp) < 1024" "ua_key ua \<noteq> []"
    and "ReportUA (Some rp) ua reason now = Some rp'"
    and "ApplyOne (prot, Some v) ((last (rp_queue rp'))\<lparr> te_ID := i, te_SourceProxyID := src, te_Revision := rv \<rparr>) t = (True, prot', Some v')"
    and "0 < Time_Unix (now + rp_DefaultTTL rp)" "s \<le> second * ((now + rp_DefaultTTL rp) div second)"
  shows "Overlay_UABlocked (Some v') ua s"
proof -
  let ?e = "report_entry (rp_DefaultTTL rp) ThreatKeyUA (ua_key ua) reason now"
  let ?f = "?e\<lparr> te_ID := i, te_SourceProxyID := src, te_Revision := rv \<rparr>"
  have e: "last (rp_queue rp') = ?e"
    using assms(2-5) by (auto simp: ReportUA_def enqueue_def)
  have kt: "ToLower (TrimSpace (te_KeyType ?f)) = ThreatKeyUA" by (simp add: report_entry_def) code_simp
  have ex: "threat_expiry ?f t = second * ((now + rp_DefaultTTL rp) div second)"
    using assms(7) by (simp add: threat_expiry_def report_entry_def time_Unix_def Time_Unix_def)
  obtain w where v': "v' = putUA w (TrimSpace (te_Key ?f)) (threat_expiry ?f t)"
    using assms(6) unfolding e ApplyOne_def Let_def kt by (auto simp: apply_key_def threat_keys split: if_splits)
  have "map_of (ov_ua v') (ToLower (TrimSpace (ua_key ua))) = Some (threat_expiry ?f t)"
    by (simp add: v' putUA_def report_entry_def)
  then have "(ToLower (TrimSpace (ua_key ua)), threat_expiry ?f t) \<in> set (ov_ua v')" by (rule map_of_SomeD)
  moreover have "ua \<noteq> []" using assms(4) by (auto simp: ua_key_def TrimSpace_def TrimFunc_def)
  moreover have "\<not> s > threat_expiry ?f t" using assms(8) ex by simp
  ultimately show ?thesis
    using ua_key_sublist [of ua] by (auto simp: Overlay_UABlocked_def list_ex_iff Contains_iff)
qed

abbreviation demo_rp :: Reporter where "demo_rp \<equiv> NewReporter True 0"

abbreviation demo_now :: gotime where "demo_now \<equiv> 62135600000 * second"

theorem reported_ua_blocked_witness:
  "\<exists>v'. snd (snd (ApplyOne (None, Some (NewOverlay 10))
       ((report_entry (10 * minute) ThreatKeyUA (ua_key ''BadBot'') [] demo_now)\<lparr> te_ID := ''e1'', te_SourceProxyID := [], te_Revision := 0 \<rparr>)
       demo_now)) = Some v' \<and> Overlay_UABlocked (Some v') ''BadBot'' (demo_now + minute)"
proof -
  let ?e = "report_entry (10 * minute) ThreatKeyUA (ua_key ''BadBot'') [] demo_now"
  let ?f = "?e\<lparr> te_ID := ''e1'', te_SourceProxyID := [], te_Revision := 0 \<rparr>"
  have k: "ua_key ''BadBot'' = ''badbot''" "TrimSpace ''badbot'' = ''badbot''" "ToLower (TrimSpace ThreatKeyUA) = ThreatKeyUA" "TrimSpace [] = []"
    by code_simp+
  have r: "ReportUA (Some demo_rp) ''BadBot'' [] demo_now = Some (demo_rp\<lparr> rp_queue := [?e] \<rparr>)"
    by (simp add: ReportUA_def enqueue_def NewReporter_def k)
  have x: "threat_expiry ?f demo_now = demo_now + 10 * minute"
    by (simp add: threat_expiry_def report_entry_def Time_Unix_def time_Unix_def second_def minute_def)
  have f: "te_KeyType ?f = ThreatKeyUA" "te_Key ?f = ''badbot''" "te_Reason ?f = []" "te_ID ?f = ''e1''"
    by (simp_all add: report_entry_def k)
  have "\<exists>v'. ApplyOne (None, Some (NewOverlay 10)) e demo_now = (True, None, Some v')"
    if e: "te_KeyType e = ThreatKeyUA" "te_Key e = ''badbot''" "te_Reason e = []" "te_ID e = ''e1''" "threat_expiry e demo_now = demo_now + 10 * minute" for e
    unfolding ApplyOne_def Let_def e k by (simp add: NewOverlay_def apply_key_def threat_keys minute_def)
  from this [OF f x] obtain v' where a: "ApplyOne (None, Some (NewOverlay 10)) ?f demo_now = (True, None, Some v')" by blast
  have "Overlay_UABlocked (Some v') ''BadBot'' (demo_now + minute)"
    by (rule reported_ua_blocked [where rp = demo_rp and rp' = "demo_rp\<lparr> rp_queue := [?e] \<rparr>" and t = demo_now, OF _ _ _ _ r])
      (use a in \<open>simp_all add: NewReporter_def k Time_Unix_def second_def minute_def is_ascii_def\<close>)
  with a show ?thesis by simp
qed

end
