(* ===== verification/AdminAuth.thy ===== *)
theory AdminAuth
  imports GoStrings
begin

text \<open>
  Who may log in to the admin panel and what a role may do: \<open>internal/admin/auth/lockout.go\<close> (failed logins per user
  name or address, one lock, so every operation is one step) and \<open>internal/admin/rbac/rbac.go\<close>.
\<close>

section \<open>Definitions\<close>

subsection \<open>Lockout\<close>

definition maxFailures :: int where "maxFailures = 8"
definition lockTTL :: duration where "lockTTL = 15 * minute"

record lockEntry =
  lk_failures :: int
  lk_until :: gotime

type_synonym Lockout = "(string, lockEntry) gomap"

definition NewLockout :: Lockout where "NewLockout = []"

definition Lockout_Locked :: "Lockout \<Rightarrow> string \<Rightarrow> gotime \<Rightarrow> bool \<times> Lockout" where
  "Lockout_Locked l key now =
     (if key = [] then (False, l)
      else case map_of l key of
        None \<Rightarrow> (False, l)
      | Some e \<Rightarrow> if now > lk_until e then (False, AList.delete key l) else (lk_failures e \<ge> maxFailures, l))"

definition Lockout_Fail :: "Lockout \<Rightarrow> string \<Rightarrow> gotime \<Rightarrow> Lockout" where
  "Lockout_Fail l key now =
     (if key = [] then l
      else let fresh = AList.update key \<lparr> lk_failures = 1, lk_until = now + lockTTL \<rparr> l in
        case map_of l key of
          None \<Rightarrow> fresh
        | Some e \<Rightarrow> if now > lk_until e then fresh
                    else AList.update key \<lparr> lk_failures = lk_failures e + 1, lk_until = now + lockTTL \<rparr> l)"

definition Lockout_Clear :: "Lockout \<Rightarrow> string \<Rightarrow> Lockout" where
  "Lockout_Clear l key = (if key = [] then l else AList.delete key l)"

subsection \<open>Roles\<close>

definition RoleOwner :: string where "RoleOwner = ''owner''"
definition RoleAdmin :: string where "RoleAdmin = ''admin''"
definition RoleViewer :: string where "RoleViewer = ''viewer''"

definition rbac_Normalize :: "string \<Rightarrow> string" where
  "rbac_Normalize role = ToLower (TrimSpace role)"

definition ValidRole :: "string \<Rightarrow> bool" where
  "ValidRole role \<longleftrightarrow> ToLower (TrimSpace role) \<in> {RoleOwner, RoleAdmin, RoleViewer}"

definition Rank :: "string \<Rightarrow> int" where
  "Rank role =
     (let r = rbac_Normalize role in if r = RoleOwner then 3 else if r = RoleAdmin then 2 else if r = RoleViewer then 1 else 0)"

definition AtLeast :: "string \<Rightarrow> string \<Rightarrow> bool" where "AtLeast role minimum \<longleftrightarrow> Rank role \<ge> Rank minimum"
definition CanManageUsers :: "string \<Rightarrow> bool" where "CanManageUsers actorRole = AtLeast actorRole RoleAdmin"
definition CanManageOwners :: "string \<Rightarrow> bool" where "CanManageOwners actorRole \<longleftrightarrow> rbac_Normalize actorRole = RoleOwner"
definition CanWriteOps :: "string \<Rightarrow> bool" where "CanWriteOps actorRole = AtLeast actorRole RoleAdmin"
definition CanWriteConfig :: "string \<Rightarrow> bool" where "CanWriteConfig actorRole = AtLeast actorRole RoleAdmin"
definition CanRead :: "string \<Rightarrow> bool" where "CanRead actorRole = AtLeast actorRole RoleViewer"

section \<open>Lemmas\<close>

lemma role_ranks: "Rank RoleOwner = 3" "Rank RoleAdmin = 2" "Rank RoleViewer = 1"
  by code_simp+

text \<open>The rights form a chain, and a role that is not one of the three has none.\<close>

lemma rights_chain:
  "CanManageOwners r \<Longrightarrow> CanManageUsers r" "CanManageUsers r \<Longrightarrow> CanRead r"
  "CanWriteOps r = CanManageUsers r" "CanWriteConfig r = CanManageUsers r" "CanRead r = ValidRole r"
proof -
  have "Rank r \<ge> 2 \<Longrightarrow> Rank r \<ge> 1" by simp
  then show "CanManageUsers r \<Longrightarrow> CanRead r" "CanWriteOps r = CanManageUsers r" "CanWriteConfig r = CanManageUsers r"
    by (simp_all add: CanManageUsers_def CanRead_def CanWriteOps_def CanWriteConfig_def AtLeast_def role_ranks)
  have "CanManageOwners r \<Longrightarrow> Rank r = 3" "Rank r \<ge> 1 \<longleftrightarrow> ValidRole r"
    by (auto simp: CanManageOwners_def Rank_def [of r] rbac_Normalize_def ValidRole_def Let_def)
  then show "CanManageOwners r \<Longrightarrow> CanManageUsers r" "CanRead r = ValidRole r"
    by (simp_all add: CanManageUsers_def CanRead_def AtLeast_def role_ranks)
qed

definition fails :: "Lockout \<Rightarrow> string \<Rightarrow> gotime list \<Rightarrow> Lockout" where
  "fails l key ts = fold (\<lambda>t l. Lockout_Fail l key t) ts l"

lemma fails_entry:
  assumes "key \<noteq> []" "map_of l key = Some e" "successively (\<lambda>a b. b \<le> a + lockTTL) ts" "ts \<noteq> []" "hd ts \<le> lk_until e"
  shows "map_of (fails l key ts) key = Some \<lparr> lk_failures = lk_failures e + int (length ts), lk_until = last ts + lockTTL \<rparr>"
  using assms(2-)
proof (induction ts arbitrary: l e)
  case (Cons t ts)
  let ?e = "\<lparr> lk_failures = lk_failures e + 1, lk_until = t + lockTTL \<rparr>"
  have step: "fails l key (t # ts) = fails (AList.update key ?e l) key ts"
    using assms(1) Cons.prems(1,4) by (simp add: fails_def Lockout_Fail_def)
  show ?case
  proof (cases ts)
    case Nil
    then show ?thesis using step by (simp add: fails_def)
  next
    case (Cons u us)
    with Cons.prems(2) have "successively (\<lambda>a b. b \<le> a + lockTTL) ts" "hd ts \<le> lk_until ?e" by simp_all
    with Cons.IH [of "AList.update key ?e l" ?e] Cons step show ?thesis by simp
  qed
qed simp

lemma fails_other: "k \<noteq> key \<Longrightarrow> map_of (fails l key ts) k = map_of l k"
  unfolding fails_def by (induction ts arbitrary: l) (auto simp: Lockout_Fail_def Let_def split: option.split)

section \<open>Properties\<close>

text \<open>A login name is locked by exactly eight failures in a row.  After failed logins that follow each other within a
  quarter of an hour, starting from a name without a record, the name is locked exactly when there were eight or more, and
  for a quarter of an hour after the last one; other names are not affected, and a successful login clears the record.\<close>

theorem lockout_exact:
  assumes "key \<noteq> []" "map_of l key = None" "ts \<noteq> []" "successively (\<lambda>a b. b \<le> a + lockTTL) ts"
  shows "fst (Lockout_Locked (fails l key ts) key s) = (8 \<le> length ts \<and> s \<le> last ts + 15 * minute) \<and>
    (k \<noteq> key \<longrightarrow> fst (Lockout_Locked (fails l key ts) k s) = fst (Lockout_Locked l k s)) \<and>
    \<not> fst (Lockout_Locked (Lockout_Clear (fails l key ts) key) key s)"
proof -
  obtain t us where ts: "ts = t # us" using assms(3) by (cases ts) auto
  let ?e = "\<lparr> lk_failures = 1, lk_until = t + lockTTL \<rparr>"
  have step: "fails l key ts = fails (AList.update key ?e l) key us"
    using assms(1,2) by (simp add: ts fails_def Lockout_Fail_def)
  have "map_of (fails l key ts) key = Some \<lparr> lk_failures = int (length ts), lk_until = last ts + lockTTL \<rparr>"
  proof (cases us)
    case Nil
    then show ?thesis using step ts by (simp add: fails_def)
  next
    case (Cons u vs)
    then have "successively (\<lambda>a b. b \<le> a + lockTTL) us" "hd us \<le> lk_until ?e" using assms(4) ts by simp_all
    with fails_entry [OF assms(1), of "AList.update key ?e l" ?e us] Cons step ts show ?thesis by simp
  qed
  with assms(1) show ?thesis
    by (auto simp: Lockout_Locked_def Lockout_Clear_def maxFailures_def lockTTL_def fails_other split: option.split)
qed

theorem lockout_exact_witness:
  "fst (Lockout_Locked (fails NewLockout ''root'' [1, 2, 3, 4, 5, 6, 7, 8]) ''root'' 9)
   \<and> \<not> fst (Lockout_Locked (fails NewLockout ''root'' [1, 2, 3, 4, 5, 6, 7]) ''root'' 9)"
  using lockout_exact [of "''root''" NewLockout "[1, 2, 3, 4, 5, 6, 7, 8]" 9 "[]"]
    lockout_exact [of "''root''" NewLockout "[1, 2, 3, 4, 5, 6, 7]" 9 "[]"]
  by (simp add: NewLockout_def lockTTL_def minute_def)

end
