(* ===== verification/Spec2Isabelle.thy ===== *)
theory Spec2Isabelle
  imports Requestlog Edge Ratelimit Trackers ProtectConc Allowlist Threatshare AccessGate Challenge Config PipeThms PipeHandlers PipeServe Crawler Reporter AdminAuth
begin

text \<open>
  RavenGuard is a web application firewall: a reverse proxy that decides for every request whether it is
  blocked, rate limited, challenged, asked for a password or a payment, or forwarded to an upstream.  This
  development models the request path of the Go sources under \<open>src/internal\<close> and proves what it guarantees, and
  where it does not do what it says.

  \<^bold>\<open>Parts and their interaction.\<close>  \<open>internal/pipeline\<close> owns one handler with a pointer to every component.  Its \<open>guard\<close>
  resolves the client address (\<open>iputil\<close>), turns it into a client key (\<open>privacy\<close>), checks sizes, bans and
  concurrency (\<open>protect\<close>), the block lists (\<open>blocklist\<close>), the blocks shared by the fleet (\<open>threatshare\<close>), the threat
  feeds (\<open>qfeeds\<close>), the honeypot paths, the health of the upstream (\<open>health\<close>, \<open>router\<close>), the rule engine and the attack
  scan (\<open>detect/attack.go\<close>), the semantic and ML engines, the rate limits (\<open>ratelimit\<close>), the heuristic score and the
  per-client trackers (\<open>detect\<close>), the proof-of-work challenge (\<open>challenge\<close>), the access policy of the route (\<open>access\<close>)
  and its schema, and hands the request to the route's proxy (\<open>router\<close>, \<open>proxy\<close>).  Outcomes go to the request log
  (\<open>requestlog\<close>) and to a webhook (\<open>notify\<close>).  \<open>config\<close> gives every part its settings.

  \<^bold>\<open>Theories.\<close>
  \<^item> Language and library: \<open>Prelude\<close> (Go maps as association lists with distinct keys, instants and durations as
    nanoseconds, 64-bit wrap-around), \<open>GoStrings\<close> (\<open>strings\<close>, \<open>strconv\<close>), \<open>GoEnc\<close> (\<open>hex\<close>, \<open>base64\<close>), \<open>GoNet\<close> (\<open>net\<close>, \<open>netip\<close>,
    \<open>net/http\<close> requests and headers), \<open>GoHttp\<close> (cookies, scanning).  A Go string is a list of bytes (\<open>char\<close>).
  \<^item> \<open>Sharding\<close>: \<open>strhash\<close> and the sharded stores.  The locale \<open>keyed_store\<close> states the laws of a store by key (what a
    lookup returns after a write, a deletion or a purge); it is interpreted on the stores of 64 and of 256 shards, and
    the proofs about limiter, bans, trackers and nonces use only those laws.
  \<^item> \<open>Ratelimit\<close> (\<open>ratelimit.go\<close>), \<open>Protect\<close> and \<open>ProtectConc\<close> (\<open>protect.go\<close>; the second models \<open>Acquire\<close>, \<open>Release\<close> and the
    client pass of \<open>Sweep\<close> as threads that interleave at their atomic operations, an \<open>inductive\<close> reachability relation),
    \<open>Faststr\<close> (\<open>faststr.go\<close>, \<open>ac.go\<close>: the Aho-Corasick automaton on a heap of nodes), \<open>Iputil\<close>, \<open>Blocklist\<close> (with its admin
    overlay), \<open>Allowlist\<close>, \<open>Threatshare\<close> and \<open>Reporter\<close> (\<open>overlay.go\<close>, \<open>reporter.go\<close>), \<open>Qfeeds\<close>, \<open>Privacy\<close>, \<open>Proxy\<close> (\<open>proxy.go\<close> and \<open>health.go\<close>), \<open>Router\<close>.
  \<^item> \<open>Access\<close> (\<open>internal/access\<close>) and \<open>AccessGate\<close> (its use by the pipeline); \<open>Challenge\<close> (\<open>internal/challenge\<close>).
  \<^item> \<open>Attack\<close>, \<open>Detect\<close>, \<open>Trackers\<close>: \<open>internal/detect\<close>.  The locale \<open>window_counter\<close> is the contract of a counter over a
    window and is interpreted on the trackers of missing pages and of expensive answers.  \<open>Crawler\<close> (\<open>crawler.go\<close>) checks
    claimed crawlers by DNS; the pipeline uses only its verdict.
  \<^item> \<open>ConfigData\<close> (one record per struct of \<open>config.go\<close>, with the defaults) and \<open>Config\<close> (environment, flags,
    normalisation, validation, loading).
  \<^item> \<open>AdminAuth\<close>: login lockout and roles of the admin panel (\<open>admin/auth/lockout.go\<close>, \<open>admin/rbac\<close>).
  \<^item> \<open>Requestlog\<close>; \<open>Edge\<close> (\<open>bodybuf\<close>, \<open>requestid\<close>, \<open>proxyproto\<close>).
  \<^item> The pipeline: \<open>PipeReq\<close> (what is decided from a request alone, \<open>challenge_ajax.go\<close>, tarpit, \<open>notify.go\<close>), \<open>PipeState\<close> (the
    handler's record and the operations its handlers share, \<open>aipay.go\<close>), \<open>Pipeline\<close> (\<open>guard\<close> as the sequence of its
    gates, \<open>runSemanticML\<close>, \<open>checkOpenAPI\<close>, \<open>proxy\<close>), \<open>PipeThms\<close> (what \<open>guard\<close> guarantees), \<open>PipeHandlers\<close> (construction,
    reconfiguration and the other endpoints) and \<open>PipeServe\<close> (the table of paths around the guard, the sweepers).

  \<^bold>\<open>Correspondence.\<close>  A struct is a \<open>record\<close>, an operation a function that returns the updated state, a pointer that may be
  nil an \<open>option\<close>, an error a value of a sum or option type.  The clock is an argument \<open>now\<close>; random bytes are
  arguments.  An operation that holds a lock is one step; where the code uses atomics instead (\<open>protect\<close>), the steps
  are modelled one by one.  In \<open>Pipeline\<close> a gate of \<open>guard\<close> either stops with an answer or goes on, and \<open>and_then\<close>
  composes gates in the order of the source.  The locale \<open>undisturbed\<close> states what it takes for an observation of the
  handler to survive every gate; it is interpreted on the configuration, the concurrency slots, the contents of the
  request log and the keys of the clearance cookie, and the theorems about \<open>guard\<close> rest on these four interpretations.

  \<^bold>\<open>What is shown.\<close>
  \<^item> The pipeline: a request is served only after passing every gate that applies to it (\<open>served_passed_every_gate\<close>), slots are returned
    on every path (\<open>guard_slots_balanced\<close>), the upstream is told the client's address by the proxy (\<open>upstream_identity\<close>), clearance is earned by a solution (\<open>clearance_is_earned\<close>) or, for text
    browsers, by waiting (\<open>nojs_wait_enforced\<close>), redirects name a path of the site in the form the server checks (\<open>return_targets_local\<close>), the tarpit ends
    (\<open>tarpit_terminates\<close>).
  \<^item> Challenges: a challenge is accepted at most once in any run, its accepted fields are the issued ones, a correct
    solution is accepted, the clearance cookie verifies exactly for its client and time.
  \<^item> Limits: the rate bound of the token buckets in any run, with a burst for every sweep that comes too early,
    transparency of the other sweeps, exact bans by strikes, the
    concurrency limit in every interleaving.
  \<^item> Lists, search and routing: the automaton agrees with substring search, lookups agree with their reference
    definitions, the route chosen is the best match, client addresses cannot be spoofed.
  \<^item> Scores, trackers, configuration, request log: the score is the sum of its reasons, trackers count exactly the
    window, a loaded configuration is sound, the log is a bounded first-in first-out list.
  \<^item> Defects that the proofs brought out are stated as theorems too, e.g. the race of \<open>Sweep\<close> with \<open>Acquire\<close>, the overflow
    of escalated bans, access forms that clear every rule, WebSocket requests that skip detection, a log that stays
    empty without request identifiers, and a write cost that is never refreshed.

  \<^bold>\<open>Bounds and fuel.\<close>  Loops are structural or carry a measure (the tarpit's deadline, scans of strings by length), but for
  two that take fuel: the breadth-first queue of the automaton (\<open>ac_bfs\<close>, one unit for each node;
  \<open>matcher_correct\<close> shows that it always returns an automaton) and the group loop of \<open>parseIPv6\<close> (\<open>ipv6_groups\<close>, one unit for
  each of the eight groups and one to stop).  Durations wrap at 64 bits where the code multiplies them
  (\<open>escalation_overflow\<close>); Go's floats in the limiter are rationals, so rounding is not modelled.  Integers parsed from
  text are bounded by 64 bits as \<open>strconv\<close> bounds them.

  \<^bold>\<open>Simplifications.\<close>  \<open>ToLower\<close>, \<open>TrimSpace\<close> and \<open>EqualFold\<close> are those of ASCII (Go's are Unicode and replace what is not
  UTF-8); statements that depend on it say so.  \<open>unix_sec\<close> counts seconds from the zero of the model's clock, without the
  offset of 1970.  \<open>add_score\<close> is the step that \<open>score\<close> repeats inline.  The tarpit's clock may be late by any amount at any
  check.  A check of a claimed crawler is one step, for checks that do not overlap.

  \<^bold>\<open>Parameters.\<close>  HMAC-SHA256, SHA-256, PBKDF2 and argon2id are functions, of which the properties assume no more than
  the 32 bytes of a digest: a forgery would have to be a collision of the MAC, which \<open>accepted_fields_are_issued\<close> names (one
  lemma about the no-JavaScript token assumes that there is none).  JSON and TOML decoding, \<open>url.Parse\<close>, \<open>time.ParseDuration\<close>, DNS, the network and the
  database behind the request log are parameters.  The Coraza, semantic and ML engines, the schema gate, the
  verifiers of crawlers and signed agents and the payment facilitator enter the pipeline as functions of the request.

  \<^bold>\<open>Not modelled.\<close>  Those engines themselves, except the crawler check; the rest of the admin panel
  (\<open>internal/admin\<close>: HTTP handlers over SQL stores, HTML pages, process statistics); the fleet protocol (\<open>agentprotocol\<close>, a websocket RPC) and the export formats
  of \<open>threatintel\<close>; certificates and listeners (\<open>tlsacme\<close>, \<open>tlscerts\<close>, \<open>nebulapki\<close>, \<open>listener\<close>), the kernel sandbox, logging,
  crash reports and page rendering (\<open>ui\<close>), which are I/O or calls into libraries; \<open>cmd\<close>, which wires the parts together.
\<close>

end
